(* ===== verification/Py_Prelude.thy ===== *)
theory Py_Prelude
  imports Complex_Main "HOL-Library.AList" "HOL-Library.List_Lexorder" "HOL-Library.Char_ord"
begin

text \<open>
  The Python values, results and library calls that every component of minireplay shares.

  A JSON-like value is a \<open>pyval\<close>; a \<open>dict\<close> is an association list in insertion order
  (JSON keys are strings), a \<open>float\<close> is the rational number a finite double denotes.  A
  \<open>string\<close> is a list of code points (Isabelle characters, so code points below 256).
  A call that can raise returns a value of \<open>'a res\<close>: \<open>Inl\<close> of the exception, or \<open>Inr\<close> of the
  value.  An exception of \<open>errors.py\<close> keeps the literal text of its message without the
  interpolated values; a built-in exception keeps its class.
\<close>

section \<open>Results\<close>

datatype err =
    ValidationError string
  | MismatchError string
  | InfrastructureError string
  | WorkloadComplete string
  | PyError string

type_synonym 'a res = "err + 'a"

named_theorems res_simps \<open>introduction and inversion of successful results\<close>

definition bindR :: "'a res \<Rightarrow> ('a \<Rightarrow> 'b res) \<Rightarrow> 'b res" where
  "bindR m f = (case m of Inl e \<Rightarrow> Inl e | Inr x \<Rightarrow> f x)"

lemma bindR_simps [simp]: "bindR (Inl e) f = Inl e" "bindR (Inr x) f = f x"
  by (simp_all add: bindR_def)

lemma bindR_eq_Inr [res_simps]: "bindR m f = Inr y \<longleftrightarrow> (\<exists>x. m = Inr x \<and> f x = Inr y)"
  by (cases m) simp_all

lemma bindR_eq_Inl [res_simps]:
  "bindR m f = Inl e \<longleftrightarrow> m = Inl e \<or> (\<exists>x. m = Inr x \<and> f x = Inl e)"
  by (cases m) auto

lemma bindR_cong [fundef_cong]:
  "m = m' \<Longrightarrow> (\<And>x. m' = Inr x \<Longrightarrow> f x = f' x) \<Longrightarrow> bindR m f = bindR m' f'"
  by (cases m') simp_all

text \<open>\<open>require(condition, message)\<close> of util.py.\<close>

definition require :: "bool \<Rightarrow> string \<Rightarrow> unit res" where
  "require c msg = (if c then Inr () else Inl (ValidationError msg))"

lemma require_eq_Inr [res_simps]: "require c msg = Inr u \<longleftrightarrow> c"
  by (simp add: require_def)

lemma require_True [simp]: "require True msg = Inr ()"
  by (simp add: require_def)

lemma require_False [simp]: "require False msg = Inl (ValidationError msg)"
  by (simp add: require_def)

text \<open>A sequence of statements that return nothing: the first one that raises ends it.\<close>

fun checks :: "unit res list \<Rightarrow> unit res" where
  "checks [] = Inr ()"
| "checks (c # cs) = (case c of Inl e \<Rightarrow> Inl e | Inr _ \<Rightarrow> checks cs)"

lemma checks_eq_Inr [res_simps]: "checks cs = Inr u \<longleftrightarrow> (\<forall>c \<in> set cs. c = Inr ())"
  by (induction cs) (auto split: sum.splits)

lemma checks_append [simp]: "checks (as @ bs) = (case checks as of Inl e \<Rightarrow> Inl e | Inr _ \<Rightarrow> checks bs)"
  by (induction as) (auto split: sum.splits)

text \<open>\<open>for x in xs\<close>: with a result per element, and with a state threaded through.\<close>

fun mapR :: "('a \<Rightarrow> 'b res) \<Rightarrow> 'a list \<Rightarrow> 'b list res" where
  "mapR f [] = Inr []"
| "mapR f (x # xs) = bindR (f x) (\<lambda>y. bindR (mapR f xs) (\<lambda>ys. Inr (y # ys)))"

lemma mapR_eq_Inr: "mapR f xs = Inr ys \<longleftrightarrow> list_all2 (\<lambda>x y. f x = Inr y) xs ys"
proof (induction xs arbitrary: ys)
  case Nil
  then show ?case by auto
next
  case (Cons x xs)
  then show ?case by (auto simp: bindR_eq_Inr list_all2_Cons1)
qed

lemma mapR_cong [fundef_cong]:
  "xs = ys \<Longrightarrow> (\<And>x. x \<in> set ys \<Longrightarrow> f x = g x) \<Longrightarrow> mapR f xs = mapR g ys"
  by (induction ys arbitrary: xs) auto

lemma mapR_length: "mapR f xs = Inr ys \<Longrightarrow> length ys = length xs"
  by (auto simp: mapR_eq_Inr dest: list_all2_lengthD)

lemma mapR_append: "mapR f (xs @ ys) = bindR (mapR f xs) (\<lambda>us. bindR (mapR f ys) (\<lambda>vs. Inr (us @ vs)))"
proof (induction xs)
  case Nil
  then show ?case by (cases "mapR f ys") simp_all
next
  case (Cons x xs)
  then show ?case by (cases "f x"; cases "mapR f xs"; cases "mapR f ys") simp_all
qed


fun foldR :: "('a \<Rightarrow> 's \<Rightarrow> 's res) \<Rightarrow> 'a list \<Rightarrow> 's \<Rightarrow> 's res" where
  "foldR f [] s = Inr s"
| "foldR f (x # xs) s = bindR (f x s) (foldR f xs)"

lemma foldR_append: "foldR f (xs @ ys) s = bindR (foldR f xs s) (foldR f ys)"
proof (induction xs arbitrary: s)
  case Nil
  then show ?case by simp
next
  case (Cons x xs)
  then show ?case by (cases "f x s") simp_all
qed

lemma foldR_cong [fundef_cong]:
  assumes "xs = ys" and "s = t" and "\<And>x u. x \<in> set ys \<Longrightarrow> f x u = g x u"
  shows "foldR f xs s = foldR g ys t"
  unfolding assms(1,2) using assms(3)
proof (induction ys arbitrary: t)
  case Nil
  then show ?case by simp
next
  case (Cons y ys)
  then show ?case by (cases "g y t") simp_all
qed

lemma foldR_invariant:
  assumes "foldR f xs s = Inr t" and "P s"
    and "\<And>x s t. x \<in> set xs \<Longrightarrow> f x s = Inr t \<Longrightarrow> P s \<Longrightarrow> P t"
  shows "P t"
  using assms
proof (induction xs arbitrary: s)
  case Nil
  then show ?case by simp
next
  case (Cons x xs)
  then show ?case by (auto simp: bindR_eq_Inr)
qed

section \<open>Stateful operations\<close>

text \<open>
  A method that reads and writes an object and can raise: it returns its result with the object
  as it leaves it, also when it raises, because Python keeps the changes made before the raise.
\<close>

type_synonym ('s, 'a) op = "'s \<Rightarrow> 'a res \<times> 's"

definition bindS :: "('s, 'a) op \<Rightarrow> ('a \<Rightarrow> ('s, 'b) op) \<Rightarrow> ('s, 'b) op" where
  "bindS m f s = (case m s of (Inl e, t) \<Rightarrow> (Inl e, t) | (Inr x, t) \<Rightarrow> f x t)"

text \<open>An expression that does not touch the object.\<close>

definition liftS :: "'a res \<Rightarrow> ('s, 'a) op" where
  "liftS r s = (r, s)"

definition updateS :: "('s \<Rightarrow> 's) \<Rightarrow> ('s, unit) op" where
  "updateS f s = (Inr (), f s)"

named_theorems op_simps \<open>evaluation and inversion of stateful operations\<close>

lemma liftS_apply [simp]: "liftS r s = (r, s)"
  by (simp add: liftS_def)

lemma updateS_apply [simp]: "updateS f s = (Inr (), f s)"
  by (simp add: updateS_def)

lemma bindS_raise [simp]: "m s = (Inl e, t) \<Longrightarrow> bindS m f s = (Inl e, t)"
  by (simp add: bindS_def)

lemma bindS_return [simp]: "m s = (Inr x, t) \<Longrightarrow> bindS m f s = f x t"
  by (simp add: bindS_def)

lemma bindS_liftS [op_simps]:
  "bindS (liftS r) f s = (case r of Inl e \<Rightarrow> (Inl e, s) | Inr x \<Rightarrow> f x s)"
  by (simp add: bindS_def split: sum.splits)

lemma bindS_updateS [op_simps]: "bindS (updateS g) f s = f () (g s)"
  by (simp add: bindS_def)

lemma bindS_eq_Inr [op_simps]:
  "bindS m f s = (Inr y, t) \<longleftrightarrow> (\<exists>x s'. m s = (Inr x, s') \<and> f x s' = (Inr y, t))"
  by (auto simp: bindS_def split: prod.splits sum.splits)

text \<open>What every part of an operation keeps, the whole keeps, whether it raises or not.\<close>

lemma bindS_keeps:
  assumes "P s" and "\<And>r t. m s = (r, t) \<Longrightarrow> P t"
    and "\<And>x t r u. m s = (Inr x, t) \<Longrightarrow> P t \<Longrightarrow> f x t = (r, u) \<Longrightarrow> P u"
  shows "P (snd (bindS m f s))"
proof (cases "m s")
  case (Pair r t)
  then show ?thesis
  proof (cases r)
    case (Inl e)
    with Pair assms(2) show ?thesis by simp
  next
    case (Inr x)
    with Pair assms(2)[of r t] assms(3)[of x t "fst (f x t)" "snd (f x t)"] show ?thesis by simp
  qed
qed

text \<open>A loop that collects a value per item.\<close>

fun mapS :: "('a \<Rightarrow> ('s, 'b) op) \<Rightarrow> 'a list \<Rightarrow> ('s, 'b list) op" where
  "mapS f [] s = (Inr [], s)"
| "mapS f (x # xs) s = bindS (f x) (\<lambda>y. bindS (mapS f xs) (\<lambda>ys t. (Inr (y # ys), t))) s"

lemma mapS_keeps:
  assumes "P s" and "\<And>x s. x \<in> set xs \<Longrightarrow> P s \<Longrightarrow> P (snd (f x s))"
  shows "P (snd (mapS f xs s))"
  using assms
proof (induction xs arbitrary: s)
  case Nil
  then show ?case by simp
next
  case (Cons x xs)
  have "P (snd (f x s))" using Cons.prems by simp
  moreover have "P (snd (mapS f xs t))" if "P t" for t
    using Cons.IH[of t] Cons.prems(2) that by simp
  ultimately show ?case
    by (auto simp: bindS_def split: prod.splits sum.splits) (metis snd_conv)+
qed

section \<open>Values\<close>

datatype pyval =
    PNone
  | PBool bool
  | PInt int
  | PFloat rat
  | PStr string
  | PList "pyval list"
  | PDict "(string \<times> pyval) list"

type_synonym dict = "(string \<times> pyval) list"

text \<open>Sizes of the values inside a list, a zip of two lists and a dictionary, for termination.\<close>

lemma pyval_size_mem [termination_simp]: "x \<in> set xs \<Longrightarrow> size (x :: pyval) < Suc (size_list size xs)"
  by (induction xs) auto

lemma pyval_size_zip [termination_simp]:
  assumes "(x, y) \<in> set (zip xs ys)"
  shows "size (x :: pyval) < Suc (size_list size xs)" and "size (y :: pyval) < Suc (size_list size ys)"
  using assms by (auto dest: set_zip_leftD set_zip_rightD pyval_size_mem)

lemma pyval_size_field [termination_simp]:
  "map_of kvs k = Some x \<Longrightarrow> size (x :: pyval) < Suc (size_list (\<lambda>p. Suc (size (snd p))) kvs)"
  by (induction kvs) (auto split: if_splits)

fun is_str :: "pyval \<Rightarrow> bool" where
  "is_str (PStr _) = True" | "is_str _ = False"

text \<open>\<open>isinstance(value, int)\<close> holds of booleans too.\<close>

fun is_int :: "pyval \<Rightarrow> bool" where
  "is_int (PInt _) = True" | "is_int (PBool _) = True" | "is_int _ = False"

fun is_bool :: "pyval \<Rightarrow> bool" where
  "is_bool (PBool _) = True" | "is_bool _ = False"

definition is_int_not_bool :: "pyval \<Rightarrow> bool" where
  "is_int_not_bool v \<longleftrightarrow> is_int v \<and> \<not> is_bool v"

fun is_list :: "pyval \<Rightarrow> bool" where
  "is_list (PList _) = True" | "is_list _ = False"

fun is_dict :: "pyval \<Rightarrow> bool" where
  "is_dict (PDict _) = True" | "is_dict _ = False"

fun is_number :: "pyval \<Rightarrow> bool" where
  "is_number (PInt _) = True" | "is_number (PBool _) = True" | "is_number (PFloat _) = True"
| "is_number _ = False"

text \<open>The contents of a value, with the empty contents where the type is another one.\<close>

fun str_of :: "pyval \<Rightarrow> string" where
  "str_of (PStr s) = s" | "str_of _ = []"

fun int_of :: "pyval \<Rightarrow> int" where
  "int_of (PInt i) = i" | "int_of (PBool b) = (if b then 1 else 0)" | "int_of _ = 0"

fun items_of :: "pyval \<Rightarrow> pyval list" where
  "items_of (PList xs) = xs" | "items_of _ = []"

fun fields_of :: "pyval \<Rightarrow> dict" where
  "fields_of (PDict kvs) = kvs" | "fields_of _ = []"

lemma is_str_iff: "is_str v \<longleftrightarrow> (\<exists>s. v = PStr s)" by (cases v) simp_all
lemma is_list_iff: "is_list v \<longleftrightarrow> (\<exists>xs. v = PList xs)" by (cases v) simp_all
lemma is_dict_iff: "is_dict v \<longleftrightarrow> (\<exists>kvs. v = PDict kvs)" by (cases v) simp_all
lemma is_bool_iff: "is_bool v \<longleftrightarrow> (\<exists>b. v = PBool b)" by (cases v) simp_all
lemma is_int_not_bool_iff [res_simps]: "is_int_not_bool v \<longleftrightarrow> (\<exists>i. v = PInt i)"
  by (cases v) (simp_all add: is_int_not_bool_def)

lemmas py_type_iffs = is_str_iff is_list_iff is_dict_iff is_bool_iff is_int_not_bool_iff

text \<open>\<open>bool(value)\<close>.\<close>

fun truthy :: "pyval \<Rightarrow> bool" where
  "truthy PNone = False"
| "truthy (PBool b) = b"
| "truthy (PInt i) = (i \<noteq> 0)"
| "truthy (PFloat r) = (r \<noteq> 0)"
| "truthy (PStr s) = (s \<noteq> [])"
| "truthy (PList xs) = (xs \<noteq> [])"
| "truthy (PDict kvs) = (kvs \<noteq> [])"

text \<open>\<open>isinstance(value, str) and bool(value)\<close>, the test the code repeats everywhere.\<close>

fun is_nonempty_str :: "pyval \<Rightarrow> bool" where
  "is_nonempty_str (PStr s) = (s \<noteq> [])" | "is_nonempty_str _ = False"

lemma is_nonempty_str_iff: "is_nonempty_str v \<longleftrightarrow> (\<exists>s. v = PStr s \<and> s \<noteq> [])"
  by (cases v) simp_all

text \<open>A value that is a string or null.\<close>

definition opt_str :: "string option \<Rightarrow> pyval" where
  "opt_str s = (case s of None \<Rightarrow> PNone | Some t \<Rightarrow> PStr t)"

text \<open>\<open>value or other\<close>.\<close>

definition py_or :: "pyval \<Rightarrow> pyval \<Rightarrow> pyval" where
  "py_or v w = (if truthy v then v else w)"

text \<open>\<open>for item in value\<close>: the items, characters or keys; other types raise \<open>TypeError\<close>.\<close>

fun py_iter :: "pyval \<Rightarrow> pyval list res" where
  "py_iter (PList xs) = Inr xs"
| "py_iter (PStr s) = Inr (map (\<lambda>c. PStr [c]) s)"
| "py_iter (PDict kvs) = Inr (map (\<lambda>kv. PStr (fst kv)) kvs)"
| "py_iter _ = Inl (PyError ''TypeError'')"

section \<open>Dictionaries\<close>

text \<open>\<open>value.get(key)\<close>, \<open>value.get(key, default)\<close>, \<open>key in value\<close> and \<open>value[key]\<close>.\<close>

definition pget_or :: "pyval \<Rightarrow> string \<Rightarrow> pyval \<Rightarrow> pyval" where
  "pget_or v k d = (case map_of (fields_of v) k of None \<Rightarrow> d | Some x \<Rightarrow> x)"

definition pget :: "pyval \<Rightarrow> string \<Rightarrow> pyval" where
  "pget v k = pget_or v k PNone"

definition phas :: "pyval \<Rightarrow> string \<Rightarrow> bool" where
  "phas v k \<longleftrightarrow> map_of (fields_of v) k \<noteq> None"

definition pidx :: "pyval \<Rightarrow> string \<Rightarrow> pyval res" where
  "pidx v k = (case map_of (fields_of v) k of None \<Rightarrow> Inl (PyError ''KeyError'') | Some x \<Rightarrow> Inr x)"

text \<open>\<open>dict(value)\<close>; a list of pairs, which it would accept, is no value of a request.\<close>

definition py_dict :: "pyval \<Rightarrow> (string \<times> pyval) list res" where
  "py_dict v = (case v of PDict kvs \<Rightarrow> Inr kvs | _ \<Rightarrow> Inl (PyError ''TypeError''))"

text \<open>\<open>value[key] = x\<close>: in place when the key is there, at the end otherwise.\<close>

definition pset :: "string \<Rightarrow> pyval \<Rightarrow> pyval \<Rightarrow> pyval" where
  "pset k x v = PDict (AList.update k x (fields_of v))"

lemma dom_alist_update [simp]: "dom (map_of (AList.update k v m)) = insert k (dom (map_of m))"
  by (simp add: update_conv')

lemma pget_pset: "pget (pset k x v) k' = (if k = k' then x else pget v k')"
  by (simp add: pget_def pget_or_def pset_def update_conv' split: option.splits)

lemma phas_pset: "phas (pset k x v) k' \<longleftrightarrow> k = k' \<or> phas v k'"
  by (simp add: phas_def pset_def update_conv')

lemma pget_not_has: "\<not> phas v k \<Longrightarrow> pget v k = PNone"
  by (simp add: phas_def pget_def pget_or_def)

lemma pget_PDict_Cons [simp]:
  "pget (PDict ((k', x) # kvs)) k = (if k' = k then x else pget (PDict kvs) k)"
  by (simp add: pget_def pget_or_def)

lemma pget_PDict_Nil [simp]: "pget (PDict []) k = PNone"
  by (simp add: pget_def pget_or_def)

lemma pget_PDict: "pget (PDict kvs) k = (case map_of kvs k of None \<Rightarrow> PNone | Some x \<Rightarrow> x)"
  by (simp add: pget_def pget_or_def)

lemma pidx_pget: "pidx v k = Inr x \<Longrightarrow> pget v k = x"
  by (auto simp: pidx_def pget_def pget_or_def split: option.splits)

lemma phas_PDict_Cons [simp]: "phas (PDict ((k', x) # kvs)) k \<longleftrightarrow> k' = k \<or> phas (PDict kvs) k"
  by (simp add: phas_def)

lemma phas_PDict_Nil [simp]: "\<not> phas (PDict []) k"
  by (simp add: phas_def)

text \<open>\<open>{**base, key: x, ...}\<close> and \<open>dict.update\<close>: later entries win, in place.\<close>

definition pmerge :: "dict \<Rightarrow> dict \<Rightarrow> dict" where
  "pmerge base new = fold (\<lambda>(k, x) acc. AList.update k x acc) new base"

text \<open>\<open>set(value) == {...}\<close> on the keys.\<close>

definition key_set_is :: "pyval \<Rightarrow> string list \<Rightarrow> bool" where
  "key_set_is v ks \<longleftrightarrow> set (map fst (fields_of v)) = set ks"

text \<open>Every dictionary inside a value has each key once, as a Python dict always has.\<close>

fun wf_val :: "pyval \<Rightarrow> bool" where
  "wf_val (PList xs) = list_all wf_val xs"
| "wf_val (PDict kvs) = (distinct (map fst kvs) \<and> list_all (\<lambda>kv. wf_val (snd kv)) kvs)"
| "wf_val _ = True"

section \<open>Equality\<close>

fun num_of :: "pyval \<Rightarrow> rat option" where
  "num_of (PBool b) = Some (if b then 1 else 0)"
| "num_of (PInt i) = Some (of_int i)"
| "num_of (PFloat r) = Some r"
| "num_of _ = None"

text \<open>
  Python's \<open>==\<close>: numbers of any type by value (\<open>True == 1 == 1.0\<close>), lists position by
  position, dictionaries by their key sets and the values at each key.
\<close>

fun py_eq :: "pyval \<Rightarrow> pyval \<Rightarrow> bool" where
  "py_eq PNone w = (w = PNone)"
| "py_eq (PStr s) w = (w = PStr s)"
| "py_eq (PList xs) w =
     (case w of PList ys \<Rightarrow> length xs = length ys \<and> list_all (\<lambda>(x, y). py_eq x y) (zip xs ys)
      | _ \<Rightarrow> False)"
| "py_eq (PDict xs) w =
     (case w of PDict ys \<Rightarrow>
        length xs = length ys \<and>
        list_all (\<lambda>kv. case map_of ys (fst kv) of None \<Rightarrow> False | Some y \<Rightarrow> py_eq (snd kv) y) xs
      | _ \<Rightarrow> False)"
| "py_eq (PBool b) w = (num_of w = Some (if b then 1 else 0))"
| "py_eq (PInt i) w = (num_of w = Some (of_int i))"
| "py_eq (PFloat r) w = (num_of w = Some r)"

lemma py_eq_refl: "wf_val v \<Longrightarrow> py_eq v v"
proof (induction v rule: wf_val.induct)
  case (1 xs)
  then show ?case by (auto simp: list_all_iff set_zip)
next
  case (2 kvs)
  have "case map_of kvs (fst kv) of None \<Rightarrow> False | Some y \<Rightarrow> py_eq (snd kv) y"
    if kv: "kv \<in> set kvs" for kv
  proof -
    from 2 kv have "map_of kvs (fst kv) = Some (snd kv)" by (simp add: map_of_eq_Some_iff)
    moreover from 2 kv have "py_eq (snd kv) (snd kv)" by (simp add: list_all_iff)
    ultimately show ?thesis by simp
  qed
  then show ?case by (simp add: list_all_iff)
qed simp_all

lemma py_eq_PStr_right [simp]: "py_eq v (PStr s) \<longleftrightarrow> v = PStr s"
  by (cases v) auto

text \<open>\<open>value in {...}\<close> for a set of strings: an unhashable value raises \<open>TypeError\<close>.\<close>

definition is_hashable :: "pyval \<Rightarrow> bool" where
  "is_hashable v \<longleftrightarrow> \<not> is_list v \<and> \<not> is_dict v"

definition in_strs :: "pyval \<Rightarrow> string list \<Rightarrow> bool res" where
  "in_strs v ss = (if is_hashable v then Inr (is_str v \<and> str_of v \<in> set ss)
                   else Inl (PyError ''TypeError''))"

definition require_in :: "pyval \<Rightarrow> string list \<Rightarrow> string \<Rightarrow> unit res" where
  "require_in v ss msg = bindR (in_strs v ss) (\<lambda>b. require b msg)"

lemma require_in_eq_Inr [res_simps]:
  "require_in v ss msg = Inr u \<longleftrightarrow> (\<exists>s. v = PStr s \<and> s \<in> set ss)"
  by (cases v) (auto simp: require_in_def in_strs_def is_hashable_def require_def)

section \<open>Strings\<close>

text \<open>\<open>s.startswith(p)\<close>, \<open>s.endswith(p)\<close>.\<close>

definition starts_with :: "string \<Rightarrow> string \<Rightarrow> bool" where
  "starts_with p s \<longleftrightarrow> take (length p) s = p"

definition ends_with :: "string \<Rightarrow> string \<Rightarrow> bool" where
  "ends_with p s \<longleftrightarrow> length p \<le> length s \<and> drop (length s - length p) s = p"

lemma starts_with_iff: "starts_with p s \<longleftrightarrow> (\<exists>t. s = p @ t)"
proof
  assume "starts_with p s"
  then show "\<exists>t. s = p @ t"
    unfolding starts_with_def by (metis append_take_drop_id)
qed (auto simp: starts_with_def)

lemma ends_with_iff: "ends_with p s \<longleftrightarrow> (\<exists>t. s = t @ p)"
proof
  assume "ends_with p s"
  then show "\<exists>t. s = t @ p"
    unfolding ends_with_def by (metis append_take_drop_id)
qed (auto simp: ends_with_def)

text \<open>\<open>s.find(p)\<close>: the position of the first occurrence, \<open>None\<close> for -1.\<close>

fun str_find :: "string \<Rightarrow> string \<Rightarrow> nat option" where
  "str_find p [] = (if p = [] then Some 0 else None)"
| "str_find p (c # cs) = (if starts_with p (c # cs) then Some 0 else map_option Suc (str_find p cs))"

text \<open>\<open>s.split(c)\<close> for one separator character: always at least one part.\<close>

fun split_on :: "char \<Rightarrow> string \<Rightarrow> string list" where
  "split_on c [] = [[]]"
| "split_on c (x # xs) =
     (if x = c then [] # split_on c xs
      else (case split_on c xs of [] \<Rightarrow> [[x]] | p # ps \<Rightarrow> (x # p) # ps))"

lemma split_on_nonempty [simp]: "split_on c s \<noteq> []"
  by (induction s) (auto split: list.splits)

text \<open>\<open>c.join(parts)\<close>.\<close>

fun join_with :: "string \<Rightarrow> string list \<Rightarrow> string" where
  "join_with sep [] = []"
| "join_with sep [p] = p"
| "join_with sep (p # ps) = p @ sep @ join_with sep ps"

lemma join_split_on: "join_with [c] (split_on c s) = s"
proof (induction s)
  case Nil
  then show ?case by simp
next
  case (Cons x xs)
  obtain p ps where ps: "split_on c xs = p # ps"
    by (cases "split_on c xs") auto
  with Cons show ?case by (cases ps) auto
qed

text \<open>\<open>s.replace(old, new)\<close>: left to right; an empty pattern matches before every character.\<close>

fun replace_nonempty :: "string \<Rightarrow> string \<Rightarrow> string \<Rightarrow> string" where
  "replace_nonempty old new [] = []"
| "replace_nonempty old new (c # cs) =
     (if starts_with old (c # cs) \<and> old \<noteq> []
      then new @ replace_nonempty old new (drop (length old) (c # cs))
      else c # replace_nonempty old new cs)"

definition str_replace :: "string \<Rightarrow> string \<Rightarrow> string \<Rightarrow> string" where
  "str_replace old new s =
     (if old = [] then new @ concat (map (\<lambda>c. c # new) s) else replace_nonempty old new s)"

text \<open>\<open>s.rstrip(c)\<close>, and \<open>s.strip()\<close> on the ASCII white space.\<close>

definition rstrip_char :: "char \<Rightarrow> string \<Rightarrow> string" where
  "rstrip_char c s = rev (dropWhile (\<lambda>x. x = c) (rev s))"

definition is_space :: "char \<Rightarrow> bool" where
  "is_space c \<longleftrightarrow> of_char c \<in> {9::nat, 10, 11, 12, 13, 28, 29, 30, 31, 32, 133, 160}"

definition str_strip :: "string \<Rightarrow> string" where
  "str_strip s = rev (dropWhile is_space (rev (dropWhile is_space s)))"

text \<open>
  \<open>str(Path(s))\<close> on POSIX: empty and single-dot components go; exactly two leading slashes stay.
\<close>

definition path_root :: "string \<Rightarrow> string" where
  "path_root s =
     (if starts_with ''//'' s \<and> \<not> starts_with ''///'' s then ''//''
      else if starts_with ''/'' s then ''/'' else [])"

definition path_text :: "string \<Rightarrow> string" where
  "path_text s =
     (let t = path_root s @ join_with ''/'' (filter (\<lambda>p. p \<noteq> [] \<and> p \<noteq> ''.'') (split_on (CHR ''/'') s))
      in if t = [] then ''.'' else t)"

section \<open>Numbers as text\<close>

definition digit_char :: "nat \<Rightarrow> char" where
  "digit_char d = char_of (48 + d)"

fun nat_str :: "nat \<Rightarrow> string" where
  "nat_str n = (if n < 10 then [digit_char n] else nat_str (n div 10) @ [digit_char (n mod 10)])"

declare nat_str.simps [simp del]

definition int_str :: "int \<Rightarrow> string" where
  "int_str i = (if i < 0 then CHR ''-'' # nat_str (nat (- i)) else nat_str (nat i))"

definition is_digit :: "char \<Rightarrow> bool" where
  "is_digit c \<longleftrightarrow> 48 \<le> (of_char c :: nat) \<and> (of_char c :: nat) \<le> 57"

definition digit_val :: "char \<Rightarrow> nat" where
  "digit_val c = of_char c - 48"

definition digits_val :: "string \<Rightarrow> nat" where
  "digits_val s = foldl (\<lambda>n c. 10 * n + digit_val c) 0 s"

text \<open>
  \<open>int(text)\<close>: surrounding white space, an optional sign, decimal digits with single
  underscores between them; \<open>None\<close> for \<open>ValueError\<close>.
\<close>

fun digit_groups :: "string list \<Rightarrow> bool" where
  "digit_groups ps = (ps \<noteq> [] \<and> (\<forall>p \<in> set ps. p \<noteq> [] \<and> list_all is_digit p))"

definition int_of_text :: "string \<Rightarrow> int option" where
  "int_of_text s =
     (let t = str_strip s;
          (neg, body) = (case t of
              c # cs \<Rightarrow> if c = CHR ''-'' then (True, cs)
                        else if c = CHR ''+'' then (False, cs) else (False, t)
            | [] \<Rightarrow> (False, t));
          groups = split_on (CHR ''_'') body
      in if digit_groups groups
         then Some (let n = int (digits_val (concat groups)) in if neg then - n else n)
         else None)"

text \<open>\<open>int(value)\<close>: a float is cut towards zero.\<close>

fun py_int :: "pyval \<Rightarrow> int res" where
  "py_int (PInt i) = Inr i"
| "py_int (PBool b) = Inr (if b then 1 else 0)"
| "py_int (PFloat r) = Inr (if 0 \<le> r then \<lfloor>r\<rfloor> else \<lceil>r\<rceil>)"
| "py_int (PStr s) = (case int_of_text s of None \<Rightarrow> Inl (PyError ''ValueError'') | Some i \<Rightarrow> Inr i)"
| "py_int _ = Inl (PyError ''TypeError'')"

lemma digit_char_nat: "d < 10 \<Longrightarrow> of_char (digit_char d) = (48 + d :: nat)"
  by (simp add: digit_char_def)

lemma digits_val_snoc: "digits_val (s @ [c]) = 10 * digits_val s + digit_val c"
  by (simp add: digits_val_def)

lemma digits_val_nat_str: "digits_val (nat_str n) = n"
proof (induction n rule: nat_str.induct)
  case (1 n)
  show ?case
  proof (cases "n < 10")
    case True
    then show ?thesis
      by (subst nat_str.simps) (simp add: digits_val_def digit_val_def digit_char_nat)
  next
    case False
    with 1 show ?thesis
      by (subst nat_str.simps) (simp add: digits_val_snoc digit_val_def digit_char_nat)
  qed
qed

lemma nat_str_inject: "nat_str m = nat_str n \<longleftrightarrow> m = n"
  by (metis digits_val_nat_str)

lemma nat_str_digits: "c \<in> set (nat_str n) \<Longrightarrow> is_digit c"
proof (induction n rule: nat_str.induct)
  case (1 n)
  then show ?case
    by (subst (asm) nat_str.simps) (auto simp: is_digit_def digit_char_nat split: if_splits)
qed

lemma nat_str_nonempty [simp]: "nat_str n \<noteq> []"
  by (subst nat_str.simps) simp

text \<open>\<open>f"{index:06d}"\<close>.\<close>

definition pad6 :: "nat \<Rightarrow> string" where
  "pad6 n = replicate (6 - length (nat_str n)) (CHR ''0'') @ nat_str n"

lemma digits_val_pad: "digits_val (pad6 n) = n"
proof -
  have "digits_val (replicate k (CHR ''0'') @ s) = digits_val s" for k s
    by (induction k) (simp_all add: digits_val_def digit_val_def)
  then show ?thesis by (simp add: pad6_def digits_val_nat_str)
qed

lemma pad6_digits: "c \<in> set (pad6 n) \<Longrightarrow> is_digit c"
  by (auto simp: pad6_def nat_str_digits) (simp add: is_digit_def)

section \<open>\<open>str(value)\<close> and \<open>repr(value)\<close>\<close>

text \<open>
  What the code uses of the host and of the standard library without looking inside: the
  hex digest of the UTF-8 bytes of a text (\<open>hashlib.sha256\<close>), the keyed digest (\<open>hmac\<close>), the
  shortest decimal of a double, the resolution of a path against the live file system, and the
  JSON decoder (\<open>None\<close> for \<open>JSONDecodeError\<close>).  A theorem that needs a fact about one of them
  names it as a hypothesis.
\<close>

record host =
  sha256_hex :: "string \<Rightarrow> string"
  hmac_sha256_hex :: "string \<Rightarrow> string \<Rightarrow> string"
  float_repr :: "rat \<Rightarrow> string"
  resolve_path :: "string \<Rightarrow> string"
  json_loads :: "string \<Rightarrow> pyval option"

definition hex_digit :: "nat \<Rightarrow> char" where
  "hex_digit d = (if d < 10 then char_of (48 + d) else char_of (87 + d))"

definition hex2 :: "nat \<Rightarrow> string" where
  "hex2 n = [hex_digit (n div 16 mod 16), hex_digit (n mod 16)]"

definition repr_char :: "char \<Rightarrow> char \<Rightarrow> string" where
  "repr_char q c =
     (let n = (of_char c :: nat) in
      if c = q \<or> n = 92 then [char_of (92::nat), c]
      else if n = 9 then [char_of (92::nat), CHR ''t'']
      else if n = 10 then [char_of (92::nat), CHR ''n'']
      else if n = 13 then [char_of (92::nat), CHR ''r'']
      else if n < 32 \<or> 127 \<le> n \<and> n \<le> 160 \<or> n = 173 then [char_of (92::nat), CHR ''x''] @ hex2 n
      else [c])"

definition str_repr :: "string \<Rightarrow> string" where
  "str_repr s =
     (let q = (if CHR 0x27 \<in> set s \<and> CHR 0x22 \<notin> set s then CHR 0x22 else CHR 0x27)
      in [q] @ concat (map (repr_char q) s) @ [q])"

fun py_repr :: "host \<Rightarrow> pyval \<Rightarrow> string" where
  "py_repr h PNone = ''None''"
| "py_repr h (PBool b) = (if b then ''True'' else ''False'')"
| "py_repr h (PInt i) = int_str i"
| "py_repr h (PFloat r) = float_repr h r"
| "py_repr h (PStr s) = str_repr s"
| "py_repr h (PList xs) = ''['' @ join_with '', '' (map (py_repr h) xs) @ '']''"
| "py_repr h (PDict kvs) =
     ''{'' @ join_with '', '' (map (\<lambda>kv. str_repr (fst kv) @ '': '' @ py_repr h (snd kv)) kvs) @ ''}''"

fun py_str :: "host \<Rightarrow> pyval \<Rightarrow> string" where
  "py_str h (PStr s) = s"
| "py_str h v = py_repr h v"

section \<open>Sorting\<close>

text \<open>\<open>sorted(xs, key=len, reverse=True)\<close>: longest first, stable.\<close>

definition sort_longest :: "('a \<Rightarrow> string) \<Rightarrow> 'a list \<Rightarrow> 'a list" where
  "sort_longest f xs = sort_key (\<lambda>x. - int (length (f x))) xs"

lemma set_sort_longest [simp]: "set (sort_longest f xs) = set xs"
  by (simp add: sort_longest_def)

section \<open>Association lists and related lists\<close>

lemma delete_absent: "i \<notin> fst ` set rows \<Longrightarrow> AList.delete i rows = rows"
  by (induction rows) auto

lemma update_absent: "i \<notin> fst ` set rows \<Longrightarrow> AList.update i r rows = rows @ [(i, r)]"
  by (induction rows) auto

lemma delete_as_filter: "AList.delete k xs = filter (\<lambda>p. fst p \<noteq> k) xs"
  by (induction xs) (auto simp: AList.delete_eq)

lemma map_of_pmerge: "map_of (pmerge base new) k = (case map_of (rev new) k of None \<Rightarrow> map_of base k | Some x \<Rightarrow> Some x)"
  unfolding pmerge_def
proof (induction new arbitrary: base)
  case Nil
  then show ?case by simp
next
  case (Cons kx new)
  show ?case by (cases kx) (simp add: Cons.IH update_conv' map_add_def split: option.splits)
qed

lemma list_all2_mem: "list_all2 P xs ys \<Longrightarrow> y \<in> set ys \<Longrightarrow> \<exists>x \<in> set xs. P x y"
  by (induction rule: list_all2_induct) auto

lemma list_all2_filtered:
  assumes "list_all2 R xs ys" and "\<And>x y. R x y \<Longrightarrow> P x \<longleftrightarrow> Q y"
  shows "list_all2 R (filter P xs) (filter Q ys)"
  using assms(1) by (induction rule: list_all2_induct) (auto simp: assms(2))

lemma mapS_prefix_invariant:
  assumes "mapS f xs s = (Inr ys, t)" and "P seen s"
    and "\<And>seen x s u t. x \<in> set xs \<Longrightarrow> P seen s \<Longrightarrow> f x s = (Inr u, t) \<Longrightarrow> P (seen @ [x]) t"
  shows "P (seen @ xs) t"
  using assms
proof (induction xs arbitrary: s ys seen)
  case Nil
  then show ?case by simp
next
  case (Cons x xs)
  from Cons.prems(1) obtain u v zs where x: "f x s = (Inr u, v)" and xs: "mapS f xs v = (Inr zs, t)"
    by (auto simp: bindS_eq_Inr)
  have "P ((seen @ [x]) @ xs) t"
    by (rule Cons.IH [OF xs Cons.prems(3) [OF _ Cons.prems(2) x]]) (auto intro: Cons.prems(3))
  then show ?case by simp
qed

lemma mapS_results:
  assumes "mapS f xs s = (Inr ys, t)" and "\<And>x s y t. f x s = (Inr y, t) \<Longrightarrow> R x y"
  shows "list_all2 R xs ys"
  using assms(1)
proof (induction xs arbitrary: s ys)
  case (Cons x xs)
  then show ?case by (auto simp: bindS_eq_Inr intro: assms(2))
qed simp

end
