(* ===== verification/Util.thy ===== *)
theory Util
  imports Py_Prelude
begin

text \<open>
  util.py: the canonical JSON text of a value (sorted keys, no white space, non-ASCII text
  kept), its digest, and the check that identifiers are non-empty and unique.

  Atomic file replacement and the append of one line are I/O and are not modelled; a ledger
  file is the list of the records appended to it.
\<close>

section \<open>Canonical JSON\<close>

definition json_char :: "char \<Rightarrow> string" where
  "json_char c =
     (let n = (of_char c :: nat) in
      if n = 34 then [CHR 0x5C, CHR 0x22]
      else if n = 92 then [CHR 0x5C, CHR 0x5C]
      else if n = 10 then [CHR 0x5C, CHR ''n'']
      else if n = 13 then [CHR 0x5C, CHR ''r'']
      else if n = 9 then [CHR 0x5C, CHR ''t'']
      else if n = 12 then [CHR 0x5C, CHR ''f'']
      else if n = 8 then [CHR 0x5C, CHR ''b'']
      else if n < 32 then [CHR 0x5C, CHR ''u'', CHR ''0'', CHR ''0''] @ hex2 n
      else [c])"

definition json_string :: "string \<Rightarrow> string" where
  "json_string s = [CHR 0x22] @ concat (map json_char s) @ [CHR 0x22]"

text \<open>\<open>json.dumps(value, ensure_ascii=False, sort_keys=True, separators=(",", ":"))\<close>.\<close>

fun canonical_json :: "host \<Rightarrow> pyval \<Rightarrow> string" where
  "canonical_json h PNone = ''null''"
| "canonical_json h (PBool b) = (if b then ''true'' else ''false'')"
| "canonical_json h (PInt i) = int_str i"
| "canonical_json h (PFloat r) = float_repr h r"
| "canonical_json h (PStr s) = json_string s"
| "canonical_json h (PList xs) = ''['' @ join_with '','' (map (canonical_json h) xs) @ '']''"
| "canonical_json h (PDict kvs) =
     ''{'' @ join_with '',''
       (map (\<lambda>kv. json_string (fst kv) @ '':'' @ canonical_json h (snd kv)) (sort_key fst kvs)) @ ''}''"

definition sha256_json :: "host \<Rightarrow> pyval \<Rightarrow> string" where
  "sha256_json h v = sha256_hex h (canonical_json h v)"

text \<open>\<open>json.dumps(value, separators=(",", ":"))\<close>: the key order of the value, ASCII only.\<close>

definition ascii_json_char :: "char \<Rightarrow> string" where
  "ascii_json_char c =
     (let n = (of_char c :: nat) in
      if 127 \<le> n then [CHR 0x5C, CHR ''u'', CHR ''0'', CHR ''0''] @ hex2 n else json_char c)"

definition ascii_json_string :: "string \<Rightarrow> string" where
  "ascii_json_string s = [CHR 0x22] @ concat (map ascii_json_char s) @ [CHR 0x22]"

fun compact_json :: "host \<Rightarrow> pyval \<Rightarrow> string" where
  "compact_json h PNone = ''null''"
| "compact_json h (PBool b) = (if b then ''true'' else ''false'')"
| "compact_json h (PInt i) = int_str i"
| "compact_json h (PFloat r) = float_repr h r"
| "compact_json h (PStr s) = ascii_json_string s"
| "compact_json h (PList xs) = ''['' @ join_with '','' (map (compact_json h) xs) @ '']''"
| "compact_json h (PDict kvs) =
     ''{'' @ join_with '',''
       (map (\<lambda>kv. ascii_json_string (fst kv) @ '':'' @ compact_json h (snd kv)) kvs) @ ''}''"

text \<open>\<open>json.dumps(value, ensure_ascii=False, separators=(",", ":"))\<close>: the key order of the value.\<close>

fun ordered_json :: "host \<Rightarrow> pyval \<Rightarrow> string" where
  "ordered_json h PNone = ''null''"
| "ordered_json h (PBool b) = (if b then ''true'' else ''false'')"
| "ordered_json h (PInt i) = int_str i"
| "ordered_json h (PFloat r) = float_repr h r"
| "ordered_json h (PStr s) = json_string s"
| "ordered_json h (PList xs) = ''['' @ join_with '','' (map (ordered_json h) xs) @ '']''"
| "ordered_json h (PDict kvs) =
     ''{'' @ join_with '',''
       (map (\<lambda>kv. json_string (fst kv) @ '':'' @ ordered_json h (snd kv)) kvs) @ ''}''"

text \<open>Integers are written the same way by both encoders.\<close>

lemma compact_json_ints: "list_all is_int xs \<Longrightarrow> compact_json h (PList xs) = canonical_json h (PList xs)"
proof -
  have "is_int v \<Longrightarrow> compact_json h v = canonical_json h v" for v by (cases v) simp_all
  then show "list_all is_int xs \<Longrightarrow> compact_json h (PList xs) = canonical_json h (PList xs)"
    by (simp add: list_all_iff cong: map_cong)
qed

section \<open>Unique identifiers\<close>

fun unique_strings_from :: "string list \<Rightarrow> pyval list \<Rightarrow> string \<Rightarrow> string list res" where
  "unique_strings_from seen [] ctx = Inr seen"
| "unique_strings_from seen (v # vs) ctx =
     bindR (checks [require (is_nonempty_str v) (ctx @ '': invalid identifier''),
                    require (str_of v \<notin> set seen) (ctx @ '': duplicate identifier'')])
           (\<lambda>_. unique_strings_from (str_of v # seen) vs ctx)"

definition unique_strings :: "pyval list \<Rightarrow> string \<Rightarrow> string list res" where
  "unique_strings vs ctx = unique_strings_from [] vs ctx"

lemma unique_strings_from_ok:
  "unique_strings_from seen vs ctx = Inr r \<longleftrightarrow>
     (\<forall>v \<in> set vs. is_nonempty_str v) \<and> distinct (map str_of vs) \<and>
     set (map str_of vs) \<inter> set seen = {} \<and> r = rev (map str_of vs) @ seen"
  by (induction seen vs ctx rule: unique_strings_from.induct)
     (auto simp: bindR_eq_Inr require_def split: if_splits)

lemma unique_strings_ok:
  "unique_strings vs ctx = Inr r \<longleftrightarrow>
     (\<forall>v \<in> set vs. is_nonempty_str v) \<and> distinct (map str_of vs) \<and> r = rev (map str_of vs)"
  by (simp add: unique_strings_def unique_strings_from_ok)

section \<open>The canonical text determines the value up to the order of keys\<close>

text \<open>The value with every dictionary sorted by key.\<close>

fun canon :: "pyval \<Rightarrow> pyval" where
  "canon (PList xs) = PList (map canon xs)"
| "canon (PDict kvs) = PDict (map (\<lambda>kv. (fst kv, canon (snd kv))) (sort_key fst kvs))"
| "canon v = v"

lemma sort_key_map_fst: "sort_key fst (map (\<lambda>kv. (fst kv, g (snd kv))) (sort_key fst kvs)) =
    map (\<lambda>kv. (fst kv, g (snd kv))) (sort_key fst kvs)"
proof -
  have "map fst (map (\<lambda>kv. (fst kv, g (snd kv))) (sort_key fst kvs)) = map fst (sort_key fst kvs)"
    by simp
  then have "sorted (map fst (map (\<lambda>kv. (fst kv, g (snd kv))) (sort_key fst kvs)))"
    by (metis sorted_sort_key)
  then show ?thesis by (simp add: sort_key_id_if_sorted o_def)
qed

lemma canonical_json_canon: "canonical_json h (canon v) = canonical_json h v"
proof (induction v rule: canon.induct)
  case (1 xs)
  then have "map (canonical_json h \<circ> canon) xs = map (canonical_json h) xs" by simp
  then show ?case by (simp only: canon.simps canonical_json.simps map_map)
next
  case (2 kvs)
  let ?enc = "\<lambda>kv. json_string (fst kv) @ '':'' @ canonical_json h (snd kv)"
  have "map (?enc \<circ> (\<lambda>kv. (fst kv, canon (snd kv)))) (sort_key fst kvs) = map ?enc (sort_key fst kvs)"
    using 2 by simp
  then show ?case by (simp only: canon.simps canonical_json.simps sort_key_map_fst map_map)
qed simp_all

text \<open>Texts that cannot be confused with what may follow a value inside a JSON text.\<close>

definition json_end :: "string \<Rightarrow> bool" where
  "json_end r \<longleftrightarrow> (case r of [] \<Rightarrow> True | c # _ \<Rightarrow> c \<in> {CHR '','', CHR '']'', CHR ''}''})"

definition number_char :: "char \<Rightarrow> bool" where
  "number_char c \<longleftrightarrow> is_digit c \<or> c \<in> {CHR ''-'', CHR ''+'', CHR ''.'', CHR ''e''}"

text \<open>
  What \<open>float.__repr__\<close> promises of finite doubles: digits, a sign, a point or an exponent;
  it starts with a digit or a minus sign, it is not the text of an integer, and different
  doubles have different texts.
\<close>

definition float_text_ok :: "host \<Rightarrow> bool" where
  "float_text_ok h \<longleftrightarrow>
     inj (float_repr h) \<and>
     (\<forall>r. float_repr h r \<noteq> [] \<and> list_all number_char (float_repr h r) \<and>
          (is_digit (hd (float_repr h r)) \<or> hd (float_repr h r) = CHR ''-'') \<and>
          (\<exists>c \<in> set (float_repr h r). c = CHR ''.'' \<or> c = CHR ''e''))"

lemma append_number_inject:
  assumes "list_all number_char a" "list_all number_char b" "json_end r" "json_end r'" "a @ r = b @ r'"
  shows "a = b \<and> r = r'"
  using assms
proof (induction a arbitrary: b)
  case Nil
  then show ?case
    by (cases b) (auto simp: json_end_def number_char_def is_digit_def split: list.splits)
next
  case (Cons c a)
  show ?case
  proof (cases b)
    case Nil
    with Cons.prems show ?thesis
      by (auto simp: json_end_def number_char_def is_digit_def)
  next
    case (Cons d b')
    with Cons.prems Cons.IH[of b'] show ?thesis by simp
  qed
qed

lemma int_str_number: "list_all number_char (int_str i)"
  by (auto simp: int_str_def number_char_def list_all_iff dest: nat_str_digits)

lemma int_str_no_point: "c \<in> set (int_str i) \<Longrightarrow> c \<noteq> CHR ''.'' \<and> c \<noteq> CHR ''e''"
  by (auto simp: int_str_def is_digit_def split: if_splits dest!: nat_str_digits)

lemma hd_nat_str_digit: "is_digit (hd (nat_str n))"
  by (rule nat_str_digits[of _ n]) simp

lemma int_str_hd: "int_str i \<noteq> [] \<and> (is_digit (hd (int_str i)) \<or> hd (int_str i) = CHR ''-'')"
  by (simp add: int_str_def hd_nat_str_digit)

lemma int_str_inject: "int_str i = int_str j \<longleftrightarrow> i = j"
proof
  assume eq: "int_str i = int_str j"
  have nd: "nat_str n \<noteq> CHR ''-'' # cs" for n cs
    using nat_str_digits[of "CHR ''-''" n] by (auto simp: is_digit_def)
  show "i = j"
    using eq nd nd[symmetric] by (auto simp: int_str_def nat_str_inject split: if_splits)
qed simp

text \<open>Reading one escaped character back.\<close>

definition hex_val :: "char \<Rightarrow> nat" where
  "hex_val c = (let n = of_char c in if n < 58 then n - 48 else n - 87)"

lemma hex_val_digit: "d < 16 \<Longrightarrow> hex_val (hex_digit d) = d"
  by (simp add: hex_val_def hex_digit_def Let_def)

definition read_char :: "string \<Rightarrow> char \<times> string" where
  "read_char s =
     (let c = hd s; d = hd (tl s); r = tl (tl s) in
      if c \<noteq> CHR 0x5C then (c, tl s)
      else if d = CHR ''n'' then (CHR 0x0A, r)
      else if d = CHR ''r'' then (CHR 0x0D, r)
      else if d = CHR ''t'' then (CHR 0x09, r)
      else if d = CHR ''f'' then (CHR 0x0C, r)
      else if d = CHR ''b'' then (CHR 0x08, r)
      else if d = CHR ''u''
        then (char_of (16 * hex_val (hd (tl (tl r))) + hex_val (hd (tl (tl (tl r))))),
              tl (tl (tl (tl r))))
      else (d, r))"

lemma char_eqI: "of_char c = (of_char d :: nat) \<Longrightarrow> c = d"
  by (simp add: of_char_eq_iff)

lemma special_char_codes:
  "of_char c = (34 :: nat) \<Longrightarrow> c = CHR 0x22" "of_char c = (92 :: nat) \<Longrightarrow> c = CHR 0x5C"
  "of_char c = (10 :: nat) \<Longrightarrow> c = CHR 0x0A" "of_char c = (13 :: nat) \<Longrightarrow> c = CHR 0x0D"
  "of_char c = (9 :: nat) \<Longrightarrow> c = CHR 0x09" "of_char c = (12 :: nat) \<Longrightarrow> c = CHR 0x0C"
  "of_char c = (8 :: nat) \<Longrightarrow> c = CHR 0x08"
  by (rule char_eqI, simp)+

lemma read_json_char: "read_char (json_char c @ x) = (c, x)"
proof -
  let ?n = "of_char c :: nat"
  consider "?n = 34" | "?n = 92" | "?n = 10" | "?n = 13" | "?n = 9" | "?n = 12" | "?n = 8"
    | "?n < 32" "?n \<notin> {8, 9, 10, 12, 13}" | "?n \<ge> 32" "?n \<notin> {34, 92}"
    by force
  then show ?thesis
  proof cases
    case 8
    then have "hex_val (hex_digit (?n div 16 mod 16)) = ?n div 16" "hex_val (hex_digit (?n mod 16)) = ?n mod 16"
      by (simp_all add: hex_val_digit)
    with 8 show ?thesis
      by (simp add: json_char_def read_char_def hex2_def Let_def)
  next
    case 9
    then have "c \<noteq> CHR 0x5C" by auto
    with 9 show ?thesis by (simp add: json_char_def read_char_def Let_def)
  qed (drule special_char_codes, simp add: json_char_def read_char_def Let_def)+
qed

lemma json_char_inject: "json_char c @ x = json_char d @ y \<Longrightarrow> c = d \<and> x = y"
  by (metis Pair_inject read_json_char)

lemma json_char_not_quote: "json_char c @ x \<noteq> CHR 0x22 # y"
proof
  assume eq: "json_char c @ x = CHR 0x22 # y"
  show False
  proof (cases "of_char c = (34::nat)")
    case True
    with eq show False by (simp add: json_char_def)
  next
    case False
    with eq show False by (auto simp: json_char_def Let_def split: if_splits)
  qed
qed

lemma json_string_inject: "json_string s @ x = json_string t @ y \<Longrightarrow> s = t \<and> x = y"
proof -
  have "concat (map json_char s) @ CHR 0x22 # x = concat (map json_char t) @ CHR 0x22 # y \<Longrightarrow> s = t \<and> x = y"
  proof (induction s arbitrary: t)
    case Nil
    then show ?case
      by (cases t) (auto dest: sym[THEN json_char_not_quote[THEN notE]])
  next
    case (Cons c s)
    show ?case
    proof (cases t)
      case Nil
      with Cons.prems show ?thesis by (auto dest: json_char_not_quote[THEN notE])
    next
      case (Cons d t')
      with Cons.prems have "json_char c @ (concat (map json_char s) @ CHR 0x22 # x) =
          json_char d @ (concat (map json_char t') @ CHR 0x22 # y)" by simp
      from json_char_inject[OF this] Cons.IH[of t'] Cons show ?thesis by simp
    qed
  qed
  moreover assume "json_string s @ x = json_string t @ y"
  ultimately show ?thesis by (simp add: json_string_def)
qed

text \<open>The first character of a text tells which kind of value it is; the delimiters are in no class.\<close>

definition head_class :: "char \<Rightarrow> nat" where
  "head_class c =
     (if c = CHR ''n'' then 0 else if c = CHR ''t'' then 1 else if c = CHR ''f'' then 2
      else if c = CHR 0x22 then 3 else if c = CHR ''['' then 4 else if c = CHR ''{'' then 5
      else if is_digit c \<or> c = CHR ''-'' then 6 else 7)"

fun value_class :: "pyval \<Rightarrow> nat" where
  "value_class PNone = 0"
| "value_class (PBool b) = (if b then 1 else 2)"
| "value_class (PStr _) = 3"
| "value_class (PList _) = 4"
| "value_class (PDict _) = 5"
| "value_class _ = 6"

lemma head_class_number: "is_digit c \<or> c = CHR ''-'' \<Longrightarrow> head_class c = 6"
  by (auto simp: head_class_def is_digit_def)

lemma canonical_json_head:
  assumes "float_text_ok h"
  shows "canonical_json h v \<noteq> [] \<and> head_class (hd (canonical_json h v)) = value_class v"
proof (cases v)
  case (PInt i)
  then show ?thesis using int_str_hd[of i] by (simp add: head_class_number)
next
  case (PFloat r)
  then show ?thesis using assms by (auto simp: float_text_ok_def head_class_number)
qed (simp_all add: head_class_def json_string_def)

definition json_delim :: "char \<Rightarrow> bool" where
  "json_delim c \<longleftrightarrow> c \<in> {CHR '','', CHR '']'', CHR ''}''}"

lemma json_delim_class: "json_delim c \<Longrightarrow> head_class c = 7"
  by (auto simp: head_class_def is_digit_def json_delim_def)

lemma json_end_delim: "json_end r \<longleftrightarrow> r = [] \<or> json_delim (hd r)"
  by (cases r) (simp_all add: json_end_def json_delim_def)

lemma value_class_less: "value_class v < 7"
  by (cases v) simp_all

lemma canonical_json_head_not_delim: "float_text_ok h \<Longrightarrow> \<not> json_delim (hd (canonical_json h v))"
  using canonical_json_head[of h v] json_delim_class value_class_less[of v] by fastforce

lemma canonical_json_class:
  assumes "float_text_ok h" and "canonical_json h u @ r = canonical_json h v @ r'"
  shows "value_class u = value_class v"
  using canonical_json_head[OF assms(1)] assms(2) by (metis hd_append2)

text \<open>Comma-separated texts split in one way, when the texts of the elements do.\<close>

lemma join_inject:
  assumes close: "json_delim close" "close \<noteq> CHR '',''"
    and elems: "\<And>x y r r'. \<lbrakk>x \<in> set xs; json_end r; json_end r'; e x @ r = e y @ r'\<rbrakk> \<Longrightarrow> c x = c y \<and> r = r'"
    and heads: "\<And>x. e x \<noteq> [] \<and> \<not> json_delim (hd (e x))"
    and eq: "join_with '','' (map e xs) @ close # r = join_with '','' (map e ys) @ close # r'"
  shows "map c xs = map c ys \<and> r = r'"
  using elems eq
proof (induction xs arbitrary: ys)
  case Nil
  show ?case
  proof (cases ys)
    case (Cons y ys')
    then have "hd (join_with '','' (map e ys) @ close # r') = hd (e y)"
      using heads[of y] by (cases ys') simp_all
    then have "hd (e y) = close" using Nil.prems(2) by (metis append_Nil join_with.simps(1) list.sel(1) list.simps(8))
    with heads[of y] close show ?thesis by simp
  qed (use Nil in simp)
next
  case (Cons x xs)
  let ?tail = "\<lambda>zs q. if zs = [] then close # q else CHR '','' # join_with '','' (map e zs) @ close # q"
  have split: "join_with '','' (map e (z # zs)) @ close # q = e z @ ?tail zs q" for z zs q
    by (cases zs) simp_all
  have ends: "json_end (?tail zs q)" for zs q
    using close by (simp add: json_end_def json_delim_def)
  show ?case
  proof (cases ys)
    case Nil
    have "hd (e x @ ?tail xs r) = close"
      using Cons.prems(2) Nil by (simp only: split) simp
    with heads[of x] close show ?thesis by simp
  next
    case ys: (Cons y ys')
    have eq': "e x @ ?tail xs r = e y @ ?tail ys' r'"
      using Cons.prems(2) by (simp only: ys split)
    have step: "c x = c y \<and> ?tail xs r = ?tail ys' r'"
      by (rule Cons.prems(1)[OF _ ends ends eq']) simp
    show ?thesis
    proof (cases "xs = []")
      case True
      with step close show ?thesis by (cases ys') (auto simp: ys)
    next
      case False
      with step close have rest:
        "join_with '','' (map e xs) @ close # r = join_with '','' (map e ys') @ close # r'"
        by (auto split: if_splits)
      have "map c xs = map c ys' \<and> r = r'"
        by (rule Cons.IH) (use Cons.prems(1) in force, rule rest)
      with step show ?thesis by (simp add: ys)
    qed
  qed
qed

lemma float_text_not_int: "float_text_ok h \<Longrightarrow> float_repr h q \<noteq> int_str i"
  unfolding float_text_ok_def using int_str_no_point by metis

lemma float_text_number: "float_text_ok h \<Longrightarrow> list_all number_char (float_repr h q)"
  by (simp add: float_text_ok_def)

lemma float_text_inject: "float_text_ok h \<Longrightarrow> float_repr h q = float_repr h p \<longleftrightarrow> q = p"
  unfolding float_text_ok_def by (auto dest: injD)

lemma number_text_inject:
  assumes "float_text_ok h" "value_class u = 6" "value_class v = 6" "json_end r" "json_end r'"
    and "canonical_json h u @ r = canonical_json h v @ r'"
  shows "u = v \<and> r = r'"
proof -
  have n: "list_all number_char (canonical_json h w)" if "value_class w = 6" for w
    using that assms(1) by (cases w) (auto simp: int_str_number float_text_number split: if_splits)
  have "canonical_json h u = canonical_json h v \<and> r = r'"
    by (rule append_number_inject[OF n n assms(4-6)]) fact+
  then show ?thesis
    using assms(1-3)
    by (cases u; cases v)
       (auto simp: int_str_inject float_text_inject float_text_not_int float_text_not_int[symmetric] split: if_splits)
qed

lemma canonical_json_append_inject:
  assumes h: "float_text_ok h" and "json_end r" "json_end r'"
    and "canonical_json h u @ r = canonical_json h v @ r'"
  shows "canon u = canon v \<and> r = r'"
  using assms(2-)
proof (induction u arbitrary: v r r' rule: canon.induct[case_names List Dict None Bool Int Float Str])
  case (List xs)
  from canonical_json_class[OF h List(4)] obtain ys where v: "v = PList ys"
    by (cases v) (auto split: if_splits)
  have "map canon xs = map canon ys \<and> r = r'"
    by (rule join_inject[where e = "canonical_json h" and close = "CHR '']''"])
       (use List v in \<open>auto simp: json_delim_def[of "CHR '']''"] canonical_json_head[OF h] canonical_json_head_not_delim[OF h]\<close>)
  with v show ?case by simp
next
  case (Dict kvs)
  from canonical_json_class[OF h Dict(4)] obtain ys where v: "v = PDict ys"
    by (cases v) (auto split: if_splits)
  let ?e = "\<lambda>kv. json_string (fst kv) @ '':'' @ canonical_json h (snd kv)"
  let ?c = "\<lambda>kv. (fst kv, canon (snd kv))"
  have "map ?c (sort_key fst kvs) = map ?c (sort_key fst ys) \<and> r = r'"
  proof (rule join_inject[where e = ?e and close = "CHR ''}''"])
    fix x y q q'
    assume x: "x \<in> set (sort_key fst kvs)" and q: "json_end q" "json_end q'" and eq: "?e x @ q = ?e y @ q'"
    from eq have "fst x = fst y \<and> '':'' @ canonical_json h (snd x) @ q = '':'' @ canonical_json h (snd y) @ q'"
      using json_string_inject[of "fst x" "'':'' @ canonical_json h (snd x) @ q" "fst y" "'':'' @ canonical_json h (snd y) @ q'"]
      by simp
    with Dict(1)[of x q q' "snd y"] x q show "?c x = ?c y \<and> q = q'" by simp
  qed (use Dict v in \<open>auto simp: json_delim_def json_string_def\<close>)
  with v show ?case by simp
next
  case None
  then show ?case using canonical_json_class[OF h None(3)] by (cases v) (auto split: if_splits)
next
  case (Bool b)
  then show ?case using canonical_json_class[OF h Bool(3)] by (cases v) (auto split: if_splits)
next
  case (Int i)
  then show ?case
    using canonical_json_class[OF h Int(3)] number_text_inject[OF h, of "PInt i" v] by auto
next
  case (Float q)
  then show ?case
    using canonical_json_class[OF h Float(3)] number_text_inject[OF h, of "PFloat q" v] by auto
next
  case (Str s)
  then show ?case
    using canonical_json_class[OF h Str(3)] by (cases v) (auto dest: json_string_inject split: if_splits)
qed

lemma canonical_json_eq: "float_text_ok h \<Longrightarrow> canonical_json h u = canonical_json h v \<longleftrightarrow> canon u = canon v"
proof
  assume "float_text_ok h" and "canonical_json h u = canonical_json h v"
  then show "canon u = canon v"
    using canonical_json_append_inject [of h "[]" "[]" u v] by (simp add: json_end_def)
qed (metis canonical_json_canon)

text \<open>
  C1: two values have the same canonical text exactly when they are the same value up to the
  order of the keys of their dictionaries, so a digest over the text identifies the value.
\<close>

theorem canonical_json_determines:
  assumes "float_text_ok h"
  shows "canonical_json h u = canonical_json h v \<longleftrightarrow> canon u = canon v"
  using assms by (rule canonical_json_eq)

text \<open>A concrete host, with which the hypotheses on the parameters hold together.\<close>

definition plain_host :: host where
  "plain_host = \<lparr>sha256_hex = (\<lambda>s. s), hmac_sha256_hex = (\<lambda>k m. k @ CHR '':'' # m),
     float_repr = (\<lambda>r. int_str (fst (quotient_of r)) @ ''.'' @ int_str (snd (quotient_of r))),
     resolve_path = (\<lambda>p. p),
     json_loads = (\<lambda>s. if s = ''{}'' then Some (PDict []) else None)\<rparr>"

lemma append_point_inject:
  assumes "CHR ''.'' \<notin> set a" "CHR ''.'' \<notin> set b" "a @ CHR ''.'' # x = b @ CHR ''.'' # y"
  shows "a = b \<and> x = y"
  using assms
proof (induction a arbitrary: b)
  case Nil
  then show ?case by (cases b) auto
next
  case (Cons c a)
  then show ?case by (cases b) auto
qed

lemma plain_host_float_text_ok: "float_text_ok plain_host"
proof -
  have "inj (float_repr plain_host)"
  proof (rule injI)
    fix q r
    assume "float_repr plain_host q = float_repr plain_host r"
    then have "int_str (fst (quotient_of q)) @ CHR ''.'' # int_str (snd (quotient_of q)) =
        int_str (fst (quotient_of r)) @ CHR ''.'' # int_str (snd (quotient_of r))"
      by (simp add: plain_host_def)
    then have "int_str (fst (quotient_of q)) = int_str (fst (quotient_of r)) \<and>
        int_str (snd (quotient_of q)) = int_str (snd (quotient_of r))"
      by (rule append_point_inject[rotated 2]) (auto dest: int_str_no_point)
    then show "q = r" by (simp add: int_str_inject prod_eq_iff quotient_of_inject_eq[symmetric])
  qed
  moreover have "list_all number_char (int_str i @ ''.'' @ int_str j)" for i j
    by (simp add: int_str_number number_char_def)
  ultimately show ?thesis
    using int_str_hd by (auto simp: float_text_ok_def plain_host_def)
qed

theorem canonical_json_determines_witness:
  "canonical_json plain_host (PDict [(''b'', PInt 2), (''a'', PList [PNone])]) =
     canonical_json plain_host (PDict [(''a'', PList [PNone]), (''b'', PInt 2)]) \<and>
   canonical_json plain_host (PInt 1) \<noteq> canonical_json plain_host (PFloat 1)"
  unfolding canonical_json_determines[OF plain_host_float_text_ok] by simp

end
