(* ===== verification/Observation.thy ===== *)
theory Observation
  imports Util
begin

text \<open>
  observation.py: the result contract of a tool, the JSON pointers it declares, and the
  projection that replaces each declared field by a marker and keeps its digest as evidence.
\<close>

section \<open>Contracts\<close>

definition RESULT_CONTRACT_SCHEMA :: string where
  "RESULT_CONTRACT_SCHEMA = ''native-agent-replay.result-contract/v2''"

definition exact_result_contract :: pyval where
  "exact_result_contract =
     PDict [(''schema_version'', PStr RESULT_CONTRACT_SCHEMA), (''kind'', PStr ''exact''),
            (''fields'', PList [])]"

definition recorded_output_result_contract :: "string \<Rightarrow> pyval" where
  "recorded_output_result_contract pointer =
     PDict [(''schema_version'', PStr RESULT_CONTRACT_SCHEMA),
            (''kind'', PStr ''recorded-observation''),
            (''fields'', PList [PDict [(''json_pointer'', PStr pointer), (''optional'', PBool True)]])]"

text \<open>The loop over the declared fields, with the pointers seen so far.\<close>

fun validate_contract_fields :: "string list \<Rightarrow> pyval list \<Rightarrow> unit res" where
  "validate_contract_fields seen [] = Inr ()"
| "validate_contract_fields seen (field # rest) =
     (let pointer = pget field ''json_pointer'' in
      bindR (checks
        [require (is_dict field \<and> key_set_is field [''json_pointer'', ''optional''])
           ''tool result contract field has an invalid field inventory'',
         require (is_str pointer \<and> starts_with ''/'' (str_of pointer) \<and> str_of pointer \<notin> set seen)
           ''tool result contract field has an invalid or duplicate JSON pointer'',
         require (is_bool (pget field ''optional''))
           ''tool result contract field.optional must be boolean''])
        (\<lambda>_. validate_contract_fields (str_of pointer # seen) rest))"

definition validate_result_contract :: "pyval \<Rightarrow> unit res" where
  "validate_result_contract value =
     checks
      [require (is_dict value) ''tool result contract must be an object'',
       require (key_set_is value [''schema_version'', ''kind'', ''fields''])
         ''tool result contract has an invalid field inventory'',
       require (pget value ''schema_version'' = PStr RESULT_CONTRACT_SCHEMA)
         ''tool result contract has an unsupported schema'',
       require_in (pget value ''kind'') [''exact'', ''recorded-observation'']
         ''tool result contract has an invalid kind'',
       require (is_list (pget value ''fields'')) ''tool result contract fields must be a list'',
       require (\<not> (pget value ''kind'' = PStr ''exact'' \<and> truthy (pget value ''fields'')))
         ''exact tool result contract cannot declare observation fields'',
       require (\<not> (pget value ''kind'' = PStr ''recorded-observation'' \<and> \<not> truthy (pget value ''fields'')))
         ''recorded observation contract has no fields'',
       validate_contract_fields [] (items_of (pget value ''fields''))]"

section \<open>JSON pointers\<close>

definition pointer_part :: "string \<Rightarrow> string" where
  "pointer_part s = str_replace ''~0'' ''~'' (str_replace ''~1'' ''/'' s)"

definition pointer_parts :: "string \<Rightarrow> string list" where
  "pointer_parts pointer = map pointer_part (split_on (CHR ''/'') (drop 1 pointer))"

text \<open>Python's index into a list: negative positions count from the end.\<close>

definition py_pos :: "'a list \<Rightarrow> int \<Rightarrow> nat option" where
  "py_pos xs i =
     (let n = int (length xs); j = (if i < 0 then n + i else i)
      in if 0 \<le> j \<and> j < n then Some (nat j) else None)"

definition list_pos :: "'a list \<Rightarrow> string \<Rightarrow> nat option" where
  "list_pos xs part = (case int_of_text part of None \<Rightarrow> None | Some i \<Rightarrow> py_pos xs i)"

lemma list_pos_less: "list_pos xs p = Some n \<Longrightarrow> n < length xs"
  by (auto simp: list_pos_def py_pos_def Let_def split: option.splits if_splits)

lemma list_pos_update [simp]: "list_pos (xs[n := x]) p = list_pos xs p"
  by (simp add: list_pos_def py_pos_def split: option.split)

fun child :: "pyval \<Rightarrow> string \<Rightarrow> pyval option" where
  "child (PDict kvs) part = map_of kvs part"
| "child (PList xs) part = map_option ((!) xs) (list_pos xs part)"
| "child _ part = None"

fun put_child :: "pyval \<Rightarrow> string \<Rightarrow> pyval \<Rightarrow> pyval option" where
  "put_child (PDict kvs) part x =
     (if map_of kvs part = None then None else Some (PDict (AList.update part x kvs)))"
| "put_child (PList xs) part x = map_option (\<lambda>n. PList (xs[n := x])) (list_pos xs part)"
| "put_child _ part x = None"

fun descend :: "pyval \<Rightarrow> string list \<Rightarrow> pyval option" where
  "descend doc [] = Some doc"
| "descend doc (p # ps) = (case child doc p of None \<Rightarrow> None | Some c \<Rightarrow> descend c ps)"

definition pointer_parent :: "pyval \<Rightarrow> string \<Rightarrow> (pyval \<times> string) option" where
  "pointer_parent doc pointer =
     (let parts = pointer_parts pointer
      in map_option (\<lambda>cursor. (cursor, last parts)) (descend doc (butlast parts)))"

text \<open>\<open>(False, None)\<close> of the source is \<open>None\<close> here.\<close>

definition get_pointer :: "pyval \<Rightarrow> string \<Rightarrow> pyval option" where
  "get_pointer doc pointer =
     (case pointer_parent doc pointer of None \<Rightarrow> None | Some (cursor, leaf) \<Rightarrow> child cursor leaf)"

text \<open>The assignment below the parent is done in place; here the path to it is rebuilt.\<close>

fun put_path :: "pyval \<Rightarrow> string list \<Rightarrow> pyval \<Rightarrow> pyval option" where
  "put_path doc [] x = Some x"
| "put_path doc (p # ps) x =
     (case child doc p of None \<Rightarrow> None
      | Some c \<Rightarrow> (case put_path c ps x of None \<Rightarrow> None | Some c' \<Rightarrow> put_child doc p c'))"

definition set_pointer :: "pyval \<Rightarrow> string \<Rightarrow> pyval \<Rightarrow> pyval res" where
  "set_pointer doc pointer x =
     (case put_path doc (pointer_parts pointer) x of
        None \<Rightarrow> Inl (ValidationError ''recorded observation pointer disappeared'')
      | Some doc' \<Rightarrow> Inr doc')"

section \<open>Projection\<close>

record projection =
  proj_value :: pyval
  proj_evidence :: "pyval list"

definition observation_marker :: pyval where
  "observation_marker = PStr ''<recorded-framework-observation>''"

definition observation_evidence :: "host \<Rightarrow> string \<Rightarrow> pyval \<Rightarrow> pyval" where
  "observation_evidence h pointer actual =
     PDict [(''json_pointer'', PStr pointer), (''kind'', PStr ''recorded-framework-observation''),
            (''actual_sha256'', PStr (sha256_json h actual))]"

definition project_field :: "host \<Rightarrow> pyval \<Rightarrow> projection \<Rightarrow> projection res" where
  "project_field h field pr =
     (let pointer = str_of (pget field ''json_pointer'') in
      case get_pointer (proj_value pr) pointer of
        None \<Rightarrow> if truthy (pget field ''optional'') then Inr pr
                else Inl (ValidationError ''recorded observation field is missing'')
      | Some actual \<Rightarrow>
          bindR (set_pointer (proj_value pr) pointer observation_marker)
            (\<lambda>v. Inr \<lparr>proj_value = v,
                      proj_evidence = proj_evidence pr @ [observation_evidence h pointer actual]\<rparr>))"

definition project_result :: "host \<Rightarrow> pyval \<Rightarrow> pyval \<Rightarrow> projection res" where
  "project_result h value contract =
     bindR (validate_result_contract contract) (\<lambda>_.
       if pget contract ''kind'' = PStr ''exact'' then Inr \<lparr>proj_value = value, proj_evidence = []\<rparr>
       else foldR (project_field h) (items_of (pget contract ''fields''))
              \<lparr>proj_value = value, proj_evidence = []\<rparr>)"

section \<open>Laws of the pointer operations\<close>

lemma pointer_parts_nonempty [simp]: "pointer_parts p \<noteq> []"
  by (simp add: pointer_parts_def)

lemma descend_append: "descend doc (ps @ qs) = (case descend doc ps of None \<Rightarrow> None | Some c \<Rightarrow> descend c qs)"
  by (induction ps arbitrary: doc) (auto split: option.splits)

lemma get_pointer_descend: "get_pointer doc pointer = descend doc (pointer_parts pointer)"
proof -
  have "descend doc (pointer_parts pointer) =
      descend doc (butlast (pointer_parts pointer) @ [last (pointer_parts pointer)])"
    by simp
  then show ?thesis
    by (simp only: descend_append)
       (auto simp: get_pointer_def pointer_parent_def Let_def split: option.splits)
qed

lemma put_child_exists: "child doc p = Some c \<Longrightarrow> \<exists>d. put_child doc p x = Some d"
  by (cases doc) auto

lemma put_child_child: "put_child doc p x = Some d \<Longrightarrow> child d p = Some x"
  by (cases doc) (auto simp: update_conv' list_pos_less split: if_splits)

lemma put_child_other:
  assumes "put_child doc p x = Some d"
  shows "child d q = child doc q \<or> child d q = Some x \<and> child doc q = child doc p"
proof (cases doc)
  case (PList xs)
  with assms obtain n where n: "list_pos xs p = Some n" "d = PList (xs[n := x])" by auto
  then show ?thesis
    using PList by (cases "list_pos xs q") (auto simp: nth_list_update list_pos_less)
next
  case (PDict kvs)
  with assms show ?thesis by (auto simp: update_conv' split: if_splits)
qed (use assms in simp_all)

lemma put_path_exists: "descend doc ps = Some c \<Longrightarrow> \<exists>d. put_path doc ps x = Some d"
proof (induction ps arbitrary: doc)
  case Nil
  then show ?case by simp
next
  case (Cons p ps)
  then obtain c' where c': "child doc p = Some c'" "descend c' ps = Some c"
    by (auto split: option.splits)
  from Cons.IH[OF c'(2)] obtain d where "put_path c' ps x = Some d" by blast
  with c' put_child_exists[OF c'(1), of d] show ?case by simp
qed

lemma put_path_descend: "put_path doc ps x = Some d \<Longrightarrow> descend d ps = Some x"
proof (induction ps arbitrary: doc d)
  case Nil
  then show ?case by simp
next
  case (Cons p ps)
  then show ?case by (auto split: option.splits dest: put_child_child)
qed

text \<open>
  Once a position is absent or holds a text, storing a text anywhere keeps it absent or
  replaces it by that text: nothing can be stored below a text.
\<close>

lemma put_path_keeps_masked:
  assumes "put_path doc qs (PStr m) = Some d" and "descend doc ps \<in> {None, Some (PStr m)}"
  shows "descend d ps \<in> {None, Some (PStr m)}"
  using assms
proof (induction ps arbitrary: doc d qs)
  case Nil
  then show ?case by (cases qs) (auto split: option.splits)
next
  case (Cons p ps)
  show ?case
  proof (cases qs)
    case Nil
    with Cons.prems(1) have "d = PStr m" by simp
    then show ?thesis by simp
  next
    case qs: (Cons q qs')
    with Cons.prems(1) obtain c c' where c: "child doc q = Some c" "put_path c qs' (PStr m) = Some c'"
      "put_child doc q c' = Some d"
      by (auto split: option.splits)
    from put_child_other[OF c(3), of p] show ?thesis
    proof
      assume "child d p = child doc p"
      with Cons.prems(2) show ?thesis by (auto split: option.splits)
    next
      assume p: "child d p = Some c' \<and> child doc p = child doc q"
      with Cons.prems(2) c(1) have "descend c ps \<in> {None, Some (PStr m)}" by (auto split: option.splits)
      with Cons.IH[OF c(2)] p show ?thesis by simp
    qed
  qed
qed

text \<open>Storing at a position twice is storing the second value.\<close>

lemma put_child_twice: "put_child doc p x = Some d \<Longrightarrow> put_child d p y = put_child doc p y"
  by (cases doc) (auto simp: update_conv' split: if_splits)

lemma put_path_twice: "put_path doc ps x = Some d \<Longrightarrow> put_path d ps y = put_path doc ps y"
proof (induction ps arbitrary: doc d)
  case Nil
  then show ?case by simp
next
  case (Cons p ps)
  then obtain c c' where c: "child doc p = Some c" "put_path c ps x = Some c'" "put_child doc p c' = Some d"
    by (auto split: option.splits)
  from Cons.IH[OF c(2)] c(1) put_child_child[OF c(3)] put_child_twice[OF c(3)] show ?case
    by (auto split: option.splits)
qed


section \<open>What a projection guarantees\<close>

text \<open>
  The interface the projection loop relies on: a document with positions that can be read and
  overwritten, and a mark below which nothing can be stored.
\<close>

locale markable =
  fixes get :: "'d \<Rightarrow> 'p \<Rightarrow> 'v option"
    and put :: "'d \<Rightarrow> 'p \<Rightarrow> 'v \<Rightarrow> 'd res"
    and mark :: 'v
  assumes put_defined: "get d p = Some v \<Longrightarrow> \<exists>d'. put d p x = Inr d'"
    and get_put: "put d p x = Inr d' \<Longrightarrow> get d' p = Some x"
    and put_put: "put d p x = Inr d' \<Longrightarrow> put d' p y = put d p y"
    and put_keeps_marks:
      "put d q mark = Inr d' \<Longrightarrow> get d p \<in> {None, Some mark} \<Longrightarrow> get d' p \<in> {None, Some mark}"
begin

definition hidden :: "'d \<Rightarrow> 'p \<Rightarrow> bool" where
  "hidden d p \<longleftrightarrow> get d p \<in> {None, Some mark}"

fun mark_field :: "'p \<times> bool \<Rightarrow> 'd \<Rightarrow> 'd res" where
  "mark_field (p, optional) d =
     (case get d p of
        None \<Rightarrow> if optional then Inr d else Inl (ValidationError ''recorded observation field is missing'')
      | Some _ \<Rightarrow> put d p mark)"

lemma mark_field_hides: "mark_field f d = Inr d' \<Longrightarrow> hidden d' (fst f)"
  by (cases f) (auto simp: hidden_def get_put split: option.splits if_splits)

lemma mark_field_keeps: "mark_field f d = Inr d' \<Longrightarrow> hidden d p \<Longrightarrow> hidden d' p"
  by (cases f) (auto simp: hidden_def split: option.splits if_splits dest: put_keeps_marks)

lemma mark_all_hides:
  "foldR mark_field fs d = Inr d' \<Longrightarrow> hidden d p \<or> p \<in> fst ` set fs \<Longrightarrow> hidden d' p"
proof (induction fs arbitrary: d)
  case Nil
  then show ?case by simp
next
  case (Cons f fs)
  then obtain e where e: "mark_field f d = Inr e" "foldR mark_field fs e = Inr d'"
    by (auto simp: bindR_eq_Inr)
  have "hidden e p \<or> p \<in> fst ` set fs"
    using Cons.prems(2) mark_field_hides[OF e(1)] mark_field_keeps[OF e(1)] by auto
  with Cons.IH[OF e(2)] show ?case .
qed

lemma mark_all_optional_defined:
  "\<forall>f \<in> set fs. snd f \<Longrightarrow> \<exists>d'. foldR mark_field fs d = Inr d'"
proof (induction fs arbitrary: d)
  case Nil
  then show ?case by simp
next
  case (Cons f fs)
  have "\<exists>e. mark_field f d = Inr e"
    using Cons.prems put_defined by (cases f) (fastforce split: option.splits)
  with Cons show ?case by (auto simp: bindR_eq_Inr)
qed

end

lemma set_pointer_eq_Inr:
  "set_pointer d p x = Inr d' \<longleftrightarrow> put_path d (pointer_parts p) x = Some d'"
  by (simp add: set_pointer_def split: option.splits)

interpretation obs: markable get_pointer set_pointer observation_marker
proof
  show "\<exists>d'. set_pointer d p x = Inr d'" if "get_pointer d p = Some v" for d p v x
    using that by (simp add: set_pointer_eq_Inr get_pointer_descend put_path_exists)
  show "get_pointer d' p = Some x" if "set_pointer d p x = Inr d'" for d p x d'
    using that by (simp add: set_pointer_eq_Inr get_pointer_descend put_path_descend)
  show "set_pointer d' p y = set_pointer d p y" if "set_pointer d p x = Inr d'" for d p x y d'
    using that put_path_twice[of d "pointer_parts p" x d' y]
    by (simp add: set_pointer_eq_Inr) (simp add: set_pointer_def)
  show "get_pointer d' p \<in> {None, Some observation_marker}"
    if "set_pointer d q observation_marker = Inr d'" "get_pointer d p \<in> {None, Some observation_marker}"
    for d q p d'
    using that unfolding set_pointer_eq_Inr get_pointer_descend observation_marker_def
    by (rule put_path_keeps_masked)
qed

definition field_spec :: "pyval \<Rightarrow> string \<times> bool" where
  "field_spec field = (str_of (pget field ''json_pointer''), truthy (pget field ''optional''))"

text \<open>The projection is the marking of its declared fields, with evidence on the side.\<close>

lemma project_field_value:
  "map_sum id proj_value (project_field h field pr) = obs.mark_field (field_spec field) (proj_value pr)"
  by (simp add: project_field_def field_spec_def Let_def bindR_def split: option.splits sum.splits)

lemma project_fields_value:
  "map_sum id proj_value (foldR (project_field h) fds pr) =
     foldR obs.mark_field (map field_spec fds) (proj_value pr)"
proof (induction fds arbitrary: pr)
  case Nil
  then show ?case by simp
next
  case (Cons field fds)
  show ?case
  proof (cases "project_field h field pr")
    case (Inl e)
    then have "obs.mark_field (field_spec field) (proj_value pr) = Inl e"
      using project_field_value[of h field pr] by simp
    with Inl show ?thesis by simp
  next
    case (Inr pr')
    then have "obs.mark_field (field_spec field) (proj_value pr) = Inr (proj_value pr')"
      using project_field_value[of h field pr] by simp
    with Inr Cons.IH[of pr'] show ?thesis by simp
  qed
qed



end
