(* ===== verification/Contracts.thy ===== *)
theory Contracts
  imports Util
begin

text \<open>
  contracts.py: the names that stand for the directories of a run, the fields of a native
  operation that hold paths, and the binding of those fields to run-independent names and back.

  A path is a text; \<open>resolve_path\<close> of the host stands for \<open>Path.resolve\<close>.
\<close>

section \<open>Paths\<close>

definition path_join :: "string \<Rightarrow> string \<Rightarrow> string" where
  "path_join base name = (if base = ''/'' then base @ name else base @ ''/'' @ name)"

definition LOGICAL_WORKSPACE :: string where "LOGICAL_WORKSPACE = ''/native-workspace''"
definition LOGICAL_RUN :: string where "LOGICAL_RUN = ''/native-run''"
definition LOGICAL_REPO :: string where "LOGICAL_REPO = ''/native-repo''"

type_synonym path_map = "(string \<times> string) list"

definition typed_path_fields :: "string \<Rightarrow> string list res" where
  "typed_path_fields adapter =
     (if adapter = ''mini-swe'' then Inr [''cwd'']
      else if adapter = ''trae'' then Inr [''path'', ''file_path'', ''cwd'']
      else if adapter = ''coral''
        then Inr [''filePath'', ''filepath'', ''outputPath'', ''file'', ''path'', ''dir'', ''cwd'', ''physical_path'']
      else if adapter = ''owl'' then Inr [''path'', ''file_path'', ''cwd'', ''physical_path'']
      else Inl (PyError ''KeyError''))"

text \<open>The first binding, in the order given, whose directory is the value or holds it.\<close>

fun bind_first :: "string \<Rightarrow> path_map \<Rightarrow> string" where
  "bind_first v [] = v"
| "bind_first v ((physical0, logical0) # rest) =
     (let physical = rstrip_char (CHR ''/'') physical0;
          logical = rstrip_char (CHR ''/'') logical0
      in if v = physical then logical
         else if starts_with (physical @ ''/'') v then logical @ drop (length physical) v
         else bind_first v rest)"

definition bind_deployment_path :: "string \<Rightarrow> path_map \<Rightarrow> string" where
  "bind_deployment_path v mapping = bind_first v (sort_longest fst mapping)"

definition run_path_map :: "host \<Rightarrow> string \<Rightarrow> string \<Rightarrow> path_map" where
  "run_path_map h run_root repo =
     fold (\<lambda>(k, v) m. AList.update k v m)
       [(resolve_path h (path_join run_root ''workspace''), LOGICAL_WORKSPACE),
        (resolve_path h run_root, LOGICAL_RUN),
        (resolve_path h repo, LOGICAL_REPO)] []"

text \<open>The directories an explicit workspace, or the run's own one, gives the logical names.\<close>

definition live_workspace :: "host \<Rightarrow> string \<Rightarrow> string option \<Rightarrow> string" where
  "live_workspace h run_root workspace_path =
     resolve_path h (case workspace_path of Some w \<Rightarrow> w | None \<Rightarrow> path_join run_root ''workspace'')"

section \<open>Typed fields\<close>

fun bind_fields :: "string list \<Rightarrow> path_map \<Rightarrow> string option \<Rightarrow> pyval \<Rightarrow> pyval" where
  "bind_fields declared pm field (PDict kvs) =
     PDict (map (\<lambda>kv. (fst kv, bind_fields declared pm (Some (fst kv)) (snd kv))) kvs)"
| "bind_fields declared pm field (PList xs) = PList (map (bind_fields declared pm field) xs)"
| "bind_fields declared pm field (PStr s) =
     PStr (if field \<in> Some ` set declared then bind_deployment_path s pm else s)"
| "bind_fields declared pm field v = v"

definition bind_typed_fields :: "string \<Rightarrow> pyval \<Rightarrow> path_map \<Rightarrow> pyval res" where
  "bind_typed_fields adapter v pm =
     bindR (typed_path_fields adapter) (\<lambda>declared. Inr (bind_fields declared pm None v))"

definition to_physical :: "host \<Rightarrow> string \<Rightarrow> pyval \<Rightarrow> string \<Rightarrow> string \<Rightarrow> string option \<Rightarrow> pyval res" where
  "to_physical h adapter v run_root repo workspace_path =
     bind_typed_fields adapter v
       [(LOGICAL_WORKSPACE, live_workspace h run_root workspace_path),
        (LOGICAL_RUN, resolve_path h run_root),
        (LOGICAL_REPO, resolve_path h repo)]"

definition rebind_typed_fields :: "host \<Rightarrow> string \<Rightarrow> pyval \<Rightarrow> path_map \<Rightarrow> string \<Rightarrow> pyval res" where
  "rebind_typed_fields h adapter v source_path_map run_root =
     bindR (bind_typed_fields adapter v source_path_map) (\<lambda>logical.
       bind_typed_fields adapter logical
         [(LOGICAL_WORKSPACE, resolve_path h (path_join run_root ''workspace'')),
          (LOGICAL_RUN, resolve_path h run_root)])"

section \<open>Bindings recovered from one recorded operation\<close>

text \<open>
  The common keys of two dictionaries are visited in the order of the native one; the source
  visits them in the order of a set, which only changes the order of the bindings found.
\<close>

fun visit_recorded :: "string list \<Rightarrow> string option \<Rightarrow> pyval \<Rightarrow> pyval \<Rightarrow> path_map \<Rightarrow> path_map res" where
  "visit_recorded declared field (PDict ns) (PDict ls) m =
     foldR (\<lambda>kv acc. case map_of ls (fst kv) of
              None \<Rightarrow> Inr acc
            | Some l \<Rightarrow> visit_recorded declared (Some (fst kv)) (snd kv) l acc) ns m"
| "visit_recorded declared field (PList ns) (PList ls) m =
     foldR (\<lambda>nl acc. visit_recorded declared field (fst nl) (snd nl) acc) (zip ns ls) m"
| "visit_recorded declared field (PStr n) (PStr l) m =
     (if field \<in> Some ` set declared \<and> n \<noteq> l then
        (case map_of m n of
           None \<Rightarrow> Inr (AList.update n l m)
         | Some previous \<Rightarrow> if previous = l then Inr m else Inl (PyError ''ValueError''))
      else Inr m)"
| "visit_recorded declared field native logical m = Inr m"

definition recorded_path_map :: "string \<Rightarrow> pyval \<Rightarrow> pyval \<Rightarrow> path_map res" where
  "recorded_path_map adapter native logical =
     bindR (typed_path_fields adapter) (\<lambda>declared. visit_recorded declared None native logical [])"

definition workspace_binding :: "string \<times> string \<Rightarrow> path_map \<Rightarrow> path_map" where
  "workspace_binding pl m =
     (let (physical, logical) = pl; root = LOGICAL_WORKSPACE in
      if logical = root then AList.update physical root m
      else if \<not> starts_with (root @ ''/'') logical then m
      else let suffix = drop (length root) logical in
           if ends_with suffix physical
           then AList.update (take (length physical - length suffix) physical) root m
           else m)"

definition recorded_workspace_path_map :: "string \<Rightarrow> pyval \<Rightarrow> pyval \<Rightarrow> path_map res" where
  "recorded_workspace_path_map adapter native logical =
     bindR (recorded_path_map adapter native logical) (\<lambda>pm. Inr (fold workspace_binding pm []))"

section \<open>Paths inside CORAL shell commands\<close>

fun map_commands :: "(string \<Rightarrow> string) \<Rightarrow> string option \<Rightarrow> pyval \<Rightarrow> pyval" where
  "map_commands f field (PDict kvs) =
     PDict (map (\<lambda>kv. (fst kv, map_commands f (Some (fst kv)) (snd kv))) kvs)"
| "map_commands f field (PList xs) = PList (map (map_commands f field) xs)"
| "map_commands f field (PStr s) = PStr (if field = Some ''command'' then f s else s)"
| "map_commands f field v = v"

definition rebind_embedded_coral_paths ::
    "host \<Rightarrow> pyval \<Rightarrow> path_map \<Rightarrow> string \<Rightarrow> string option \<Rightarrow> pyval" where
  "rebind_embedded_coral_paths h v source_path_map run_root workspace_path =
     (let deployment = [(LOGICAL_WORKSPACE, live_workspace h run_root workspace_path),
                        (LOGICAL_RUN, resolve_path h run_root)];
          replacements = sort_longest fst
            (List.map_filter (\<lambda>(physical, logical).
               map_option (\<lambda>live. (physical, live)) (map_of deployment logical)) source_path_map)
      in map_commands (\<lambda>s. fold (\<lambda>(physical, live) r. str_replace physical live r) replacements s) None v)"

definition restore_embedded_coral_source_paths ::
    "host \<Rightarrow> pyval \<Rightarrow> path_map \<Rightarrow> string \<Rightarrow> string option \<Rightarrow> pyval" where
  "restore_embedded_coral_source_paths h v source_path_map run_root workspace_path =
     (let live = live_workspace h run_root workspace_path;
          source_workspaces = sort_longest id
            (map fst (filter (\<lambda>(physical, logical). logical = LOGICAL_WORKSPACE) source_path_map))
      in case source_workspaces of
           [] \<Rightarrow> v
         | source_workspace # _ \<Rightarrow> map_commands (str_replace live source_workspace) None v)"

section \<open>Binding and expanding again\<close>

text \<open>A value lies under a directory: it is the directory or continues it with a slash.\<close>

definition under :: "string \<Rightarrow> string \<Rightarrow> bool" where
  "under d v \<longleftrightarrow> v = d \<or> starts_with (d @ ''/'') v"

lemma under_iff: "under d v \<longleftrightarrow> (\<exists>t. v = d @ t \<and> (t = [] \<or> hd t = CHR ''/''))"
proof
  assume "under d v"
  then show "\<exists>t. v = d @ t \<and> (t = [] \<or> hd t = CHR ''/'')"
    by (auto simp: under_def starts_with_iff)
next
  assume "\<exists>t. v = d @ t \<and> (t = [] \<or> hd t = CHR ''/'')"
  then obtain t where "v = d @ t" "t = [] \<or> hd t = CHR ''/''" by blast
  then show "under d v"
    by (cases t) (auto simp: under_def starts_with_iff)
qed

definition clean_dir :: "string \<Rightarrow> bool" where
  "clean_dir d \<longleftrightarrow> d \<noteq> [] \<and> last d \<noteq> CHR ''/''"

lemma rstrip_clean: "clean_dir d \<Longrightarrow> rstrip_char (CHR ''/'') d = d"
  by (cases d rule: rev_cases) (simp_all add: clean_dir_def rstrip_char_def)

lemma bind_first_find:
  assumes "\<forall>(p, l) \<in> set m. clean_dir p \<and> clean_dir l"
  shows "bind_first v m =
    (case find (\<lambda>(p, l). under p v) m of None \<Rightarrow> v | Some (p, l) \<Rightarrow> l @ drop (length p) v)"
  using assms
  by (induction m) (auto simp: rstrip_clean under_def Let_def split: option.splits if_splits)

lemma under_comparable:
  assumes "under d v" "under e v" "\<not> under d e" "\<not> under e d"
  shows False
proof -
  obtain s where s: "v = d @ s" "s = [] \<or> hd s = CHR ''/''"
    using assms(1) unfolding under_iff by blast
  obtain t where t: "v = e @ t" "t = [] \<or> hd t = CHR ''/''"
    using assms(2) unfolding under_iff by blast
  from s t obtain u where "d = e @ u \<and> t = u @ s \<or> e = d @ u \<and> s = u @ t"
    by (metis append_eq_append_conv2)
  then show False
  proof
    assume u: "d = e @ u \<and> t = u @ s"
    with t have "u = [] \<or> hd u = CHR ''/''" by (cases u) auto
    with u assms(4) show False by (auto simp: under_iff)
  next
    assume u: "e = d @ u \<and> s = u @ t"
    with s have "u = [] \<or> hd u = CHR ''/''" by (cases u) auto
    with u assms(3) show False by (auto simp: under_iff)
  qed
qed

text \<open>
  The bindings \<open>expand\<close> undo the bindings \<open>m\<close> on every value that is not already under one of
  the logical names, when no logical name lies under another one.
\<close>

lemma bind_inverse:
  assumes clean: "\<forall>(p, l) \<in> set m. clean_dir p \<and> clean_dir l" "\<forall>(l, p) \<in> set expand. clean_dir p \<and> clean_dir l"
    and expand: "\<forall>(p, l) \<in> set m. (l, p) \<in> set expand"
    and dist: "distinct (map fst expand)"
    and apart: "\<forall>l \<in> fst ` set expand. \<forall>l' \<in> fst ` set expand. l \<noteq> l' \<longrightarrow> \<not> under l l'"
    and outside: "\<forall>l \<in> fst ` set expand. \<not> under l v"
  shows "bind_deployment_path (bind_deployment_path v m) expand = v"
proof (cases "find (\<lambda>(p, l). under p v) (sort_longest fst m)")
  case None
  then have "bind_deployment_path v m = v"
    using clean(1) by (subst bind_deployment_path_def, subst bind_first_find) auto
  moreover have "find (\<lambda>(l, p). under l v) (sort_longest fst expand) = None"
    unfolding find_None_iff set_sort_longest using outside by auto
  then have "bind_deployment_path v expand = v"
    using clean(2) by (subst bind_deployment_path_def, subst bind_first_find) auto
  ultimately show ?thesis by simp
next
  case (Some pl)
  obtain p l where pl: "pl = (p, l)" by (cases pl)
  with Some have mem: "(p, l) \<in> set m" and up: "under p v"
    by (auto simp: find_Some_iff dest!: arg_cong[where f = set] nth_mem)
  let ?w = "l @ drop (length p) v"
  have w: "bind_deployment_path v m = ?w"
    using clean(1) Some pl by (subst bind_deployment_path_def, subst bind_first_find) auto
  have ul: "under l ?w" using up by (auto simp: under_iff)
  have linv: "(l, p) \<in> set expand" using expand mem by auto
  have only: "l' = l" if "(l', p') \<in> set expand" "under l' ?w" for l' p'
    using under_comparable[OF ul that(2)] apart linv that(1) by force
  have "find (\<lambda>(l, p). under l ?w) (sort_longest fst expand) \<noteq> None"
    unfolding find_None_iff set_sort_longest using linv ul by auto
  then obtain l' p' where f: "find (\<lambda>(l, p). under l ?w) (sort_longest fst expand) = Some (l', p')"
    by auto
  then have "(l', p') \<in> set expand" "under l' ?w"
    by (auto simp: find_Some_iff dest!: nth_mem)
  with only[OF this] linv dist have "l' = l" "p' = p"
    by (auto dest: eq_key_imp_eq_value)
  with f have "bind_deployment_path ?w expand = p @ drop (length p) v"
    using clean(2) by (subst bind_deployment_path_def, subst bind_first_find) auto
  with w up show ?thesis by (auto simp: under_iff)
qed

text \<open>The paths in the declared fields of a value.\<close>

fun typed_paths :: "string list \<Rightarrow> string option \<Rightarrow> pyval \<Rightarrow> string list" where
  "typed_paths declared field (PDict kvs) =
     concat (map (\<lambda>kv. typed_paths declared (Some (fst kv)) (snd kv)) kvs)"
| "typed_paths declared field (PList xs) = concat (map (typed_paths declared field) xs)"
| "typed_paths declared field (PStr s) = (if field \<in> Some ` set declared then [s] else [])"
| "typed_paths declared field v = []"

lemma bind_fields_inverse:
  assumes "\<forall>s \<in> set (typed_paths declared field v).
      bind_deployment_path (bind_deployment_path s m) expand = s"
  shows "bind_fields declared expand field (bind_fields declared m field v) = v"
  using assms
proof (induction declared m field v rule: bind_fields.induct)
  case (1 declared pm field kvs)
  then show ?case by (auto simp: o_def intro!: map_idI)
next
  case (2 declared pm field xs)
  then show ?case by (auto simp: o_def intro!: map_idI)
qed simp_all

lemma run_path_map_distinct:
  assumes "distinct [resolve_path h (path_join run_root ''workspace''), resolve_path h run_root, resolve_path h repo]"
  shows "run_path_map h run_root repo =
    [(resolve_path h (path_join run_root ''workspace''), LOGICAL_WORKSPACE),
     (resolve_path h run_root, LOGICAL_RUN), (resolve_path h repo, LOGICAL_REPO)]"
  using assms by (simp add: run_path_map_def)

text \<open>
  C3: reducing the declared path fields of an operation to run-independent names and expanding
  them in the same run gives back exactly the operation, whatever else it contains, provided
  no path already starts with one of the reserved names.
\<close>

theorem run_paths_roundtrip:
  assumes adapter: "typed_path_fields adapter = Inr declared"
    and dirs: "distinct [resolve_path h (path_join run_root ''workspace''), resolve_path h run_root, resolve_path h repo]"
      "clean_dir (resolve_path h (path_join run_root ''workspace''))"
      "clean_dir (resolve_path h run_root)" "clean_dir (resolve_path h repo)"
    and outside: "\<forall>s \<in> set (typed_paths declared None v).
      \<forall>l \<in> {LOGICAL_WORKSPACE, LOGICAL_RUN, LOGICAL_REPO}. \<not> under l s"
  shows "bindR (bind_typed_fields adapter v (run_path_map h run_root repo))
    (\<lambda>logical. to_physical h adapter logical run_root repo None) = Inr v"
proof -
  let ?m = "run_path_map h run_root repo"
  let ?expand = "[(LOGICAL_WORKSPACE, live_workspace h run_root None),
        (LOGICAL_RUN, resolve_path h run_root), (LOGICAL_REPO, resolve_path h repo)]"
  have logical: "clean_dir LOGICAL_WORKSPACE \<and> clean_dir LOGICAL_RUN \<and> clean_dir LOGICAL_REPO"
    by code_simp
  have "distinct [LOGICAL_WORKSPACE, LOGICAL_RUN, LOGICAL_REPO] \<and>
      (\<forall>l \<in> {LOGICAL_WORKSPACE, LOGICAL_RUN, LOGICAL_REPO}.
        \<forall>l' \<in> {LOGICAL_WORKSPACE, LOGICAL_RUN, LOGICAL_REPO}. l \<noteq> l' \<longrightarrow> \<not> under l l')"
    by code_simp
  then have "bind_deployment_path (bind_deployment_path s ?m) ?expand = s"
    if "s \<in> set (typed_paths declared None v)" for s
    using that outside dirs logical unfolding run_path_map_distinct[OF dirs(1)]
    by (intro bind_inverse) (simp_all add: live_workspace_def)
  then have "bind_fields declared ?expand None (bind_fields declared ?m None v) = v"
    by (intro bind_fields_inverse) blast
  with adapter show ?thesis by (simp add: bind_typed_fields_def to_physical_def)
qed

theorem run_paths_roundtrip_witness:
  "bindR (bind_typed_fields ''trae'' (PDict [(''path'', PStr ''/data/run7/workspace/a.py''), (''command'', PStr ''view'')])
            (run_path_map plain_host ''/data/run7'' ''/repo''))
     (\<lambda>logical. to_physical plain_host ''trae'' logical ''/data/run7'' ''/repo'' None) =
   Inr (PDict [(''path'', PStr ''/data/run7/workspace/a.py''), (''command'', PStr ''view'')])"
proof -
  let ?v = "PDict [(''path'', PStr ''/data/run7/workspace/a.py''), (''command'', PStr ''view'')]"
  have "typed_path_fields ''trae'' = Inr [''path'', ''file_path'', ''cwd'']"
    "distinct [resolve_path plain_host (path_join ''/data/run7'' ''workspace''), resolve_path plain_host ''/data/run7'', resolve_path plain_host ''/repo'']"
    "clean_dir (resolve_path plain_host (path_join ''/data/run7'' ''workspace''))"
    "clean_dir (resolve_path plain_host ''/data/run7'')" "clean_dir (resolve_path plain_host ''/repo'')"
    "\<forall>s \<in> set (typed_paths [''path'', ''file_path'', ''cwd''] None ?v).
      \<forall>l \<in> {LOGICAL_WORKSPACE, LOGICAL_RUN, LOGICAL_REPO}. \<not> under l s"
    by code_simp+
  then show ?thesis by (rule run_paths_roundtrip)
qed

end
