(* ===== verification/Schema.thy ===== *)
theory Schema
  imports Observation "HOL-Library.Product_Lexorder"
begin

text \<open>
  schema.py (with the schema names of constants.py): the validation of every record of a bundle,
  of its manifest, and of the reference graphs between records.

  A validator returns \<open>Inr ()\<close> or the first exception the source raises; each entry of a
  \<open>checks\<close> list is one statement of the source, in its order.
\<close>

section \<open>Schema names\<close>

definition MANIFEST_SCHEMA :: string where "MANIFEST_SCHEMA = ''minireplay.manifest/v2''"
definition LLM_SCHEMA :: string where "LLM_SCHEMA = ''minireplay.llm-attempt/v1''"
definition DISPATCH_SCHEMA :: string where "DISPATCH_SCHEMA = ''minireplay.dispatch/v1''"
definition TOOL_SCHEMA :: string where "TOOL_SCHEMA = ''minireplay.tool-call/v1''"
definition SPAN_SCHEMA :: string where "SPAN_SCHEMA = ''minireplay.span/v1''"
definition GRADER_SCHEMA :: string where "GRADER_SCHEMA = ''minireplay.grader/v1''"
definition ARTIFACT_SCHEMA :: string where "ARTIFACT_SCHEMA = ''minireplay.artifact/v1''"
definition TERMINAL_SCHEMA :: string where "TERMINAL_SCHEMA = ''minireplay.terminal/v1''"

section \<open>Fields\<close>

definition check_string :: "pyval \<Rightarrow> string \<Rightarrow> unit res" where
  "check_string v ctx = require (is_nonempty_str v) (ctx @ '': expected a non-empty string'')"

definition check_object :: "pyval \<Rightarrow> string \<Rightarrow> unit res" where
  "check_object v ctx = require (is_dict v) (ctx @ '': expected an object'')"

definition is_hex_char :: "char \<Rightarrow> bool" where
  "is_hex_char c \<longleftrightarrow> c \<in> set ''0123456789abcdef''"

definition check_digest :: "pyval \<Rightarrow> string \<Rightarrow> unit res" where
  "check_digest v ctx =
     checks
      [check_string v ctx,
       require (length (str_of v) = 64 \<and> list_all is_hex_char (str_of v))
         (ctx @ '': expected a sha256 hex digest'')]"

definition check_timespan :: "pyval \<Rightarrow> string \<Rightarrow> unit res" where
  "check_timespan v ctx =
     checks
      (map (\<lambda>field. require (is_int_not_bool (pget v field)) (ctx @ ''.'' @ field @ '': expected an integer''))
         [''started_at_ns'', ''ended_at_ns''] @
       [require (int_of (pget v ''started_at_ns'') \<le> int_of (pget v ''ended_at_ns''))
          (ctx @ '': ended before it started'')])"

definition check_strings :: "pyval \<Rightarrow> string \<Rightarrow> string list \<Rightarrow> unit res list" where
  "check_strings v ctx names = map (\<lambda>name. check_string (pget v name) (ctx @ ''.'' @ name)) names"

definition is_none_or_str :: "pyval \<Rightarrow> bool" where
  "is_none_or_str v \<longleftrightarrow> v = PNone \<or> is_str v"

definition is_none_or_nonempty_str :: "pyval \<Rightarrow> bool" where
  "is_none_or_nonempty_str v \<longleftrightarrow> v = PNone \<or> is_nonempty_str v"

definition check_schema :: "pyval \<Rightarrow> string \<Rightarrow> string \<Rightarrow> unit res" where
  "check_schema v schema ctx = require (pget v ''schema_version'' = PStr schema) (ctx @ '': unsupported schema'')"

section \<open>Records\<close>

definition validate_span :: "pyval \<Rightarrow> unit res" where
  "validate_span v =
     checks
      [check_schema v SPAN_SCHEMA ''span'',
       check_string (pget v ''span_id'') ''span.span_id'',
       check_string (pget v ''actor_id'') ''span.actor_id'',
       check_string (pget v ''kind'') ''span.kind'',
       require (is_none_or_str (pget v ''parent_span_id'')) ''span.parent_span_id: expected a string'',
       check_timespan v ''span'']"

definition check_arguments_digest :: "host \<Rightarrow> pyval \<Rightarrow> string \<Rightarrow> unit res" where
  "check_arguments_digest h v ctx =
     require (pget v ''arguments_sha256'' = PStr (sha256_json h (pget v ''arguments'')))
       (ctx @ '': arguments digest does not match its arguments'')"

definition validate_dispatch :: "host \<Rightarrow> pyval \<Rightarrow> unit res" where
  "validate_dispatch h v =
     checks
      ([check_schema v DISPATCH_SCHEMA ''dispatch''] @
       check_strings v ''dispatch'' [''dispatch_id'', ''span_id'', ''actor_id'', ''name''] @
       [check_object (pget v ''arguments'') ''dispatch.arguments'',
        check_arguments_digest h v ''dispatch'',
        check_object (pget v ''origin'') ''dispatch.origin'',
        check_string (pget (pget v ''origin'') ''kind'') ''dispatch.origin.kind'',
        require (is_none_or_nonempty_str (pget v ''causal_lane''))
          ''dispatch.causal_lane: expected a non-empty string or null'',
        require_in (pget v ''status'') [''executed'', ''rejected'', ''failed-before-entry'']
          ''dispatch.status: invalid resolution'',
        require (is_none_or_str (pget v ''execution_call_id''))
          ''dispatch.execution_call_id: expected a string or null'',
        require ((pget v ''status'' = PStr ''executed'') = (pget v ''execution_call_id'' \<noteq> PNone))
          ''dispatch: status and execution_call_id disagree'',
        check_timespan v ''dispatch''])"

definition STATUS :: "string list" where "STATUS = [''ok'', ''error'', ''timeout'']"

definition validate_tool :: "host \<Rightarrow> pyval \<Rightarrow> unit res" where
  "validate_tool h v =
     checks
      ([check_schema v TOOL_SCHEMA ''tool''] @
       check_strings v ''tool'' [''call_id'', ''span_id'', ''actor_id'', ''name'', ''implementation''] @
       [require (is_none_or_nonempty_str (pget v ''dispatch_id''))
          ''tool.dispatch_id: expected a non-empty string or null'',
        check_object (pget v ''arguments'') ''tool.arguments'',
        require (is_none_or_nonempty_str (pget v ''causal_lane''))
          ''tool.causal_lane: expected a non-empty string or null'',
        require (pget v ''dispatch_id'' \<noteq> PNone \<or> pget v ''causal_lane'' \<noteq> PNone)
          ''tool: a standalone tool requires a causal_lane'',
        check_arguments_digest h v ''tool'',
        validate_result_contract (pget v ''result_contract''),
        require (phas v ''result'') ''tool: framework-visible result is missing'',
        require (phas v ''native_result'') ''tool: native result evidence is missing'',
        require_in (pget v ''status'') STATUS ''tool.status: invalid status'',
        require (pget v ''native_execution'' = PBool True) ''tool: native execution proof is missing'',
        require (is_bool (pget v ''exception_raised'')) ''tool.exception_raised: expected a boolean'',
        check_timespan v ''tool''])"

definition validate_grader :: "pyval \<Rightarrow> unit res" where
  "validate_grader v =
     checks
      ([check_schema v GRADER_SCHEMA ''grader''] @
       check_strings v ''grader'' [''attempt_id'', ''span_id'', ''actor_id'', ''implementation'', ''grader_kind''] @
       [require_in (pget v ''status'') STATUS ''grader.status: invalid status'',
        check_timespan v ''grader''])"

definition validate_artifact :: "pyval \<Rightarrow> unit res" where
  "validate_artifact v =
     checks
      ([check_schema v ARTIFACT_SCHEMA ''artifact''] @
       check_strings v ''artifact'' [''event_id'', ''logical_path'', ''actor_id'', ''span_id''] @
       [require_in (pget v ''operation'') [''create'', ''write'', ''read''] ''artifact.operation: invalid operation'',
        require (is_int (pget v ''version'') \<and> 1 \<le> int_of (pget v ''version''))
          ''artifact.version: expected an integer >= 1'',
        check_digest (pget v ''bytes_sha256'') ''artifact.bytes_sha256'',
        require (is_int_not_bool (pget v ''completed_at_ns'')) ''artifact.completed_at_ns: expected an integer'',
        (if pget v ''operation'' = PStr ''read''
         then check_string (pget v ''read_from'') ''artifact.read_from''
         else require (pget v ''read_from'' = PNone) ''artifact: a producer event cannot have read_from'')])"

definition check_ordered_request :: "host \<Rightarrow> pyval \<Rightarrow> unit res" where
  "check_ordered_request h v =
     (let ordered = pget v ''request_ordered_json'' in
      if ordered = PNone then Inr ()
      else bindR (require (is_nonempty_str ordered) ''llm.request_ordered_json: expected a non-empty string'')
        (\<lambda>_. case json_loads h (str_of ordered) of
            None \<Rightarrow> Inl (ValidationError ''llm.request_ordered_json: malformed JSON'')
          | Some decoded \<Rightarrow>
              require (is_dict decoded \<and> py_eq decoded (pget v ''request''))
                ''llm.request_ordered_json: ordered request does not match request''))"

definition check_token_list :: "pyval \<Rightarrow> string \<Rightarrow> unit res list" where
  "check_token_list v field =
     [require (is_list (pget v field)) (''llm.'' @ field @ '': expected a list''),
      require (list_all is_int_not_bool (items_of (pget v field)))
        (''llm.'' @ field @ '': expected integer token IDs'')]"

definition validate_llm :: "host \<Rightarrow> pyval \<Rightarrow> unit res" where
  "validate_llm h v =
     checks
      ([check_schema v LLM_SCHEMA ''llm''] @
       check_strings v ''llm''
         [''attempt_id'', ''span_id'', ''actor_id'', ''session_id'', ''role'', ''target_id'', ''api''] @
       [require (is_int (pget v ''sequence'') \<and> 0 \<le> int_of (pget v ''sequence''))
          ''llm.sequence: expected a non-negative integer'',
        check_object (pget v ''request'') ''llm.request'',
        check_ordered_request h v,
        require (pget v ''request_sha256'' = PStr (sha256_json h (pget v ''request'')))
          ''llm: request digest does not match its request'',
        check_digest (pget v ''request_shape_sha256'') ''llm.request_shape_sha256'',
        require (phas v ''response'') ''llm: response is missing'',
        require (is_bool (pget v ''stream'')) ''llm.stream: expected a boolean'',
        require (is_int_not_bool (pget v ''status_code'')) ''llm.status_code: expected an integer''] @
       check_token_list v ''prompt_token_ids'' @ check_token_list v ''response_token_ids'')"

definition validate_terminal :: "pyval \<Rightarrow> unit res" where
  "validate_terminal v =
     checks
      [check_schema v TERMINAL_SCHEMA ''terminal'',
       require_in (pget v ''status'') [''success'', ''failure''] ''terminal.status: invalid status'',
       require (is_list (pget v ''task_terminals'')) ''terminal.task_terminals: expected a list'']"

section \<open>The manifest\<close>

definition actor_id_of :: "pyval \<Rightarrow> string" where
  "actor_id_of v = str_of (pget v ''actor_id'')"

fun check_lanes :: "string list \<Rightarrow> string list \<Rightarrow> pyval list \<Rightarrow> unit res" where
  "check_lanes actor_ids lane_ids [] = Inr ()"
| "check_lanes actor_ids lane_ids (lane # lanes) =
     bindR (checks
       [check_object lane ''manifest.lanes[]'',
        check_string (pget lane ''actor_id'') ''manifest.lanes[].actor_id'',
        check_string (pget lane ''path'') ''manifest.lanes[].path'',
        check_object (pget lane ''counts'') ''manifest.lanes[].counts'',
        require (actor_id_of lane \<in> set actor_ids) ''manifest.lanes: undeclared actor'',
        require (actor_id_of lane \<notin> set lane_ids) ''manifest.lanes: duplicate actor''])
       (\<lambda>_. check_lanes actor_ids (actor_id_of lane # lane_ids) lanes)"

text \<open>The parent lane of a team attempt with its members.\<close>

definition attempt_group :: "pyval \<Rightarrow> pyval list" where
  "attempt_group attempt = pget attempt ''team_actor_id'' # items_of (pget attempt ''agent_actor_ids'')"

fun check_attempts ::
    "string list \<Rightarrow> int \<Rightarrow> int \<Rightarrow> pyval list \<Rightarrow> string list \<Rightarrow> string list res" where
  "check_attempts actor_ids expected_slot generation [] topology = Inr topology"
| "check_attempts actor_ids expected_slot generation (attempt # attempts) topology =
     (let members = pget attempt ''agent_actor_ids''; group = attempt_group attempt in
      bindR (checks
       [check_object attempt ''manifest.concurrency_window.slots[].attempts[]'',
        require (py_eq (pget attempt ''team_slot'') (PInt expected_slot) \<and>
                 py_eq (pget attempt ''slot_generation'') (PInt generation))
          ''manifest.concurrency_window: invalid slot generation'',
        check_string (pget attempt ''team_actor_id'') ''manifest.concurrency_window.team_actor_id'',
        require (is_list members \<and> length (items_of members) = 4)
          ''manifest.concurrency_window.agent_actor_ids: expected four lanes'',
        require (list_all (\<lambda>a. is_str a \<and> str_of a \<in> set actor_ids) group)
          ''manifest.concurrency_window: undeclared actor'',
        require (set topology \<inter> set (map str_of group) = {})
          ''manifest.concurrency_window: actor appears in multiple team attempts''])
       (\<lambda>_. check_attempts actor_ids expected_slot (generation + 1) attempts
              (map str_of group @ topology)))"

fun check_slots :: "string list \<Rightarrow> int \<Rightarrow> pyval list \<Rightarrow> string list \<Rightarrow> string list res" where
  "check_slots actor_ids expected_slot [] topology = Inr topology"
| "check_slots actor_ids expected_slot (slot # slots) topology =
     (let attempts = pget slot ''attempts'' in
      bindR (checks
       [check_object slot ''manifest.concurrency_window.slots[]'',
        require (py_eq (pget slot ''team_slot'') (PInt expected_slot))
          ''manifest.concurrency_window.slots: team slots must be ordered'',
        require (is_list attempts \<and> truthy attempts)
          ''manifest.concurrency_window.slots[].attempts: expected a non-empty list''])
       (\<lambda>_. bindR (check_attempts actor_ids expected_slot 0 (items_of attempts) topology)
              (check_slots actor_ids (expected_slot + 1) slots)))"

fun check_controls :: "string list \<Rightarrow> (string \<times> int) list \<Rightarrow> pyval list \<Rightarrow> unit res" where
  "check_controls actor_ids seen [] = Inr ()"
| "check_controls actor_ids seen (control # controls) =
     (let index = pget control ''invocation_index''; key = (actor_id_of control, int_of index) in
      bindR (checks
       [check_object control ''manifest.coral_controls[]'',
        check_string (pget control ''actor_id'') ''manifest.coral_controls[].actor_id'',
        check_string (pget control ''agent_id'') ''manifest.coral_controls[].agent_id'',
        require (is_int_not_bool index \<and> 0 < int_of index)
          ''manifest.coral_controls[].invocation_index: expected a positive integer'',
        check_string (pget control ''source'') ''manifest.coral_controls[].source'',
        check_string (pget control ''prompt'') ''manifest.coral_controls[].prompt'',
        require (is_none_or_str (pget control ''trigger_grader_attempt_id''))
          ''manifest.coral_controls[].trigger_grader_attempt_id: expected a string or null'',
        require (actor_id_of control \<in> set actor_ids) ''manifest.coral_controls: undeclared actor'',
        require (key \<notin> set seen) ''manifest.coral_controls: duplicate control''])
       (\<lambda>_. check_controls actor_ids (key # seen) controls))"

definition check_concurrency_window :: "string list \<Rightarrow> pyval \<Rightarrow> pyval \<Rightarrow> unit res" where
  "check_concurrency_window actor_ids window controls =
     (let size = pget window ''size''; slots = pget window ''slots'' in
      bindR (checks
       [check_object window ''manifest.concurrency_window'',
        require (pget window ''unit'' = PStr ''coral-team'') ''manifest.concurrency_window.unit: expected coral-team'',
        require (is_int_not_bool size \<and> 0 < int_of size)
          ''manifest.concurrency_window.size: expected a positive integer'',
        require (py_eq (pget window ''team_size'') (PInt 4)) ''manifest.concurrency_window.team_size: expected four'',
        require (py_eq (pget window ''target_agent_lanes'') (PInt (int_of size * 4)))
          ''manifest.concurrency_window.target_agent_lanes: inconsistent window'',
        require (pget window ''refill_unit'' = PStr ''whole-team'')
          ''manifest.concurrency_window.refill_unit: expected whole-team'',
        require (is_list slots \<and> int (length (items_of slots)) = int_of size)
          ''manifest.concurrency_window.slots: expected one entry per team slot''])
       (\<lambda>_. bindR (check_slots actor_ids 0 (items_of slots) [])
       (\<lambda>topology. checks
         [require (set topology = set actor_ids)
            ''manifest.concurrency_window: topology does not cover every actor'',
          require (is_list controls) ''manifest.coral_controls: expected a list'',
          check_controls actor_ids [] (items_of controls)])))"

definition validate_manifest :: "pyval \<Rightarrow> unit res" where
  "validate_manifest v =
     (let actors = pget v ''actors''; lanes = pget v ''lanes'';
          actor_ids = map actor_id_of (items_of actors);
          window = pget v ''window'' in
      checks
      ([check_schema v MANIFEST_SCHEMA ''manifest'',
        require (pget_or v ''cutoff_policy'' (PStr ''evidence-only'') = PStr ''evidence-only'')
          ''manifest.cutoff_policy: only evidence-only is supported'',
        check_string (pget v ''bundle_id'') ''manifest.bundle_id'',
        check_string (pget v ''adapter'') ''manifest.adapter'',
        check_object (pget v ''workload'') ''manifest.workload'',
        check_object (pget v ''counts'') ''manifest.counts'',
        require (is_list actors \<and> truthy actors) ''manifest.actors: expected a non-empty list''] @
       concat (map (\<lambda>actor. [check_object actor ''manifest.actors[]'',
                             check_string (pget actor ''actor_id'') ''manifest.actors[].actor_id''])
                 (items_of actors)) @
       [require (is_list lanes) ''manifest.lanes: expected a list'',
        require (length (items_of lanes) = length (items_of actors))
          ''manifest.lanes: expected exactly one lane per actor'',
        check_lanes actor_ids [] (items_of lanes),
        (if pget v ''concurrency_window'' = PNone then Inr ()
         else check_concurrency_window actor_ids (pget v ''concurrency_window'')
                (pget_or v ''coral_controls'' (PList []))),
        check_object window ''manifest.window''] @
       map (\<lambda>field. require (is_int_not_bool (pget window field)) (''manifest.window.'' @ field @ '': expected an integer''))
         [''gate_at_ns'', ''terminal_at_ns''] @
       [require (int_of (pget window ''gate_at_ns'') \<le> int_of (pget window ''terminal_at_ns''))
          ''manifest.window: terminal precedes the gate'']))"

section \<open>The graph of causal references\<close>

text \<open>The records have been validated one by one before: their identifiers are texts.\<close>

fun check_owners :: "string list \<Rightarrow> pyval list \<Rightarrow> unit res" where
  "check_owners owned [] = Inr ()"
| "check_owners owned (dispatch # dispatches) =
     (let execution = pget dispatch ''execution_call_id'' in
      if execution = PNone then check_owners owned dispatches
      else bindR (require (str_of execution \<notin> set owned) ''tool: claimed by two dispatches'')
             (\<lambda>_. check_owners (str_of execution # owned) dispatches))"

definition validate_causal_graph ::
    "pyval list \<Rightarrow> pyval list \<Rightarrow> pyval list \<Rightarrow> string list \<Rightarrow> unit res" where
  "validate_causal_graph spans dispatches tools open_parent_span_ids =
     (let valid_parents = map (\<lambda>s. pget s ''span_id'') spans @ map PStr open_parent_span_ids;
          dispatch_ids = map (\<lambda>d. pget d ''dispatch_id'') dispatches;
          tool_ids = map (\<lambda>t. pget t ''call_id'') tools in
      checks
       (map (\<lambda>s. require (pget s ''parent_span_id'' = PNone \<or> pget s ''parent_span_id'' \<in> set valid_parents)
               ''span: parent is not in the bundle'') spans @
        map (\<lambda>d. require (pget d ''execution_call_id'' = PNone \<or> pget d ''execution_call_id'' \<in> set tool_ids)
               ''dispatch: execution is not in the bundle'') dispatches @
        map (\<lambda>t. require (pget t ''dispatch_id'' = PNone \<or> pget t ''dispatch_id'' \<in> set dispatch_ids)
               ''tool: dispatch is not in the bundle'') tools @
        [check_owners [] dispatches]))"

section \<open>The graph of shared artifacts\<close>

record producer =
  prod_path :: pyval
  prod_digest :: pyval
  prod_version :: pyval

record artifact_state =
  versions :: "(string \<times> int) list"
  producers :: "(string \<times> producer) list"

definition artifact_path :: "pyval \<Rightarrow> string" where
  "artifact_path e = str_of (pget e ''logical_path'')"

definition artifact_event_id :: "pyval \<Rightarrow> string" where
  "artifact_event_id e = str_of (pget e ''event_id'')"

definition path_version :: "artifact_state \<Rightarrow> string \<Rightarrow> int" where
  "path_version st path = (case map_of (versions st) path of None \<Rightarrow> 0 | Some n \<Rightarrow> n)"

definition artifact_step :: "pyval \<Rightarrow> artifact_state \<Rightarrow> artifact_state res" where
  "artifact_step e st =
     (if pget e ''operation'' = PStr ''read'' then
        (case map_of (producers st) (str_of (pget e ''read_from'')) of
           None \<Rightarrow> Inl (ValidationError ''artifact: read before its producer'')
         | Some p \<Rightarrow>
             bindR (checks
               [require (prod_path p = pget e ''logical_path'') ''artifact: read path does not match its producer'',
                require (prod_digest p = pget e ''bytes_sha256'') ''artifact: read bytes differ from the producer'',
                require (py_eq (prod_version p) (pget e ''version'')) ''artifact: read version differs from the producer''])
               (\<lambda>_. Inr st))
      else
        (let expected = path_version st (artifact_path e) + 1 in
         bindR (require (py_eq (pget e ''version'') (PInt expected)) ''artifact: version is not monotonic'')
           (\<lambda>_. Inr \<lparr>versions = AList.update (artifact_path e) expected (versions st),
                     producers = AList.update (artifact_event_id e)
                       \<lparr>prod_path = pget e ''logical_path'', prod_digest = pget e ''bytes_sha256'',
                        prod_version = pget e ''version''\<rparr> (producers st)\<rparr>)))"

definition artifact_order :: "pyval list \<Rightarrow> pyval list" where
  "artifact_order events =
     sort_key (\<lambda>e. (int_of (pget e ''completed_at_ns''), artifact_event_id e)) events"

definition validate_artifact_graph :: "pyval list \<Rightarrow> unit res" where
  "validate_artifact_graph events =
     bindR (foldR artifact_step (artifact_order events) \<lparr>versions = [], producers = []\<rparr>) (\<lambda>_. Inr ())"


section \<open>What acceptance means\<close>

definition executions :: "pyval list \<Rightarrow> string list" where
  "executions dispatches =
     map (\<lambda>d. str_of (pget d ''execution_call_id''))
       (filter (\<lambda>d. pget d ''execution_call_id'' \<noteq> PNone) dispatches)"

lemma check_owners_ok:
  "check_owners owned ds = Inr u \<longleftrightarrow> distinct (executions ds) \<and> set (executions ds) \<inter> set owned = {}"
  by (induction owned ds rule: check_owners.induct)
     (auto simp: executions_def bindR_eq_Inr require_eq_Inr Let_def)

lemma validate_causal_graph_ok:
  "validate_causal_graph spans dispatches tools opens = Inr u \<longleftrightarrow>
     (\<forall>s \<in> set spans. pget s ''parent_span_id'' = PNone \<or>
        pget s ''parent_span_id'' \<in> (\<lambda>x. pget x ''span_id'') ` set spans \<union> PStr ` set opens) \<and>
     (\<forall>d \<in> set dispatches. pget d ''execution_call_id'' = PNone \<or>
        pget d ''execution_call_id'' \<in> (\<lambda>x. pget x ''call_id'') ` set tools) \<and>
     (\<forall>t \<in> set tools. pget t ''dispatch_id'' = PNone \<or>
        pget t ''dispatch_id'' \<in> (\<lambda>x. pget x ''dispatch_id'') ` set dispatches) \<and>
     distinct (executions dispatches)"
  by (simp add: validate_causal_graph_def Let_def checks_eq_Inr require_eq_Inr check_owners_ok ball_Un
      del: checks_append) blast

text \<open>The identifiers and references of a validated record are texts.\<close>

lemma check_string_ok [res_simps]: "check_string v ctx = Inr u \<longleftrightarrow> is_nonempty_str v"
  by (simp add: check_string_def require_eq_Inr)

lemma validate_span_ids:
  assumes "validate_span s = Inr ()"
  shows "is_str (pget s ''span_id'')" and "is_none_or_str (pget s ''parent_span_id'')"
  using assms by (auto simp: validate_span_def checks_eq_Inr res_simps is_str_iff is_nonempty_str_iff simp del: checks.simps)

lemma validate_dispatch_ids:
  assumes "validate_dispatch h d = Inr ()"
  shows "is_str (pget d ''dispatch_id'')" and "is_none_or_str (pget d ''execution_call_id'')"
    and "is_nonempty_str (pget d ''span_id'')"
  using assms by (auto simp: validate_dispatch_def check_strings_def checks_eq_Inr res_simps is_str_iff is_nonempty_str_iff
    simp del: checks.simps checks_append)

lemma validate_tool_ids:
  assumes "validate_tool h t = Inr ()"
  shows "is_str (pget t ''call_id'')" and "is_none_or_nonempty_str (pget t ''dispatch_id'')"
    and "is_nonempty_str (pget t ''span_id'')"
  using assms by (auto simp: validate_tool_def check_strings_def checks_eq_Inr res_simps is_str_iff is_nonempty_str_iff
    simp del: checks.simps checks_append)

definition is_read :: "pyval \<Rightarrow> bool" where
  "is_read e \<longleftrightarrow> pget e ''operation'' = PStr ''read''"

definition producer_of :: "pyval \<Rightarrow> producer" where
  "producer_of e = \<lparr>prod_path = pget e ''logical_path'', prod_digest = pget e ''bytes_sha256'',
     prod_version = pget e ''version''\<rparr>"

text \<open>How many times a path has been produced in a history.\<close>

definition produced :: "pyval list \<Rightarrow> string \<Rightarrow> nat" where
  "produced history path = length (filter (\<lambda>e. \<not> is_read e \<and> artifact_path e = path) history)"

text \<open>
  An event is justified by the history before it: a read names a producer in it that committed
  the same path, bytes and version; a producer event carries the next version of its path.
\<close>

definition justified :: "pyval list \<Rightarrow> pyval \<Rightarrow> bool" where
  "justified history e \<longleftrightarrow>
     (if is_read e then
        \<exists>p \<in> set history. \<not> is_read p \<and> artifact_event_id p = str_of (pget e ''read_from'') \<and>
          pget p ''logical_path'' = pget e ''logical_path'' \<and>
          pget p ''bytes_sha256'' = pget e ''bytes_sha256'' \<and>
          py_eq (pget p ''version'') (pget e ''version'')
      else py_eq (pget e ''version'') (PInt (int (produced history (artifact_path e)) + 1)))"

definition artifact_inv :: "pyval list \<Rightarrow> artifact_state \<Rightarrow> bool" where
  "artifact_inv history st \<longleftrightarrow>
     (\<forall>path. path_version st path = int (produced history path)) \<and>
     (\<forall>k p. map_of (producers st) k = Some p \<longleftrightarrow>
        (\<exists>e \<in> set history. \<not> is_read e \<and> artifact_event_id e = k \<and> p = producer_of e))"

lemma artifact_inv_start: "artifact_inv [] \<lparr>versions = [], producers = []\<rparr>"
  by (simp add: artifact_inv_def path_version_def produced_def)

lemma artifact_inv_producers:
  "artifact_inv history st \<Longrightarrow> map_of (producers st) k = Some p \<longleftrightarrow>
     (\<exists>e \<in> set history. \<not> is_read e \<and> artifact_event_id e = k \<and> p = producer_of e)"
  by (simp add: artifact_inv_def)

lemma artifact_inv_versions: "artifact_inv history st \<Longrightarrow> path_version st path = int (produced history path)"
  by (simp add: artifact_inv_def)

lemma bex_unique:
  assumes "x \<in> S" and "P x" and "f x = k" and "\<And>y. y \<in> S \<Longrightarrow> f y = k \<Longrightarrow> y = x"
  shows "(\<exists>y \<in> S. P y \<and> f y = k \<and> R y) \<longleftrightarrow> R x"
proof
  assume "\<exists>y \<in> S. P y \<and> f y = k \<and> R y"
  then obtain y where y: "y \<in> S" "f y = k" "R y" by blast
  from assms(4)[OF y(1,2)] y(3) show "R x" by simp
next
  assume "R x"
  with assms(1-3) show "\<exists>y \<in> S. P y \<and> f y = k \<and> R y" by blast
qed

lemma artifact_step_justified:
  assumes inv: "artifact_inv history st" and dist: "distinct (map artifact_event_id (history @ [e]))"
  shows "justified history e \<longleftrightarrow> (\<exists>st'. artifact_step e st = Inr st')"
proof (cases "is_read e")
  case False
  then show ?thesis
    by (simp add: justified_def artifact_step_def is_read_def[of e, symmetric] artifact_inv_versions[OF inv]
        bindR_eq_Inr require_eq_Inr Let_def)
next
  case read: True
  let ?k = "str_of (pget e ''read_from'')"
  show ?thesis
  proof (cases "map_of (producers st) ?k")
    case None
    then have "\<not> (\<exists>x \<in> set history. \<not> is_read x \<and> artifact_event_id x = ?k)"
      using artifact_inv_producers[OF inv, of ?k] by auto
    with None read show ?thesis
      by (auto simp: justified_def artifact_step_def is_read_def[of e, symmetric])
  next
    case (Some p)
    then obtain x where x: "x \<in> set history" "\<not> is_read x" "artifact_event_id x = ?k" "p = producer_of x"
      using artifact_inv_producers[OF inv, of ?k] by auto
    have uniq: "y = x" if "y \<in> set history" "artifact_event_id y = ?k" for y
    proof -
      from dist have "inj_on artifact_event_id (set history)" by (simp add: distinct_map)
      with that x show ?thesis by (metis inj_onD)
    qed
    have "justified history e \<longleftrightarrow> pget x ''logical_path'' = pget e ''logical_path'' \<and>
        pget x ''bytes_sha256'' = pget e ''bytes_sha256'' \<and>
        py_eq (pget x ''version'') (pget e ''version'')"
      unfolding justified_def if_P[OF read] by (rule bex_unique[where f = artifact_event_id and P = "\<lambda>y. \<not> is_read y", OF x(1,2,3)]) (rule uniq)
    moreover have "(\<exists>st'. artifact_step e st = Inr st') \<longleftrightarrow> pget x ''logical_path'' = pget e ''logical_path'' \<and>
        pget x ''bytes_sha256'' = pget e ''bytes_sha256'' \<and>
        py_eq (pget x ''version'') (pget e ''version'')"
      using read Some x(4)
      by (simp add: artifact_step_def is_read_def[of e, symmetric] producer_of_def require_def)
    ultimately show ?thesis by simp
  qed
qed

lemma artifact_step_inv:
  assumes "artifact_inv history st" and "distinct (map artifact_event_id (history @ [e]))"
    and "artifact_step e st = Inr st'"
  shows "artifact_inv (history @ [e]) st'"
proof (cases "is_read e")
  case True
  with assms show ?thesis
    by (auto simp: artifact_inv_def artifact_step_def is_read_def[of e] produced_def bindR_eq_Inr split: option.splits)
next
  case False
  with assms(3) have st': "st' = \<lparr>versions = AList.update (artifact_path e) (path_version st (artifact_path e) + 1) (versions st),
      producers = AList.update (artifact_event_id e) (producer_of e) (producers st)\<rparr>"
    by (auto simp: artifact_step_def is_read_def[of e] producer_of_def bindR_eq_Inr Let_def split: if_splits)
  have fresh: "artifact_event_id x \<noteq> artifact_event_id e" if "x \<in> set history" for x
    proof -
    from assms(2) have "artifact_event_id e \<notin> artifact_event_id ` set history" by simp
    with that show ?thesis by (metis imageI)
  qed
  have "path_version st' path = int (produced (history @ [e]) path)" for path
    using assms(1) False by (simp add: st' artifact_inv_def path_version_def update_conv' produced_def)
  moreover have "map_of (producers st') k = Some p \<longleftrightarrow>
      (\<exists>x \<in> set (history @ [e]). \<not> is_read x \<and> artifact_event_id x = k \<and> p = producer_of x)" for k p
    using fresh False artifact_inv_producers[OF assms(1), of k p]
    by (cases "k = artifact_event_id e") (auto simp: st' update_conv')
  ultimately show ?thesis unfolding artifact_inv_def by blast
qed

lemma artifact_fold_justified:
  assumes "artifact_inv history st" and "distinct (map artifact_event_id (history @ es))"
  shows "(\<exists>st'. foldR artifact_step es st = Inr st') \<longleftrightarrow>
    (\<forall>i < length es. justified (history @ take i es) (es ! i))"
  using assms
proof (induction es arbitrary: history st)
  case Nil
  then show ?case by simp
next
  case (Cons e es)
  have d: "distinct (map artifact_event_id (history @ [e]))" using Cons.prems(2) by auto
  have first: "justified history e \<longleftrightarrow> (\<exists>st'. artifact_step e st = Inr st')"
    by (rule artifact_step_justified[OF Cons.prems(1) d])
  show ?case
  proof (cases "artifact_step e st")
    case (Inl err)
    with first show ?thesis by (auto intro!: exI[of _ 0])
  next
    case (Inr st')
    have "(\<exists>r. foldR artifact_step es st' = Inr r) \<longleftrightarrow>
        (\<forall>i < length es. justified ((history @ [e]) @ take i es) (es ! i))"
      by (rule Cons.IH[OF artifact_step_inv[OF Cons.prems(1) d Inr]]) (use Cons.prems(2) in simp)
    with Inr first show ?thesis
      by (auto simp: less_Suc_eq_0_disj)
  qed
qed

text \<open>
  C4: the artifact graph of a bundle is accepted exactly when, in completion order, every read
  names an earlier producer of the very bytes, path and version it read, and every producer
  commits the next version of its path.
\<close>

theorem artifact_graph_accepts_iff:
  assumes "distinct (map artifact_event_id events)"
  shows "validate_artifact_graph events = Inr () \<longleftrightarrow>
    (\<forall>i < length (artifact_order events).
       justified (take i (artifact_order events)) (artifact_order events ! i))"
proof -
  have "distinct (map artifact_event_id (artifact_order events))"
    using assms by (simp add: artifact_order_def distinct_map)
  then show ?thesis
    using artifact_fold_justified[OF artifact_inv_start, of "artifact_order events"]
    by (simp add: validate_artifact_graph_def bindR_eq_Inr)
qed

definition artifact_event_at :: "string \<Rightarrow> string \<Rightarrow> int \<Rightarrow> int \<Rightarrow> pyval \<Rightarrow> pyval" where
  "artifact_event_at event_id operation version time read_from =
     PDict [(''event_id'', PStr event_id), (''operation'', PStr operation), (''logical_path'', PStr ''notes''),
            (''version'', PInt version), (''bytes_sha256'', PStr ''d''), (''completed_at_ns'', PInt time),
            (''read_from'', read_from)]"

theorem artifact_graph_accepts_iff_witness:
  "validate_artifact_graph [artifact_event_at ''r'' ''read'' 1 7 (PStr ''w''),
     artifact_event_at ''w'' ''create'' 1 5 PNone] = Inr ()"
proof -
  let ?r = "artifact_event_at ''r'' ''read'' 1 7 (PStr ''w'')"
  let ?w = "artifact_event_at ''w'' ''create'' 1 5 PNone"
  have order: "artifact_order [?r, ?w] = [?w, ?r]"
    by (simp add: artifact_order_def artifact_event_at_def artifact_event_id_def)
  have "distinct (map artifact_event_id [?r, ?w])"
    by (simp add: artifact_event_at_def artifact_event_id_def)
  note iff = artifact_graph_accepts_iff[OF this]
  have "justified (take i [?w, ?r]) ([?w, ?r] ! i)" if "i < 2" for i
    using that by (cases i)
      (auto simp: justified_def is_read_def artifact_event_at_def artifact_event_id_def produced_def less_Suc_eq)
  then show ?thesis unfolding iff order by simp
qed

end
