(* ===== verification/Cutoff.thy ===== *)
theory Cutoff
  imports Schema "HOL-Library.Sublist"
begin

text \<open>
  cutoff.py: a recording is closed at the boundary of the sweep by pruning, to a fixed point,
  every record that depends on one that did not survive.

  A \<open>stage\<close> holds the records of the six files of a stage directory, in file order.  One round of
  the source's loop is \<open>prune_round\<close>; \<open>close_records\<close> is the loop and \<open>close_stage_at_cutoff\<close> the
  whole function, which also returns the report it writes.
\<close>

section \<open>Records and references\<close>

record stage =
  kept_dispatch :: "pyval list"
  kept_tool :: "pyval list"
  kept_grader :: "pyval list"
  kept_artifact :: "pyval list"
  kept_llm :: "pyval list"
  kept_span :: "pyval list"

definition ids_of :: "host \<Rightarrow> string \<Rightarrow> pyval list \<Rightarrow> string list" where
  "ids_of h key records = map (\<lambda>r. py_str h (pget r key)) records"

text \<open>An absent or null reference needs nothing; any other must name a record.\<close>

definition refers :: "host \<Rightarrow> string \<Rightarrow> string list \<Rightarrow> pyval \<Rightarrow> bool" where
  "refers h key ids r \<longleftrightarrow> pget r key = PNone \<or> py_str h (pget r key) \<in> set ids"

text \<open>\<open>all(str(value) in ids for value in values)\<close>; iterating a number or null raises.\<close>

fun all_in :: "host \<Rightarrow> string list \<Rightarrow> pyval \<Rightarrow> bool res" where
  "all_in h ids (PList vs) = Inr (list_all (\<lambda>v. py_str h v \<in> set ids) vs)"
| "all_in h ids (PStr s) = Inr (list_all (\<lambda>c. [c] \<in> set ids) s)"
| "all_in h ids (PDict kvs) = Inr (list_all (\<lambda>kv. fst kv \<in> set ids) kvs)"
| "all_in h ids v = Inl (PyError ''TypeError'')"

definition grader_survives :: "host \<Rightarrow> string list \<Rightarrow> string list \<Rightarrow> string list \<Rightarrow> pyval \<Rightarrow> bool res" where
  "grader_survives h llm_ids tool_ids artifact_ids g =
     bindR (all_in h llm_ids (pget_or g ''llm_attempt_ids'' (PList [])))
       (\<lambda>a. if \<not> a then Inr False
            else bindR (all_in h tool_ids (pget_or g ''tool_call_ids'' (PList [])))
              (\<lambda>b. if \<not> b then Inr False
                   else all_in h artifact_ids (pget_or g ''artifact_versions'' (PList []))))"

definition stage_ids :: "host \<Rightarrow> stage \<Rightarrow> string \<Rightarrow> string list" where
  "stage_ids h st kind =
     (if kind = ''dispatch'' then ids_of h ''dispatch_id'' (kept_dispatch st)
      else if kind = ''tool'' then ids_of h ''call_id'' (kept_tool st)
      else if kind = ''grader'' then ids_of h ''attempt_id'' (kept_grader st)
      else if kind = ''artifact'' then ids_of h ''event_id'' (kept_artifact st)
      else ids_of h ''attempt_id'' (kept_llm st))"

definition stage_records :: "stage \<Rightarrow> pyval list" where
  "stage_records st =
     kept_dispatch st @ kept_tool st @ kept_grader st @ kept_artifact st @ kept_llm st"

definition filter_records :: "(pyval \<Rightarrow> bool) \<Rightarrow> stage \<Rightarrow> stage" where
  "filter_records P st =
     st\<lparr>kept_dispatch := filter P (kept_dispatch st), kept_tool := filter P (kept_tool st),
        kept_grader := filter P (kept_grader st), kept_artifact := filter P (kept_artifact st),
        kept_llm := filter P (kept_llm st)\<rparr>"

section \<open>One round\<close>

text \<open>The identifiers are those of the start of the round, also for kinds pruned earlier in it.\<close>

definition prune_references :: "host \<Rightarrow> stage \<Rightarrow> stage" where
  "prune_references h st =
     st\<lparr>kept_tool := filter (refers h ''dispatch_id'' (stage_ids h st ''dispatch'')) (kept_tool st),
        kept_dispatch := filter (refers h ''execution_call_id'' (stage_ids h st ''tool'')) (kept_dispatch st),
        kept_artifact := filter (refers h ''read_from'' (stage_ids h st ''artifact'')) (kept_artifact st),
        kept_grader := filter (\<lambda>g. grader_survives h (stage_ids h st ''llm'') (stage_ids h st ''tool'')
                                 (stage_ids h st ''artifact'') g = Inr True) (kept_grader st)\<rparr>"

definition span_id_of :: "host \<Rightarrow> pyval \<Rightarrow> string" where
  "span_id_of h r = py_str h (pget r ''span_id'')"

definition orphan_spans :: "host \<Rightarrow> string list \<Rightarrow> stage \<Rightarrow> string list" where
  "orphan_spans h open_parents st =
     ids_of h ''span_id''
       (filter (\<lambda>s. \<not> refers h ''parent_span_id'' (ids_of h ''span_id'' (kept_span st) @ open_parents) s)
         (kept_span st))"

definition prune_orphans :: "host \<Rightarrow> string list \<Rightarrow> stage \<Rightarrow> stage" where
  "prune_orphans h open_parents st =
     filter_records (\<lambda>r. span_id_of h r \<notin> set (orphan_spans h open_parents st)) st"

definition live_spans :: "host \<Rightarrow> stage \<Rightarrow> string list" where
  "live_spans h st = map (span_id_of h) (filter (\<lambda>r. truthy (pget r ''span_id'')) (stage_records st))"

definition prune_spans :: "host \<Rightarrow> stage \<Rightarrow> stage" where
  "prune_spans h st =
     st\<lparr>kept_span := filter (\<lambda>s. span_id_of h s \<in> set (live_spans h st)) (kept_span st)\<rparr>"

definition prune_round :: "host \<Rightarrow> string list \<Rightarrow> stage \<Rightarrow> stage" where
  "prune_round h open_parents st = prune_spans h (prune_orphans h open_parents (prune_references h st))"

section \<open>The fixed point\<close>

definition stage_counts :: "stage \<Rightarrow> (string \<times> nat) list" where
  "stage_counts st =
     [(''dispatch'', length (kept_dispatch st)), (''tool'', length (kept_tool st)),
      (''grader'', length (kept_grader st)), (''artifact'', length (kept_artifact st)),
      (''llm'', length (kept_llm st)), (''span'', length (kept_span st))]"

definition stage_size :: "stage \<Rightarrow> nat" where
  "stage_size st = length (stage_records st) + length (kept_span st)"

text \<open>Everything of the first stage is in the second, in the same order.\<close>

definition part_of :: "stage \<Rightarrow> stage \<Rightarrow> bool" where
  "part_of st st' \<longleftrightarrow>
     subseq (kept_dispatch st) (kept_dispatch st') \<and> subseq (kept_tool st) (kept_tool st') \<and>
     subseq (kept_grader st) (kept_grader st') \<and> subseq (kept_artifact st) (kept_artifact st') \<and>
     subseq (kept_llm st) (kept_llm st') \<and> subseq (kept_span st) (kept_span st')"

lemma part_of_refl: "part_of st st"
  by (simp add: part_of_def)

lemma part_of_trans: "part_of a b \<Longrightarrow> part_of b c \<Longrightarrow> part_of a c"
  by (auto simp: part_of_def intro: subseq_order.trans)

lemma prune_round_part: "part_of (prune_round h open_parents st) st"
  by (simp add: part_of_def prune_round_def prune_spans_def prune_orphans_def prune_references_def
      filter_records_def subseq_filter_left)

lemma part_of_counts:
  assumes "part_of st' st"
  shows "stage_counts st' = stage_counts st \<longleftrightarrow> st' = st" and "stage_size st' \<le> stage_size st"
    and "st' \<noteq> st \<Longrightarrow> stage_size st' < stage_size st"
proof -
  note le = assms[unfolded part_of_def]
  have lens: "length (kept_dispatch st') \<le> length (kept_dispatch st)" "length (kept_tool st') \<le> length (kept_tool st)"
    "length (kept_grader st') \<le> length (kept_grader st)" "length (kept_artifact st') \<le> length (kept_artifact st)"
    "length (kept_llm st') \<le> length (kept_llm st)" "length (kept_span st') \<le> length (kept_span st)"
    using le by (auto dest: list_emb_length)
  show same: "stage_counts st' = stage_counts st \<longleftrightarrow> st' = st"
    using le by (auto simp: stage_counts_def intro!: stage.equality dest: subseq_same_length)
  show "stage_size st' \<le> stage_size st"
    using lens by (simp add: stage_size_def stage_records_def)
  assume "st' \<noteq> st"
  with same have "stage_counts st' \<noteq> stage_counts st" by simp
  with lens show "stage_size st' < stage_size st"
    by (auto simp: stage_size_def stage_records_def stage_counts_def)
qed

text \<open>
  The loop runs until a round changes the number of records of no kind.  Records only leave, so a
  change inside a round shows in the counts at its end.
\<close>

function close_records :: "host \<Rightarrow> string list \<Rightarrow> stage \<Rightarrow> stage" where
  "close_records h open_parents st =
     (let st' = prune_round h open_parents st in
      if stage_counts st' = stage_counts st then st' else close_records h open_parents st')"
  by pat_completeness auto

termination close_records
  by (relation "measure (\<lambda>(h, open_parents, st). stage_size st)")
     (auto simp: part_of_counts[OF prune_round_part])

declare close_records.simps [simp del]

text \<open>The same loop with a number of rounds it may take; \<open>None\<close> is a loop that still runs.\<close>

fun pruning_loop :: "nat \<Rightarrow> host \<Rightarrow> string list \<Rightarrow> stage \<Rightarrow> stage option" where
  "pruning_loop 0 h open_parents st = None"
| "pruning_loop (Suc n) h open_parents st =
     (let st' = prune_round h open_parents st in
      if stage_counts st' = stage_counts st then Some st' else pruning_loop n h open_parents st')"

section \<open>The whole function\<close>

text \<open>The descendants of a composite operation that was still open keep its span as their parent.\<close>

definition open_parent_span_ids :: "pyval \<Rightarrow> string list" where
  "open_parent_span_ids cutoff_tails =
     map (\<lambda>r. str_of (pget r ''span_id''))
       (filter (\<lambda>r. pget r ''replay_entry'' = PStr ''enter-and-preserve-descendants'' \<and>
                    is_nonempty_str (pget r ''span_id''))
         (items_of (pget_or (py_or cutoff_tails (PDict [])) ''operations'' (PList []))))"

text \<open>
  What the first round raises: an identifier that is missing, or a grader reference list that
  cannot be iterated.  Later rounds look at a part of the same records, so they raise nothing.
\<close>

definition check_stage :: "host \<Rightarrow> stage \<Rightarrow> unit res" where
  "check_stage h st =
     (let need = (\<lambda>key r. bindR (pidx r key) (\<lambda>_. Inr ())) in
      checks
       (map (need ''dispatch_id'') (kept_dispatch st) @ map (need ''call_id'') (kept_tool st) @
        map (need ''attempt_id'') (kept_grader st) @ map (need ''event_id'') (kept_artifact st) @
        map (need ''attempt_id'') (kept_llm st) @
        map (\<lambda>g. bindR (grader_survives h (stage_ids h st ''llm'') (stage_ids h st ''tool'')
                          (stage_ids h st ''artifact'') g) (\<lambda>_. Inr ())) (kept_grader st) @
        map (need ''span_id'') (kept_span st)))"

definition cutoff_report :: "string list \<Rightarrow> stage \<Rightarrow> stage \<Rightarrow> pyval" where
  "cutoff_report open_parents before after =
     (let counts = (\<lambda>st. PDict (map (\<lambda>(k, n). (k, PInt (int n))) (stage_counts st))) in
      PDict [(''schema_version'', PStr ''minireplay.cutoff-report/v1''),
             (''before'', counts before), (''after'', counts after),
             (''discarded'', PDict (map (\<lambda>((k, b), (_, a)). (k, PInt (int b - int a)))
                (zip (stage_counts before) (stage_counts after)))),
             (''open_parent_span_ids'', PList (map PStr (sort (remdups open_parents))))])"

definition close_stage_at_cutoff :: "host \<Rightarrow> pyval \<Rightarrow> stage \<Rightarrow> (stage \<times> pyval) res" where
  "close_stage_at_cutoff h cutoff_tails st =
     (let open_parents = open_parent_span_ids cutoff_tails in
      bindR (check_stage h st)
        (\<lambda>_. let st' = close_records h open_parents st in
              Inr (st', cutoff_report open_parents st st')))"

section \<open>The result is closed\<close>

lemma part_of_antisym: "part_of a b \<Longrightarrow> part_of b a \<Longrightarrow> a = b"
  by (auto simp: part_of_def intro!: stage.equality subseq_order.antisym)

lemma prune_references_part: "part_of (prune_references h st) st"
  by (simp add: part_of_def prune_references_def subseq_filter_left)

lemma prune_orphans_part: "part_of (prune_orphans h open_parents st) st"
  by (simp add: part_of_def prune_orphans_def filter_records_def subseq_filter_left)

lemma prune_spans_part: "part_of (prune_spans h st) st"
  by (simp add: part_of_def prune_spans_def subseq_filter_left)

lemma close_records_part: "part_of (close_records h open_parents st) st"
proof (induction h open_parents st rule: close_records.induct)
  case (1 h open_parents st)
  then show ?case
    by (subst close_records.simps) (auto simp: Let_def prune_round_part intro: part_of_trans[OF _ prune_round_part])
qed

lemma pruning_loop_enough:
  "stage_size st < n + stage_size (close_records h open_parents st) \<Longrightarrow>
   pruning_loop n h open_parents st = Some (close_records h open_parents st)"
proof (induction h open_parents st arbitrary: n rule: close_records.induct)
  case (1 h open_parents st)
  let ?b = "prune_round h open_parents st"
  have result: "close_records h open_parents st =
      (if stage_counts ?b = stage_counts st then ?b else close_records h open_parents ?b)"
    by (subst close_records.simps) (simp add: Let_def)
  have small: "stage_size (close_records h open_parents ?b) \<le> stage_size ?b"
    by (rule part_of_counts(2) [OF close_records_part])
  show ?case
  proof (cases n)
    case 0
    with 1(2) part_of_counts(2) [OF close_records_part, of h open_parents st] show ?thesis by simp
  next
    case (Suc m)
    show ?thesis
    proof (cases "stage_counts ?b = stage_counts st")
      case True
      with Suc result show ?thesis by simp
    next
      case False
      then have "stage_size ?b < stage_size st" by (simp add: part_of_counts [OF prune_round_part])
      then show ?thesis using 1(1) [OF refl False, of m] 1(2) False Suc result by simp
    qed
  qed
qed

text \<open>
  C6: The loop of the cutoff ends: it takes at most one round more than the stage loses records and spans,
  whatever refers to what, cycles of references included, and any larger number of rounds gives the same.
\<close>

theorem pruning_loop_stops:
  "pruning_loop (Suc (stage_size st - stage_size (close_records h open_parents st)) + k) h open_parents st =
     Some (close_records h open_parents st)"
  using part_of_counts(2) [OF close_records_part, of h open_parents st] by (intro pruning_loop_enough) simp

lemma close_records_fixpoint:
  "prune_round h open_parents (close_records h open_parents st) = close_records h open_parents st"
proof (induction h open_parents st rule: close_records.induct)
  case (1 h open_parents st)
  then show ?case
    by (subst (1 2) close_records.simps) (auto simp: Let_def part_of_counts(1)[OF prune_round_part])
qed

lemma prune_round_fixpoint:
  assumes "prune_round h open_parents st = st"
  shows "prune_references h st = st" and "prune_orphans h open_parents st = st" and "prune_spans h st = st"
proof -
  let ?r = "prune_references h st" let ?o = "prune_orphans h open_parents ?r"
  have "part_of st ?o" using prune_spans_part[of h ?o] assms by (simp add: prune_round_def)
  then have "part_of st ?r" using prune_orphans_part part_of_trans by blast
  then show r: "prune_references h st = st" using prune_references_part part_of_antisym by blast
  with \<open>part_of st ?o\<close> show o: "prune_orphans h open_parents st = st"
    using prune_orphans_part part_of_antisym by fastforce
  from assms r o show "prune_spans h st = st" by (simp add: prune_round_def)
qed

text \<open>
  A collection of records of a stage is closed when every reference in it is answered in it, its
  spans are those of its records, and every span of the stage that a record of it carries is in it.
\<close>

definition closed_in :: "host \<Rightarrow> string list \<Rightarrow> stage \<Rightarrow> stage \<Rightarrow> bool" where
  "closed_in h open_parents whole st \<longleftrightarrow>
     (\<forall>t \<in> set (kept_tool st). refers h ''dispatch_id'' (stage_ids h st ''dispatch'') t) \<and>
     (\<forall>d \<in> set (kept_dispatch st). refers h ''execution_call_id'' (stage_ids h st ''tool'') d) \<and>
     (\<forall>a \<in> set (kept_artifact st). refers h ''read_from'' (stage_ids h st ''artifact'') a) \<and>
     (\<forall>g \<in> set (kept_grader st). grader_survives h (stage_ids h st ''llm'') (stage_ids h st ''tool'')
        (stage_ids h st ''artifact'') g = Inr True) \<and>
     (\<forall>s \<in> set (kept_span st).
        refers h ''parent_span_id'' (ids_of h ''span_id'' (kept_span st) @ open_parents) s) \<and>
     (\<forall>s \<in> set (kept_span st). span_id_of h s \<in> set (live_spans h st)) \<and>
     (\<forall>r \<in> set (stage_records st). \<forall>s \<in> set (kept_span whole).
        span_id_of h s = span_id_of h r \<longrightarrow> s \<in> set (kept_span st))"

lemma orphan_iff:
  "x \<in> set (orphan_spans h open_parents st) \<longleftrightarrow>
     (\<exists>s \<in> set (kept_span st). span_id_of h s = x \<and>
        \<not> refers h ''parent_span_id'' (ids_of h ''span_id'' (kept_span st) @ open_parents) s)"
  by (auto simp: orphan_spans_def ids_of_def span_id_of_def)

lemma filter_records_id:
  "filter_records P st = st \<longleftrightarrow> (\<forall>r \<in> set (stage_records st). P r)"
proof -
  have "filter_records P st = st \<longleftrightarrow>
      filter P (kept_dispatch st) = kept_dispatch st \<and> filter P (kept_tool st) = kept_tool st \<and>
      filter P (kept_grader st) = kept_grader st \<and> filter P (kept_artifact st) = kept_artifact st \<and>
      filter P (kept_llm st) = kept_llm st"
    by (cases st) (simp add: filter_records_def)
  then show ?thesis by (auto simp: filter_id_conv stage_records_def)
qed

lemma prune_fixpoint_refers:
  assumes "prune_references h st = st"
  shows "t \<in> set (kept_tool st) \<Longrightarrow> refers h ''dispatch_id'' (stage_ids h st ''dispatch'') t"
    and "d \<in> set (kept_dispatch st) \<Longrightarrow> refers h ''execution_call_id'' (stage_ids h st ''tool'') d"
    and "a \<in> set (kept_artifact st) \<Longrightarrow> refers h ''read_from'' (stage_ids h st ''artifact'') a"
    and "g \<in> set (kept_grader st) \<Longrightarrow> grader_survives h (stage_ids h st ''llm'') (stage_ids h st ''tool'')
        (stage_ids h st ''artifact'') g = Inr True"
proof -
  let ?s = "prune_references h st"
  have "kept_tool ?s = kept_tool st" "kept_dispatch ?s = kept_dispatch st"
    "kept_artifact ?s = kept_artifact st" "kept_grader ?s = kept_grader st"
    by (simp_all only: assms)
  then show
    "t \<in> set (kept_tool st) \<Longrightarrow> refers h ''dispatch_id'' (stage_ids h st ''dispatch'') t"
    "d \<in> set (kept_dispatch st) \<Longrightarrow> refers h ''execution_call_id'' (stage_ids h st ''tool'') d"
    "a \<in> set (kept_artifact st) \<Longrightarrow> refers h ''read_from'' (stage_ids h st ''artifact'') a"
    "g \<in> set (kept_grader st) \<Longrightarrow> grader_survives h (stage_ids h st ''llm'') (stage_ids h st ''tool'')
        (stage_ids h st ''artifact'') g = Inr True"
    by (simp_all add: prune_references_def filter_id_conv)
qed

lemma prune_fixpoint_spans:
  assumes "prune_round h open_parents st = st" and s: "s \<in> set (kept_span st)"
  shows "span_id_of h s \<in> set (live_spans h st)"
    and "refers h ''parent_span_id'' (ids_of h ''span_id'' (kept_span st) @ open_parents) s"
proof -
  have "kept_span (prune_spans h st) = kept_span st"
    using prune_round_fixpoint(3)[OF assms(1)] by simp
  with s show live: "span_id_of h s \<in> set (live_spans h st)"
    by (simp add: prune_spans_def filter_id_conv)
  then obtain r where r: "r \<in> set (stage_records st)" "span_id_of h r = span_id_of h s"
    by (auto simp: live_spans_def)
  from prune_round_fixpoint(2)[OF assms(1)] r(1) have "span_id_of h r \<notin> set (orphan_spans h open_parents st)"
    by (simp add: prune_orphans_def filter_records_id)
  with r(2) s show "refers h ''parent_span_id'' (ids_of h ''span_id'' (kept_span st) @ open_parents) s"
    by (auto simp: orphan_iff)
qed

text \<open>Parts of a stage as sets of records.\<close>

definition inside :: "stage \<Rightarrow> stage \<Rightarrow> bool" where
  "inside a b \<longleftrightarrow>
     set (kept_dispatch a) \<subseteq> set (kept_dispatch b) \<and> set (kept_tool a) \<subseteq> set (kept_tool b) \<and>
     set (kept_grader a) \<subseteq> set (kept_grader b) \<and> set (kept_artifact a) \<subseteq> set (kept_artifact b) \<and>
     set (kept_llm a) \<subseteq> set (kept_llm b) \<and> set (kept_span a) \<subseteq> set (kept_span b)"

lemma subseq_set: "subseq xs ys \<Longrightarrow> set xs \<subseteq> set ys"
  by (auto simp: subset_iff dest: list_emb_set)

lemma part_of_inside: "part_of a b \<Longrightarrow> inside a b"
  by (simp add: part_of_def inside_def subseq_set)

lemma inside_records: "inside a b \<Longrightarrow> set (stage_records a) \<subseteq> set (stage_records b)"
  by (auto simp: inside_def stage_records_def)

lemma inside_trans: "inside a b \<Longrightarrow> inside b c \<Longrightarrow> inside a c"
  unfolding inside_def by blast

lemma inside_ids: "inside a b \<Longrightarrow> set (stage_ids h a kind) \<subseteq> set (stage_ids h b kind)"
  unfolding inside_def stage_ids_def ids_of_def by (simp add: image_mono)

lemma refers_mono: "refers h key ids r \<Longrightarrow> set ids \<subseteq> set ids' \<Longrightarrow> refers h key ids' r"
  by (auto simp: refers_def)

lemma all_in_mono: "all_in h ids v = Inr True \<Longrightarrow> set ids \<subseteq> set ids' \<Longrightarrow> all_in h ids' v = Inr True"
  by (cases v) (auto simp: list_all_iff)

lemma grader_survives_eq:
  "grader_survives h ls ts as g = Inr True \<longleftrightarrow>
     all_in h ls (pget_or g ''llm_attempt_ids'' (PList [])) = Inr True \<and>
     all_in h ts (pget_or g ''tool_call_ids'' (PList [])) = Inr True \<and>
     all_in h as (pget_or g ''artifact_versions'' (PList [])) = Inr True"
  by (auto simp: grader_survives_def bindR_eq_Inr split: if_splits)

lemma live_spans_mono: "inside a b \<Longrightarrow> set (live_spans h a) \<subseteq> set (live_spans h b)"
  using inside_records by (auto simp: live_spans_def)

text \<open>A round does not remove anything of a closed collection.\<close>

lemma prune_references_inside:
  assumes "closed_in h open_parents whole st" and sub: "inside st big"
  shows "inside st (prune_references h big)"
proof -
  note ids = inside_ids[OF sub, of h]
  have "refers h ''dispatch_id'' (stage_ids h big ''dispatch'') t" if "t \<in> set (kept_tool st)" for t
    using assms(1) that by (auto simp: closed_in_def intro: refers_mono[OF _ ids])
  moreover have "refers h ''execution_call_id'' (stage_ids h big ''tool'') d" if "d \<in> set (kept_dispatch st)" for d
    using assms(1) that by (auto simp: closed_in_def intro: refers_mono[OF _ ids])
  moreover have "refers h ''read_from'' (stage_ids h big ''artifact'') a" if "a \<in> set (kept_artifact st)" for a
    using assms(1) that by (auto simp: closed_in_def intro: refers_mono[OF _ ids])
  moreover have "grader_survives h (stage_ids h big ''llm'') (stage_ids h big ''tool'') (stage_ids h big ''artifact'') g = Inr True"
    if "g \<in> set (kept_grader st)" for g
    using assms(1) that by (auto simp: closed_in_def grader_survives_eq intro: all_in_mono[OF _ ids])
  ultimately show ?thesis
    using sub by (auto simp: inside_def prune_references_def)
qed

lemma prune_orphans_inside:
  assumes closed: "closed_in h open_parents whole st" and sub: "inside st big" "inside big whole"
  shows "inside st (prune_orphans h open_parents big)"
proof -
  have "span_id_of h r \<notin> set (orphan_spans h open_parents big)" if r: "r \<in> set (stage_records st)" for r
  proof
    assume "span_id_of h r \<in> set (orphan_spans h open_parents big)"
    then obtain s where s: "s \<in> set (kept_span big)" "span_id_of h s = span_id_of h r"
      "\<not> refers h ''parent_span_id'' (ids_of h ''span_id'' (kept_span big) @ open_parents) s"
      by (auto simp: orphan_iff)
    with sub(2) have "s \<in> set (kept_span whole)" by (auto simp: inside_def)
    with closed r s(2) have "s \<in> set (kept_span st)" unfolding closed_in_def by blast
    with closed have "refers h ''parent_span_id'' (ids_of h ''span_id'' (kept_span st) @ open_parents) s"
      unfolding closed_in_def by blast
    then have "refers h ''parent_span_id'' (ids_of h ''span_id'' (kept_span big) @ open_parents) s"
      by (rule refers_mono) (use sub(1) in \<open>auto simp: ids_of_def inside_def\<close>)
    with s(3) show False ..
  qed
  then show ?thesis
    using sub(1) by (auto simp: inside_def prune_orphans_def filter_records_def stage_records_def)
qed

lemma prune_spans_inside:
  assumes closed: "closed_in h open_parents whole st" and sub: "inside st big"
  shows "inside st (prune_spans h big)"
proof -
  have "span_id_of h s \<in> set (live_spans h big)" if "s \<in> set (kept_span st)" for s
    using closed that live_spans_mono[OF sub] unfolding closed_in_def by blast
  with sub show ?thesis by (auto simp: inside_def prune_spans_def)
qed

lemma prune_round_inside:
  assumes closed: "closed_in h open_parents whole st" and sub: "inside st big" "inside big whole"
  shows "inside st (prune_round h open_parents big)"
proof -
  let ?r = "prune_references h big"
  have r: "inside st ?r" by (rule prune_references_inside[OF closed sub(1)])
  have "inside ?r whole" using part_of_inside[OF prune_references_part] sub(2) inside_trans by blast
  with r have "inside st (prune_orphans h open_parents ?r)" by (rule prune_orphans_inside[OF closed])
  then show ?thesis unfolding prune_round_def by (rule prune_spans_inside[OF closed])
qed

lemma close_records_inside:
  assumes "closed_in h open_parents whole st" and "inside st big" and "inside big whole"
  shows "inside st (close_records h open_parents big)"
  using assms
proof (induction h open_parents big rule: close_records.induct)
  case (1 h open_parents big)
  let ?b = "prune_round h open_parents big"
  have "inside st ?b" by (rule prune_round_inside[OF 1(2,3,4)])
  moreover have "inside ?b whole" using part_of_inside[OF prune_round_part] 1(4) inside_trans by blast
  ultimately show ?case
    using 1(1)[OF refl] 1(2) by (subst close_records.simps) (simp add: Let_def)
qed

lemma close_records_keeps_spans:
  assumes "r \<in> set (stage_records (close_records h open_parents st))" and "truthy (pget r ''span_id'')"
    and "s \<in> set (kept_span st)" and "span_id_of h s = span_id_of h r"
  shows "s \<in> set (kept_span (close_records h open_parents st))"
  using assms
proof (induction h open_parents st rule: close_records.induct)
  case (1 h open_parents st)
  let ?b = "prune_round h open_parents st"
  have result: "close_records h open_parents st =
      (if stage_counts ?b = stage_counts st then ?b else close_records h open_parents ?b)"
    by (subst close_records.simps) (simp add: Let_def)
  have "r \<in> set (stage_records ?b)"
    using 1(2) inside_records[OF part_of_inside[OF close_records_part[of h open_parents ?b]]]
    by (auto simp: result split: if_splits)
  then have "span_id_of h s \<in> set (live_spans h (prune_orphans h open_parents (prune_references h st)))"
    using 1(3,5) by (auto simp: prune_round_def prune_spans_def live_spans_def stage_records_def)
  with 1(4) have "s \<in> set (kept_span ?b)"
    by (simp add: prune_round_def prune_spans_def prune_orphans_def prune_references_def filter_records_def)
  with 1 show ?case by (auto simp: result split: if_splits)
qed

text \<open>
  C5: the cutoff keeps exactly the greatest closed part of a recording: its result is a part of
  the recording, in order, and closed, and contains every other closed part.
\<close>

theorem cutoff_keeps_greatest_closed_part:
  assumes "\<forall>r \<in> set (stage_records st). truthy (pget r ''span_id'')"
    and "close_stage_at_cutoff h cutoff_tails st = Inr (st', report)"
  shows "part_of st' st \<and> closed_in h (open_parent_span_ids cutoff_tails) st st' \<and>
    (\<forall>part. inside part st \<and> closed_in h (open_parent_span_ids cutoff_tails) st part \<longrightarrow> inside part st')"
proof -
  let ?open = "open_parent_span_ids cutoff_tails"
  have st': "st' = close_records h ?open st"
    using assms(2) by (auto simp: close_stage_at_cutoff_def bindR_eq_Inr Let_def)
  note fix_point = close_records_fixpoint[of h ?open st, folded st']
  have part: "part_of st' st" unfolding st' by (rule close_records_part)
  have "s \<in> set (kept_span st')" if "r \<in> set (stage_records st')" "s \<in> set (kept_span st)"
    "span_id_of h s = span_id_of h r" for r s
    using that assms(1) inside_records[OF part_of_inside[OF part]] unfolding st'
    by (blast intro: close_records_keeps_spans)
  then have "closed_in h ?open st st'"
    unfolding closed_in_def
    using prune_fixpoint_refers[OF prune_round_fixpoint(1)[OF fix_point]] prune_fixpoint_spans[OF fix_point]
    by blast
  with part show ?thesis
    using close_records_inside part_of_inside[OF part_of_refl] unfolding st' by blast
qed

section \<open>What the closed recording satisfies\<close>

lemma subseq_distinct: "subseq xs ys \<Longrightarrow> distinct ys \<Longrightarrow> distinct xs"
  by (metis distinct_nthsI subseq_conv_nths)

lemma executions_part: "subseq ds ds' \<Longrightarrow> subseq (executions ds) (executions ds')"
  unfolding executions_def by (intro subseq_map subseq_filter)

lemma ids_of_strings:
  assumes "\<forall>r \<in> set rs. is_str (pget r key)"
  shows "x \<in> set (ids_of h key rs) \<longleftrightarrow> PStr x \<in> (\<lambda>r. pget r key) ` set rs"
proof -
  have "py_str h (pget r key) = x \<longleftrightarrow> pget r key = PStr x" if "r \<in> set rs" for r
    using assms that by (auto simp: is_str_iff)
  then show ?thesis unfolding ids_of_def set_map image_iff by (metis (no_types, lifting))
qed

lemma nonempty_str_or_none: "is_none_or_nonempty_str v \<Longrightarrow> is_none_or_str v"
  by (auto simp: is_none_or_nonempty_str_def is_none_or_str_def is_nonempty_str_iff)

lemma refers_strings:
  assumes "\<forall>r \<in> set rs. is_str (pget r key')" and "is_none_or_str (pget r key)"
    and "refers h key (ids_of h key' rs @ extra) r"
  shows "pget r key = PNone \<or> pget r key \<in> (\<lambda>r. pget r key') ` set rs \<union> PStr ` set extra"
  using assms(2,3) ids_of_strings[OF assms(1), of _ h]
  by (auto simp: refers_def is_none_or_str_def is_str_iff)


section \<open>A recording cut in the middle of a tool\<close>

definition sample_span :: "string \<Rightarrow> pyval \<Rightarrow> pyval" where
  "sample_span span_id parent =
     PDict [(''schema_version'', PStr SPAN_SCHEMA), (''span_id'', PStr span_id), (''actor_id'', PStr ''a''),
            (''kind'', PStr ''tool''), (''parent_span_id'', parent),
            (''started_at_ns'', PInt 1), (''ended_at_ns'', PInt 2)]"

definition sample_dispatch :: "string \<Rightarrow> string \<Rightarrow> pyval \<Rightarrow> pyval" where
  "sample_dispatch dispatch_id span_id execution =
     PDict [(''schema_version'', PStr DISPATCH_SCHEMA), (''dispatch_id'', PStr dispatch_id),
            (''span_id'', PStr span_id), (''actor_id'', PStr ''a''), (''name'', PStr ''bash''),
            (''arguments'', PDict []), (''arguments_sha256'', PStr (sha256_json plain_host (PDict []))),
            (''origin'', PDict [(''kind'', PStr ''agent'')]), (''causal_lane'', PNone),
            (''status'', PStr ''executed''), (''execution_call_id'', execution),
            (''started_at_ns'', PInt 1), (''ended_at_ns'', PInt 2)]"

definition sample_tool :: "string \<Rightarrow> string \<Rightarrow> pyval \<Rightarrow> pyval" where
  "sample_tool call_id span_id dispatch_id =
     PDict [(''schema_version'', PStr TOOL_SCHEMA), (''call_id'', PStr call_id), (''dispatch_id'', dispatch_id),
            (''span_id'', PStr span_id), (''actor_id'', PStr ''a''), (''name'', PStr ''bash''),
            (''implementation'', PStr ''bash''), (''arguments'', PDict []),
            (''arguments_sha256'', PStr (sha256_json plain_host (PDict []))), (''causal_lane'', PNone),
            (''result_contract'', exact_result_contract), (''result'', PNone), (''native_result'', PNone),
            (''status'', PStr ''ok''), (''native_execution'', PBool True), (''exception_raised'', PBool False),
            (''started_at_ns'', PInt 1), (''ended_at_ns'', PInt 2)]"

text \<open>The dispatch of the second tool had not finished, so the recording does not have it.\<close>

definition sample_stage :: stage where
  "sample_stage =
     \<lparr>kept_dispatch = [sample_dispatch ''d1'' ''s1'' (PStr ''t1'')],
      kept_tool = [sample_tool ''t1'' ''s1'' (PStr ''d1''), sample_tool ''t2'' ''s2'' (PStr ''d2'')],
      kept_grader = [], kept_artifact = [], kept_llm = [],
      kept_span = [sample_span ''s1'' PNone, sample_span ''s2'' (PStr ''s1'')]\<rparr>"

definition sample_closed :: stage where
  "sample_closed = sample_stage\<lparr>kept_tool := [sample_tool ''t1'' ''s1'' (PStr ''d1'')],
     kept_span := [sample_span ''s1'' PNone]\<rparr>"

lemma sample_valid:
  "validate_span (sample_span (c # s) PNone) = Inr ()"
  "validate_span (sample_span (c # s) (PStr p)) = Inr ()"
  "validate_dispatch plain_host (sample_dispatch (c # d) (c' # s) (PStr t)) = Inr ()"
  "validate_tool plain_host (sample_tool (c # t) (c' # s) (PStr (c'' # d))) = Inr ()"
     apply (simp add: validate_span_def sample_span_def checks_eq_Inr res_simps check_schema_def check_timespan_def
    is_none_or_str_def del: checks.simps)
    apply (simp add: validate_span_def sample_span_def checks_eq_Inr res_simps check_schema_def check_timespan_def
    is_none_or_str_def del: checks.simps)
   apply (simp add: validate_dispatch_def sample_dispatch_def checks_eq_Inr res_simps check_schema_def check_timespan_def
    check_strings_def check_arguments_digest_def check_object_def is_none_or_nonempty_str_def is_none_or_str_def
    del: checks.simps checks_append)
  apply (simp add: validate_tool_def sample_tool_def checks_eq_Inr res_simps check_schema_def check_timespan_def
    check_strings_def check_arguments_digest_def check_object_def is_none_or_nonempty_str_def is_none_or_str_def
    exact_result_contract_def validate_result_contract_def STATUS_def RESULT_CONTRACT_SCHEMA_def key_set_is_def require_in_def in_strs_def is_hashable_def phas_def
    del: checks.simps checks_append)
  done

lemma sample_close: "close_records plain_host [] sample_stage = sample_closed"
  by code_simp

lemma sample_close_at_cutoff:
  "close_stage_at_cutoff plain_host PNone sample_stage =
     Inr (sample_closed, cutoff_report [] sample_stage sample_closed)"
proof -
  have "open_parent_span_ids PNone = []"
    by (simp add: open_parent_span_ids_def py_or_def pget_or_def)
  moreover have "check_stage plain_host sample_stage = Inr ()" by code_simp
  ultimately show ?thesis by (simp add: close_stage_at_cutoff_def sample_close)
qed

theorem cutoff_keeps_greatest_closed_part_witness:
  "closed_in plain_host [] sample_stage sample_closed \<and> \<not> inside sample_stage sample_closed"
proof -
  have "\<forall>r \<in> set (stage_records sample_stage). truthy (pget r ''span_id'')"
    by (simp add: stage_records_def sample_stage_def sample_dispatch_def sample_tool_def)
  from cutoff_keeps_greatest_closed_part[OF this sample_close_at_cutoff]
  have "closed_in plain_host [] sample_stage sample_closed"
    by (simp add: open_parent_span_ids_def py_or_def pget_or_def)
  moreover have "\<not> inside sample_stage sample_closed"
    by (simp add: inside_def sample_stage_def sample_closed_def sample_tool_def)
  ultimately show ?thesis ..
qed


section \<open>Artifact versions are not closed\<close>

text \<open>
  The prune removes the artifact events of an orphan span, and keeps later versions of the same
  path.  A recording whose artifact graph is accepted can then be rejected once it is closed.
\<close>

definition orphan_artifact_stage :: stage where
  "orphan_artifact_stage =
     \<lparr>kept_dispatch = [], kept_tool = [], kept_grader = [],
      kept_artifact =
        [PDict [(''event_id'', PStr ''e1''), (''operation'', PStr ''create''), (''logical_path'', PStr ''notes''),
                (''version'', PInt 1), (''bytes_sha256'', PStr ''x''), (''completed_at_ns'', PInt 1),
                (''span_id'', PStr ''s2'')],
         PDict [(''event_id'', PStr ''e2''), (''operation'', PStr ''write''), (''logical_path'', PStr ''notes''),
                (''version'', PInt 2), (''bytes_sha256'', PStr ''y''), (''completed_at_ns'', PInt 2),
                (''span_id'', PStr ''s1'')]],
      kept_llm = [],
      kept_span = [sample_span ''s1'' PNone, sample_span ''s2'' (PStr ''unfinished'')]\<rparr>"

lemma cutoff_breaks_artifact_versions:
  "validate_artifact_graph (kept_artifact orphan_artifact_stage) = Inr ()"
  "validate_artifact_graph (kept_artifact (close_records plain_host [] orphan_artifact_stage)) =
     Inl (ValidationError ''artifact: version is not monotonic'')"
  by code_simp+

end
