(* ===== verification/Recording.thy ===== *)
theory Recording
  imports Schema
begin

text \<open>
  The \<open>Bundle\<close> class of bundle.py: a loaded recording, and the identities derived from its
  manifest and its task terminals.
\<close>

record recording =
  rec_manifest :: pyval
  rec_llm :: "pyval list"
  rec_dispatches :: "pyval list"
  rec_tools :: "pyval list"
  rec_graders :: "pyval list"
  rec_artifacts :: "pyval list"
  rec_spans :: "pyval list"
  rec_cutoff_tails :: pyval
  rec_terminal :: pyval

text \<open>The ledgers, and the field that identifies a record of one.\<close>

definition KINDS :: "string list" where
  "KINDS = [''dispatch'', ''tool'', ''grader'', ''artifact'']"

definition id_field :: "string \<Rightarrow> string" where
  "id_field kind =
     (if kind = ''dispatch'' then ''dispatch_id'' else if kind = ''tool'' then ''call_id''
      else if kind = ''grader'' then ''attempt_id'' else ''event_id'')"

definition recording_adapter :: "host \<Rightarrow> recording \<Rightarrow> string" where
  "recording_adapter h b = py_str h (pget (rec_manifest b) ''adapter'')"

definition records :: "recording \<Rightarrow> string \<Rightarrow> pyval list" where
  "records b kind =
     (if kind = ''dispatch'' then rec_dispatches b
      else if kind = ''tool'' then rec_tools b
      else if kind = ''grader'' then rec_graders b
      else if kind = ''artifact'' then rec_artifacts b
      else [])"

definition tail_operations :: "recording \<Rightarrow> pyval list" where
  "tail_operations b = items_of (pget_or (rec_cutoff_tails b) ''operations'' (PList []))"

definition actor_ids :: "host \<Rightarrow> recording \<Rightarrow> string list" where
  "actor_ids h b = map (\<lambda>a. py_str h (pget a ''actor_id'')) (items_of (pget (rec_manifest b) ''actors''))"

section \<open>Framework identities\<close>

definition actor_sources :: "pyval \<Rightarrow> pyval list res" where
  "actor_sources actor =
     bindR (py_iter (pget_or actor ''source_actor_ids'' (PList [])))
       (\<lambda>more. Inr (filter is_nonempty_str (pget actor ''source_actor_id'' # more)))"

definition map_source :: "string \<Rightarrow> pyval \<Rightarrow> (string \<times> string) list \<Rightarrow> (string \<times> string) list res" where
  "map_source actor_id source mapping =
     bindR (require (map_of mapping (str_of source) \<in> {None, Some actor_id})
              ''source actor maps to more than one lane'')
       (\<lambda>_. Inr (AList.update (str_of source) actor_id mapping))"

text \<open>Recorded framework identity to logical actor.\<close>

definition actor_map :: "host \<Rightarrow> recording \<Rightarrow> (string \<times> string) list res" where
  "actor_map h b =
     foldR (\<lambda>actor mapping. bindR (actor_sources actor)
              (\<lambda>sources. foldR (map_source (py_str h (pget actor ''actor_id''))) sources mapping))
       (items_of (pget (rec_manifest b) ''actors'')) []"

definition task_terminals :: "recording \<Rightarrow> pyval list" where
  "task_terminals b = items_of (pget_or (rec_terminal b) ''task_terminals'' (PList []))"

text \<open>The identity whose task a terminal closes, when it names one the manifest knows.\<close>

definition terminal_source :: "string list \<Rightarrow> pyval \<Rightarrow> string option" where
  "terminal_source recorded terminal =
     (if \<not> is_dict terminal then None
      else let task = pget terminal ''task'';
               source = (if is_dict task then pget task ''source_actor_id'' else PNone);
               actor = pget terminal ''actor_id''
           in if is_nonempty_str source then Some (str_of source)
              else if is_str actor \<and> str_of actor \<in> set recorded then Some (str_of actor)
              else None)"

definition cutoff_source_actor_ids :: "host \<Rightarrow> recording \<Rightarrow> string list res" where
  "cutoff_source_actor_ids h b =
     bindR (actor_map h b) (\<lambda>mapping.
       let recorded = map fst mapping;
           closed = List.map_filter (terminal_source recorded) (task_terminals b)
       in Inr (filter (\<lambda>s. s \<notin> set closed) recorded))"

definition cutoff_actor_ids :: "host \<Rightarrow> recording \<Rightarrow> string list res" where
  "cutoff_actor_ids h b =
     bindR (actor_map h b) (\<lambda>mapping.
     bindR (cutoff_source_actor_ids h b) (\<lambda>open_sources.
       let cutoff = List.map_filter (map_of mapping) open_sources;
           closed = map (\<lambda>t. str_of (pget t ''actor_id''))
             (filter (\<lambda>t. is_dict t \<and> is_str (pget t ''actor_id'')) (task_terminals b))
       in Inr (cutoff @ filter (\<lambda>a. a \<notin> set closed) (actor_ids h b))))"

section \<open>The map of identities\<close>

lemma map_source_ok:
  "map_source a s m = Inr m' \<longleftrightarrow>
     map_of m (str_of s) \<in> {None, Some a} \<and> m' = AList.update (str_of s) a m"
  by (auto simp: map_source_def bindR_eq_Inr require_eq_Inr)

lemma map_sources_lookup:
  assumes "foldR (map_source a) ss m = Inr m'"
  shows "map_of m' s = (if s \<in> str_of ` set ss then Some a else map_of m s)"
  using assms
proof (induction ss arbitrary: m)
  case Nil
  then show ?case by simp
next
  case (Cons x ss)
  from Cons.prems obtain m1 where m1: "map_source a x m = Inr m1" "foldR (map_source a) ss m1 = Inr m'"
    by (auto simp: bindR_eq_Inr)
  with Cons.IH[OF m1(2)] show ?case by (auto simp: map_source_ok update_conv')
qed

lemma map_sources_consistent:
  assumes "foldR (map_source a) ss m = Inr m'" and "s \<in> str_of ` set ss"
  shows "map_of m s \<in> {None, Some a}"
  using assms
proof (induction ss arbitrary: m)
  case Nil
  then show ?case by simp
next
  case (Cons x ss)
  from Cons.prems(1) obtain m1 where m1: "map_source a x m = Inr m1" "foldR (map_source a) ss m1 = Inr m'"
    by (auto simp: bindR_eq_Inr)
  show ?case
  proof (cases "s = str_of x")
    case True
    with m1 show ?thesis by (simp add: map_source_ok)
  next
    case False
    with Cons.prems(2) have "s \<in> str_of ` set ss" by auto
    from Cons.IH[OF m1(2) this] m1(1) False show ?thesis by (auto simp: map_source_ok update_conv')
  qed
qed

definition source_of :: "string \<Rightarrow> pyval \<Rightarrow> bool" where
  "source_of s actor \<longleftrightarrow> (\<exists>ss. actor_sources actor = Inr ss \<and> s \<in> str_of ` set ss)"

lemma map_actors_lookup:
  assumes "foldR (\<lambda>actor mapping. bindR (actor_sources actor)
      (\<lambda>sources. foldR (map_source (py_str h (pget actor ''actor_id''))) sources mapping)) actors m = Inr m'"
  shows "map_of m' s = Some a \<longleftrightarrow>
    (\<exists>actor \<in> set actors. py_str h (pget actor ''actor_id'') = a \<and> source_of s actor) \<or> map_of m s = Some a"
  using assms
proof (induction actors arbitrary: m)
  case Nil
  then show ?case by simp
next
  case (Cons actor actors)
  let ?id = "py_str h (pget actor ''actor_id'')"
  from Cons.prems obtain ss m1 where ss: "actor_sources actor = Inr ss"
    and m1: "foldR (map_source ?id) ss m = Inr m1"
    and rest: "foldR (\<lambda>actor mapping. bindR (actor_sources actor)
      (\<lambda>sources. foldR (map_source (py_str h (pget actor ''actor_id''))) sources mapping)) actors m1 = Inr m'"
    by (auto simp: bindR_eq_Inr)
  have "source_of s actor \<longleftrightarrow> s \<in> str_of ` set ss" by (simp add: source_of_def ss)
  then have "map_of m1 s = Some a \<longleftrightarrow> ?id = a \<and> source_of s actor \<or> map_of m s = Some a"
    using map_sources_lookup[OF m1, of s] map_sources_consistent[OF m1, of s] by auto
  with Cons.IH[OF rest] show ?case by auto
qed

text \<open>
  The identity map of a recording is a function: it sends a framework identity to an actor
  exactly when that actor of the manifest declares it.  A manifest where two actors declare the
  same identity has no map.
\<close>

theorem actor_map_exact:
  assumes "actor_map h b = Inr mapping"
  shows "map_of mapping source = Some actor_id \<longleftrightarrow>
    (\<exists>actor \<in> set (items_of (pget (rec_manifest b) ''actors'')).
       py_str h (pget actor ''actor_id'') = actor_id \<and> source_of source actor)"
  using map_actors_lookup[OF assms[unfolded actor_map_def]] by simp

definition two_lane_recording :: recording where
  "two_lane_recording =
     \<lparr>rec_manifest = PDict [(''adapter'', PStr ''owl''), (''actors'', PList
        [PDict [(''actor_id'', PStr ''a0''), (''source_actor_id'', PStr ''t1''),
                (''source_actor_ids'', PList [PStr ''t1'', PStr ''t3''])],
         PDict [(''actor_id'', PStr ''a1''), (''source_actor_id'', PStr ''t2'')]])],
      rec_llm = [], rec_dispatches = [], rec_tools = [], rec_graders = [], rec_artifacts = [],
      rec_spans = [], rec_cutoff_tails = PDict [],
      rec_terminal = PDict [(''task_terminals'', PList
        [PDict [(''actor_id'', PStr ''a0''), (''task'', PDict [(''source_actor_id'', PStr ''t1'')])]])]\<rparr>"

lemma two_lane_map: "actor_map plain_host two_lane_recording = Inr [(''t1'', ''a0''), (''t3'', ''a0''), (''t2'', ''a1'')]"
  by code_simp

theorem actor_map_exact_witness:
  "\<exists>actor \<in> set (items_of (pget (rec_manifest two_lane_recording) ''actors'')).
     py_str plain_host (pget actor ''actor_id'') = ''a0'' \<and> source_of ''t3'' actor"
  using actor_map_exact[OF two_lane_map, of "''t3''" "''a0''"] by simp

text \<open>
  The first lane was refilled: its first task has a terminal, its second one does not.  The lane
  is still open at the cutoff.
\<close>

lemma refilled_lane_is_open:
  "cutoff_source_actor_ids plain_host two_lane_recording = Inr [''t3'', ''t2'']"
  "cutoff_actor_ids plain_host two_lane_recording = Inr [''a0'', ''a1'', ''a1'']"
  by code_simp+

end
