(* ===== verification/Boundary_State.thy ===== *)
theory Boundary_State
  imports Contracts Recording
begin

text \<open>
  boundary.py, first part: the state of the operation ledger, the causal lane of an operation, the
  identity a claim compares, and the loading of the recorded expectations.

  A queue belongs to a lane key: the kind of an operation, its actor, and its causal lane, if it
  has one.  Dictionaries that the source iterates are association lists; the cursors, which it
  only looks up with a default, are functions.
\<close>

section \<open>The ledger\<close>

type_synonym lane = "string option"
type_synonym lane_key = "string \<times> string \<times> lane"
type_synonym op_id = "string \<times> string"

record reservation =
  res_kind :: string
  res_record_id :: string
  res_span_id :: string
  res_actor_id :: string
  res_lane :: lane
  res_started_at_ns :: int
  res_request :: pyval
  res_expected :: "pyval option"

record ledger =
  replaying :: bool
  replay_mode :: string
  auth_token :: string
  adapter :: string
  run_root :: string
  repo :: string
  path_bindings :: path_map
  fast_claim :: bool
  hard_failure :: "string option"
  active :: "(string \<times> reservation) list"
  expected :: "(lane_key \<times> pyval list) list"
  cursor :: "lane_key \<Rightarrow> nat"
  cutoff_expected :: "(lane_key \<times> pyval list) list"
  cutoff_cursor :: "lane_key \<Rightarrow> nat"
  cutoff_intercepted :: "op_id set"
  completed :: "op_id set"
  delivered :: "op_id set"
  lane_of_record :: "(string \<times> lane) list"
  source_path_maps :: "(string \<times> path_map) list"
  truncated :: "op_id set"
  truncated_elapsed :: "(op_id \<times> int) list"
  truncated_started :: "(op_id \<times> int) list"
  source_cutoff_at_ns :: "int option"
  causal_lanes_enabled :: bool
  ledger_file :: "(string \<times> pyval) list"
  span_file :: "pyval list"
  tail_runtime_file :: "pyval list"

definition ledger_schema :: "string \<Rightarrow> string" where
  "ledger_schema kind =
     (if kind = ''dispatch'' then DISPATCH_SCHEMA else if kind = ''tool'' then TOOL_SCHEMA
      else if kind = ''grader'' then GRADER_SCHEMA else ARTIFACT_SCHEMA)"

definition queue_at :: "(lane_key \<times> pyval list) list \<Rightarrow> lane_key \<Rightarrow> pyval list" where
  "queue_at qs key = (case map_of qs key of None \<Rightarrow> [] | Some q \<Rightarrow> q)"

text \<open>Cutoff tails carry \<open>record_id\<close>; ledger records carry an identifier field per kind.\<close>

definition identity_of :: "host \<Rightarrow> string \<Rightarrow> pyval \<Rightarrow> op_id" where
  "identity_of h kind r = (kind, py_str h (pget_or r (id_field kind) (pget r ''record_id'')))"

section \<open>Claims and order\<close>

definition claim_identity :: "string \<Rightarrow> pyval \<Rightarrow> pyval list res" where
  "claim_identity kind r =
     (if kind = ''dispatch'' \<or> kind = ''tool'' then mapR (pidx r) [''name'', ''arguments_sha256'']
      else if kind = ''grader'' then mapR (pidx r) [''grader_kind'', ''implementation'']
      else if kind = ''artifact'' then mapR (pidx r) [''logical_path'', ''operation'', ''version'']
      else Inl (MismatchError ''unknown boundary kind''))"

definition same_identity :: "pyval list \<Rightarrow> pyval list \<Rightarrow> bool" where
  "same_identity xs ys \<longleftrightarrow> list_all2 py_eq xs ys"

definition issue_order :: "pyval \<Rightarrow> int res" where
  "issue_order r =
     (if is_int (pget r ''started_at_ns'') then Inr (int_of (pget r ''started_at_ns''))
      else if is_int (pget r ''source_started_at_ns'') then Inr (int_of (pget r ''source_started_at_ns''))
      else Inl (ValidationError ''record has no start time to order by''))"

text \<open>\<open>queue.sort(key=_issue_order)\<close>: stable, and raises when a record has no start.\<close>

definition issue_key :: "pyval \<Rightarrow> int" where
  "issue_key r = (case issue_order r of Inr n \<Rightarrow> n | Inl _ \<Rightarrow> 0)"

definition sort_queue :: "pyval list \<Rightarrow> pyval list res" where
  "sort_queue q = bindR (mapR issue_order q) (\<lambda>_. Inr (sort_key issue_key q))"

section \<open>Causal lanes\<close>

text \<open>A lane derived for a dispatch whose adapter names none.\<close>

definition dispatch_lane :: "pyval \<Rightarrow> lane" where
  "dispatch_lane v =
     (let origin = pget v ''origin'';
          model_call = (if is_dict origin then pget origin ''model_call_id'' else PNone);
          session = pget v ''session_id'';
          trigger = (if is_dict origin then pget origin ''trigger_id'' else PNone)
      in if is_nonempty_str model_call then Some (''model-call:'' @ str_of model_call)
         else if is_nonempty_str trigger then
           Some (''session:'' @ (if is_nonempty_str session then str_of session else ''-'') @
                 ''|trigger:'' @ str_of trigger)
         else if is_nonempty_str session then Some (''session:'' @ str_of session)
         else None)"

definition lane_of_dispatch_id :: "host \<Rightarrow> ledger \<Rightarrow> pyval \<Rightarrow> lane" where
  "lane_of_dispatch_id h st v =
     (case map_of (lane_of_record st) (py_str h (pget v ''dispatch_id'')) of None \<Rightarrow> None | Some lane \<Rightarrow> lane)"

definition record_lane :: "host \<Rightarrow> ledger \<Rightarrow> string \<Rightarrow> pyval \<Rightarrow> lane" where
  "record_lane h st kind r =
     (if kind \<noteq> ''dispatch'' \<and> kind \<noteq> ''tool'' then None
      else if \<not> causal_lanes_enabled st then
        (if adapter st \<noteq> ''coral'' then None
         else if kind = ''dispatch'' then
           (if is_nonempty_str (pget r ''session_id'') then Some (str_of (pget r ''session_id'')) else None)
         else lane_of_dispatch_id h st r)
      else if is_nonempty_str (pget r ''causal_lane'') then Some (str_of (pget r ''causal_lane''))
      else if kind = ''dispatch'' then dispatch_lane r
      else lane_of_dispatch_id h st r)"

definition payload_lane :: "host \<Rightarrow> ledger \<Rightarrow> string \<Rightarrow> pyval \<Rightarrow> lane" where
  "payload_lane h st kind payload =
     (if kind \<noteq> ''dispatch'' \<and> kind \<noteq> ''tool'' then None
      else if \<not> causal_lanes_enabled st then
        (if adapter st \<noteq> ''coral'' then None
         else if kind = ''dispatch'' then
           (if is_nonempty_str (pget payload ''session_id'') then Some (str_of (pget payload ''session_id'')) else None)
         else lane_of_dispatch_id h st payload)
      else if is_nonempty_str (pget payload ''causal_lane'') then Some (str_of (pget payload ''causal_lane''))
      else if kind = ''dispatch'' then dispatch_lane payload
      else lane_of_dispatch_id h st payload)"

definition names_lane :: "pyval \<Rightarrow> bool" where
  "names_lane r \<longleftrightarrow> is_nonempty_str (pget r ''causal_lane'')"

definition lanes_enabled :: "recording option \<Rightarrow> bool" where
  "lanes_enabled bundle =
     (case bundle of None \<Rightarrow> True
      | Some b \<Rightarrow> list_ex names_lane (rec_dispatches b @ rec_tools b) \<or> list_ex names_lane (tail_operations b))"

section \<open>Loading the expectations\<close>

definition enqueue :: "lane_key \<Rightarrow> pyval \<Rightarrow> (lane_key \<times> pyval list) list \<Rightarrow> (lane_key \<times> pyval list) list" where
  "enqueue key r qs = AList.update key (queue_at qs key @ [r]) qs"

text \<open>\<open>mapping.setdefault(physical, logical)\<close>, which must not bind a path twice.\<close>

definition bind_source_path :: "string \<times> string \<Rightarrow> path_map \<Rightarrow> path_map res" where
  "bind_source_path binding m =
     (case map_of m (fst binding) of
        None \<Rightarrow> Inr (AList.update (fst binding) (snd binding) m)
      | Some previous \<Rightarrow>
          bindR (require (previous = snd binding) ''actor: source path has conflicting logical bindings'')
            (\<lambda>_. Inr m))"

definition remember_source_paths :: "host \<Rightarrow> pyval \<Rightarrow> ledger \<Rightarrow> ledger res" where
  "remember_source_paths h r st =
     bindR (pidx r ''actor_id'') (\<lambda>actor_id.
       let actor = py_str h actor_id;
           mapping = (case map_of (source_path_maps st) actor of None \<Rightarrow> [] | Some m \<Rightarrow> m);
           workspace = pget r ''native_workspace_path'';
           mapping = (if is_nonempty_str workspace
                      then AList.update (str_of workspace) LOGICAL_WORKSPACE mapping else mapping)
       in bindR (recorded_workspace_path_map (adapter st) (pget_or r ''native_arguments'' (PDict []))
                   (pget_or r ''arguments'' (PDict [])))
            (\<lambda>recovered. bindR (foldR bind_source_path recovered mapping)
              (\<lambda>mapping. Inr (st\<lparr>source_path_maps := AList.update actor mapping (source_path_maps st)\<rparr>))))"

text \<open>The lane of a dispatch is remembered for its native tool.\<close>

definition remember_lane :: "host \<Rightarrow> lane \<Rightarrow> pyval \<Rightarrow> ledger \<Rightarrow> ledger" where
  "remember_lane h lane dispatch_id st =
     st\<lparr>lane_of_record := AList.update (py_str h dispatch_id) lane (lane_of_record st)\<rparr>"

definition load_record :: "host \<Rightarrow> string \<Rightarrow> pyval \<Rightarrow> ledger \<Rightarrow> ledger res" where
  "load_record h kind r st =
     bindR (if kind = ''dispatch'' \<or> kind = ''tool'' then remember_source_paths h r st else Inr st) (\<lambda>st.
       let lane = record_lane h st kind r in
       bindR (if kind = ''dispatch''
              then bindR (pidx r ''dispatch_id'') (\<lambda>d. Inr (remember_lane h lane d st))
              else Inr st) (\<lambda>st.
       bindR (pidx r ''actor_id'') (\<lambda>a.
         Inr (st\<lparr>expected := enqueue (kind, py_str h a, lane) r (expected st)\<rparr>))))"

text \<open>A tail of a kind the ledger does not know is skipped; a composite one can be entered.\<close>

definition composite :: "pyval \<Rightarrow> bool" where
  "composite r \<longleftrightarrow> pget r ''replay_entry'' = PStr ''enter-and-preserve-descendants''"

definition truncate_tail :: "host \<Rightarrow> string \<Rightarrow> pyval \<Rightarrow> ledger \<Rightarrow> ledger res" where
  "truncate_tail h kind r st =
     bindR (pidx r ''elapsed_ns'') (\<lambda>v. bindR (py_int v) (\<lambda>elapsed.
       Inr (st\<lparr>truncated := insert (identity_of h kind r) (truncated st),
               truncated_elapsed := AList.update (identity_of h kind r) elapsed (truncated_elapsed st)\<rparr>)))"

definition load_tail :: "host \<Rightarrow> pyval \<Rightarrow> ledger \<Rightarrow> ledger res" where
  "load_tail h r st =
     (let kind = py_str h (pget r ''kind'') in
      if kind \<notin> set KINDS then Inr st
      else
        let lane = record_lane h st kind r;
            st = (if kind = ''dispatch'' then remember_lane h lane (pget r ''record_id'') st else st)
        in bindR (pidx r ''actor_id'') (\<lambda>a.
             let st = st\<lparr>cutoff_expected := enqueue (kind, py_str h a, lane) r (cutoff_expected st)\<rparr>
             in if composite r then truncate_tail h kind r st else Inr st))"

definition sort_queues :: "(lane_key \<times> pyval list) list \<Rightarrow> (lane_key \<times> pyval list) list res" where
  "sort_queues qs = mapR (\<lambda>(key, q). bindR (sort_queue q) (\<lambda>q. Inr (key, q))) qs"

definition load_expected :: "host \<Rightarrow> recording \<Rightarrow> ledger \<Rightarrow> ledger res" where
  "load_expected h b st =
     bindR (foldR (\<lambda>kind. foldR (load_record h kind) (records b kind)) KINDS st) (\<lambda>st.
     bindR (foldR (load_tail h) (tail_operations b) st) (\<lambda>st.
     bindR (sort_queues (expected st)) (\<lambda>qs.
     bindR (sort_queues (cutoff_expected st)) (\<lambda>cqs.
       Inr (st\<lparr>expected := qs, cutoff_expected := cqs\<rparr>)))))"

record ledger_config =
  cfg_mode :: string
  cfg_replay_mode :: string
  cfg_auth_token :: string
  cfg_adapter :: string
  cfg_run_root :: string
  cfg_repo :: string
  cfg_fast_claim :: bool

definition empty_ledger :: "host \<Rightarrow> ledger_config \<Rightarrow> recording option \<Rightarrow> ledger" where
  "empty_ledger h c bundle =
     \<lparr>replaying = (cfg_mode c = ''replay''), replay_mode = cfg_replay_mode c, auth_token = cfg_auth_token c,
      adapter = cfg_adapter c, run_root = cfg_run_root c, repo = cfg_repo c,
      path_bindings = run_path_map h (cfg_run_root c) (cfg_repo c),
      fast_claim = cfg_fast_claim c, hard_failure = None, active = [],
      expected = [], cursor = (\<lambda>_. 0), cutoff_expected = [], cutoff_cursor = (\<lambda>_. 0),
      cutoff_intercepted = {}, completed = {}, delivered = {}, lane_of_record = [], source_path_maps = [],
      truncated = {}, truncated_elapsed = [], truncated_started = [], source_cutoff_at_ns = None,
      causal_lanes_enabled = lanes_enabled bundle,
      ledger_file = [], span_file = [], tail_runtime_file = []\<rparr>"

definition boundary_ledger :: "host \<Rightarrow> ledger_config \<Rightarrow> recording option \<Rightarrow> ledger res" where
  "boundary_ledger h c bundle =
     bindR (require (cfg_mode c \<in> {''record'', ''replay''}) ''invalid boundary mode'')
       (\<lambda>_. case bundle of
          None \<Rightarrow> Inr (empty_ledger h c bundle)
        | Some b \<Rightarrow> load_expected h b (empty_ledger h c bundle))"

end
