(* ===== verification/Boundary_Claim.thy ===== *)
theory Boundary_Claim
  imports Boundary_State
begin

text \<open>
  boundary.py, second part: the claim of a recorded slot when an operation starts.

  \<open>peers\<close> holds what the services install in the ledger: whether the whole run is complete,
  whether an actor is, and the attempt that produced a model call (the index of the LLM store).
\<close>

record peers =
  run_complete :: bool
  actor_complete :: "string \<Rightarrow> bool"
  attempt_for_model_call :: "(pyval \<Rightarrow> string option) option"

section \<open>The identity of a native operation\<close>

definition workspace_path_of :: "pyval \<Rightarrow> string option res" where
  "workspace_path_of payload =
     (let v = pget payload ''workspace_path'' in
      if \<not> is_nonempty_str v then Inr None
      else bindR (require (starts_with ''/'' (str_of v)) ''native workspace_path must be absolute'')
        (\<lambda>_. Inr (Some (path_text (str_of v)))))"

definition logical_arguments ::
    "host \<Rightarrow> ledger \<Rightarrow> pyval \<Rightarrow> string option \<Rightarrow> path_map \<Rightarrow> pyval res" where
  "logical_arguments h st arguments workspace source_path_map =
     (let path_map = (case workspace of None \<Rightarrow> path_bindings st
                      | Some w \<Rightarrow> AList.update (resolve_path h w) LOGICAL_WORKSPACE (path_bindings st))
      in bind_typed_fields (adapter st) arguments
           (fold (\<lambda>(k, v) m. AList.update k v m) source_path_map path_map))"

definition source_paths_of :: "host \<Rightarrow> ledger \<Rightarrow> pyval \<Rightarrow> path_map" where
  "source_paths_of h st actor_id =
     (case map_of (source_path_maps st) (py_str h actor_id) of None \<Rightarrow> [] | Some m \<Rightarrow> m)"

definition claimable :: "host \<Rightarrow> ledger \<Rightarrow> string \<Rightarrow> pyval \<Rightarrow> pyval \<Rightarrow> pyval res" where
  "claimable h st kind payload want =
     (if kind \<noteq> ''dispatch'' \<and> kind \<noteq> ''tool'' then Inr payload
      else
        bindR (recorded_path_map (adapter st) (pget_or want ''native_arguments'' (PDict []))
                 (pget_or want ''arguments'' (PDict []))) (\<lambda>source_path_map.
        bindR (workspace_path_of payload) (\<lambda>workspace.
        bindR (logical_arguments h st (pget_or payload ''arguments'' (PDict [])) workspace source_path_map)
          (\<lambda>arguments.
            let arguments =
                  (if adapter st = ''coral''
                   then restore_embedded_coral_source_paths h arguments
                          (source_paths_of h st (pget payload ''actor_id'')) (run_root st) workspace
                   else arguments)
            in Inr (pset ''arguments_sha256'' (PStr (sha256_json h arguments)) payload)))))"

text \<open>The identity a claim observes, and whether it is the recorded one.\<close>

definition matches :: "host \<Rightarrow> ledger \<Rightarrow> string \<Rightarrow> pyval \<Rightarrow> pyval \<Rightarrow> bool res" where
  "matches h st kind payload want =
     bindR (claimable h st kind payload want) (\<lambda>value.
     bindR (claim_identity kind value) (\<lambda>observed.
     bindR (claim_identity kind want) (\<lambda>recorded. Inr (same_identity observed recorded))))"

definition model_call_id :: "pyval \<Rightarrow> string option" where
  "model_call_id v =
     (let native = pget v ''native_call_id''; origin = pget v ''origin'';
          call = (if is_dict origin then pget origin ''model_call_id'' else PNone);
          lane = pget v ''causal_lane''
      in if is_nonempty_str native then Some (str_of native)
         else if is_nonempty_str call then Some (str_of call)
         else if is_str lane \<and> starts_with ''model-call:'' (str_of lane)
              then Some (drop (length ''model-call:'') (str_of lane))
         else None)"

section \<open>The claim\<close>

definition claim_closed ::
    "host \<Rightarrow> string \<Rightarrow> lane_key \<Rightarrow> pyval \<Rightarrow> (ledger, pyval) op" where
  "claim_closed h kind key payload st =
     (let want = queue_at (expected st) key ! cursor st key in
      case (if fast_claim st then Inr True else matches h st kind payload want) of
        Inl e \<Rightarrow> (Inl e, st)
      | Inr False \<Rightarrow> (Inl (MismatchError ''native invocation drift''), st)
      | Inr True \<Rightarrow> (Inr want, st\<lparr>cursor := (cursor st)(key := cursor st key + 1)\<rparr>))"

definition claim_tail ::
    "host \<Rightarrow> string \<Rightarrow> lane_key \<Rightarrow> pyval \<Rightarrow> (ledger, pyval) op" where
  "claim_tail h kind key payload st =
     (let tail = queue_at (cutoff_expected st) key ! cutoff_cursor st key;
          pre_dispatch = (pget tail ''pre_dispatch'' = PBool True)
      in case (if pre_dispatch
               then Inr (model_call_id tail \<noteq> None \<and> model_call_id payload = model_call_id tail)
               else if fast_claim st then Inr True else matches h st kind payload tail) of
           Inl e \<Rightarrow> (Inl e, st)
         | Inr False \<Rightarrow>
             (Inl (MismatchError (if pre_dispatch then ''pre-dispatch cutoff drift'' else ''cutoff-tail drift'')), st)
         | Inr True \<Rightarrow>
             (if composite tail then Inr tail
              else Inl (WorkloadComplete ''entered a source cutoff tail''),
              st\<lparr>cutoff_cursor := (cutoff_cursor st)(key := cutoff_cursor st key + 1),
                 cutoff_intercepted := insert (identity_of h kind tail) (cutoff_intercepted st)\<rparr>))"

definition lane_complete :: "host \<Rightarrow> ledger \<Rightarrow> lane_key \<Rightarrow> bool" where
  "lane_complete h st key =
     (let queue = queue_at (expected st) key in
      queue \<noteq> [] \<and> list_all (\<lambda>r. identity_of h (fst key) r \<in> delivered st) queue)"

definition claim :: "host \<Rightarrow> peers \<Rightarrow> string \<Rightarrow> string \<Rightarrow> pyval \<Rightarrow> (ledger, pyval) op" where
  "claim h p kind actor_id payload st =
     (let key = (kind, actor_id, payload_lane h st kind payload) in
      if cursor st key < length (queue_at (expected st) key) then claim_closed h kind key payload st
      else if cutoff_cursor st key < length (queue_at (cutoff_expected st) key) then claim_tail h kind key payload st
      else if run_complete p \<or> actor_complete p actor_id \<or> lane_complete h st key
        then (Inl (WorkloadComplete ''arrived after the recorded window closed''), st)
      else (Inl (MismatchError ''unexpected native operation''), st))"

end
