(* ===== verification/Boundary.thy ===== *)
theory Boundary
  imports Boundary_Claim
begin

text \<open>
  boundary.py, third part: starting and completing an operation, the freeze of the operations
  still running at the cutoff, the accounting of what is left, and the HTTP handlers.

  What a call reads from the clock or draws at random is an argument: a \<open>tick\<close> holds the values
  one \<open>start\<close> reads.
\<close>

record tick =
  tick_now :: int
  tick_entered :: int
  tick_record :: string
  tick_span :: string
  tick_reservation :: string

section \<open>Start\<close>

definition resolve_trigger :: "peers \<Rightarrow> pyval \<Rightarrow> pyval res" where
  "resolve_trigger p payload =
     (let origin = pget payload ''origin'' in
      bindR (require (is_dict origin) ''dispatch origin must be an object'')
       (\<lambda>_. case attempt_for_model_call p of
          None \<Rightarrow> Inr (pset ''origin'' origin payload)
        | Some attempt \<Rightarrow>
            if pget origin ''trigger_id'' \<noteq> PStr ''auto'' then Inr (pset ''origin'' origin payload)
            else case attempt (pget origin ''model_call_id'') of
                None \<Rightarrow> Inl (MismatchError ''dispatch names a model call which no LLM attempt produced'')
              | Some a \<Rightarrow> Inr (pset ''origin'' (pset ''trigger_id'' (PStr a) origin) payload)))"

definition start_request :: "peers \<Rightarrow> tick \<Rightarrow> pyval \<Rightarrow> (string \<times> string \<times> int \<times> pyval) res" where
  "start_request p t payload =
     (let kind = pget payload ''kind''; actor = pget payload ''actor_id'';
          started = pget_or payload ''started_at_ns'' (PInt (tick_now t)) in
      bindR (checks
        [require_in kind KINDS ''invalid boundary kind'',
         require (is_nonempty_str actor) ''boundary actor_id is required'',
         require (is_int started \<and> 0 \<le> int_of started) ''invalid boundary start time'']) (\<lambda>_.
      bindR (if kind = PStr ''dispatch'' then resolve_trigger p payload
             else if kind = PStr ''tool'' then
               bindR (validate_result_contract (pget payload ''result_contract'')) (\<lambda>_. Inr payload)
             else Inr payload)
        (\<lambda>payload. Inr (str_of kind, str_of actor, int_of started, payload))))"

definition claim_expected ::
    "host \<Rightarrow> peers \<Rightarrow> string \<Rightarrow> string \<Rightarrow> pyval \<Rightarrow> (ledger, pyval option) op" where
  "claim_expected h p kind actor_id payload st =
     (if \<not> replaying st then (Inr None, st)
      else bindS (claim h p kind actor_id payload) (\<lambda>r. liftS (Inr (Some r))) st)"

definition open_ids :: "host \<Rightarrow> tick \<Rightarrow> string \<Rightarrow> pyval \<Rightarrow> pyval option \<Rightarrow> (string \<times> string) res" where
  "open_ids h t kind payload want =
     (case want of
        Some r \<Rightarrow> bindR (pidx r ''span_id'') (\<lambda>s. Inr (snd (identity_of h kind r), py_str h s))
      | None \<Rightarrow>
          let hint = pget payload ''record_id_hint''; span_hint = pget payload ''span_id_hint'' in
          Inr (if is_nonempty_str hint then str_of hint else kind @ ''-'' @ tick_record t,
               if is_nonempty_str span_hint then str_of span_hint else ''span-'' @ tick_span t))"

definition open_reservation :: "tick \<Rightarrow> reservation \<Rightarrow> ledger \<Rightarrow> ledger" where
  "open_reservation t r st =
     (let identity = (res_kind r, res_record_id r) in
      st\<lparr>lane_of_record := (if res_kind r = ''dispatch''
           then AList.update (res_record_id r) (res_lane r) (lane_of_record st) else lane_of_record st),
         active := AList.update (tick_reservation t) r (active st),
         truncated_started := (if identity \<in> truncated st
           then AList.update identity (tick_entered t) (truncated_started st) else truncated_started st)\<rparr>)"

text \<open>The recorded arguments of a replayed dispatch, in the directories of this run.\<close>

definition execution_arguments :: "host \<Rightarrow> ledger \<Rightarrow> reservation \<Rightarrow> pyval \<Rightarrow> pyval res" where
  "execution_arguments h st r want =
     bindR (pidx want ''arguments'') (\<lambda>arguments.
     bindR (workspace_path_of (res_request r)) (\<lambda>workspace.
     bindR (to_physical h (adapter st) arguments (run_root st) (repo st) workspace) (\<lambda>physical.
       Inr (if adapter st = ''coral''
            then rebind_embedded_coral_paths h physical (source_paths_of h st (PStr (res_actor_id r)))
                   (run_root st) workspace
            else physical))))"

definition simulated_execution :: "host \<Rightarrow> pyval \<Rightarrow> pyval res" where
  "simulated_execution h want =
     bindR (bindR (pidx want ''ended_at_ns'') py_int) (\<lambda>ended.
     bindR (bindR (pidx want ''started_at_ns'') py_int) (\<lambda>started.
       Inr (PDict [(''elapsed_ns'', PInt (max 0 (ended - started))),
                   (''status'', PStr (py_str h (pget_or want ''status'' (PStr ''ok''))))])))"

definition start_response :: "host \<Rightarrow> tick \<Rightarrow> reservation \<Rightarrow> ledger \<Rightarrow> pyval res" where
  "start_response h t r st =
     (let response = [(''reservation_id'', PStr (tick_reservation t)),
                      (''record_id'', PStr (res_record_id r)), (''span_id'', PStr (res_span_id r))]
      in case res_expected r of
           None \<Rightarrow> Inr (PDict response)
         | Some want \<Rightarrow>
             if res_kind r = ''dispatch'' then
               bindR (execution_arguments h st r want)
                 (\<lambda>a. Inr (PDict (response @ [(''execution_arguments'', a)])))
             else if res_kind r = ''tool'' \<and> replay_mode st = ''llm-only'' then
               bindR (simulated_execution h want)
                 (\<lambda>s. Inr (PDict (response @ [(''simulated_execution'', s)])))
             else Inr (PDict response))"

definition start :: "host \<Rightarrow> peers \<Rightarrow> tick \<Rightarrow> pyval \<Rightarrow> (ledger, pyval) op" where
  "start h p t payload0 =
     bindS (liftS (start_request p t payload0)) (\<lambda>(kind, actor_id, started, payload).
     bindS (claim_expected h p kind actor_id payload) (\<lambda>want.
     bindS (liftS (open_ids h t kind payload want)) (\<lambda>(record_id, span_id) st.
       let r = \<lparr>res_kind = kind, res_record_id = record_id, res_span_id = span_id, res_actor_id = actor_id,
                res_lane = payload_lane h st kind payload, res_started_at_ns = started,
                res_request = payload, res_expected = want\<rparr>;
           st' = open_reservation t r st
       in (start_response h t r st', st'))))"

section \<open>Records\<close>

definition common_fields :: "reservation \<Rightarrow> int \<Rightarrow> dict" where
  "common_fields r ended =
     [(''schema_version'', PStr (ledger_schema (res_kind r))),
      (id_field (res_kind r), PStr (res_record_id r)),
      (''span_id'', PStr (res_span_id r)), (''actor_id'', PStr (res_actor_id r)),
      (''process_role'', pget (res_request r) ''process_role''),
      (''started_at_ns'', PInt (res_started_at_ns r)), (''ended_at_ns'', PInt ended)]"

definition request_arguments :: "host \<Rightarrow> ledger \<Rightarrow> pyval \<Rightarrow> (string option \<times> pyval) res" where
  "request_arguments h st request =
     bindR (workspace_path_of request) (\<lambda>workspace.
     bindR (logical_arguments h st (pget_or request ''arguments'' (PDict [])) workspace [])
       (\<lambda>arguments. Inr (workspace, arguments)))"

definition dispatch_record :: "host \<Rightarrow> ledger \<Rightarrow> reservation \<Rightarrow> pyval \<Rightarrow> dict \<Rightarrow> pyval res" where
  "dispatch_record h st r payload common =
     (let request = res_request r in
      bindR (request_arguments h st request) (\<lambda>(workspace, arguments).
        Inr (PDict (common @
          [(''causal_lane'', opt_str (res_lane r)),
           (''session_id'', pget request ''session_id''),
           (''parser_identity'', pget request ''parser_identity''),
           (''dispatcher_identity'', pget request ''dispatcher_identity''),
           (''native_call_id'', pget request ''native_call_id''),
           (''name'', pget request ''name''),
           (''arguments'', arguments),
           (''arguments_sha256'', PStr (sha256_json h arguments)),
           (''native_arguments'', pget_or request ''arguments'' (PDict [])),
           (''native_workspace_path'', opt_str workspace),
           (''origin'', pget request ''origin''),
           (''status'', pget payload ''status''),
           (''execution_call_id'', pget payload ''execution_call_id'')]))))"

definition restores_exception :: "reservation \<Rightarrow> bool" where
  "restores_exception r \<longleftrightarrow>
     (case res_expected r of None \<Rightarrow> False | Some want \<Rightarrow> pget want ''exception_raised'' = PBool True)"

definition tool_fields ::
    "host \<Rightarrow> reservation \<Rightarrow> pyval \<Rightarrow> string option \<times> pyval \<Rightarrow> pyval \<Rightarrow> projection \<Rightarrow> pyval \<Rightarrow> dict" where
  "tool_fields h r payload wa contract projection framework_result =
     (let request = res_request r; arguments = snd wa in
      [(''causal_lane'', opt_str (res_lane r)),
       (''dispatch_id'', pget request ''dispatch_id''),
       (''name'', pget request ''name''),
       (''implementation'', pget request ''implementation''),
       (''arguments'', arguments),
       (''arguments_sha256'', PStr (sha256_json h arguments)),
       (''native_arguments'', pget_or request ''arguments'' (PDict [])),
       (''native_workspace_path'', opt_str (fst wa)),
       (''result_contract'', contract),
       (''semantic_timeout_s'', pget request ''semantic_timeout_s''),
       (''result'', framework_result),
       (''native_result'', pget payload ''result''),
       (''native_observations'', PList (proj_evidence projection)),
       (''status'', if restores_exception r
          then pget_or (the (res_expected r)) ''status'' (PStr ''error'')
          else pget_or payload ''status'' (PStr ''ok'')),
       (''exception_raised'', PBool (restores_exception r \<or>
          truthy (pget_or payload ''exception_raised'' (PBool False)))),
       (''native_execution'', pget_or payload ''native_execution'' (PBool True)),
       (''cpu_seconds'', pget_or payload ''cpu_seconds'' (PFloat 0)),
       (''child_processes'', pget_or payload ''child_processes'' (PList []))])"

text \<open>
  Recording keeps what the framework saw; a replay keeps the recorded value as the result and
  the value of this run as the native result.
\<close>

definition tool_record :: "host \<Rightarrow> ledger \<Rightarrow> reservation \<Rightarrow> pyval \<Rightarrow> dict \<Rightarrow> pyval res" where
  "tool_record h st r payload common =
     (let native_result = pget payload ''result'' in
      bindR (request_arguments h st (res_request r)) (\<lambda>wa.
      bindR (pidx (res_request r) ''result_contract'') (\<lambda>contract.
      bindR (project_result h native_result contract) (\<lambda>projection.
      bindR (case res_expected r of None \<Rightarrow> Inr native_result | Some want \<Rightarrow> pidx want ''result'')
       (\<lambda>framework_result.
        Inr (PDict (common @ tool_fields h r payload wa contract projection framework_result)))))))"

definition grader_record :: "reservation \<Rightarrow> pyval \<Rightarrow> dict \<Rightarrow> pyval res" where
  "grader_record r payload common =
     (let request = res_request r in
      Inr (PDict (common @
        [(''implementation'', pget request ''implementation''),
         (''grader_kind'', pget request ''grader_kind''),
         (''trigger_id'', pget request ''trigger_id''),
         (''status'', pget_or payload ''status'' (PStr ''ok'')),
         (''result'', pget payload ''result''),
         (''llm_attempt_ids'', pget_or payload ''llm_attempt_ids'' (PList [])),
         (''tool_call_ids'', pget_or payload ''tool_call_ids'' (PList [])),
         (''artifact_versions'', pget_or payload ''artifact_versions'' (PList [])),
         (''cpu_seconds'', pget_or payload ''cpu_seconds'' (PFloat 0))])))"

definition artifact_record :: "reservation \<Rightarrow> pyval \<Rightarrow> dict \<Rightarrow> pyval res" where
  "artifact_record r payload common =
     (let request = res_request r in
      Inr (PDict (common @
        [(''logical_path'', pget request ''logical_path''),
         (''physical_path'', pget payload ''physical_path''),
         (''operation'', pget request ''operation''),
         (''version'', pget request ''version''),
         (''bytes_sha256'', pget payload ''bytes_sha256''),
         (''size'', pget payload ''size''),
         (''mode'', pget payload ''mode''),
         (''triggered_by'', pget_or payload ''triggered_by'' (PList [])),
         (''read_from'', pget payload ''read_from''),
         (''completed_at_ns'', pget (PDict common) ''ended_at_ns''),
         (''native_execution'', pget_or payload ''native_execution'' (PBool True))])))"

definition build_record :: "host \<Rightarrow> ledger \<Rightarrow> reservation \<Rightarrow> pyval \<Rightarrow> int \<Rightarrow> pyval res" where
  "build_record h st r payload ended =
     (let common = common_fields r ended in
      if res_kind r = ''dispatch'' then dispatch_record h st r payload common
      else if res_kind r = ''tool'' then tool_record h st r payload common
      else if res_kind r = ''grader'' then grader_record r payload common
      else artifact_record r payload common)"

definition span_record :: "reservation \<Rightarrow> pyval \<Rightarrow> int \<Rightarrow> pyval" where
  "span_record r record ended =
     PDict
      [(''schema_version'', PStr SPAN_SCHEMA),
       (''span_id'', PStr (res_span_id r)),
       (''parent_span_id'', pget (res_request r) ''parent_span_id''),
       (''actor_id'', PStr (res_actor_id r)),
       (''kind'', PStr (res_kind r)),
       (''name'', py_or (pget (res_request r) ''name'') (PStr (res_kind r))),
       (''status'', pget_or record ''status'' (PStr ''ok'')),
       (''started_at_ns'', PInt (res_started_at_ns r)),
       (''ended_at_ns'', PInt ended)]"

section \<open>Complete\<close>

definition completion_response :: "reservation \<Rightarrow> bool \<Rightarrow> pyval res" where
  "completion_response r dropped =
     (let response = [(''valid'', PBool True)] @ (if dropped then [(''discarded_at_cutoff'', PBool True)] else [])
      in if res_kind r \<noteq> ''tool'' then Inr (PDict response)
         else case res_expected r of
             None \<Rightarrow> Inr (PDict (response @ [(''result_replay_required'', PBool False)]))
           | Some want \<Rightarrow>
               if dropped then Inr (PDict (response @ [(''result_replay_required'', PBool False)]))
               else bindR (pidx want ''result'') (\<lambda>result.
                 Inr (PDict (response @
                   [(''framework_result'', result), (''result_replay_required'', PBool True)] @
                   (if restores_exception r then [(''framework_exception'', result)] else [])))))"

text \<open>The response that the handler withholds for ever.\<close>

definition held_response :: pyval where
  "held_response = PDict [(''valid'', PBool True), (''_hold_for_cutoff'', PBool True)]"

definition hold_truncated :: "reservation \<Rightarrow> pyval \<Rightarrow> int \<Rightarrow> (ledger, pyval) op" where
  "hold_truncated r payload ended st =
     (Inr held_response,
      st\<lparr>tail_runtime_file := tail_runtime_file st @
        [PDict [(''schema_version'', PStr ''minireplay.cutoff-tail-runtime/v1''),
                (''kind'', PStr (res_kind r)), (''record_id'', PStr (res_record_id r)),
                (''actor_id'', PStr (res_actor_id r)), (''started_at_ns'', PInt (res_started_at_ns r)),
                (''native_completed_at_ns'', PInt ended),
                (''status'', pget_or payload ''status'' (PStr ''ok'')),
                (''cpu_seconds'', pget_or payload ''cpu_seconds'' (PFloat 0))]]\<rparr>)"

definition write_record :: "bool \<Rightarrow> reservation \<Rightarrow> pyval \<Rightarrow> int \<Rightarrow> ledger \<Rightarrow> ledger" where
  "write_record defer_delivery r record ended st =
     (let identity = (res_kind r, res_record_id r) in
      st\<lparr>ledger_file := ledger_file st @ [(res_kind r, record)],
         span_file := span_file st @ [span_record r record ended],
         completed := insert identity (completed st),
         delivered := (if defer_delivery then delivered st else insert identity (delivered st))\<rparr>)"

definition past_cutoff :: "ledger \<Rightarrow> int \<Rightarrow> bool" where
  "past_cutoff st ended \<longleftrightarrow>
     \<not> replaying st \<and> (case source_cutoff_at_ns st of None \<Rightarrow> False | Some c \<Rightarrow> c < ended)"

definition finish_reservation ::
    "host \<Rightarrow> bool \<Rightarrow> reservation \<Rightarrow> pyval \<Rightarrow> int \<Rightarrow> (ledger, pyval) op" where
  "finish_reservation h defer_delivery r payload ended st =
     (if (res_kind r, res_record_id r) \<in> truncated st then hold_truncated r payload ended st
      else case build_record h st r payload ended of
          Inl e \<Rightarrow> (Inl e, st)
        | Inr record \<Rightarrow>
            if past_cutoff st ended then (completion_response r True, st)
            else (completion_response r False, write_record defer_delivery r record ended st))"

definition complete_op :: "host \<Rightarrow> int \<Rightarrow> bool \<Rightarrow> pyval \<Rightarrow> (ledger, pyval) op" where
  "complete_op h now defer_delivery payload st =
     (let rid = pget payload ''reservation_id'' in
      if \<not> is_str rid then (Inl (ValidationError ''completion reservation_id is required''), st)
      else case map_of (active st) (str_of rid) of
          None \<Rightarrow> (Inl (ValidationError ''unknown or already completed reservation''), st)
        | Some r \<Rightarrow>
            let st = st\<lparr>active := AList.delete (str_of rid) (active st)\<rparr>;
                ended = pget_or payload ''ended_at_ns'' (PInt now)
            in if is_int ended \<and> res_started_at_ns r \<le> int_of ended
               then finish_reservation h defer_delivery r payload (int_of ended) st
               else (Inl (ValidationError ''invalid boundary end time''), st))"

definition mark_delivered :: "op_id \<Rightarrow> (ledger, unit) op" where
  "mark_delivered identity st =
     (if identity \<in> completed st then (Inr (), st\<lparr>delivered := insert identity (delivered st)\<rparr>)
      else (Inl (ValidationError ''cannot deliver an incomplete operation''), st))"

section \<open>The freeze at the cutoff\<close>

definition elapsed_at :: "int \<Rightarrow> reservation \<Rightarrow> int" where
  "elapsed_at cutoff_at_ns r = max 0 (cutoff_at_ns - res_started_at_ns r)"

definition tail_record :: "host \<Rightarrow> int \<Rightarrow> reservation \<Rightarrow> string option \<times> pyval \<Rightarrow> pyval" where
  "tail_record h cutoff_at_ns r wa =
     (let request = res_request r; arguments = snd wa in
      PDict (
       [(''cutoff_truncated'', PBool True), (''kind'', PStr (res_kind r)),
        (id_field (res_kind r), PStr (res_record_id r)), (''record_id'', PStr (res_record_id r)),
        (''span_id'', PStr (res_span_id r)), (''actor_id'', PStr (res_actor_id r)),
        (''lane'', opt_str (res_lane r)), (''causal_lane'', opt_str (res_lane r)),
        (''session_id'', pget request ''session_id''), (''origin'', pget request ''origin''),
        (''parent_span_id'', pget request ''parent_span_id'')] @
       (if res_kind r = ''tool'' then [(''dispatch_id'', pget request ''dispatch_id'')] else []) @
       [(''name'', pget request ''name''), (''implementation'', pget request ''implementation''),
        (''grader_kind'', pget request ''grader_kind''), (''logical_path'', pget request ''logical_path''),
        (''operation'', pget request ''operation''), (''version'', pget request ''version''),
        (''arguments'', arguments), (''native_arguments'', pget_or request ''arguments'' (PDict [])),
        (''native_workspace_path'', opt_str (fst wa)), (''arguments_sha256'', PStr (sha256_json h arguments)),
        (''result_contract'', pget request ''result_contract''),
        (''source_started_at_ns'', PInt (res_started_at_ns r)),
        (''elapsed_ns'', PInt (elapsed_at cutoff_at_ns r)),
        (''replay_entry'', PStr (if pget request ''name'' = PStr ''task'' \<and> res_kind r \<in> {''dispatch'', ''tool''}
           then ''enter-and-preserve-descendants'' else ''block-before-entry''))]))"

definition truncate_reservation :: "int \<Rightarrow> reservation \<Rightarrow> ledger \<Rightarrow> ledger" where
  "truncate_reservation cutoff_at_ns r st =
     (let identity = (res_kind r, res_record_id r) in
      st\<lparr>truncated := insert identity (truncated st),
         truncated_elapsed := AList.update identity (elapsed_at cutoff_at_ns r) (truncated_elapsed st)\<rparr>)"

definition freeze_reservation :: "host \<Rightarrow> int \<Rightarrow> reservation \<Rightarrow> (ledger, pyval) op" where
  "freeze_reservation h cutoff_at_ns r =
     bindS (updateS (truncate_reservation cutoff_at_ns r)) (\<lambda>_ st.
       (bindR (request_arguments h st (res_request r)) (\<lambda>wa. Inr (tail_record h cutoff_at_ns r wa)), st))"

definition freeze_source_cutoff :: "host \<Rightarrow> int \<Rightarrow> (ledger, pyval list) op" where
  "freeze_source_cutoff h cutoff_at_ns st =
     mapS (freeze_reservation h cutoff_at_ns) (map snd (active st))
       (st\<lparr>source_cutoff_at_ns := Some cutoff_at_ns\<rparr>)"

section \<open>What is left\<close>

definition served :: "int \<Rightarrow> ledger \<Rightarrow> op_id \<Rightarrow> bool" where
  "served now st identity \<longleftrightarrow>
     (case (map_of (truncated_started st) identity, map_of (truncated_elapsed st) identity) of
        (Some started, Some required) \<Rightarrow> required \<le> now - started
      | _ \<Rightarrow> False)"

definition expected_ids :: "host \<Rightarrow> ledger \<Rightarrow> op_id list" where
  "expected_ids h st = concat (map (\<lambda>(key, queue). map (identity_of h (fst key)) queue) (expected st))"

definition actor_expected_ids :: "host \<Rightarrow> ledger \<Rightarrow> string \<Rightarrow> op_id list" where
  "actor_expected_ids h st actor_id =
     concat (map (\<lambda>(key, queue). map (identity_of h (fst key)) queue)
       (filter (\<lambda>(key, queue). fst (snd key) = actor_id) (expected st)))"

definition expected_complete :: "host \<Rightarrow> int \<Rightarrow> ledger \<Rightarrow> bool" where
  "expected_complete h now st \<longleftrightarrow>
     replaying st \<and>
     list_all (\<lambda>identity. identity \<in> truncated st \<or> identity \<in> delivered st) (expected_ids h st) \<and>
     list_all (\<lambda>(identity, required). served now st identity) (truncated_elapsed st)"

definition actor_expected_complete :: "host \<Rightarrow> int \<Rightarrow> ledger \<Rightarrow> string \<Rightarrow> bool" where
  "actor_expected_complete h now st actor_id \<longleftrightarrow>
     replaying st \<and>
     list_all (\<lambda>identity. if identity \<in> truncated st then served now st identity else identity \<in> delivered st)
       (actor_expected_ids h st actor_id)"

definition actor_expected_prefix_consumed :: "host \<Rightarrow> ledger \<Rightarrow> string \<Rightarrow> bool" where
  "actor_expected_prefix_consumed h st actor_id \<longleftrightarrow>
     replaying st \<and>
     list_all (\<lambda>identity. if identity \<in> truncated st then map_of (truncated_started st) identity \<noteq> None
                          else identity \<in> completed st)
       (actor_expected_ids h st actor_id)"

definition op_text :: "op_id \<Rightarrow> string" where
  "op_text identity = fst identity @ '':'' @ snd identity"

definition missing_ops :: "host \<Rightarrow> ledger \<Rightarrow> op_id list" where
  "missing_ops h st =
     filter (\<lambda>identity. identity \<notin> truncated st \<and> identity \<notin> delivered st) (expected_ids h st)"

definition unexpected_active :: "ledger \<Rightarrow> op_id list" where
  "unexpected_active st =
     filter (\<lambda>identity. identity \<notin> truncated st)
       (map (\<lambda>(_, r). (res_kind r, res_record_id r)) (active st))"

definition truncated_progress :: "int \<Rightarrow> ledger \<Rightarrow> pyval" where
  "truncated_progress now st =
     PDict [(''tails'', PList (map (\<lambda>(identity, required).
        let started = map_of (truncated_started st) identity in
        PDict [(''kind'', PStr (fst identity)), (''record_id'', PStr (snd identity)),
               (''entered'', PBool (started \<noteq> None)), (''required_ns'', PInt required),
               (''elapsed_ns'', PInt (case started of None \<Rightarrow> 0 | Some s \<Rightarrow> now - s))])
        (sort (truncated_elapsed st))))]"

definition outstanding :: "host \<Rightarrow> int \<Rightarrow> ledger \<Rightarrow> pyval" where
  "outstanding h now st =
     (let texts = (\<lambda>ids. PList (map PStr (sort (map op_text ids)))) in
      PDict [(''missing'', texts (missing_ops h st)),
             (''evidence_not_delivered'', texts (sorted_list_of_set (completed st - delivered st))),
             (''unexpected_active'', texts (unexpected_active st)),
             (''truncated'', truncated_progress now st)])"

definition assert_consumed :: "host \<Rightarrow> int \<Rightarrow> ledger \<Rightarrow> unit res" where
  "assert_consumed h now st =
     (let report = outstanding h now st in
      if truthy (pget report ''missing'') then Inl (MismatchError ''missing native operations'')
      else if truthy (pget report ''unexpected_active'')
        then Inl (MismatchError ''native operations still open at teardown'')
      else Inr ())"

definition has_unexpected_active :: "ledger \<Rightarrow> bool" where
  "has_unexpected_active st \<longleftrightarrow>
     list_ex (\<lambda>(_, r). (res_kind r, res_record_id r) \<notin> truncated st) (active st)"

section \<open>HTTP\<close>

text \<open>
  A handler answers, answers 409 with the first message kept, refuses the token, or never
  answers.  Any other exception leaves the handler (the server then answers 500).
\<close>

datatype reply = Reply pyval | Conflict string | Unauthorized | Withheld

definition bearer :: "string \<Rightarrow> string" where
  "bearer token = ''Bearer '' @ token"

definition fail_with :: "string \<Rightarrow> (ledger, reply) op" where
  "fail_with message st =
     (Inr (Conflict message),
      st\<lparr>hard_failure := (case hard_failure st of None \<Rightarrow> Some message | Some m \<Rightarrow> Some m)\<rparr>)"

definition handle_start :: "host \<Rightarrow> peers \<Rightarrow> tick \<Rightarrow> string \<Rightarrow> pyval \<Rightarrow> (ledger, reply) op" where
  "handle_start h p t authorization payload st =
     (if authorization \<noteq> bearer (auth_token st) then (Inr Unauthorized, st)
      else case start h p t payload st of
          (Inr response, st') \<Rightarrow> (Inr (Reply response), st')
        | (Inl (WorkloadComplete m), st') \<Rightarrow> (Inr Withheld, st')
        | (Inl (MismatchError m), st') \<Rightarrow> fail_with m st'
        | (Inl e, st') \<Rightarrow> (Inl e, st'))"

definition handle_complete :: "host \<Rightarrow> int \<Rightarrow> string \<Rightarrow> pyval \<Rightarrow> (ledger, reply) op" where
  "handle_complete h now authorization payload st =
     (if authorization \<noteq> bearer (auth_token st) then (Inr Unauthorized, st)
      else
        let identity = map_option (\<lambda>r. (res_kind r, res_record_id r))
              (map_of (active st) (str_of (pget payload ''reservation_id'')))
        in case complete_op h now True payload st of
            (Inl (MismatchError m), st') \<Rightarrow> fail_with m st'
          | (Inl e, st') \<Rightarrow> (Inl e, st')
          | (Inr result, st') \<Rightarrow>
              if pget result ''_hold_for_cutoff'' = PBool True then (Inr Withheld, st')
              else (Inr (Reply result),
                    case identity of
                      None \<Rightarrow> st'
                    | Some i \<Rightarrow> if i \<in> completed st' then snd (mark_delivered i st') else st'))"

definition handle_status :: "host \<Rightarrow> int \<Rightarrow> string \<Rightarrow> (ledger, reply) op" where
  "handle_status h now authorization st =
     (if authorization \<noteq> bearer (auth_token st) then (Inr Unauthorized, st)
      else (Inr (Reply (PDict (pmerge
        [(''mode'', PStr (if replaying st then ''replay'' else ''record'')),
         (''active'', PInt (int (length (active st)))),
         (''hard_failure'', opt_str (hard_failure st))]
        (fields_of (outstanding h now st))))), st))"

end
