(* ===== verification/Claim_Queue.thy ===== *)
theory Claim_Queue
  imports Main
begin

text \<open>
  The contract that the operation ledger and the LLM store share: fixed slots wait in keyed
  queues, and every call either takes the next slot of one key or moves no position at all.

  A client of the contract may rely on its consequences: the slots taken under a key are the
  recorded ones in the recorded order, none is skipped or taken twice, and calls for different
  keys do not disturb each other.
\<close>

text \<open>The slots that a sequence of calls took under a key, in the order of the calls.\<close>

fun taken_under ::
    "('c \<Rightarrow> 's \<Rightarrow> 's) \<Rightarrow> ('c \<Rightarrow> 's \<Rightarrow> ('k \<times> 'r) option) \<Rightarrow> 'k \<Rightarrow> 'c list \<Rightarrow> 's \<Rightarrow> 'r list" where
  "taken_under step taken k [] s = []"
| "taken_under step taken k (c # cs) s =
     (case taken c s of
        Some (k', r) \<Rightarrow> (if k' = k then [r] else []) @ taken_under step taken k cs (step c s)
      | None \<Rightarrow> taken_under step taken k cs (step c s))"

locale keyed_queue =
  fixes slots :: "'s \<Rightarrow> 'k \<Rightarrow> 'r list"
    and position :: "'s \<Rightarrow> 'k \<Rightarrow> nat"
    and step :: "'c \<Rightarrow> 's \<Rightarrow> 's"
    and taken :: "'c \<Rightarrow> 's \<Rightarrow> ('k \<times> 'r) option"
  assumes slots_step: "slots (step c s) = slots s"
    and taken_step: "taken c s = Some (k, r) \<Longrightarrow> position s k < length (slots s k) \<and>
      r = slots s k ! position s k \<and> position (step c s) = (position s)(k := Suc (position s k))"
    and idle_step: "taken c s = None \<Longrightarrow> position (step c s) = position s"
begin

abbreviation run :: "'c list \<Rightarrow> 's \<Rightarrow> 's" where
  "run cs s \<equiv> fold step cs s"

abbreviation took :: "'k \<Rightarrow> 'c list \<Rightarrow> 's \<Rightarrow> 'r list" where
  "took \<equiv> taken_under step taken"

lemma slots_run: "slots (run cs s) = slots s"
  by (induction cs arbitrary: s) (simp_all add: slots_step)

lemma position_step:
  "position (step c s) k = position s k + (case taken c s of Some (k', r) \<Rightarrow> if k' = k then 1 else 0 | None \<Rightarrow> 0)"
proof (cases "taken c s")
  case None
  then show ?thesis by (simp add: idle_step)
next
  case (Some kr)
  then show ?thesis using taken_step[of c s "fst kr" "snd kr"] by (cases kr) auto
qed

lemma position_run: "position (run cs s) k = position s k + length (took k cs s)"
  by (induction cs arbitrary: s) (auto simp: position_step split: option.splits)

lemma position_bounded:
  assumes "position s k \<le> length (slots s k)"
  shows "position (run cs s) k \<le> length (slots s k)"
  using assms
proof (induction cs arbitrary: s)
  case Nil
  then show ?case by simp
next
  case (Cons c cs)
  have "position (step c s) k \<le> length (slots (step c s) k)"
    using Cons.prems taken_step[of c s] by (auto simp: position_step slots_step split: option.splits)
  from Cons.IH[OF this] show ?case by (simp add: slots_step)
qed

text \<open>First in, first out, with no slot skipped or repeated.\<close>

theorem taken_in_order:
  "took k cs s = take (length (took k cs s)) (drop (position s k) (slots s k))"
proof (induction cs arbitrary: s)
  case Nil
  then show ?case by simp
next
  case (Cons c cs)
  show ?case
  proof (cases "taken c s")
    case None
    with Cons.IH[of "step c s"] show ?thesis by (simp add: slots_step idle_step)
  next
    case (Some kr)
    obtain k' r where kr: "kr = (k', r)" by (cases kr)
    with Some have t: "position s k' < length (slots s k')" "r = slots s k' ! position s k'"
      "position (step c s) = (position s)(k' := Suc (position s k'))"
      using taken_step[of c s k' r] by auto
    note ih = Cons.IH[of "step c s", unfolded slots_step t(3)]
    show ?thesis
    proof (cases "k' = k")
      case True
      with t have "drop (position s k) (slots s k) = r # drop (Suc (position s k)) (slots s k)"
        by (simp add: Cons_nth_drop_Suc)
      with Some kr True ih show ?thesis by simp
    next
      case False
      with Some kr ih show ?thesis by simp
    qed
  qed
qed

corollary taken_prefix:
  assumes "position s k = 0"
  shows "took k cs s = take (position (run cs s) k) (slots s k)"
  using taken_in_order[of k cs s] assms by (simp add: position_run)

text \<open>Everything was taken exactly when the position reached the end of the queue.\<close>

corollary drained_iff:
  assumes "position s k = 0"
  shows "took k cs s = slots s k \<longleftrightarrow> position (run cs s) k = length (slots s k)"
proof -
  have "position (run cs s) k \<le> length (slots s k)"
    using position_bounded[of s k cs] assms by simp
  then show ?thesis using taken_prefix[OF assms, of cs] by (auto simp: take_all_iff)
qed

text \<open>Calls that take slots of different keys leave each other's key as it is.\<close>

lemma other_key:
  "taken c s = Some (k', r) \<Longrightarrow> k \<noteq> k' \<Longrightarrow> position (step c s) k = position s k"
  using taken_step by simp

end

end
