(* ===== verification/Boundary_Order.thy ===== *)
theory Boundary_Order
  imports Boundary Claim_Queue "HOL-Library.Multiset"
begin

text \<open>
  The order of the claims: the ledger meets the contract of \<open>Claim_Queue\<close>, so every lane of a
  replay starts the recorded operations in their recorded order, each once.
\<close>

section \<open>The calls of the ledger\<close>

datatype boundary_call =
    Start_Call peers tick string pyval
  | Complete_Call int string pyval
  | Freeze_Call int

definition boundary_step :: "host \<Rightarrow> boundary_call \<Rightarrow> ledger \<Rightarrow> ledger" where
  "boundary_step h call st =
     (case call of
        Start_Call p t authorization payload \<Rightarrow> snd (handle_start h p t authorization payload st)
      | Complete_Call now authorization payload \<Rightarrow> snd (handle_complete h now authorization payload st)
      | Freeze_Call cutoff_at_ns \<Rightarrow> snd (freeze_source_cutoff h cutoff_at_ns st))"

text \<open>The closed slot, with its lane, that a call took.\<close>

definition claim_taken :: "host \<Rightarrow> string \<Rightarrow> string \<Rightarrow> pyval \<Rightarrow> ledger \<Rightarrow> (lane_key \<times> pyval) option" where
  "claim_taken h kind actor_id payload st =
     (let key = (kind, actor_id, payload_lane h st kind payload) in
      if cursor st key < length (queue_at (expected st) key)
      then (case fst (claim_closed h kind key payload st) of Inl _ \<Rightarrow> None | Inr r \<Rightarrow> Some (key, r))
      else None)"

definition boundary_taken :: "host \<Rightarrow> boundary_call \<Rightarrow> ledger \<Rightarrow> (lane_key \<times> pyval) option" where
  "boundary_taken h call st =
     (case call of
        Start_Call p t authorization payload \<Rightarrow>
          if authorization \<noteq> bearer (auth_token st) \<or> \<not> replaying st then None
          else (case start_request p t payload of
                  Inl _ \<Rightarrow> None
                | Inr (kind, actor_id, started, payload') \<Rightarrow> claim_taken h kind actor_id payload' st)
      | _ \<Rightarrow> None)"

section \<open>What each operation changes\<close>

text \<open>A claim moves one cursor and records an intercepted tail; nothing else changes.\<close>

definition same_but_cursors :: "ledger \<Rightarrow> ledger \<Rightarrow> bool" where
  "same_but_cursors st st' \<longleftrightarrow>
     st' = st\<lparr>cursor := cursor st', cutoff_cursor := cutoff_cursor st', cutoff_intercepted := cutoff_intercepted st'\<rparr>"

lemma same_but_cursors_refl [simp]: "same_but_cursors st st"
  by (simp add: same_but_cursors_def)

lemma same_but_cursorsE:
  assumes "same_but_cursors st st'"
  obtains c cc i where "st' = st\<lparr>cursor := c, cutoff_cursor := cc, cutoff_intercepted := i\<rparr>"
  using assms unfolding same_but_cursors_def by blast

lemma claim_closed_same: "same_but_cursors st (snd (claim_closed h kind key payload st))"
  unfolding claim_closed_def Let_def
  by (simp split: sum.split bool.split) (simp add: same_but_cursors_def)

lemma claim_tail_same: "same_but_cursors st (snd (claim_tail h kind key payload st))"
  unfolding claim_tail_def Let_def
  by (simp split: sum.split bool.split) (simp add: same_but_cursors_def)

lemma claim_same: "same_but_cursors st (snd (claim h p kind actor_id payload st))"
  by (simp add: claim_def Let_def claim_closed_same claim_tail_same)

lemma claim_expected_same: "same_but_cursors st (snd (claim_expected h p kind actor_id payload st))"
  using claim_same[of st h p kind actor_id payload]
  by (auto simp: claim_expected_def bindS_def split: prod.splits sum.splits)

text \<open>The cursors after a claim.\<close>

lemma claim_closed_cursor:
  "cursor (snd (claim_closed h kind key payload st)) =
     (case fst (claim_closed h kind key payload st) of
        Inr r \<Rightarrow> (cursor st)(key := Suc (cursor st key)) | Inl _ \<Rightarrow> cursor st)"
  "fst (claim_closed h kind key payload st) = Inr r \<Longrightarrow> r = queue_at (expected st) key ! cursor st key"
  by (auto simp: claim_closed_def Let_def split: sum.splits bool.splits)

lemma claim_tail_cursor: "cursor (snd (claim_tail h kind key payload st)) = cursor st"
  by (auto simp: claim_tail_def Let_def split: sum.splits bool.splits)

lemma claim_cursor:
  "cursor (snd (claim h p kind actor_id payload st)) =
     (case claim_taken h kind actor_id payload st of
        Some (key, r) \<Rightarrow> (cursor st)(key := Suc (cursor st key)) | None \<Rightarrow> cursor st)"
  by (auto simp: claim_def claim_taken_def Let_def claim_closed_cursor(1) claim_tail_cursor split: sum.splits)

lemma claim_taken_next:
  assumes "claim_taken h kind actor_id payload st = Some (key, r)"
  shows "cursor st key < length (queue_at (expected st) key)" and "r = queue_at (expected st) key ! cursor st key"
  using assms claim_closed_cursor(2)[of h kind key payload st]
  by (auto simp: claim_taken_def Let_def split: if_splits sum.splits)

text \<open>A start opens a reservation on top of its claim.\<close>

lemma start_cases:
  obtains (refused) e where "start h p t payload st = (Inl e, st)" "start_request p t payload = Inl e"
  | (claimed) kind actor_id started payload' e st' where
      "start_request p t payload = Inr (kind, actor_id, started, payload')"
      "snd (claim_expected h p kind actor_id payload' st) = st'" "start h p t payload st = (Inl e, st')"
  | (opened) kind actor_id started payload' want st' r where
      "start_request p t payload = Inr (kind, actor_id, started, payload')"
      "claim_expected h p kind actor_id payload' st = (Inr want, st')"
      "res_kind r = kind" "res_expected r = want" "res_actor_id r = actor_id" "res_started_at_ns r = started"
      "res_lane r = payload_lane h st' kind payload'" "res_request r = payload'"
      "open_ids h t kind payload' want = Inr (res_record_id r, res_span_id r)"
      "start h p t payload st = (start_response h t r (open_reservation t r st'), open_reservation t r st')"
proof (cases "start_request p t payload")
  case (Inl e)
  with refused show ?thesis by (simp add: start_def op_simps)
next
  case (Inr q)
  obtain kind actor_id started payload' where q: "start_request p t payload = Inr (kind, actor_id, started, payload')"
    using Inr by (cases q) auto
  obtain w st' where c: "claim_expected h p kind actor_id payload' st = (w, st')" by fastforce
  show ?thesis
  proof (cases w)
    case (Inl e)
    with q c show ?thesis by (intro claimed[of kind actor_id started payload' st' e]) (simp_all add: start_def op_simps)
  next
    case w: (Inr want)
    show ?thesis
    proof (cases "open_ids h t kind payload' want")
      case (Inl e)
      with q c w show ?thesis
        by (intro claimed[of kind actor_id started payload' st' e]) (simp_all add: start_def op_simps)
    next
      case (Inr ids)
      let ?r = "\<lparr>res_kind = kind, res_record_id = fst ids, res_span_id = snd ids, res_actor_id = actor_id,
        res_lane = payload_lane h st' kind payload', res_started_at_ns = started,
        res_request = payload', res_expected = want\<rparr>"
      from q c w Inr show ?thesis
        by (intro opened[of kind actor_id started payload' want st' ?r])
           (simp_all add: start_def op_simps Let_def split: prod.splits)
    qed
  qed
qed

text \<open>What one call leaves as it is: the recorded queues and the configuration.\<close>

definition same_recording :: "ledger \<Rightarrow> ledger \<Rightarrow> bool" where
  "same_recording st st' \<longleftrightarrow>
     expected st' = expected st \<and> cutoff_expected st' = cutoff_expected st \<and>
     replaying st' = replaying st \<and> auth_token st' = auth_token st \<and> adapter st' = adapter st \<and>
     fast_claim st' = fast_claim st \<and> path_bindings st' = path_bindings st \<and>
     run_root st' = run_root st \<and> repo st' = repo st \<and> source_path_maps st' = source_path_maps st \<and>
     causal_lanes_enabled st' = causal_lanes_enabled st"

lemma same_recording_refl [simp]: "same_recording st st"
  by (simp add: same_recording_def)

lemma same_recording_trans: "same_recording a b \<Longrightarrow> same_recording b c \<Longrightarrow> same_recording a c"
  by (simp add: same_recording_def)

lemma same_but_cursors_recording: "same_but_cursors st st' \<Longrightarrow> same_recording st st'"
  by (erule same_but_cursorsE) (simp add: same_recording_def)

lemma start_same_recording: "same_recording st (snd (start h p t payload st))"
proof (cases rule: start_cases[of h p t payload st])
  case (claimed kind actor_id started payload' e st')
  then show ?thesis using claim_expected_same same_but_cursors_recording by fastforce
next
  case (opened kind actor_id started payload' want st' r)
  then have "same_recording st st'"
    using claim_expected_same[of st h p kind actor_id payload'] same_but_cursors_recording by simp
  with opened show ?thesis by (simp add: same_recording_def open_reservation_def Let_def)
qed simp

lemma fail_with_ledger [simp]:
  "same_recording st (snd (fail_with m st))" "cursor (snd (fail_with m st)) = cursor st"
  by (simp_all add: fail_with_def same_recording_def)

lemma handle_start_snd:
  assumes "P (snd (start h p t payload st))" and "P st" and "\<And>m st. P st \<Longrightarrow> P (snd (fail_with m st))"
  shows "P (snd (handle_start h p t authorization payload st))"
  using assms by (auto simp: handle_start_def split: prod.splits sum.splits err.splits)

lemma finish_reservation_fields:
  "same_recording st (snd (finish_reservation h d r payload ended st))"
  "cursor (snd (finish_reservation h d r payload ended st)) = cursor st"
  by (auto simp: finish_reservation_def hold_truncated_def write_record_def same_recording_def Let_def split: sum.splits)

lemma complete_fields:
  "same_recording st (snd (complete_op h now d payload st))" "cursor (snd (complete_op h now d payload st)) = cursor st"
proof -
  have "same_recording st (snd (complete_op h now d payload st)) \<and> cursor (snd (complete_op h now d payload st)) = cursor st"
    using finish_reservation_fields[where st = "st\<lparr>active := a\<rparr>" for a]
    unfolding complete_op_def Let_def by (simp add: same_recording_def split: option.split)
  then show "same_recording st (snd (complete_op h now d payload st))"
    "cursor (snd (complete_op h now d payload st)) = cursor st" by simp_all
qed

lemma handle_complete_snd:
  assumes "P (snd (complete_op h now True payload st))" and "P st"
    and "\<And>m st. P st \<Longrightarrow> P (snd (fail_with m st))"
    and "\<And>i st. P st \<Longrightarrow> i \<in> completed st \<Longrightarrow> P (st\<lparr>delivered := insert i (delivered st)\<rparr>)"
  shows "P (snd (handle_complete h now authorization payload st))"
  using assms
  by (auto simp: handle_complete_def mark_delivered_def Let_def split: prod.splits sum.splits err.splits option.splits)

lemma freeze_reservation_state:
  "snd (freeze_reservation h c r st) = truncate_reservation c r st"
  by (simp add: freeze_reservation_def op_simps)

lemma freeze_keeps:
  assumes "P (st\<lparr>source_cutoff_at_ns := Some c\<rparr>)"
    and "\<And>r s. r \<in> snd ` set (active st) \<Longrightarrow> P s \<Longrightarrow> P (truncate_reservation c r s)"
  shows "P (snd (freeze_source_cutoff h c st))"
  unfolding freeze_source_cutoff_def
proof (rule mapS_keeps)
  show "P (st\<lparr>source_cutoff_at_ns := Some c\<rparr>)" by (rule assms(1))
  fix r s assume "r \<in> set (map snd (active st))" and "P s"
  then show "P (snd (freeze_reservation h c r s))"
    unfolding freeze_reservation_state using assms(2)[of r s] by simp
qed

lemma freeze_fields:
  "same_recording st (snd (freeze_source_cutoff h c st)) \<and> cursor (snd (freeze_source_cutoff h c st)) = cursor st"
  by (rule freeze_keeps[where P = "\<lambda>s. same_recording st s \<and> cursor s = cursor st"])
     (auto simp: same_recording_def truncate_reservation_def Let_def)

lemma boundary_step_recording: "same_recording st (boundary_step h call st)"
proof (cases call)
  case (Start_Call p t authorization payload)
  have "same_recording st (snd (handle_start h p t authorization payload st))"
    by (rule handle_start_snd) (auto simp: start_same_recording intro: same_recording_trans)
  with Start_Call show ?thesis by (simp add: boundary_step_def)
next
  case (Complete_Call now authorization payload)
  have "same_recording st (snd (handle_complete h now authorization payload st))"
    by (rule handle_complete_snd, rule complete_fields(1))
       (auto simp: same_recording_def fail_with_def)
  with Complete_Call show ?thesis by (simp add: boundary_step_def)
next
  case (Freeze_Call c)
  then show ?thesis using freeze_fields by (simp add: boundary_step_def)
qed

section \<open>The cursors\<close>

lemma snd_claim_expected:
  "snd (claim_expected h p kind actor_id payload st) =
     (if replaying st then snd (claim h p kind actor_id payload st) else st)"
  by (simp add: claim_expected_def bindS_def split: prod.splits sum.splits)

lemma start_cursor:
  "cursor (snd (start h p t payload st)) =
     (if \<not> replaying st then cursor st
      else case start_request p t payload of
             Inl _ \<Rightarrow> cursor st
           | Inr (kind, actor_id, started, payload') \<Rightarrow>
               (case claim_taken h kind actor_id payload' st of
                  Some (key, r) \<Rightarrow> (cursor st)(key := Suc (cursor st key)) | None \<Rightarrow> cursor st))"
proof (cases rule: start_cases[of h p t payload st])
  case (claimed kind actor_id started payload' e st')
  then show ?thesis
    using snd_claim_expected[of h p kind actor_id payload' st] claim_cursor[of h p kind actor_id payload' st]
    by auto
next
  case (opened kind actor_id started payload' want st' r)
  then have "cursor (snd (start h p t payload st)) = cursor st'"
    by (simp add: open_reservation_def Let_def)
  with opened show ?thesis
    using snd_claim_expected[of h p kind actor_id payload' st] claim_cursor[of h p kind actor_id payload' st]
    by auto
qed simp

lemma boundary_cursor:
  "cursor (boundary_step h call st) =
     (case boundary_taken h call st of
        Some (key, r) \<Rightarrow> (cursor st)(key := Suc (cursor st key)) | None \<Rightarrow> cursor st)"
proof (cases call)
  case (Start_Call p t authorization payload)
  have "cursor (snd (handle_start h p t authorization payload st)) =
      (if authorization \<noteq> bearer (auth_token st) then cursor st else cursor (snd (start h p t payload st)))"
    by (auto simp: handle_start_def fail_with_def split: prod.splits sum.splits err.splits)
  with Start_Call show ?thesis
    by (auto simp: boundary_step_def boundary_taken_def start_cursor split: sum.splits)
next
  case (Complete_Call now authorization payload)
  have "cursor (snd (handle_complete h now authorization payload st)) = cursor st"
    by (rule handle_complete_snd) (simp_all add: complete_fields)
  with Complete_Call show ?thesis by (simp add: boundary_step_def boundary_taken_def)
next
  case (Freeze_Call c)
  then show ?thesis using freeze_fields by (simp add: boundary_step_def boundary_taken_def)
qed

lemma boundary_taken_next:
  assumes "boundary_taken h call st = Some (key, r)"
  shows "cursor st key < length (queue_at (expected st) key) \<and> r = queue_at (expected st) key ! cursor st key"
  using assms claim_taken_next[of h _ _ _ st key r]
  by (auto simp: boundary_taken_def split: boundary_call.splits if_splits sum.splits)

text \<open>The operation ledger meets the contract of the keyed queues.\<close>

interpretation bq: keyed_queue "\<lambda>st. queue_at (expected st)" cursor "boundary_step h" "boundary_taken h"
  for h :: host
proof
  fix call st
  show "queue_at (expected (boundary_step h call st)) = queue_at (expected st)"
    using boundary_step_recording[of st h call] by (simp add: same_recording_def)
  fix key r
  assume "boundary_taken h call st = Some (key, r)"
  then show "cursor st key < length (queue_at (expected st) key) \<and>
      r = queue_at (expected st) key ! cursor st key \<and>
      cursor (boundary_step h call st) = (cursor st)(key := Suc (cursor st key))"
    using boundary_taken_next by (simp add: boundary_cursor)
next
  fix call st
  assume "boundary_taken h call st = None"
  then show "cursor (boundary_step h call st) = cursor st" by (simp add: boundary_cursor)
qed

section \<open>The loaded queues\<close>

text \<open>Every slot of a queue is a recorded operation of its kind and actor.\<close>

definition queues_ok :: "host \<Rightarrow> recording \<Rightarrow> (lane_key \<times> pyval list) list \<Rightarrow> bool" where
  "queues_ok h b qs \<longleftrightarrow>
     distinct (map fst qs) \<and>
     (\<forall>(key, q) \<in> set qs. \<forall>r \<in> set q. fst key \<in> set KINDS \<and> r \<in> set (records b (fst key)) \<and>
        fst (snd key) = py_str h (pget r ''actor_id''))"

text \<open>The slots of all queues, each with the kind of its queue.\<close>

definition slots_of_kind :: "string \<Rightarrow> pyval list \<Rightarrow> (string \<times> pyval) multiset" where
  "slots_of_kind kind q = image_mset (Pair kind) (mset q)"

definition all_slots :: "(lane_key \<times> pyval list) list \<Rightarrow> (string \<times> pyval) multiset" where
  "all_slots qs = (\<Sum>(key, q) \<leftarrow> qs. slots_of_kind (fst key) q)"

lemma all_slots_update:
  assumes "distinct (map fst qs)"
  shows "all_slots (AList.update key (queue_at qs key @ [r]) qs) = add_mset (fst key, r) (all_slots qs)"
  using assms
proof (induction qs)
  case Nil
  then show ?case by (simp add: all_slots_def queue_at_def slots_of_kind_def)
next
  case (Cons kq qs)
  then show ?case by (cases kq) (auto simp: all_slots_def queue_at_def slots_of_kind_def)
qed

lemma update_mem: "kq \<in> set (AList.update k q qs) \<Longrightarrow> kq = (k, q) \<or> kq \<in> set qs"
  by (induction qs) (auto split: if_splits)

lemma enqueue_ok:
  assumes "queues_ok h b qs" and "kind \<in> set KINDS" and "r \<in> set (records b kind)"
    and "a = py_str h (pget r ''actor_id'')"
  shows "queues_ok h b (enqueue (kind, a, lane) r qs)"
    and "all_slots (enqueue (kind, a, lane) r qs) = add_mset (kind, r) (all_slots qs)"
proof -
  have d: "distinct (map fst qs)" using assms(1) by (simp add: queues_ok_def)
  then show "all_slots (enqueue (kind, a, lane) r qs) = add_mset (kind, r) (all_slots qs)"
    by (simp add: enqueue_def all_slots_update)
  have old: "\<forall>x \<in> set (queue_at qs (kind, a, lane)). x \<in> set (records b kind) \<and> a = py_str h (pget x ''actor_id'')"
    using assms(1) by (fastforce simp: queues_ok_def queue_at_def dest: map_of_SomeD split: option.splits)
  show "queues_ok h b (enqueue (kind, a, lane) r qs)"
    unfolding queues_ok_def
  proof (intro conjI ballI)
    show "distinct (map fst (enqueue (kind, a, lane) r qs))"
      using d by (simp add: enqueue_def distinct_update)
    fix kq assume "kq \<in> set (enqueue (kind, a, lane) r qs)"
    then consider "kq = ((kind, a, lane), queue_at qs (kind, a, lane) @ [r])" | "kq \<in> set qs"
      unfolding enqueue_def using update_mem by fastforce
    then show "case kq of (key, q) \<Rightarrow> \<forall>r\<in>set q. fst key \<in> set KINDS \<and> r \<in> set (records b (fst key)) \<and>
        fst (snd key) = py_str h (pget r ''actor_id'')"
    proof cases
      case 1
      with old assms(2-4) show ?thesis by auto
    next
      case 2
      with assms(1) show ?thesis by (auto simp: queues_ok_def)
    qed
  qed
qed

definition unclaimed :: "ledger \<Rightarrow> bool" where
  "unclaimed st \<longleftrightarrow> cursor st = (\<lambda>_. 0) \<and> cutoff_cursor st = (\<lambda>_. 0)"

lemma remember_source_paths_fields:
  "remember_source_paths h r st = Inr st' \<Longrightarrow> \<exists>m. st' = st\<lparr>source_path_maps := m\<rparr>"
  by (auto simp: remember_source_paths_def bindR_eq_Inr Let_def)

lemma load_record_ok:
  assumes "load_record h kind r st = Inr st'" and "queues_ok h b (expected st)"
    and "kind \<in> set KINDS" and "r \<in> set (records b kind)"
  shows "queues_ok h b (expected st') \<and> all_slots (expected st') = add_mset (kind, r) (all_slots (expected st)) \<and>
    (unclaimed st \<longrightarrow> unclaimed st')"
proof -
  from assms(1) obtain st1 st2 a where
    one: "(if kind = ''dispatch'' \<or> kind = ''tool'' then remember_source_paths h r st else Inr st) = Inr st1"
    and two: "(if kind = ''dispatch''
        then bindR (pidx r ''dispatch_id'') (\<lambda>d. Inr (remember_lane h (record_lane h st1 kind r) d st1))
        else Inr st1) = Inr st2"
    and a: "pidx r ''actor_id'' = Inr a"
    and st': "st' = st2\<lparr>expected := enqueue (kind, py_str h a, record_lane h st1 kind r) r (expected st2)\<rparr>"
    unfolding load_record_def bindR_eq_Inr Let_def by blast
  have st1: "expected st1 = expected st" "cursor st1 = cursor st" "cutoff_cursor st1 = cutoff_cursor st"
    using one remember_source_paths_fields[of h r st st1] by (auto split: if_splits)
  have st2: "expected st2 = expected st1" "cursor st2 = cursor st1" "cutoff_cursor st2 = cutoff_cursor st1"
    using two by (auto simp: bindR_eq_Inr remember_lane_def split: if_splits)
  from a have "py_str h a = py_str h (pget r ''actor_id'')"
    by (auto simp: pidx_def pget_def pget_or_def split: option.splits)
  with enqueue_ok[OF assms(2-4), of "py_str h a" "record_lane h st1 kind r"] st1 st2 show ?thesis
    by (simp add: st' unclaimed_def)
qed

lemma load_records_ok:
  assumes "foldR (load_record h kind) rs st = Inr st'" and "queues_ok h b (expected st)"
    and "kind \<in> set KINDS" and "set rs \<subseteq> set (records b kind)"
  shows "queues_ok h b (expected st') \<and> all_slots (expected st') = slots_of_kind kind rs + all_slots (expected st) \<and>
    (unclaimed st \<longrightarrow> unclaimed st')"
  using assms
proof (induction rs arbitrary: st)
  case Nil
  then show ?case by (simp add: slots_of_kind_def)
next
  case (Cons r rs)
  then obtain st1 where st1: "load_record h kind r st = Inr st1" "foldR (load_record h kind) rs st1 = Inr st'"
    by (auto simp: bindR_eq_Inr)
  note one = load_record_ok[OF st1(1) Cons.prems(2,3)]
  with Cons.IH[OF st1(2)] Cons.prems show ?case by (auto simp: slots_of_kind_def)
qed

lemma truncate_tail_fields:
  "truncate_tail h kind r st = Inr st' \<Longrightarrow>
     expected st' = expected st \<and> cursor st' = cursor st \<and> cutoff_cursor st' = cutoff_cursor st"
  by (auto simp: truncate_tail_def bindR_eq_Inr)

lemma load_tail_fields:
  assumes "load_tail h r st = Inr st'"
  shows "expected st' = expected st \<and> cursor st' = cursor st \<and> cutoff_cursor st' = cutoff_cursor st"
proof (cases "py_str h (pget r ''kind'') \<in> set KINDS")
  case True
  with assms show ?thesis
    unfolding load_tail_def Let_def
    by (cases "composite r") (auto simp: bindR_eq_Inr remember_lane_def dest!: truncate_tail_fields)
next
  case False
  with assms show ?thesis by (simp add: load_tail_def)
qed

lemma load_tails_fields:
  assumes "foldR (load_tail h) rs st = Inr st'"
  shows "expected st' = expected st \<and> (unclaimed st \<longrightarrow> unclaimed st')"
  by (rule foldR_invariant[OF assms, where P = "\<lambda>s. expected s = expected st \<and> (unclaimed st \<longrightarrow> unclaimed s)"])
     (auto dest: load_tail_fields simp: unclaimed_def)

lemma sort_queue_ok: "sort_queue q = Inr q' \<Longrightarrow> q' = sort_key issue_key q"
  by (auto simp: sort_queue_def bindR_eq_Inr)

lemma sort_queues_ok:
  assumes "sort_queues qs = Inr qs'"
  shows "qs' = map (\<lambda>(key, q). (key, sort_key issue_key q)) qs"
  using assms
proof (induction qs arbitrary: qs')
  case Nil
  then show ?case by (simp add: sort_queues_def)
next
  case (Cons kq qs)
  then show ?case by (cases kq) (auto simp: sort_queues_def bindR_eq_Inr dest!: sort_queue_ok)
qed

lemma queues_ok_sorted:
  assumes "queues_ok h b qs" and qs': "qs' = map (\<lambda>(key, q). (key, sort_key issue_key q)) qs"
  shows "queues_ok h b qs'" and "all_slots qs' = all_slots qs"
    and "sorted (map issue_key (queue_at qs' key))"
proof -
  have "map fst qs' = map fst qs" by (simp add: qs' case_prod_beta)
  then show "queues_ok h b qs'"
    using assms(1) unfolding queues_ok_def qs' by (simp add: case_prod_beta comp_def)
  show "all_slots qs' = all_slots qs"
    by (simp add: all_slots_def slots_of_kind_def qs' case_prod_unfold comp_def)
  have "map_of qs' key = map_option (sort_key issue_key) (map_of qs key)"
    unfolding qs' by (induction qs) auto
  then show "sorted (map issue_key (queue_at qs' key))"
    by (simp add: queue_at_def split: option.split)
qed

lemma loaded_queues:
  assumes "boundary_ledger h c (Some b) = Inr st"
  shows "queues_ok h b (expected st)" and "unclaimed st"
    and "all_slots (expected st) =
      slots_of_kind ''dispatch'' (rec_dispatches b) + slots_of_kind ''tool'' (rec_tools b) +
      slots_of_kind ''grader'' (rec_graders b) + slots_of_kind ''artifact'' (rec_artifacts b)"
    and "sorted (map issue_key (queue_at (expected st) key))"
proof -
  let ?e = "empty_ledger h c (Some b)"
  have e: "queues_ok h b (expected ?e)" "unclaimed ?e" "all_slots (expected ?e) = {#}"
    by (simp_all add: queues_ok_def empty_ledger_def unclaimed_def all_slots_def)
  from assms have "load_expected h b ?e = Inr st"
    by (simp add: boundary_ledger_def bindR_eq_Inr)
  then obtain a tails qs cqs where
    all: "foldR (\<lambda>kind. foldR (load_record h kind) (records b kind)) KINDS ?e = Inr a"
    and load_tails: "foldR (load_tail h) (tail_operations b) a = Inr tails"
    and sorts: "sort_queues (expected tails) = Inr qs" "sort_queues (cutoff_expected tails) = Inr cqs"
    and st: "st = tails\<lparr>expected := qs, cutoff_expected := cqs\<rparr>"
    unfolding load_expected_def bindR_eq_Inr by blast
  obtain d t g where
    load: "foldR (load_record h ''dispatch'') (records b ''dispatch'') ?e = Inr d"
      "foldR (load_record h ''tool'') (records b ''tool'') d = Inr t"
      "foldR (load_record h ''grader'') (records b ''grader'') t = Inr g"
      "foldR (load_record h ''artifact'') (records b ''artifact'') g = Inr a"
    using all unfolding KINDS_def foldR.simps bindR_eq_Inr sum.inject by blast
  have k: "x \<in> set KINDS" if "x \<in> {''dispatch'', ''tool'', ''grader'', ''artifact''}" for x
    using that by (auto simp: KINDS_def)
  have 1: "queues_ok h b (expected d) \<and> all_slots (expected d) = slots_of_kind ''dispatch'' (rec_dispatches b) \<and> unclaimed d"
    using load_records_ok[OF load(1) e(1)] e k by (simp add: records_def)
  have 2: "queues_ok h b (expected t) \<and> all_slots (expected t) = slots_of_kind ''tool'' (rec_tools b) + all_slots (expected d) \<and> unclaimed t"
    using load_records_ok[OF load(2), of b] 1 k by (simp add: records_def)
  have 3: "queues_ok h b (expected g) \<and> all_slots (expected g) = slots_of_kind ''grader'' (rec_graders b) + all_slots (expected t) \<and> unclaimed g"
    using load_records_ok[OF load(3), of b] 2 k by (simp add: records_def)
  have 4: "queues_ok h b (expected a) \<and> all_slots (expected a) = slots_of_kind ''artifact'' (rec_artifacts b) + all_slots (expected g) \<and> unclaimed a"
    using load_records_ok[OF load(4), of b] 3 k by (simp add: records_def)
  have tails: "expected tails = expected a" "unclaimed tails" using load_tails_fields[OF load_tails] 4 by auto
  note sorted = queues_ok_sorted[OF _ sort_queues_ok[OF sorts(1)], of h b]
  show "queues_ok h b (expected st)" using sorted(1) 4 tails st by simp
  show "unclaimed st" using tails st by (simp add: unclaimed_def)
  show "all_slots (expected st) =
      slots_of_kind ''dispatch'' (rec_dispatches b) + slots_of_kind ''tool'' (rec_tools b) +
      slots_of_kind ''grader'' (rec_graders b) + slots_of_kind ''artifact'' (rec_artifacts b)"
    using sorted(2) 1 2 3 4 tails st by (simp add: ac_simps)
  show "sorted (map issue_key (queue_at (expected st) key))"
    using sorted(3) 4 tails st by simp
qed

text \<open>
  C8: A replay starts the recorded operations of a lane in the order the framework began them, each
  once and none skipped, whatever calls arrive and in whatever order: the slots taken are the
  first ones of the lane's queue, which is sorted by start time and holds recorded operations of
  that kind and actor only.
\<close>

theorem replay_follows_recording:
  assumes "boundary_ledger h c (Some b) = Inr st"
  shows "taken_under (boundary_step h) (boundary_taken h) (kind, actor_id, lane) calls st =
      take (cursor (fold (boundary_step h) calls st) (kind, actor_id, lane))
        (queue_at (expected st) (kind, actor_id, lane)) \<and>
    sorted (map issue_key (queue_at (expected st) (kind, actor_id, lane))) \<and>
    (\<forall>r \<in> set (queue_at (expected st) (kind, actor_id, lane)).
       r \<in> set (records b kind) \<and> py_str h (pget r ''actor_id'') = actor_id)"
proof -
  let ?key = "(kind, actor_id, lane)"
  have "cursor st ?key = 0" using loaded_queues(2)[OF assms] by (simp add: unclaimed_def)
  then have "taken_under (boundary_step h) (boundary_taken h) ?key calls st =
      take (cursor (fold (boundary_step h) calls st) ?key) (queue_at (expected st) ?key)"
    by (rule bq.taken_prefix)
  moreover have "\<forall>r \<in> set (queue_at (expected st) ?key). r \<in> set (records b kind) \<and>
      py_str h (pget r ''actor_id'') = actor_id"
    using loaded_queues(1)[OF assms]
    by (fastforce simp: queues_ok_def queue_at_def dest: map_of_SomeD split: option.splits)
  ultimately show ?thesis using loaded_queues(4)[OF assms] by blast
qed

text \<open>Loading loses no recorded operation and duplicates none.\<close>

lemma sum_slots_of_kinds:
  "slots_of_kind ''dispatch'' (rec_dispatches b) + slots_of_kind ''tool'' (rec_tools b) +
     slots_of_kind ''grader'' (rec_graders b) + slots_of_kind ''artifact'' (rec_artifacts b) =
   (\<Sum>kind \<leftarrow> KINDS. slots_of_kind kind (records b kind))"
  by (simp add: KINDS_def records_def)

theorem loaded_slots_are_the_recording:
  assumes "boundary_ledger h c (Some b) = Inr st"
  shows "(\<Sum>(key, q) \<leftarrow> expected st. slots_of_kind (fst key) q) = (\<Sum>kind \<leftarrow> KINDS. slots_of_kind kind (records b kind))"
  using loaded_queues(3)[OF assms] by (simp add: all_slots_def sum_slots_of_kinds)

lemma slot_in_queue: "(kind, r) \<in># all_slots qs \<longleftrightarrow> (\<exists>(key, q) \<in> set qs. fst key = kind \<and> r \<in> set q)"
  by (induction qs) (auto simp: all_slots_def slots_of_kind_def)

text \<open>Every recorded operation waits in a queue of its kind.\<close>

lemma record_is_queued:
  assumes "boundary_ledger h c (Some b) = Inr st" and "kind \<in> set KINDS" and "r \<in> set (records b kind)"
  shows "\<exists>(key, q) \<in> set (expected st). fst key = kind \<and> r \<in> set q"
proof -
  have "(kind, r) \<in># all_slots (expected st)"
    unfolding loaded_queues(3)[OF assms(1)] using assms(2,3) by (auto simp: slots_of_kind_def KINDS_def records_def)
  then show ?thesis by (simp only: slot_in_queue)
qed

section \<open>A replay of two dispatches and a tool\<close>

definition sample_slot :: "string \<Rightarrow> string \<Rightarrow> string \<Rightarrow> int \<Rightarrow> (string \<times> pyval) list \<Rightarrow> pyval" where
  "sample_slot kind op_name record_id started extra =
     PDict ([(id_field kind, PStr record_id), (''span_id'', PStr (''s-'' @ record_id)), (''actor_id'', PStr ''a0''),
             (''name'', PStr op_name), (''arguments'', PDict []),
             (''arguments_sha256'', PStr (sha256_json plain_host (PDict []))),
             (''started_at_ns'', PInt started), (''ended_at_ns'', PInt (started + 4))] @ extra)"

definition sample_tool_slot :: pyval where
  "sample_tool_slot = sample_slot ''tool'' ''bash'' ''t1'' 15
     [(''dispatch_id'', PStr ''d1''), (''result_contract'', exact_result_contract),
      (''result'', PStr ''recorded''), (''exception_raised'', PBool False)]"

definition sample_tail :: pyval where
  "sample_tail =
     PDict [(''kind'', PStr ''dispatch''), (''dispatch_id'', PStr ''d3''), (''record_id'', PStr ''d3''), (''span_id'', PStr ''s-d3''),
            (''actor_id'', PStr ''a0''), (''name'', PStr ''task''), (''arguments'', PDict []),
            (''arguments_sha256'', PStr (sha256_json plain_host (PDict []))),
            (''source_started_at_ns'', PInt 30), (''elapsed_ns'', PInt 7),
            (''replay_entry'', PStr ''enter-and-preserve-descendants'')]"

definition sample_recording :: recording where
  "sample_recording = two_lane_recording
     \<lparr>rec_dispatches := [sample_slot ''dispatch'' ''edit'' ''d2'' 20 [], sample_slot ''dispatch'' ''bash'' ''d1'' 10 []],
      rec_tools := [sample_tool_slot],
      rec_cutoff_tails := PDict [(''operations'', PList [sample_tail])]\<rparr>"

definition sample_config :: ledger_config where
  "sample_config = \<lparr>cfg_mode = ''replay'', cfg_replay_mode = ''full'', cfg_auth_token = ''k'', cfg_adapter = ''owl'',
     cfg_run_root = ''/run'', cfg_repo = ''/repo'', cfg_fast_claim = False\<rparr>"

definition sample_ledger :: ledger where
  "sample_ledger = projr (boundary_ledger plain_host sample_config (Some sample_recording))"

lemma sample_ledger: "boundary_ledger plain_host sample_config (Some sample_recording) = Inr sample_ledger"
proof -
  have "\<not> isl (boundary_ledger plain_host sample_config (Some sample_recording))" by code_simp
  then show ?thesis by (simp add: sample_ledger_def)
qed

definition no_peers :: peers where
  "no_peers = \<lparr>run_complete = False, actor_complete = (\<lambda>_. False), attempt_for_model_call = None\<rparr>"

definition tick_at :: "int \<Rightarrow> string \<Rightarrow> tick" where
  "tick_at now token =
     \<lparr>tick_now = now, tick_entered = now, tick_record = token, tick_span = token, tick_reservation = token\<rparr>"

definition start_payload :: "string \<Rightarrow> string \<Rightarrow> (string \<times> pyval) list \<Rightarrow> pyval" where
  "start_payload kind op_name extra =
     PDict ([(''kind'', PStr kind), (''actor_id'', PStr ''a0''), (''name'', PStr op_name), (''arguments'', PDict []),
             (''origin'', PDict [(''kind'', PStr ''agent'')])] @ extra)"

definition start_call :: "int \<Rightarrow> string \<Rightarrow> string \<Rightarrow> (string \<times> pyval) list \<Rightarrow> boundary_call" where
  "start_call now kind op_name extra =
     Start_Call no_peers (tick_at now (nat_str (nat now))) ''Bearer k'' (start_payload kind op_name extra)"

definition tool_request :: "(string \<times> pyval) list" where
  "tool_request = [(''dispatch_id'', PStr ''d1''), (''result_contract'', exact_result_contract)]"

text \<open>The second dispatch is refused while the first one has not started.\<close>

theorem replay_follows_recording_witness:
  "taken_under (boundary_step plain_host) (boundary_taken plain_host) (''dispatch'', ''a0'', None)
     [start_call 1 ''dispatch'' ''edit'' [], start_call 2 ''dispatch'' ''bash'' [], start_call 3 ''dispatch'' ''edit'' []]
     sample_ledger =
   [sample_slot ''dispatch'' ''bash'' ''d1'' 10 [], sample_slot ''dispatch'' ''edit'' ''d2'' 20 []]"
  by (subst replay_follows_recording[OF sample_ledger, THEN conjunct1]) code_simp

theorem loaded_slots_are_the_recording_witness:
  "size (\<Sum>(key, q) \<leftarrow> expected sample_ledger. slots_of_kind (fst key) q) = 3"
  unfolding loaded_slots_are_the_recording[OF sample_ledger]
  by (simp add: sample_recording_def two_lane_recording_def KINDS_def records_def slots_of_kind_def)

end
