(* ===== verification/Boundary_Safety.thy ===== *)
theory Boundary_Safety
  imports Boundary_Order
begin

text \<open>
  What the ledger guarantees about completion: the recorded result is what a replayed tool
  returns, an operation the source never finished is neither recorded nor answered, nothing that
  ended after the cutoff is recorded, and what is delivered was recorded first.
\<close>

section \<open>The fields of a record\<close>

lemma map_of_append_left: "k \<notin> fst ` set ys \<Longrightarrow> map_of (xs @ ys) k = map_of xs k"
  using map_of_eq_None_iff[of ys k] by (simp add: map_add_def split: option.split)

lemma pget_append: "k \<notin> fst ` set xs \<Longrightarrow> pget (PDict (xs @ ys)) k = pget (PDict ys) k"
  by (simp add: pget_def pget_or_def map_add_def map_of_eq_None_iff[THEN iffD2] split: option.split)

lemma pget_append_left: "k \<notin> fst ` set ys \<Longrightarrow> pget (PDict (xs @ ys)) k = pget (PDict xs) k"
  unfolding pget_def pget_or_def fields_of.simps by (subst map_of_append_left) auto

lemma common_field_names:
  "fst ` set (common_fields r ended) =
     {''schema_version'', id_field (res_kind r), ''span_id'', ''actor_id'', ''process_role'',
      ''started_at_ns'', ''ended_at_ns''}"
  by (auto simp: common_fields_def)

lemma id_field_cases: "id_field kind \<in> {''dispatch_id'', ''call_id'', ''attempt_id'', ''event_id''}"
  by (simp add: id_field_def)

lemma tool_record_fields:
  assumes "tool_record h st r payload (common_fields r ended) = Inr record" and "res_kind r = ''tool''"
  shows "pget record ''native_result'' = pget payload ''result''"
    and "res_expected r = Some want \<Longrightarrow> pidx want ''result'' = Inr (pget record ''result'')"
    and "res_expected r = None \<Longrightarrow> pget record ''result'' = pget payload ''result''"
proof -
  have id: "id_field (res_kind r) = ''call_id''" using assms(2) by (simp add: id_field_def)
  from assms(1) obtain contract projection wa framework_result where
    result: "(case res_expected r of None \<Rightarrow> Inr (pget payload ''result'') | Some want \<Rightarrow> pidx want ''result'')
      = Inr framework_result"
    and rec: "record = PDict (common_fields r ended @ tool_fields h r payload wa contract projection framework_result)"
    unfolding tool_record_def Let_def bindR_eq_Inr sum.inject by blast
  have f: "pget record ''result'' = framework_result" "pget record ''native_result'' = pget payload ''result''"
    unfolding rec by (subst pget_append; simp add: common_field_names id tool_fields_def Let_def)+
  from f(2) show "pget record ''native_result'' = pget payload ''result''" .
  from f(1) result show "res_expected r = Some want \<Longrightarrow> pidx want ''result'' = Inr (pget record ''result'')"
    and "res_expected r = None \<Longrightarrow> pget record ''result'' = pget payload ''result''" by auto
qed

lemma build_record_ended:
  assumes "build_record h st r payload ended = Inr record"
  shows "pget record ''ended_at_ns'' = PInt ended"
proof -
  have "\<exists>extra. record = PDict (common_fields r ended @ extra)"
    using assms unfolding build_record_def Let_def
    by (auto simp: dispatch_record_def tool_record_def grader_record_def artifact_record_def bindR_eq_Inr Let_def
        split: if_splits)
  moreover have "map_of (common_fields r ended) ''ended_at_ns'' = Some (PInt ended)"
    using id_field_cases[of "res_kind r"] by (auto simp: common_fields_def)
  ultimately show ?thesis
    by (auto simp: pget_def pget_or_def map_add_def split: option.split)
qed

lemma build_record_id:
  assumes "build_record h st r payload ended = Inr rec"
  shows "pget rec (id_field (res_kind r)) = PStr (res_record_id r)"
proof -
  have "\<exists>extra. rec = PDict (common_fields r ended @ extra)"
    using assms unfolding build_record_def Let_def
    by (auto simp: dispatch_record_def tool_record_def grader_record_def artifact_record_def bindR_eq_Inr Let_def
        split: if_splits)
  moreover have "map_of (common_fields r ended) (id_field (res_kind r)) = Some (PStr (res_record_id r))"
    using id_field_cases[of "res_kind r"] by (auto simp: common_fields_def)
  ultimately show ?thesis
    by (auto simp: pget_def pget_or_def map_add_def split: option.split)
qed

section \<open>Completing a reservation\<close>

definition identity_of_reservation :: "reservation \<Rightarrow> op_id" where
  "identity_of_reservation r = (res_kind r, res_record_id r)"

text \<open>The five ways a completion ends.\<close>

lemma complete_cases:
  obtains (no_reservation) e where "complete_op h now d payload st = (Inl e, st)"
      "map_of (active st) (str_of (pget payload ''reservation_id'')) = None \<or> \<not> is_str (pget payload ''reservation_id'')"
  | (bad_end) rid r e where "pget payload ''reservation_id'' = PStr rid" "map_of (active st) rid = Some r"
      "complete_op h now d payload st = (Inl e, st\<lparr>active := AList.delete rid (active st)\<rparr>)"
  | (held) rid r ended where "pget payload ''reservation_id'' = PStr rid" "map_of (active st) rid = Some r"
      "identity_of_reservation r \<in> truncated st"
      "complete_op h now d payload st = hold_truncated r payload ended (st\<lparr>active := AList.delete rid (active st)\<rparr>)"
  | (dropped) rid r ended rec where "pget payload ''reservation_id'' = PStr rid" "map_of (active st) rid = Some r"
      "identity_of_reservation r \<notin> truncated st" "past_cutoff st ended"
      "complete_op h now d payload st = (completion_response r True, st\<lparr>active := AList.delete rid (active st)\<rparr>)"
  | (written) rid r ended rec where "pget payload ''reservation_id'' = PStr rid" "map_of (active st) rid = Some r"
      "identity_of_reservation r \<notin> truncated st" "\<not> past_cutoff st ended"
      "build_record h (st\<lparr>active := AList.delete rid (active st)\<rparr>) r payload ended = Inr rec"
      "complete_op h now d payload st = (completion_response r False,
         write_record d r rec ended (st\<lparr>active := AList.delete rid (active st)\<rparr>))"
proof (cases "\<exists>rid r. pget payload ''reservation_id'' = PStr rid \<and> map_of (active st) rid = Some r")
  case False
  let ?rid = "pget payload ''reservation_id''"
  have "map_of (active st) (str_of ?rid) = None \<or> \<not> is_str ?rid"
    using False by (cases ?rid) auto
  moreover have "\<exists>e. complete_op h now d payload st = (Inl e, st)"
    using False by (cases ?rid) (auto simp: complete_op_def)
  ultimately show ?thesis using no_reservation by blast
next
  case True
  then obtain rid r where rid: "pget payload ''reservation_id'' = PStr rid" "map_of (active st) rid = Some r" by blast
  let ?st = "st\<lparr>active := AList.delete rid (active st)\<rparr>"
  let ?fin = "pget_or payload ''ended_at_ns'' (PInt now)"
  have co: "complete_op h now d payload st =
      (if is_int ?fin \<and> res_started_at_ns r \<le> int_of ?fin then finish_reservation h d r payload (int_of ?fin) ?st
       else (Inl (ValidationError ''invalid boundary end time''), ?st))"
    using rid by (simp add: complete_op_def Let_def)
  show ?thesis
  proof (cases "is_int ?fin \<and> res_started_at_ns r \<le> int_of ?fin")
    case False
    with co show ?thesis by (intro bad_end[OF rid]) simp
  next
    case True
    show ?thesis
    proof (cases "identity_of_reservation r \<in> truncated st")
      case t: True
      with True co show ?thesis
        by (intro held[OF rid t, of "int_of ?fin"]) (simp add: finish_reservation_def identity_of_reservation_def)
    next
      case t: False
      show ?thesis
      proof (cases "build_record h ?st r payload (int_of ?fin)")
        case (Inl e)
        with True t co show ?thesis
          by (intro bad_end[OF rid, of e]) (simp add: finish_reservation_def identity_of_reservation_def)
      next
        case (Inr rec)
        have "past_cutoff ?st (int_of ?fin) = past_cutoff st (int_of ?fin)" by (simp add: past_cutoff_def)
        with Inr True t co show ?thesis
          by (cases "past_cutoff st (int_of ?fin)")
             (auto simp: finish_reservation_def identity_of_reservation_def
               intro: dropped[OF rid t] written[OF rid t])
      qed
    qed
  qed
qed

lemma not_past_cutoff_replaying [simp]: "replaying st \<Longrightarrow> \<not> past_cutoff st ended"
  by (simp add: past_cutoff_def)

text \<open>
  C9: Completing a tool of a replay restores the recorded observation, whatever this run's call
  returned: the framework gets the recorded result, and the recorded exception exactly when the
  recording raised one; the new record keeps both values apart.
\<close>

theorem tool_result_restored:
  assumes "map_of (active st) rid = Some r" and "res_kind r = ''tool''" and "res_expected r = Some want"
    and "(res_kind r, res_record_id r) \<notin> truncated st" and "replaying st"
    and "pget payload ''reservation_id'' = PStr rid"
    and "complete_op h now d payload st = (Inr response, st')"
  shows "pget response ''framework_result'' = pget want ''result'' \<and>
    pget response ''result_replay_required'' = PBool True \<and>
    pget response ''framework_exception'' =
      (if pget want ''exception_raised'' = PBool True then pget want ''result'' else PNone) \<and>
    (\<exists>rec. ledger_file st' = ledger_file st @ [(''tool'', rec)] \<and>
       pget rec ''result'' = pget want ''result'' \<and>
       pget rec ''native_result'' = pget payload ''result'')"
proof (cases rule: complete_cases[of h now d payload st])
  case (written rid' r' ended rec)
  with assms have r': "r' = r" "rid' = rid" by auto
  let ?st = "st\<lparr>active := AList.delete rid (active st)\<rparr>"
  have "tool_record h ?st r payload (common_fields r ended) = Inr rec"
    using written(5) assms(2) r' by (simp add: build_record_def)
  note fields = tool_record_fields[OF this assms(2)]
  from fields(2)[OF assms(3)] have result: "pget rec ''result'' = pget want ''result''"
    "pidx want ''result'' = Inr (pget want ''result'')"
    by (auto simp: pidx_def pget_def[of want] pget_or_def[of want] split: option.splits)
  have st': "st' = write_record d r rec ended ?st" and resp: "completion_response r False = Inr response"
    using written(6) assms(7) r' by auto
  from resp result(2) assms(2,3) have "response = PDict ([(''valid'', PBool True)] @
      [(''framework_result'', pget want ''result''), (''result_replay_required'', PBool True)] @
      (if restores_exception r then [(''framework_exception'', pget want ''result'')] else []))"
    by (auto simp: completion_response_def Let_def)
  then have "pget response ''framework_result'' = pget want ''result''"
    "pget response ''result_replay_required'' = PBool True"
    "pget response ''framework_exception'' =
      (if pget want ''exception_raised'' = PBool True then pget want ''result'' else PNone)"
    using assms(3) by (simp_all add: restores_exception_def)
  moreover have "ledger_file st' = ledger_file st @ [(''tool'', rec)]"
    by (simp add: st' write_record_def assms(2) Let_def)
  ultimately show ?thesis using result(1) fields(1) by blast
qed (use assms in \<open>auto simp: identity_of_reservation_def\<close>)

text \<open>
  C10: The handler never answers the completion of an operation that the source had not finished, and
  the operation is neither recorded nor counted as completed or delivered.
\<close>

theorem unfinished_operation_never_answers:
  assumes "map_of (active st) rid = Some r" and "(res_kind r, res_record_id r) \<in> truncated st"
    and "pget payload ''reservation_id'' = PStr rid"
    and "handle_complete h now (bearer (auth_token st)) payload st = (Inr answer, st')"
  shows "answer = Withheld \<and> ledger_file st' = ledger_file st \<and> span_file st' = span_file st \<and>
    completed st' = completed st \<and> delivered st' = delivered st"
proof (cases rule: complete_cases[of h now True payload st])
  case (held rid' r' ended)
  have "pget held_response ''_hold_for_cutoff'' = PBool True" by (simp add: held_response_def)
  with held assms(4) show ?thesis by (auto simp: handle_complete_def hold_truncated_def)
next
  case (bad_end rid' r' e)
  show ?thesis
  proof (cases e)
    case (MismatchError m)
    have "False" using bad_end assms MismatchError
      by (auto simp: complete_op_def finish_reservation_def hold_truncated_def Let_def split: if_splits)
    then show ?thesis ..
  qed (use bad_end assms(4) in \<open>simp_all add: handle_complete_def\<close>)
qed (use assms in \<open>auto simp: identity_of_reservation_def\<close>)

section \<open>The invariant of the ledger\<close>

definition recorded_ids :: "ledger \<Rightarrow> op_id set" where
  "recorded_ids st = (\<lambda>(kind, rec). (kind, str_of (pget rec (id_field kind)))) ` set (ledger_file st)"

text \<open>
  What was delivered was completed; what was completed is what the ledger files hold; a truncated
  operation has the time it must be held for, and only truncated operations are timed.
\<close>

definition ledger_inv :: "ledger \<Rightarrow> bool" where
  "ledger_inv st \<longleftrightarrow>
     delivered st \<subseteq> completed st \<and> completed st = recorded_ids st \<and>
     dom (map_of (truncated_elapsed st)) = truncated st \<and>
     dom (map_of (truncated_started st)) \<subseteq> truncated st"

text \<open>A property of the ledger's bookkeeping that every step keeps, part by part.\<close>

lemma start_keeps:
  assumes "P st"
    and "\<And>st' c cc i. P st' \<Longrightarrow> P (st'\<lparr>cursor := c, cutoff_cursor := cc, cutoff_intercepted := i\<rparr>)"
    and "\<And>r st'. P st' \<Longrightarrow> P (open_reservation t r st')"
  shows "P (snd (start h p t payload st))"
proof (cases rule: start_cases[of h p t payload st])
  case (claimed kind actor_id started payload' e st')
  then have "same_but_cursors st st'" using claim_expected_same by blast
  with assms(1,2) claimed show ?thesis by (auto elim: same_but_cursorsE)
next
  case (opened kind actor_id started payload' want st' r)
  then have "same_but_cursors st st'" using claim_expected_same[of st h p kind actor_id payload'] by simp
  with assms(1,2) have "P st'" by (auto elim: same_but_cursorsE)
  with assms(3) opened show ?thesis by simp
qed (use assms(1) in simp)

lemma complete_keeps:
  assumes "P st" and "\<And>st' a. P st' \<Longrightarrow> P (st'\<lparr>active := a\<rparr>)"
    and "\<And>st' f. P st' \<Longrightarrow> P (st'\<lparr>tail_runtime_file := f\<rparr>)"
    and "\<And>st' r rec ended. P st' \<Longrightarrow> identity_of_reservation r \<notin> truncated st' \<Longrightarrow> \<not> past_cutoff st' ended \<Longrightarrow>
      build_record h st' r payload ended = Inr rec \<Longrightarrow> P (write_record d r rec ended st')"
  shows "P (snd (complete_op h now d payload st))"
proof (cases rule: complete_cases[of h now d payload st])
  case (held rid r ended)
  with assms(1-3) show ?thesis by (simp add: hold_truncated_def)
next
  case (written rid r ended rec)
  have "past_cutoff (st\<lparr>active := a\<rparr>) ended = past_cutoff st ended" for a by (simp add: past_cutoff_def)
  with written assms(1,2,4) show ?thesis by simp
qed (use assms(1,2) in simp_all)

lemma boundary_step_keeps:
  assumes "P st"
    and "\<And>st' c cc i. P st' \<Longrightarrow> P (st'\<lparr>cursor := c, cutoff_cursor := cc, cutoff_intercepted := i\<rparr>)"
    and "\<And>t r st'. P st' \<Longrightarrow> P (open_reservation t r st')"
    and "\<And>st' a. P st' \<Longrightarrow> P (st'\<lparr>active := a\<rparr>)"
    and "\<And>st' f. P st' \<Longrightarrow> P (st'\<lparr>tail_runtime_file := f\<rparr>)"
    and "\<And>st' r rec ended payload. P st' \<Longrightarrow> identity_of_reservation r \<notin> truncated st' \<Longrightarrow> \<not> past_cutoff st' ended \<Longrightarrow>
      build_record h st' r payload ended = Inr rec \<Longrightarrow> P (write_record True r rec ended st')"
    and "\<And>st' f. P st' \<Longrightarrow> P (st'\<lparr>hard_failure := f\<rparr>)"
    and "\<And>st' i. P st' \<Longrightarrow> i \<in> completed st' \<Longrightarrow> P (st'\<lparr>delivered := insert i (delivered st')\<rparr>)"
    and "\<And>st' c. call = Freeze_Call c \<Longrightarrow> P st' \<Longrightarrow> P (st'\<lparr>source_cutoff_at_ns := Some c\<rparr>)"
    and "\<And>st' c r. call = Freeze_Call c \<Longrightarrow> P st' \<Longrightarrow> P (truncate_reservation c r st')"
  shows "P (boundary_step h call st)"
proof (cases call)
  case (Start_Call p t authorization payload)
  have "P (snd (handle_start h p t authorization payload st))"
    by (rule handle_start_snd[where P = P, OF start_keeps[where P = P, OF assms(1)]]) (use assms in \<open>simp_all add: fail_with_def\<close>)
  with Start_Call show ?thesis by (simp add: boundary_step_def)
next
  case (Complete_Call now authorization payload)
  have "P (snd (handle_complete h now authorization payload st))"
    by (rule handle_complete_snd[where P = P, OF complete_keeps[where P = P, OF assms(1)]]) (use assms in \<open>simp_all add: fail_with_def\<close>)
  with Complete_Call show ?thesis by (simp add: boundary_step_def)
next
  case (Freeze_Call c)
  have "P (snd (freeze_source_cutoff h c st))"
    by (rule freeze_keeps) (use assms(1,9,10) Freeze_Call in auto)
  with Freeze_Call show ?thesis by (simp add: boundary_step_def)
qed

lemma ledger_inv_step: "ledger_inv st \<Longrightarrow> ledger_inv (boundary_step h call st)"
proof (erule boundary_step_keeps)
  fix st' r rec ended payload
  assume "ledger_inv st'" and "build_record h st' r payload ended = Inr rec"
  then show "ledger_inv (write_record True r rec ended st')"
    using build_record_id[of h st' r payload ended rec]
    by (auto simp: ledger_inv_def write_record_def recorded_ids_def Let_def)
qed (auto simp: ledger_inv_def recorded_ids_def open_reservation_def truncate_reservation_def Let_def
  update_conv' dom_def split: if_splits)

lemma fold_keeps:
  assumes "P s" and "\<And>c s. c \<in> set cs \<Longrightarrow> P s \<Longrightarrow> P (f c s)"
  shows "P (fold f cs s)"
  using assms by (induction cs arbitrary: s) simp_all

section \<open>Loading satisfies the invariant\<close>

definition fresh_accounts :: "ledger \<Rightarrow> bool" where
  "fresh_accounts st \<longleftrightarrow>
     completed st = {} \<and> delivered st = {} \<and> ledger_file st = [] \<and> truncated_started st = [] \<and>
     dom (map_of (truncated_elapsed st)) = truncated st"

lemma fresh_accounts_inv: "fresh_accounts st \<Longrightarrow> ledger_inv st"
  by (simp add: fresh_accounts_def ledger_inv_def recorded_ids_def)

lemma fresh_accounts_lane: "fresh_accounts (remember_lane h l d st) = fresh_accounts st"
  by (simp add: fresh_accounts_def remember_lane_def)

lemma load_record_fresh:
  assumes "load_record h kind r st = Inr st'" and "fresh_accounts st"
  shows "fresh_accounts st'"
proof -
  from assms(1) obtain st1 st2 a where
    one: "(if kind = ''dispatch'' \<or> kind = ''tool'' then remember_source_paths h r st else Inr st) = Inr st1"
    and two: "(if kind = ''dispatch''
        then bindR (pidx r ''dispatch_id'') (\<lambda>d. Inr (remember_lane h (record_lane h st1 kind r) d st1))
        else Inr st1) = Inr st2"
    and st': "st' = st2\<lparr>expected := enqueue (kind, py_str h a, record_lane h st1 kind r) r (expected st2)\<rparr>"
    unfolding load_record_def bindR_eq_Inr Let_def by blast
  have "st1 = st \<or> (\<exists>m. st1 = st\<lparr>source_path_maps := m\<rparr>)"
    using one remember_source_paths_fields[of h r st st1] by (auto split: if_splits)
  then have "fresh_accounts st1"
    using assms(2) by (elim disjE exE) (simp_all add: fresh_accounts_def)
  then have "fresh_accounts st2"
    using two by (auto simp: bindR_eq_Inr fresh_accounts_lane split: if_splits)
  then show ?thesis by (simp add: st' fresh_accounts_def)
qed

lemma truncate_tail_fresh:
  assumes "truncate_tail h kind r st = Inr st'" and "fresh_accounts st"
  shows "fresh_accounts st'"
proof -
  from assms(1) obtain n where "st' = st\<lparr>truncated := insert (identity_of h kind r) (truncated st),
      truncated_elapsed := AList.update (identity_of h kind r) n (truncated_elapsed st)\<rparr>"
    by (auto simp: truncate_tail_def bindR_eq_Inr)
  with assms(2) show ?thesis by (simp add: fresh_accounts_def)
qed

lemma load_tail_fresh:
  assumes "load_tail h r st = Inr st'" and "fresh_accounts st"
  shows "fresh_accounts st'"
proof (cases "py_str h (pget r ''kind'') \<in> set KINDS")
  case True
  let ?lane = "record_lane h st (py_str h (pget r ''kind'')) r"
  let ?st = "if py_str h (pget r ''kind'') = ''dispatch'' then remember_lane h ?lane (pget r ''record_id'') st else st"
  have "fresh_accounts (?st\<lparr>cutoff_expected := q\<rparr>)" for q
    using assms(2) by (simp add: fresh_accounts_def remember_lane_def)
  with assms(1) True show ?thesis
    unfolding load_tail_def Let_def
    by (cases "composite r") (auto simp: bindR_eq_Inr dest: truncate_tail_fresh)
next
  case False
  with assms show ?thesis by (simp add: load_tail_def)
qed

lemma loaded_inv:
  assumes "boundary_ledger h c loaded = Inr st"
  shows "ledger_inv st"
proof -
  have e: "fresh_accounts (empty_ledger h c loaded)"
    by (simp add: fresh_accounts_def empty_ledger_def)
  show ?thesis
  proof (cases loaded)
    case None
    with assms e show ?thesis by (simp add: boundary_ledger_def bindR_eq_Inr fresh_accounts_inv)
  next
    case (Some b)
    with assms have "load_expected h b (empty_ledger h c loaded) = Inr st"
      by (simp add: boundary_ledger_def bindR_eq_Inr)
    then obtain a tails qs cqs where
      all: "foldR (\<lambda>kind. foldR (load_record h kind) (records b kind)) KINDS (empty_ledger h c loaded) = Inr a"
      and load_tails: "foldR (load_tail h) (tail_operations b) a = Inr tails"
      and st: "st = tails\<lparr>expected := qs, cutoff_expected := cqs\<rparr>"
      unfolding load_expected_def bindR_eq_Inr by blast
    have "fresh_accounts a"
    proof (rule foldR_invariant[where P = fresh_accounts, OF all e])
      fix kind s t
      assume "foldR (load_record h kind) (records b kind) s = Inr t" and "fresh_accounts s"
      then show "fresh_accounts t"
        by (rule foldR_invariant[where P = fresh_accounts]) (rule load_record_fresh)
    qed
    then have "fresh_accounts tails"
      by (rule foldR_invariant[where P = fresh_accounts, OF load_tails]) (rule load_tail_fresh)
    then have "fresh_accounts st" by (simp add: st fresh_accounts_def)
    then show ?thesis by (rule fresh_accounts_inv)
  qed
qed

section \<open>Runs of the ledger\<close>

text \<open>
  C11: In every state the ledger can reach, by any sequence of start, completion and freeze calls,
  what was delivered to the framework was completed, the completed operations are exactly those
  of the ledger files, and exactly the truncated operations have a time to be held for.
\<close>

theorem ledger_invariant:
  assumes "boundary_ledger h c loaded = Inr st0" and "st = fold (boundary_step h) calls st0"
  shows "delivered st \<subseteq> completed st \<and> completed st = recorded_ids st \<and>
    dom (map_of (truncated_elapsed st)) = truncated st \<and> dom (map_of (truncated_started st)) \<subseteq> truncated st"
proof -
  have "ledger_inv st"
    unfolding assms(2) by (rule fold_keeps[where P = ledger_inv, OF loaded_inv[OF assms(1)]]) (rule ledger_inv_step)
  then show ?thesis unfolding ledger_inv_def .
qed

lemma freeze_truncates:
  assumes "r \<in> snd ` set (active st)" and "freeze_source_cutoff h c st = (Inr tails, st')"
  shows "identity_of_reservation r \<in> truncated st'"
proof -
  have "identity_of_reservation r \<in> truncated s'"
    if "r \<in> set rs" "mapS (freeze_reservation h c) rs s = (Inr ts, s')" for rs s ts s'
    using that
  proof (induction rs arbitrary: s ts)
    case Nil
    then show ?case by simp
  next
    case (Cons x rs)
    from Cons.prems(2) obtain t ys where t: "mapS (freeze_reservation h c) rs t = (Inr ys, s')"
      and x: "t = truncate_reservation c x s"
      using freeze_reservation_state[of h c x s] by (auto simp: bindS_eq_Inr)
    have grow: "identity_of_reservation x \<in> truncated (snd (mapS (freeze_reservation h c) rs t))"
      by (rule mapS_keeps[where P = "\<lambda>s. identity_of_reservation x \<in> truncated s"])
         (auto simp: x freeze_reservation_state truncate_reservation_def identity_of_reservation_def Let_def)
    show ?case
    proof (cases "r = x")
      case True
      with grow t show ?thesis by simp
    next
      case False
      with Cons.prems(1) Cons.IH[OF _ t] show ?thesis by simp
    qed
  qed
  from this[of "map snd (active st)"] assms show ?thesis by (simp add: freeze_source_cutoff_def)
qed

definition withheld_for_good :: "op_id \<Rightarrow> ledger \<Rightarrow> bool" where
  "withheld_for_good i st \<longleftrightarrow> i \<in> truncated st \<and> i \<notin> completed st \<and> i \<notin> delivered st"

lemma withheld_for_good_step: "withheld_for_good i st \<Longrightarrow> withheld_for_good i (boundary_step h call st)"
  by (erule boundary_step_keeps)
     (auto simp: withheld_for_good_def open_reservation_def truncate_reservation_def write_record_def
       identity_of_reservation_def Let_def)

text \<open>
  An operation that is running when the source cutoff freezes the ledger stays out of the closed
  prefix: no later call completes or delivers it.
\<close>

theorem frozen_operations_stay_out:
  assumes "freeze_source_cutoff h c st = (Inr tails, st')" and "(rid, r) \<in> set (active st)"
    and "(res_kind r, res_record_id r) \<notin> completed st'" and "(res_kind r, res_record_id r) \<notin> delivered st'"
  shows "(res_kind r, res_record_id r) \<notin> completed (fold (boundary_step h) calls st') \<and>
    (res_kind r, res_record_id r) \<notin> delivered (fold (boundary_step h) calls st')"
proof -
  have "r \<in> snd ` set (active st)" using assms(2) by force
  from freeze_truncates[OF this assms(1)] assms(3,4)
  have "withheld_for_good (res_kind r, res_record_id r) st'"
    by (simp add: withheld_for_good_def identity_of_reservation_def)
  then have "withheld_for_good (res_kind r, res_record_id r) (fold (boundary_step h) calls st')"
    by (rule fold_keeps) (rule withheld_for_good_step)
  then show ?thesis by (simp add: withheld_for_good_def)
qed

definition closed_since :: "int \<Rightarrow> (string \<times> pyval) list \<Rightarrow> ledger \<Rightarrow> bool" where
  "closed_since c base st \<longleftrightarrow>
     source_cutoff_at_ns st = Some c \<and> \<not> replaying st \<and>
     (\<exists>new. ledger_file st = base @ new \<and> (\<forall>(kind, rec) \<in> set new. int_of (pget rec ''ended_at_ns'') \<le> c))"

lemma closed_since_write:
  assumes "closed_since c base st" and "\<not> past_cutoff st ended" and "build_record h st r payload ended = Inr rec"
  shows "closed_since c base (write_record d r rec ended st)"
proof -
  from assms(1) obtain new where new: "source_cutoff_at_ns st = Some c" "\<not> replaying st" "ledger_file st = base @ new"
    "\<forall>(kind, rec) \<in> set new. int_of (pget rec ''ended_at_ns'') \<le> c"
    unfolding closed_since_def by blast
  with assms(2) have "ended \<le> c" by (simp add: past_cutoff_def)
  with new build_record_ended[OF assms(3)] show ?thesis
    by (auto simp: closed_since_def write_record_def Let_def intro!: exI[of _ "new @ [(res_kind r, rec)]"])
qed

lemma closed_since_step:
  assumes "closed_since c base st" and "\<And>c. call \<noteq> Freeze_Call c"
  shows "closed_since c base (boundary_step h call st)"
proof (intro boundary_step_keeps[where P = "closed_since c base"])
  fix st' r rec ended payload
  assume "closed_since c base st'" and "\<not> past_cutoff st' ended" and "build_record h st' r payload ended = Inr rec"
  then show "closed_since c base (write_record True r rec ended st')" by (rule closed_since_write)
qed (use assms in \<open>auto simp: closed_since_def open_reservation_def Let_def\<close>)

text \<open>
  Once a recording has its source cutoff, no call adds an operation that ended after it.
\<close>

theorem nothing_recorded_after_cutoff:
  assumes "\<not> replaying st" and "source_cutoff_at_ns st = Some c"
    and "\<forall>call \<in> set calls. \<forall>c. call \<noteq> Freeze_Call c"
  shows "\<exists>new. ledger_file (fold (boundary_step h) calls st) = ledger_file st @ new \<and>
    (\<forall>(kind, rec) \<in> set new. int_of (pget rec ''ended_at_ns'') \<le> c)"
proof -
  have "closed_since c (ledger_file st) st" using assms by (simp add: closed_since_def)
  then have "closed_since c (ledger_file st) (fold (boundary_step h) calls st)"
    by (rule fold_keeps[where P = "closed_since c (ledger_file st)"]) (use assms(3) closed_since_step in blast)
  then show ?thesis by (simp add: closed_since_def)
qed

section \<open>Accounting\<close>

lemma sort_map_empty [simp]: "sort (map f xs) = [] \<longleftrightarrow> xs = []"
  by (metis length_0_conv length_map length_sort)

lemma unexpected_active_empty: "unexpected_active st = [] \<longleftrightarrow> \<not> has_unexpected_active st"
  by (auto simp: unexpected_active_def has_unexpected_active_def filter_empty_conv list_ex_iff)

lemma assert_consumed_ok:
  "assert_consumed h now st = Inr () \<longleftrightarrow> missing_ops h st = [] \<and> \<not> has_unexpected_active st"
  by (simp add: assert_consumed_def outstanding_def Let_def unexpected_active_empty)

text \<open>
  The two ways the ledger accounts for a replay agree: the run is complete with nothing
  unexpected open exactly when the teardown check passes and every tail was held long enough.
\<close>

theorem accounting_agrees:
  assumes "replaying st"
  shows "expected_complete h now st \<and> \<not> has_unexpected_active st \<longleftrightarrow>
    assert_consumed h now st = Inr () \<and>
    (\<forall>(identity, required) \<in> set (truncated_elapsed st). served now st identity)"
  using assms unfolding assert_consumed_ok
  by (auto simp: expected_complete_def missing_ops_def filter_empty_conv list_all_iff)

section \<open>Refused and withheld starts\<close>


text \<open>The only part of a start that raises \<open>WorkloadComplete\<close> is its claim.\<close>

definition no_hold :: "'a res \<Rightarrow> bool" where
  "no_hold r \<longleftrightarrow> (\<forall>m. r \<noteq> Inl (WorkloadComplete m))"

named_theorems no_hold_rules

lemma no_hold_Inr [no_hold_rules]: "no_hold (Inr x)"
  and no_hold_ValidationError [no_hold_rules]: "no_hold (Inl (ValidationError m))"
  and no_hold_MismatchError [no_hold_rules]: "no_hold (Inl (MismatchError m))"
  and no_hold_PyError [no_hold_rules]: "no_hold (Inl (PyError m))"
  by (simp_all add: no_hold_def)

lemma no_hold_bindR [no_hold_rules]: "no_hold m \<Longrightarrow> (\<And>x. m = Inr x \<Longrightarrow> no_hold (f x)) \<Longrightarrow> no_hold (bindR m f)"
  by (cases m) (auto simp: no_hold_def)

lemma no_hold_require [no_hold_rules]: "no_hold (require c m)"
  by (simp add: require_def no_hold_def)

lemma no_hold_pidx [no_hold_rules]: "no_hold (pidx v k)"
  by (simp add: pidx_def no_hold_def split: option.split)

lemma no_hold_foldR [no_hold_rules]: "(\<And>x s. x \<in> set xs \<Longrightarrow> no_hold (f x s)) \<Longrightarrow> no_hold (foldR f xs s)"
  by (induction xs arbitrary: s) (auto intro!: no_hold_rules)

lemma no_hold_mapR [no_hold_rules]: "(\<And>x. x \<in> set xs \<Longrightarrow> no_hold (f x)) \<Longrightarrow> no_hold (mapR f xs)"
  by (induction xs) (auto intro!: no_hold_rules)

lemma no_hold_checks [no_hold_rules]: "(\<And>c. c \<in> set cs \<Longrightarrow> no_hold c) \<Longrightarrow> no_hold (checks cs)"
  by (induction cs) (auto simp: no_hold_def split: sum.split)

lemma no_hold_if [no_hold_rules]: "no_hold a \<Longrightarrow> no_hold b \<Longrightarrow> no_hold (if c then a else b)"
  by simp

lemma no_hold_require_in [no_hold_rules]: "no_hold (require_in v ss m)"
  unfolding require_in_def in_strs_def by (intro no_hold_rules)

lemma no_hold_py_int [no_hold_rules]: "no_hold (py_int v)"
  by (cases v) (auto intro!: no_hold_rules split: option.split)

lemma no_hold_contract_fields [no_hold_rules]: "no_hold (validate_contract_fields seen fs)"
  by (induction seen fs rule: validate_contract_fields.induct)
     (auto intro!: no_hold_rules simp: Let_def simp del: checks.simps)

lemma no_hold_contract [no_hold_rules]: "no_hold (validate_result_contract v)"
  unfolding validate_result_contract_def by (auto intro!: no_hold_rules simp del: checks.simps)

lemma no_hold_typed_path_fields [no_hold_rules]: "no_hold (typed_path_fields a)"
  unfolding typed_path_fields_def by (intro no_hold_rules)

lemma no_hold_visit [no_hold_rules]: "no_hold (visit_recorded declared field n l m)"
  by (induction declared field n l m rule: visit_recorded.induct)
     (auto intro!: no_hold_rules split: option.split)

lemma no_hold_workspace [no_hold_rules]: "no_hold (workspace_path_of v)"
  unfolding workspace_path_of_def Let_def by (intro no_hold_rules)

lemma no_hold_bind [no_hold_rules]: "no_hold (bind_typed_fields a v pm)"
  unfolding bind_typed_fields_def by (intro no_hold_rules)

lemma no_hold_identity [no_hold_rules]: "no_hold (claim_identity kind r)"
  unfolding claim_identity_def by (intro no_hold_rules)

lemma no_hold_matches [no_hold_rules]: "no_hold (matches h st kind payload want)"
  unfolding matches_def claimable_def recorded_path_map_def logical_arguments_def Let_def
  by (intro no_hold_rules)

lemma no_hold_trigger [no_hold_rules]: "no_hold (resolve_trigger p payload)"
  unfolding resolve_trigger_def Let_def by (auto intro!: no_hold_rules split: option.split)

lemma no_hold_request [no_hold_rules]: "no_hold (start_request p t payload)"
  unfolding start_request_def Let_def by (intro no_hold_rules) (auto intro: no_hold_rules)

lemma no_hold_open_ids [no_hold_rules]: "no_hold (open_ids h t kind payload want)"
  unfolding open_ids_def Let_def by (auto intro!: no_hold_rules split: option.split)

lemma no_hold_response [no_hold_rules]: "no_hold (start_response h t r st)"
  unfolding start_response_def execution_arguments_def simulated_execution_def to_physical_def Let_def
  by (auto intro!: no_hold_rules split: option.split)

lemma claim_withheld:
  assumes "claim h p kind actor_id payload st = (Inl (WorkloadComplete m), st')"
    and "key = (kind, actor_id, payload_lane h st kind payload)"
  shows "length (queue_at (expected st) key) \<le> cursor st key \<and> cursor st' = cursor st \<and> active st' = active st \<and>
    (cutoff_cursor st key < length (queue_at (cutoff_expected st) key) \<or>
     run_complete p \<or> actor_complete p actor_id \<or> lane_complete h st key)"
  using assms no_hold_matches[unfolded no_hold_def, rule_format, of h st kind payload _ m]
  by (auto simp: claim_def claim_closed_def claim_tail_def Let_def split: if_splits sum.splits bool.splits)

text \<open>
  A start is withheld only where the recording has no closed slot left for it: its lane is used
  up, and either the lane continues in a tail the source left open, or the run, the actor or the
  lane is complete.  Nothing is opened and no cursor of closed work moves.
\<close>

theorem start_withheld_only_past_the_recording:
  assumes "handle_start h p t (bearer (auth_token st)) payload0 st = (Inr Withheld, st')"
  shows "\<exists>kind actor_id started payload key.
    start_request p t payload0 = Inr (kind, actor_id, started, payload) \<and>
    key = (kind, actor_id, payload_lane h st kind payload) \<and>
    length (queue_at (expected st) key) \<le> cursor st key \<and>
    (cutoff_cursor st key < length (queue_at (cutoff_expected st) key) \<or>
     run_complete p \<or> actor_complete p actor_id \<or> lane_complete h st key) \<and>
    cursor st' = cursor st \<and> active st' = active st"
proof -
  from assms obtain m where start: "start h p t payload0 st = (Inl (WorkloadComplete m), st')"
    by (auto simp: handle_start_def fail_with_def split: prod.splits sum.splits err.splits)
  show ?thesis
  proof (cases rule: start_cases[of h p t payload0 st])
    case (refused e)
    with start no_hold_request[of p t payload0] show ?thesis by (auto simp: no_hold_def)
  next
    case (opened kind actor_id started payload want st1 r)
    with start no_hold_response[of h t r "open_reservation t r st1"] show ?thesis by (auto simp: no_hold_def)
  next
    case (claimed kind actor_id started payload e st1)
    have "claim h p kind actor_id payload st = (Inl (WorkloadComplete m), st')"
    proof (cases "fst (claim_expected h p kind actor_id payload st)")
      case (Inr want)
      then have "claim_expected h p kind actor_id payload st = (Inr want, st1)"
        using claimed(2) by (metis prod.collapse)
      with claimed(1) start have "open_ids h t kind payload want = Inl (WorkloadComplete m) \<or>
          (\<exists>r. start_response h t r (open_reservation t r st1) = Inl (WorkloadComplete m))"
        by (auto simp: start_def op_simps Let_def split: sum.splits)
      with no_hold_open_ids[of h t kind payload want] no_hold_response show ?thesis by (auto simp: no_hold_def)
    next
      case (Inl e')
      then have "claim_expected h p kind actor_id payload st = (Inl e', st1)"
        using claimed(2) by (metis prod.collapse)
      moreover from this claimed(1) start have "e' = WorkloadComplete m" "st1 = st'"
        by (simp_all add: start_def op_simps)
      ultimately show ?thesis
        by (auto simp: claim_expected_def bindS_def split: if_splits prod.splits sum.splits)
    qed
    from claim_withheld[OF this refl] claimed(1) show ?thesis by blast
  qed
qed

section \<open>Concrete runs\<close>

lemma succeeded: "\<not> isl (fst x) \<Longrightarrow> x = (Inr (projr (fst x)), snd x)"
  by (cases x) (auto simp: isl_def split: sum.splits)

text \<open>The recorded tool has started and is about to complete with another result.\<close>

definition running_tool :: ledger where
  "running_tool = boundary_step plain_host (start_call 2 ''tool'' ''bash'' tool_request) sample_ledger"

definition tool_completion :: pyval where
  "tool_completion =
     PDict [(''reservation_id'', PStr ''2''), (''result'', PStr ''native''), (''ended_at_ns'', PInt 9)]"

definition tool_reservation :: reservation where
  "tool_reservation = the (map_of (active running_tool) ''2'')"

lemma running_tool_facts:
  "map_of (active running_tool) ''2'' = Some tool_reservation" "res_kind tool_reservation = ''tool''"
  "res_expected tool_reservation = Some sample_tool_slot" "(res_kind tool_reservation, res_record_id tool_reservation) \<notin> truncated running_tool"
  "replaying running_tool" "pget tool_completion ''reservation_id'' = PStr ''2''"
  "\<not> isl (fst (complete_op plain_host 9 False tool_completion running_tool))"
  by code_simp+

theorem tool_result_restored_witness:
  "pget (projr (fst (complete_op plain_host 9 False tool_completion running_tool))) ''framework_result'' = PStr ''recorded''"
  using tool_result_restored[OF running_tool_facts(1-6) succeeded[OF running_tool_facts(7)]]
  by (simp add: sample_tool_slot_def sample_slot_def id_field_def)

text \<open>The composite tail of the recording was entered, and its native work ends.\<close>

definition entered_tail :: ledger where
  "entered_tail = boundary_step plain_host (start_call 3 ''dispatch'' ''task'' []) (sample_ledger\<lparr>cursor := (\<lambda>_. 2)\<rparr>)"

definition tail_completion :: pyval where
  "tail_completion = PDict [(''reservation_id'', PStr ''3''), (''status'', PStr ''ok''), (''ended_at_ns'', PInt 50)]"

definition tail_reservation :: reservation where
  "tail_reservation = the (map_of (active entered_tail) ''3'')"

lemma entered_tail_facts:
  "map_of (active entered_tail) ''3'' = Some tail_reservation"
  "(res_kind tail_reservation, res_record_id tail_reservation) \<in> truncated entered_tail"
  "pget tail_completion ''reservation_id'' = PStr ''3''"
  "\<not> isl (fst (handle_complete plain_host 50 (bearer (auth_token entered_tail)) tail_completion entered_tail))"
  by code_simp+

theorem unfinished_operation_never_answers_witness:
  "fst (handle_complete plain_host 50 (bearer (auth_token entered_tail)) tail_completion entered_tail) = Inr Withheld"
proof -
  let ?c = "handle_complete plain_host 50 (bearer (auth_token entered_tail)) tail_completion entered_tail"
  have "projr (fst ?c) = Withheld"
    using unfinished_operation_never_answers[OF entered_tail_facts(1-3) succeeded[OF entered_tail_facts(4)]] by blast
  then show ?thesis using succeeded[OF entered_tail_facts(4)] by (metis fst_conv)
qed

theorem ledger_invariant_witness:
  "delivered running_tool \<subseteq> completed running_tool \<and> dom (map_of (truncated_elapsed running_tool)) = {(''dispatch'', ''d3'')}"
proof -
  have "running_tool = fold (boundary_step plain_host) [start_call 2 ''tool'' ''bash'' tool_request] sample_ledger"
    by (simp add: running_tool_def)
  note inv = ledger_invariant[OF sample_ledger this]
  have "truncated running_tool = {(''dispatch'', ''d3'')}" by code_simp
  with inv show ?thesis by blast
qed

text \<open>A recording whose only operation is running when the cutoff comes.\<close>

definition record_config :: ledger_config where
  "record_config = sample_config\<lparr>cfg_mode := ''record''\<rparr>"

definition record_ledger :: ledger where
  "record_ledger = empty_ledger plain_host record_config None"

definition recording_tool :: ledger where
  "recording_tool = boundary_step plain_host (start_call 2 ''tool'' ''bash'' tool_request) record_ledger"

definition frozen :: ledger where
  "frozen = snd (freeze_source_cutoff plain_host 5 recording_tool)"

definition frozen_reservation :: reservation where
  "frozen_reservation = the (map_of (active recording_tool) ''2'')"

lemma frozen_facts:
  "\<not> isl (fst (freeze_source_cutoff plain_host 5 recording_tool))"
  "(''2'', frozen_reservation) \<in> set (active recording_tool)"
  "(res_kind frozen_reservation, res_record_id frozen_reservation) \<notin> completed frozen"
  "(res_kind frozen_reservation, res_record_id frozen_reservation) \<notin> delivered frozen"
  "res_kind frozen_reservation = ''tool''" "res_record_id frozen_reservation = ''tool-2''"
  "\<not> replaying frozen" "source_cutoff_at_ns frozen = Some 5" "ledger_file frozen = []"
  by code_simp+

theorem frozen_operations_stay_out_witness:
  "(''tool'', ''tool-2'') \<notin> completed (boundary_step plain_host (Complete_Call 9 ''Bearer k'' tool_completion) frozen)"
  using frozen_operations_stay_out[OF succeeded[OF frozen_facts(1)] frozen_facts(2) frozen_facts(3,4)[unfolded frozen_def],
      of "[Complete_Call 9 ''Bearer k'' tool_completion]"]
  by (simp add: frozen_facts(5,6) frozen_def)

theorem nothing_recorded_after_cutoff_witness:
  "\<exists>new. ledger_file (fold (boundary_step plain_host)
      [start_call 6 ''tool'' ''bash'' tool_request, Complete_Call 9 ''Bearer k'' tool_completion] frozen) = [] @ new \<and>
    (\<forall>(kind, rec) \<in> set new. int_of (pget rec ''ended_at_ns'') \<le> 5)"
  using nothing_recorded_after_cutoff[OF frozen_facts(7,8),
      of "[start_call 6 ''tool'' ''bash'' tool_request, Complete_Call 9 ''Bearer k'' tool_completion]" plain_host]
  by (simp add: frozen_facts(9) start_call_def)

text \<open>The recorded operations were delivered, and the tail was entered at time 4.\<close>

definition finished_run :: ledger where
  "finished_run = sample_ledger
     \<lparr>cursor := (\<lambda>_. 2), cutoff_cursor := (\<lambda>_. 1),
      completed := {(''dispatch'', ''d1''), (''dispatch'', ''d2''), (''tool'', ''t1'')},
      delivered := {(''dispatch'', ''d1''), (''dispatch'', ''d2''), (''tool'', ''t1'')},
      truncated_started := [((''dispatch'', ''d3''), 4)]\<rparr>"

lemma finished_run_facts:
  "replaying finished_run" "expected_complete plain_host 11 finished_run" "\<not> has_unexpected_active finished_run"
  "\<not> expected_complete plain_host 10 finished_run"
  by code_simp+

theorem accounting_agrees_witness: "assert_consumed plain_host 11 finished_run = Inr ()"
  using accounting_agrees[OF finished_run_facts(1), of plain_host 11] finished_run_facts(2,3) by blast

lemma late_edit_facts:
  "\<not> fast_claim sample_ledger" "replaying sample_ledger"
  "\<not> isl (start_request no_peers (tick_at 1 ''1'') (start_payload ''dispatch'' ''edit'' []))"
  "cursor sample_ledger (''dispatch'', ''a0'', None) < length (queue_at (expected sample_ledger) (''dispatch'', ''a0'', None))"
  by code_simp+


text \<open>
  A second task that arrives after the lane's closed work and its tail are used up is withheld
  when the run is complete.
\<close>

definition complete_peers :: peers where
  "complete_peers = no_peers\<lparr>run_complete := True\<rparr>"

theorem start_withheld_only_past_the_recording_witness:
  "\<exists>key. length (queue_at (expected finished_run) key) \<le> cursor finished_run key"
proof -
  let ?h = "handle_start plain_host complete_peers (tick_at 20 ''20'') (bearer (auth_token finished_run))
    (start_payload ''dispatch'' ''task'' []) finished_run"
  have "fst ?h = Inr Withheld" by code_simp
  then have "?h = (Inr Withheld, snd ?h)" by (metis prod.collapse)
  from start_withheld_only_past_the_recording[OF this] show ?thesis by blast
qed

end
