(* ===== verification/Engine_Protocol.thy ===== *)
theory Engine_Protocol
  imports Util
begin

text \<open>
  vllm_plugin/src/native_replay_vllm/protocol.py: what the engine plugin checks of a request, how
  requests are signed, and the audit record it writes.

  Token identifiers are values of a request or of the engine's lists, so they are \<open>pyval\<close>s and
  compared with Python's \<open>==\<close>; a signature is the keyed digest of the host.
\<close>

section \<open>Sequences of tokens\<close>

abbreviation same_tokens :: "pyval list \<Rightarrow> pyval list \<Rightarrow> bool" where
  "same_tokens xs ys \<equiv> py_eq (PList xs) (PList ys)"

text \<open>Tokens as JSON integers, which is what the engine and a validated recording hold.\<close>

fun is_token :: "pyval \<Rightarrow> bool" where
  "is_token (PInt i) = (0 \<le> i)" | "is_token _ = False"

lemma is_token_iff: "is_token v \<longleftrightarrow> (\<exists>i. v = PInt i \<and> 0 \<le> i)"
  by (cases v) auto

lemma py_eq_PInt: "py_eq (PInt i) (PInt j) \<longleftrightarrow> i = j"
  by auto

lemma token_eq: "is_token v \<Longrightarrow> is_token w \<Longrightarrow> py_eq v w \<longleftrightarrow> v = w"
  by (auto simp: is_token_iff)

lemma same_tokens_iff:
  assumes "list_all is_token xs" and "list_all is_token ys"
  shows "same_tokens xs ys \<longleftrightarrow> xs = ys"
proof -
  have "same_tokens xs ys \<longleftrightarrow> length xs = length ys \<and> (\<forall>i < length xs. py_eq (xs ! i) (ys ! i))"
    by (auto simp: list_all_length)
  also have "\<dots> \<longleftrightarrow> length xs = length ys \<and> (\<forall>i < length xs. xs ! i = ys ! i)"
    using assms token_eq by (metis (full_types) list_all_length)
  finally show ?thesis by (simp add: list_eq_iff_nth_eq)
qed

definition value_error :: "string \<Rightarrow> 'a res" where
  "value_error msg = Inl (PyError (''ValueError: '' @ msg))"

lemma value_error_not_Inr [simp]: "value_error msg \<noteq> Inr x" "Inr x \<noteq> value_error msg"
  by (simp_all add: value_error_def)

definition is_placeholder :: "pyval \<Rightarrow> bool" where
  "is_placeholder v = py_eq v (PInt (-1))"

text \<open>The committed output of the engine, and the number of trailing placeholders.\<close>

definition resolved_output_prefix :: "pyval list \<Rightarrow> (pyval list \<times> nat) res" where
  "resolved_output_prefix output =
     (let prefix = takeWhile (\<lambda>v. \<not> is_placeholder v) output;
          rest = dropWhile (\<lambda>v. \<not> is_placeholder v) output
      in if list_all is_placeholder rest then Inr (prefix, length rest)
         else value_error ''native replay output placeholders are not a trailing run'')"

section \<open>Signatures\<close>

definition colon :: string where "colon = '':''"

definition token_payload :: "host \<Rightarrow> string \<Rightarrow> pyval list \<Rightarrow> string" where
  "token_payload h request_id token_ids = request_id @ colon @ join_with '','' (map (py_str h) token_ids)"

definition sign_tokens :: "host \<Rightarrow> string \<Rightarrow> string \<Rightarrow> pyval list \<Rightarrow> string" where
  "sign_tokens h secret request_id token_ids = hmac_sha256_hex h secret (token_payload h request_id token_ids)"

definition sign_capture :: "host \<Rightarrow> string \<Rightarrow> string \<Rightarrow> string" where
  "sign_capture h secret request_id = hmac_sha256_hex h secret (''capture:'' @ request_id)"

definition sampler_window_payload :: "host \<Rightarrow> string \<Rightarrow> pyval \<Rightarrow> pyval \<Rightarrow> string" where
  "sampler_window_payload h request_id start sampled =
     ''sampler-window:'' @ request_id @ colon @ py_str h start @ colon @ py_str h sampled"

definition sign_sampler_window :: "host \<Rightarrow> string \<Rightarrow> string \<Rightarrow> pyval \<Rightarrow> pyval \<Rightarrow> string" where
  "sign_sampler_window h secret request_id start sampled =
     hmac_sha256_hex h secret (sampler_window_payload h request_id start sampled)"

text \<open>\<open>hmac.compare_digest\<close> of two texts raises when one of them is not ASCII.\<close>

definition is_ascii :: "string \<Rightarrow> bool" where
  "is_ascii s \<longleftrightarrow> list_all (\<lambda>c. (of_char c :: nat) < 128) s"

definition compare_digest :: "string \<Rightarrow> string \<Rightarrow> bool res" where
  "compare_digest a b = (if is_ascii a \<and> is_ascii b then Inr (a = b) else Inl (PyError ''TypeError''))"

definition check_signature :: "pyval \<Rightarrow> string \<Rightarrow> string \<Rightarrow> unit res" where
  "check_signature signature want msg =
     (if \<not> is_str signature then value_error msg
      else bindR (compare_digest (str_of signature) want) (\<lambda>ok. if ok then Inr () else value_error msg))"

section \<open>Validation in the engine\<close>

text \<open>\<open>REQUEST_ID_PATTERN\<close>: 1 to 192 characters, the first one a letter or a digit.\<close>

definition is_alnum :: "char \<Rightarrow> bool" where
  "is_alnum c \<longleftrightarrow>
     (let n = (of_char c :: nat) in 48 \<le> n \<and> n \<le> 57 \<or> 65 \<le> n \<and> n \<le> 90 \<or> 97 \<le> n \<and> n \<le> 122)"

definition is_id_char :: "char \<Rightarrow> bool" where
  "is_id_char c \<longleftrightarrow> is_alnum c \<or> c \<in> set ''_.:-''"

fun valid_request_id :: "string \<Rightarrow> bool" where
  "valid_request_id [] = False"
| "valid_request_id (c # cs) = (is_alnum c \<and> length cs \<le> 191 \<and> list_all is_id_char cs)"

definition check_request_id :: "pyval \<Rightarrow> string \<Rightarrow> string res" where
  "check_request_id v msg =
     (if is_str v \<and> valid_request_id (str_of v) then Inr (str_of v) else value_error msg)"

definition validate_sampler_window ::
    "host \<Rightarrow> string \<Rightarrow> string \<Rightarrow> pyval \<Rightarrow> pyval \<Rightarrow> nat \<Rightarrow> pyval \<Rightarrow> (int \<times> int) res" where
  "validate_sampler_window h secret request_id start sampled committed signature =
     (if \<not> is_int_not_bool start \<or> \<not> is_int_not_bool sampled \<or> int_of start < 0 \<or>
         int_of sampled < int_of start + int committed
      then value_error ''invalid native replay sampler window''
      else bindR (check_signature signature (sign_sampler_window h secret request_id start sampled)
                    ''invalid native replay sampler-window signature'')
             (\<lambda>_. Inr (int_of start, int_of sampled)))"

text \<open>A token of a request is an integer of Python, which a boolean is too.\<close>

definition is_token_value :: "pyval \<Rightarrow> bool" where
  "is_token_value v \<longleftrightarrow> is_int v \<and> 0 \<le> int_of v"

definition validate_request ::
    "host \<Rightarrow> string \<Rightarrow> pyval \<Rightarrow> pyval \<Rightarrow> pyval \<Rightarrow> (string \<times> pyval list) res" where
  "validate_request h secret request_id token_ids signature =
     bindR (check_request_id request_id ''invalid native replay request ID'') (\<lambda>rid.
       if \<not> is_list token_ids \<or> items_of token_ids = [] \<or> \<not> list_all is_token_value (items_of token_ids)
       then value_error ''native replay token sequence must be a non-empty integer list''
       else bindR (check_signature signature (sign_tokens h secret rid (items_of token_ids))
                     ''invalid native replay token signature'')
              (\<lambda>_. Inr (rid, items_of token_ids)))"

definition validate_capture :: "host \<Rightarrow> string \<Rightarrow> pyval \<Rightarrow> pyval \<Rightarrow> string res" where
  "validate_capture h secret request_id signature =
     bindR (check_request_id request_id ''invalid native replay capture ID'') (\<lambda>rid.
       bindR (check_signature signature (sign_capture h secret rid) ''invalid native replay capture signature'')
         (\<lambda>_. Inr rid))"

section \<open>The audit record\<close>

text \<open>\<open>sha256\<close> of \<open>json.dumps(token_ids, separators=(",", ":"))\<close>; a list has no keys to sort.\<close>

definition token_digest :: "host \<Rightarrow> pyval list \<Rightarrow> string" where
  "token_digest h token_ids = sha256_hex h (canonical_json h (PList token_ids))"

definition opt_int :: "int option \<Rightarrow> pyval" where
  "opt_int i = (case i of None \<Rightarrow> PNone | Some n \<Rightarrow> PInt n)"

definition AUDIT_SCHEMA :: string where "AUDIT_SCHEMA = ''native-agent-replay.vllm-audit/v4''"

text \<open>The object that the audit line encodes.\<close>

definition audit_payload ::
    "host \<Rightarrow> string \<Rightarrow> pyval list \<Rightarrow> pyval list \<Rightarrow> pyval list \<Rightarrow> int \<Rightarrow> string \<Rightarrow> int \<Rightarrow> string \<Rightarrow>
     int option \<Rightarrow> int option \<Rightarrow> pyval" where
  "audit_payload h request_id prompt sampled forced forced_count status pid mode start expected_sampled =
     PDict
      [(''schema_version'', PStr AUDIT_SCHEMA),
       (''request_id'', PStr request_id),
       (''mode'', PStr mode),
       (''prompt_token_ids'', PList prompt),
       (''prompt_token_count'', PInt (int (length prompt))),
       (''prompt_token_sha256'', PStr (token_digest h prompt)),
       (''sampled_token_ids'', PList sampled),
       (''sampled_token_count'', PInt (int (length sampled))),
       (''sampled_token_sha256'', PStr (token_digest h sampled)),
       (''forced_token_ids'', PList forced),
       (''forced_token_count'', PInt (int (length forced))),
       (''forced_token_sha256'', PStr (token_digest h forced)),
       (''forced_count'', PInt forced_count),
       (''committed_sample_start'', opt_int start),
       (''expected_sampled_token_count'', opt_int expected_sampled),
       (''status'', PStr status),
       (''pid'', PInt pid)]"

section \<open>The resolved output\<close>

text \<open>
  The split succeeds exactly when the placeholders are a trailing run, and then returns the real
  tokens before it and its length.
\<close>

theorem resolved_output_prefix_exact:
  "resolved_output_prefix output = Inr (prefix, n) \<longleftrightarrow>
     (\<exists>tail. output = prefix @ tail \<and> length tail = n \<and>
        list_all (\<lambda>v. \<not> is_placeholder v) prefix \<and> list_all is_placeholder tail)"
proof
  assume "resolved_output_prefix output = Inr (prefix, n)"
  then have p: "prefix = takeWhile (\<lambda>v. \<not> is_placeholder v) output"
    "n = length (dropWhile (\<lambda>v. \<not> is_placeholder v) output)"
    "list_all is_placeholder (dropWhile (\<lambda>v. \<not> is_placeholder v) output)"
    by (auto simp: resolved_output_prefix_def Let_def split: if_splits)
  have "list_all (\<lambda>v. \<not> is_placeholder v) prefix"
    unfolding p(1) list_all_iff by (blast dest: set_takeWhileD)
  moreover have "output = prefix @ dropWhile (\<lambda>v. \<not> is_placeholder v) output" by (simp add: p(1))
  ultimately show "\<exists>tail. output = prefix @ tail \<and> length tail = n \<and>
      list_all (\<lambda>v. \<not> is_placeholder v) prefix \<and> list_all is_placeholder tail"
    using p(2,3) by blast
next
  assume "\<exists>tail. output = prefix @ tail \<and> length tail = n \<and>
      list_all (\<lambda>v. \<not> is_placeholder v) prefix \<and> list_all is_placeholder tail"
  then obtain tail where t: "output = prefix @ tail" "length tail = n"
    "list_all (\<lambda>v. \<not> is_placeholder v) prefix" "list_all is_placeholder tail" by blast
  have "takeWhile (\<lambda>v. \<not> is_placeholder v) tail = []" "dropWhile (\<lambda>v. \<not> is_placeholder v) tail = tail"
    using t(4) by (cases tail; simp)+
  with t(3) have "takeWhile (\<lambda>v. \<not> is_placeholder v) output = prefix"
    "dropWhile (\<lambda>v. \<not> is_placeholder v) output = tail"
    unfolding t(1) list_all_iff by (simp_all add: takeWhile_append2 dropWhile_append2)
  with t show "resolved_output_prefix output = Inr (prefix, n)"
    by (simp add: resolved_output_prefix_def)
qed

end
