(* ===== verification/Engine_Processor.thy ===== *)
theory Engine_Processor
  imports Engine_Protocol
begin

text \<open>
  vllm_plugin/src/native_replay_vllm/forced.py: the logits processor that lets vLLM sample as
  usual and then replaces the committed token inside a signed window.

  The output list of a request belongs to the engine, which extends it between steps: a state
  holds a reference to it, and \<open>override\<close> gets what the references point to at that step.  The
  sampled tensor of a step is a list of integers, one per row of the batch.
\<close>

section \<open>State\<close>

record request_state =
  rq_id :: string
  rq_mode :: string
  rq_prompt :: "pyval list"
  rq_tokens :: "pyval list"
  rq_sampled :: "pyval list"
  rq_output :: nat
  rq_start :: "int option"
  rq_expected :: "int option"
  rq_forced :: int

record processor =
  pr_secret :: string
  pr_pid :: int
  pr_writes_audit :: bool
  pr_states :: "(nat \<times> request_state) list"
  pr_seen :: "string set"
  pr_mask :: "bool list option"
  pr_written :: "(string \<times> pyval) list"
  pr_log :: "pyval list"

record engine_params =
  extra_args :: pyval
  max_tokens :: "int option"

definition runtime_error :: "string \<Rightarrow> 'a res" where
  "runtime_error msg = Inl (PyError (''RuntimeError: '' @ msg))"

definition FORCED_FIELDS :: "string list" where
  "FORCED_FIELDS =
     [''native_replay_request_id'', ''native_replay_prompt_token_ids'', ''native_replay_prompt_signature'',
      ''native_replay_token_ids'', ''native_replay_signature'', ''native_replay_committed_sample_start'',
      ''native_replay_sampled_token_count'', ''native_replay_sampler_signature'']"

definition CAPTURE_FIELDS :: "string list" where
  "CAPTURE_FIELDS = [''native_replay_capture_id'', ''native_replay_capture_signature'']"

text \<open>\<open>params.extra_args or {}\<close>.\<close>

definition extra_of :: "engine_params \<Rightarrow> pyval" where
  "extra_of params = py_or (extra_args params) (PDict [])"

definition validate_params :: "engine_params \<Rightarrow> unit res" where
  "validate_params params =
     (let extra = extra_of params;
          forced = phas extra ''native_replay_request_id'';
          capture = phas extra ''native_replay_capture_id''
      in if forced \<and> \<not> list_all (phas extra) FORCED_FIELDS
           then value_error ''incomplete native replay forced-token request''
         else if capture \<and> \<not> list_all (phas extra) CAPTURE_FIELDS
           then value_error ''incomplete native replay capture request''
         else if forced \<and> capture
           then value_error ''native replay request cannot capture and force simultaneously''
         else Inr ())"

text \<open>
  \<open>__init__\<close>: the secret and the audit path come from the environment, the type and the index from
  the device.  Every rank keeps the states; local rank zero writes the audit.
\<close>

definition initial_processor ::
    "string \<Rightarrow> string option \<Rightarrow> string \<Rightarrow> int option \<Rightarrow> int \<Rightarrow> processor res" where
  "initial_processor secret audit_path device_type device_index pid =
     (if secret = [] then runtime_error ''NATIVE_REPLAY_FORCE_SECRET is required''
      else if audit_path = None \<or> audit_path = Some []
        then runtime_error ''NATIVE_REPLAY_FORCE_AUDIT is required''
      else Inr \<lparr>pr_secret = secret, pr_pid = pid,
                pr_writes_audit = (device_type \<noteq> ''cuda'' \<or> device_index = None \<or> device_index = Some 0),
                pr_states = [], pr_seen = {}, pr_mask = None, pr_written = [], pr_log = []\<rparr>)"

section \<open>A new request\<close>

definition capture_state :: "host \<Rightarrow> string \<Rightarrow> pyval \<Rightarrow> pyval list \<Rightarrow> nat \<Rightarrow> request_state res" where
  "capture_state h secret extra prompt output =
     bindR (validate_capture h secret (pget extra ''native_replay_capture_id'')
              (pget extra ''native_replay_capture_signature'')) (\<lambda>rid.
       Inr \<lparr>rq_id = rid, rq_mode = ''capture'', rq_prompt = prompt, rq_tokens = [], rq_sampled = [],
            rq_output = output, rq_start = None, rq_expected = None, rq_forced = 0\<rparr>)"

definition force_state ::
    "host \<Rightarrow> string \<Rightarrow> engine_params \<Rightarrow> pyval list \<Rightarrow> nat \<Rightarrow> request_state res" where
  "force_state h secret params prompt output =
     (let extra = extra_of params in
      bindR (validate_request h secret (pget extra ''native_replay_request_id'')
               (pget extra ''native_replay_token_ids'') (pget extra ''native_replay_signature''))
       (\<lambda>(rid, token_ids).
      bindR (validate_request h secret (PStr rid) (pget extra ''native_replay_prompt_token_ids'')
               (pget extra ''native_replay_prompt_signature''))
       (\<lambda>(_, want_prompt).
      if \<not> same_tokens prompt want_prompt then value_error ''native replay prompt token drift''
      else if (case max_tokens params of None \<Rightarrow> False | Some m \<Rightarrow> m < int (length token_ids))
        then value_error ''native replay token sequence exceeds source max_tokens''
      else
        bindR (validate_sampler_window h secret rid (pget extra ''native_replay_committed_sample_start'')
                 (pget extra ''native_replay_sampled_token_count'') (length token_ids)
                 (pget extra ''native_replay_sampler_signature''))
          (\<lambda>(start, sampled).
            Inr \<lparr>rq_id = rid, rq_mode = ''force'', rq_prompt = prompt, rq_tokens = token_ids, rq_sampled = [],
                 rq_output = output, rq_start = Some start, rq_expected = Some sampled, rq_forced = 0\<rparr>))))"

text \<open>A request without replay arguments is left to the engine; an identifier is used once.\<close>

definition new_state :: "host \<Rightarrow> engine_params \<Rightarrow> pyval list \<Rightarrow> nat \<Rightarrow> (processor, request_state option) op" where
  "new_state h params prompt output p =
     (let extra = extra_of params;
          made = (if phas extra ''native_replay_capture_id''
                  then bindR (capture_state h (pr_secret p) extra prompt output) (\<lambda>s. Inr (Some s))
                  else if phas extra ''native_replay_request_id''
                  then bindR (force_state h (pr_secret p) params prompt output) (\<lambda>s. Inr (Some s))
                  else Inr None)
      in case made of
           Inl e \<Rightarrow> (Inl e, p)
         | Inr None \<Rightarrow> (Inr None, p)
         | Inr (Some s) \<Rightarrow>
             if rq_id s \<in> pr_seen p then (value_error ''native replay request ID reused'', p)
             else (Inr (Some s), p\<lparr>pr_seen := insert (rq_id s) (pr_seen p)\<rparr>))"

section \<open>The audit\<close>

definition window_committed :: "request_state \<Rightarrow> bool" where
  "window_committed s \<longleftrightarrow>
     (case (rq_start s, rq_expected s) of
        (Some start, Some want) \<Rightarrow>
          rq_forced s = int (length (rq_tokens s)) \<and> int (length (rq_sampled s)) = want \<and>
          same_tokens (take (length (rq_tokens s)) (drop (nat start) (rq_sampled s))) (rq_tokens s)
      | _ \<Rightarrow> False)"

definition audit_of :: "host \<Rightarrow> int \<Rightarrow> request_state \<Rightarrow> pyval" where
  "audit_of h pid s =
     audit_payload h (rq_id s) (rq_prompt s) (rq_sampled s)
       (if rq_mode s = ''force'' then rq_tokens s else []) (rq_forced s)
       (if rq_mode s = ''capture'' then ''capture_complete''
        else if window_committed s then ''complete'' else ''incomplete'')
       pid (rq_mode s) (rq_start s) (rq_expected s)"

text \<open>Every rank keeps the states; one of them writes, and a request is written once.\<close>

definition write_audit :: "host \<Rightarrow> request_state \<Rightarrow> (processor, unit) op" where
  "write_audit h s p =
     (if \<not> pr_writes_audit p then (Inr (), p)
      else let payload = audit_of h (pr_pid p) s in
        case map_of (pr_written p) (rq_id s) of
          Some previous \<Rightarrow>
            (if previous = payload then Inr () else runtime_error ''conflicting native replay audits'', p)
        | None \<Rightarrow>
            (Inr (), p\<lparr>pr_written := AList.update (rq_id s) payload (pr_written p),
                       pr_log := pr_log p @ [payload]\<rparr>))"

section \<open>Batch updates\<close>

text \<open>\<open>self._states.pop(index, None)\<close>, and the audit of what was there.\<close>

definition take_state :: "nat \<Rightarrow> processor \<Rightarrow> request_state option \<times> processor" where
  "take_state i p = (map_of (pr_states p) i, p\<lparr>pr_states := AList.delete i (pr_states p)\<rparr>)"

definition put_state :: "nat \<Rightarrow> request_state option \<Rightarrow> processor \<Rightarrow> processor" where
  "put_state i s p =
     (case s of None \<Rightarrow> p | Some r \<Rightarrow> p\<lparr>pr_states := AList.update i r (pr_states p)\<rparr>)"

definition audit_option :: "host \<Rightarrow> request_state option \<Rightarrow> (processor, unit) op" where
  "audit_option h s = (case s of None \<Rightarrow> liftS (Inr ()) | Some r \<Rightarrow> write_audit h r)"

definition retire :: "host \<Rightarrow> nat \<Rightarrow> (processor, unit) op" where
  "retire h i p = (let (s, p) = take_state i p in audit_option h s p)"

definition admit :: "host \<Rightarrow> nat \<times> engine_params \<times> pyval list \<times> nat \<Rightarrow> (processor, unit) op" where
  "admit h a =
     (let (i, params, prompt, output) = a in
      bindS (retire h i) (\<lambda>_. bindS (new_state h params prompt output) (\<lambda>s. updateS (put_state i s))))"

text \<open>A swap exchanges two rows; a plain move finalises what its destination still held.\<close>

definition move_state :: "host \<Rightarrow> nat \<times> nat \<times> bool \<Rightarrow> (processor, unit) op" where
  "move_state h m p =
     (let (from_row, to_row, swap) = m;
          (a, p) = take_state from_row p;
          (b, p) = take_state to_row p;
          p = put_state to_row a p
      in if swap then (Inr (), put_state from_row b p) else audit_option h b p)"

record batch_update =
  removed :: "nat list"
  added :: "(nat \<times> engine_params \<times> pyval list \<times> nat) list"
  moved :: "(nat \<times> nat \<times> bool) list"

definition update_state :: "host \<Rightarrow> batch_update option \<Rightarrow> (processor, unit) op" where
  "update_state h u =
     (case u of None \<Rightarrow> liftS (Inr ())
      | Some b \<Rightarrow>
          bindS (mapS (retire h) (removed b)) (\<lambda>_.
          bindS (mapS (admit h) (added b)) (\<lambda>_.
          bindS (mapS (move_state h) (moved b)) (\<lambda>_. liftS (Inr ())))))"

section \<open>The override after sampling\<close>

definition set_discard_mask :: "bool list \<Rightarrow> processor \<Rightarrow> processor" where
  "set_discard_mask discarded p = p\<lparr>pr_mask := Some discarded\<rparr>"

text \<open>\<open>resolved_output_prefix\<close>, with its exception turned into the processor's own.\<close>

definition resolved :: "pyval list \<Rightarrow> pyval list res" where
  "resolved output =
     (case resolved_output_prefix output of
        Inl _ \<Rightarrow> runtime_error ''native replay malformed output placeholders''
      | Inr (prefix, _) \<Rightarrow> Inr prefix)"

definition keep_sample :: "int \<Rightarrow> request_state \<Rightarrow> request_state" where
  "keep_sample token s = s\<lparr>rq_sampled := rq_sampled s @ [PInt token]\<rparr>"

text \<open>One request at one step: its next state, and the token that is committed.\<close>

definition override_request :: "request_state \<Rightarrow> pyval list \<Rightarrow> int \<Rightarrow> (request_state \<times> int) res" where
  "override_request s output natural =
     (if rq_mode s = ''capture'' then Inr (keep_sample natural s, natural)
      else case (rq_start s, rq_expected s) of
        (Some start, Some want) \<Rightarrow>
          (let index = int (length (rq_sampled s)); position = index - start; tokens = rq_tokens s in
           if want \<le> index then runtime_error ''native replay sampled beyond source count''
           else if 0 \<le> position \<and> position < int (length tokens) then
             bindR (resolved output) (\<lambda>prefix.
               if int (length prefix) > position \<or> \<not> same_tokens prefix (take (length prefix) tokens) \<or>
                  int (length output) > position + 1
               then runtime_error ''native replay commit-position drift''
               else let token = int_of (tokens ! nat position) in
                 Inr (keep_sample token (s\<lparr>rq_forced := rq_forced s + 1\<rparr>), token))
           else if int (length tokens) \<le> position then
             bindR (resolved output) (\<lambda>prefix.
               let width = min (length prefix) (length tokens) in
               if \<not> same_tokens (take width prefix) (take width tokens)
               then runtime_error ''native replay committed output drift before suffix''
               else Inr (keep_sample natural s, natural))
           else Inr (keep_sample natural s, natural))
      | _ \<Rightarrow> runtime_error ''native replay sampler contract missing'')"

definition override_row ::
    "(nat \<Rightarrow> pyval list) \<Rightarrow> bool list \<Rightarrow> nat \<times> request_state \<Rightarrow> (processor \<times> int list, unit) op" where
  "override_row outputs discarded row ps =
     (let (i, s) = row; (p, sampled) = ps in
      if length discarded \<le> i then (runtime_error ''native replay request index exceeds valid-sample mask'', ps)
      else if discarded ! i then (Inr (), ps)
      else if length sampled \<le> i then (Inl (PyError ''IndexError''), ps)
      else case override_request s (outputs (rq_output s)) (sampled ! i) of
          Inl e \<Rightarrow> (Inl e, ps)
        | Inr (s', token) \<Rightarrow>
            (Inr (), (p\<lparr>pr_states := AList.update i s' (pr_states p)\<rparr>, sampled[i := token])))"

definition native_replay_override ::
    "(nat \<Rightarrow> pyval list) \<Rightarrow> (processor \<times> int list, unit) op" where
  "native_replay_override outputs ps =
     (case pr_mask (fst ps) of
        None \<Rightarrow> (runtime_error ''native replay valid-sample mask was not published'', ps)
      | Some discarded \<Rightarrow>
          bindS (mapS (override_row outputs discarded) (pr_states (fst ps))) (\<lambda>_. liftS (Inr ())) ps)"

end
