(* ===== verification/Engine_Forcing.thy ===== *)
theory Engine_Forcing
  imports Engine_Processor
begin

text \<open>
  What the logits processor guarantees: the tokens it commits over a run of steps, and the audits
  it writes while the engine reuses the rows of its batch.
\<close>

section \<open>One request over the steps of a run\<close>

text \<open>
  The steps at which the row of a request is not discarded: each gives what the engine's output
  list holds and the token that the sampler drew.  The result is what the engine commits.
\<close>

fun override_steps :: "request_state \<Rightarrow> (pyval list \<times> int) list \<Rightarrow> (request_state \<times> int list) res" where
  "override_steps s [] = Inr (s, [])"
| "override_steps s ((output, natural) # steps) =
     bindR (override_request s output natural) (\<lambda>(s', token).
       bindR (override_steps s' steps) (\<lambda>(t, tokens). Inr (t, token # tokens)))"

definition forcing :: "int \<Rightarrow> int \<Rightarrow> pyval list \<Rightarrow> request_state \<Rightarrow> bool" where
  "forcing start want tokens s \<longleftrightarrow>
     rq_mode s = ''force'' \<and> rq_start s = Some start \<and> rq_expected s = Some want \<and> rq_tokens s = tokens"

definition in_window :: "int \<Rightarrow> pyval list \<Rightarrow> nat \<Rightarrow> bool" where
  "in_window start tokens k \<longleftrightarrow> start \<le> int k \<and> int k < start + int (length tokens)"

text \<open>The token that a step with the given number commits.\<close>

definition committed_at :: "int \<Rightarrow> pyval list \<Rightarrow> nat \<Rightarrow> int \<Rightarrow> int" where
  "committed_at start tokens k natural =
     (if in_window start tokens k then int_of (tokens ! nat (int k - start)) else natural)"

lemma override_request_result:
  assumes "forcing start want tokens s" and "override_request s output natural = Inr (t, token)"
  shows "token = committed_at start tokens (length (rq_sampled s)) natural"
    and "rq_sampled t = rq_sampled s @ [PInt token]"
    and "rq_forced t = rq_forced s + (if in_window start tokens (length (rq_sampled s)) then 1 else 0)"
    and "forcing start want tokens t" and "int (length (rq_sampled s)) < want"
  using assms
  by (auto simp: override_request_def forcing_def committed_at_def in_window_def keep_sample_def Let_def
      bindR_eq_Inr runtime_error_def split: if_splits)

lemma override_steps_result:
  assumes "forcing start want tokens s" and "override_steps s steps = Inr (t, out)"
  shows "length out = length steps \<and> rq_sampled t = rq_sampled s @ map PInt out \<and>
    forcing start want tokens t \<and>
    (\<forall>k < length steps. out ! k = committed_at start tokens (length (rq_sampled s) + k) (snd (steps ! k))) \<and>
    rq_forced t = rq_forced s +
      int (card {k. length (rq_sampled s) \<le> k \<and> k < length (rq_sampled s) + length steps \<and> in_window start tokens k})"
  using assms
proof (induction s steps arbitrary: t out rule: override_steps.induct)
  case (1 s)
  then show ?case by simp
next
  case (2 s held natural steps)
  then obtain s' token rest where step: "override_request s held natural = Inr (s', token)"
    and tail: "override_steps s' steps = Inr (t, rest)" and out: "out = token # rest"
    by (auto simp: bindR_eq_Inr)
  note r = override_request_result [OF "2.prems"(1) step]
  have IH: "length rest = length steps \<and> rq_sampled t = rq_sampled s' @ map PInt rest \<and>
    forcing start want tokens t \<and>
    (\<forall>k < length steps. rest ! k = committed_at start tokens (length (rq_sampled s') + k) (snd (steps ! k))) \<and>
    rq_forced t = rq_forced s' +
      int (card {k. length (rq_sampled s') \<le> k \<and> k < length (rq_sampled s') + length steps \<and> in_window start tokens k})"
    using "2.IH"[OF step refl r(4) tail] .
  let ?n = "length (rq_sampled s)"
  let ?A = "{k. Suc ?n \<le> k \<and> k < Suc ?n + length steps \<and> in_window start tokens k}"
  let ?B = "{k. ?n \<le> k \<and> k < ?n + length ((held, natural) # steps) \<and> in_window start tokens k}"
  have "?B = (if in_window start tokens ?n then insert ?n ?A else ?A)"
    by (auto simp: le_eq_less_or_eq)
  then have "card ?B = card ?A + (if in_window start tokens ?n then 1 else 0)" by simp
  moreover have "out ! k = committed_at start tokens (?n + k) (snd (((held, natural) # steps) ! k))"
    if "k < length ((held, natural) # steps)" for k
    using that IH r(1,2) out by (cases k) auto
  ultimately show ?case using IH r out by simp
qed

section \<open>The engine's side of the contract\<close>

text \<open>
  At the position \<open>p\<close> of the window the engine's list holds a part of the tokens committed so far and
  placeholders for those still in flight; after the window it starts with the window.
\<close>

definition output_ok :: "pyval list \<Rightarrow> int \<Rightarrow> pyval list \<Rightarrow> bool" where
  "output_ok tokens p output \<longleftrightarrow>
     (case resolved_output_prefix output of
        Inl _ \<Rightarrow> False
      | Inr (prefix, pending) \<Rightarrow>
          (if 0 \<le> p \<and> p < int (length tokens)
           then int (length prefix) \<le> p \<and> int (length prefix + pending) \<le> p + 1 \<and>
                same_tokens prefix (take (length prefix) tokens)
           else int (length tokens) \<le> p \<longrightarrow>
                (let width = min (length prefix) (length tokens)
                 in same_tokens (take width prefix) (take width tokens))))"

definition outputs_ok :: "int \<Rightarrow> pyval list \<Rightarrow> nat \<Rightarrow> (pyval list \<times> int) list \<Rightarrow> bool" where
  "outputs_ok start tokens n steps \<longleftrightarrow>
     list_all (\<lambda>(k, step). output_ok tokens (int k - start) (fst step)) (zip [n..<n + length steps] steps)"

lemma outputs_ok_Cons [simp]:
  "outputs_ok start tokens n (step # steps) \<longleftrightarrow>
     output_ok tokens (int n - start) (fst step) \<and> outputs_ok start tokens (Suc n) steps"
proof -
  have "[n..<n + length (step # steps)] = n # [Suc n..<Suc n + length steps]"
    by (simp add: upt_rec)
  then show ?thesis unfolding outputs_ok_def by (simp only: zip_Cons_Cons list.pred_inject prod.case)
qed

lemma resolved_output_length:
  "resolved_output_prefix output = Inr (prefix, pending) \<Longrightarrow> length output = length prefix + pending"
  by (auto simp: resolved_output_prefix_def Let_def simp flip: length_append split: if_splits)

lemma override_request_returns:
  assumes "forcing start want tokens s" and "int (length (rq_sampled s)) < want"
    and ok: "output_ok tokens (int (length (rq_sampled s)) - start) output"
  shows "\<exists>t token. override_request s output natural = Inr (t, token)"
proof -
  obtain prefix pending where p: "resolved_output_prefix output = Inr (prefix, pending)"
    using ok by (auto simp: output_ok_def split: sum.splits)
  have len: "length output = length prefix + pending" by (rule resolved_output_length [OF p])
  show ?thesis
    using assms p len
    by (auto simp: override_request_def forcing_def output_ok_def resolved_def Let_def
        simp del: py_eq.simps split: if_splits)
qed

lemma override_steps_returns:
  assumes "forcing start want tokens s" and "int (length (rq_sampled s) + length steps) \<le> want"
    and "outputs_ok start tokens (length (rq_sampled s)) steps"
  shows "\<exists>t out. override_steps s steps = Inr (t, out)"
  using assms
proof (induction steps arbitrary: s)
  case Nil
  then show ?case by simp
next
  case (Cons step steps)
  obtain held natural where step: "step = (held, natural)" by (cases step)
  have "int (length (rq_sampled s)) < want" using Cons.prems(2) by simp
  then obtain s' token where r: "override_request s held natural = Inr (s', token)"
    using override_request_returns [OF Cons.prems(1)] Cons.prems(3) step by fastforce
  note q = override_request_result [OF Cons.prems(1) r]
  have "\<exists>t out. override_steps s' steps = Inr (t, out)"
    using Cons.prems(2,3) q(2) by (intro Cons.IH q(4)) simp_all
  then show ?case using r step by auto
qed

section \<open>Runs of a fresh request\<close>

definition fresh_forcing :: "nat \<Rightarrow> nat \<Rightarrow> pyval list \<Rightarrow> request_state \<Rightarrow> bool" where
  "fresh_forcing start want tokens s \<longleftrightarrow>
     forcing (int start) (int want) tokens s \<and> rq_sampled s = [] \<and> rq_forced s = 0 \<and>
     list_all is_token tokens \<and> start + length tokens \<le> want"

lemma in_window_nat: "in_window (int b) tokens k \<longleftrightarrow> b \<le> k \<and> k < b + length tokens"
  by (auto simp: in_window_def)

lemma map_PInt_int_of: "list_all is_token xs \<Longrightarrow> map PInt (map int_of xs) = xs"
  by (induction xs) (auto simp: is_token_iff)

text \<open>The committed tokens of a run: the recorded ones in the window and the drawn ones outside.\<close>

definition forced_output :: "nat \<Rightarrow> pyval list \<Rightarrow> int list \<Rightarrow> int list" where
  "forced_output start tokens drawn =
     take start drawn @ map int_of tokens @ drop (start + length tokens) drawn"

lemma forced_output_exact:
  assumes "length out = length drawn" and "b + length tokens \<le> length drawn"
    and "\<forall>k < length drawn. out ! k = committed_at (int b) tokens k (drawn ! k)"
  shows "out = forced_output b tokens drawn"
proof (rule nth_equalityI)
  show "length out = length (forced_output b tokens drawn)" using assms by (simp add: forced_output_def)
next
  fix k
  assume k: "k < length out"
  consider "k < b" | "b \<le> k" "k < b + length tokens" | "b + length tokens \<le> k" by linarith
  then show "out ! k = forced_output b tokens drawn ! k"
    using k assms
    by cases (auto simp: forced_output_def committed_at_def in_window_nat nth_append min_absorb2 nat_diff_distrib)
qed

lemma fresh_run:
  assumes "fresh_forcing b want tokens s" and "override_steps s steps = Inr (t, out)"
  shows "length out = length steps" and "rq_sampled t = map PInt out"
    and "forcing (int b) (int want) tokens t"
    and "\<forall>k < length steps. out ! k = committed_at (int b) tokens k (map snd steps ! k)"
    and "rq_forced t = int (min (length steps) (b + length tokens) - min (length steps) b)"
proof -
  have f: "forcing (int b) (int want) tokens s" "rq_sampled s = []" "rq_forced s = 0"
    using assms(1) by (simp_all add: fresh_forcing_def)
  note r = override_steps_result [OF f(1) assms(2)]
  show "length out = length steps" "rq_sampled t = map PInt out" "forcing (int b) (int want) tokens t"
    "\<forall>k < length steps. out ! k = committed_at (int b) tokens k (map snd steps ! k)"
    using r f(2) by simp_all
  have "{k. k < length steps \<and> in_window (int b) tokens k} =
      {min (length steps) b..<min (length steps) (b + length tokens)}"
    by (auto simp: in_window_nat)
  then show "rq_forced t = int (min (length steps) (b + length tokens) - min (length steps) b)"
    using r f(2,3) by simp
qed

lemma complete_run:
  assumes s: "fresh_forcing b want tokens s" and run: "override_steps s steps = Inr (t, out)"
    and all: "length steps = want"
  shows "out = forced_output b tokens (map snd steps)" and "window_committed t"
proof -
  note r = fresh_run [OF s run]
  have fits: "b + length tokens \<le> length steps" and toks: "list_all is_token tokens"
    using s all by (simp_all add: fresh_forcing_def)
  show out: "out = forced_output b tokens (map snd steps)"
    using r(1,4) fits by (intro forced_output_exact) simp_all
  have "take (length tokens) (drop b (rq_sampled t)) = map PInt (map int_of tokens)"
    using fits unfolding r(2) out forced_output_def by (simp add: min_absorb2)
  then have w: "take (length tokens) (drop b (rq_sampled t)) = tokens" by (simp only: map_PInt_int_of [OF toks])
  have "same_tokens tokens tokens" using same_tokens_iff [OF toks toks] by blast
  moreover have "rq_forced t = int (length tokens)" using r(5) fits by simp
  moreover have "length (rq_sampled t) = want" using r(1,2) all by simp
  ultimately show "window_committed t"
    using r(3) w by (simp add: window_committed_def forcing_def del: py_eq.simps)
qed

text \<open>
  C13: While the engine keeps its side of the contract, a forced request runs to its last step without
  an exception, commits exactly the recorded tokens inside its signed window and the drawn tokens
  outside it, and its audit is complete.
\<close>

theorem forced_run_commits_recording:
  assumes "fresh_forcing b (length steps) tokens s" and "outputs_ok (int b) tokens 0 steps"
  shows "\<exists>t. override_steps s steps = Inr (t, forced_output b tokens (map snd steps)) \<and> window_committed t"
proof -
  have "\<exists>t out. override_steps s steps = Inr (t, out)"
    using assms by (intro override_steps_returns [where start = "int b" and want = "int (length steps)"
          and tokens = tokens]) (simp_all add: fresh_forcing_def)
  then obtain t out where run: "override_steps s steps = Inr (t, out)" by blast
  show ?thesis using complete_run [OF assms(1) run refl] run by blast
qed

definition sample_request :: request_state where
  "sample_request = \<lparr>rq_id = ''nr-1'', rq_mode = ''force'', rq_prompt = [PInt 9], rq_tokens = [PInt 5, PInt 6],
     rq_sampled = [], rq_output = 0, rq_start = Some 1, rq_expected = Some 4, rq_forced = 0\<rparr>"

definition sample_steps :: "(pyval list \<times> int) list" where
  "sample_steps = [([], 40), ([PInt (-1)], 41), ([PInt 5, PInt (-1)], 42), ([PInt 5, PInt 6], 43)]"

theorem forced_run_commits_recording_witness:
  "\<exists>t. override_steps sample_request sample_steps = Inr (t, [40, 5, 6, 43]) \<and> window_committed t"
proof -
  have "fresh_forcing 1 (length sample_steps) [PInt 5, PInt 6] sample_request"
    by (simp add: fresh_forcing_def forcing_def sample_request_def sample_steps_def)
  moreover have "outputs_ok (int 1) [PInt 5, PInt 6] 0 sample_steps" by code_simp
  moreover have "forced_output 1 [PInt 5, PInt 6] (map snd sample_steps) = [40, 5, 6, 43]" by code_simp
  ultimately show ?thesis using forced_run_commits_recording [of 1 sample_steps] by fastforce
qed

text \<open>
  Whatever the engine's output list holds, a forced request that is not stopped by an exception
  never commits another token inside its window, and its audit says complete exactly when it ran
  the recorded number of steps.
\<close>

theorem complete_audit_means_all_steps:
  assumes "fresh_forcing b want tokens s" and "override_steps s steps = Inr (t, out)"
  shows "(\<forall>k < length steps. b \<le> k \<and> k < b + length tokens \<longrightarrow> PInt (out ! k) = tokens ! (k - b)) \<and>
    (window_committed t \<longleftrightarrow> length steps = want)"
proof
  note r = fresh_run [OF assms]
  have toks: "list_all is_token tokens" using assms(1) by (simp add: fresh_forcing_def)
  show "\<forall>k < length steps. b \<le> k \<and> k < b + length tokens \<longrightarrow> PInt (out ! k) = tokens ! (k - b)"
  proof (intro allI impI)
    fix k
    assume k: "k < length steps" "b \<le> k \<and> k < b + length tokens"
    then have "out ! k = int_of (tokens ! nat (int k - int b))"
      using r(4) by (simp add: committed_at_def in_window_nat)
    moreover have "nat (int k - int b) = k - b" by simp
    moreover have "k - b < length tokens" using k(2) by linarith
    then have "is_token (tokens ! (k - b))" using toks by (simp add: list_all_length)
    ultimately show "PInt (out ! k) = tokens ! (k - b)" by (auto simp: is_token_iff)
  qed
  show "window_committed t \<longleftrightarrow> length steps = want"
  proof
    assume "window_committed t"
    then show "length steps = want"
      using r(1,2,3) by (simp add: window_committed_def forcing_def)
  qed (rule complete_run(2) [OF assms])
qed

theorem complete_audit_means_all_steps_witness:
  "\<not> window_committed (fst (projr (override_steps sample_request (take 3 sample_steps))))"
proof -
  obtain t out where run: "override_steps sample_request (take 3 sample_steps) = Inr (t, out)"
  proof -
    have "override_steps sample_request (take 3 sample_steps) =
        Inr (sample_request\<lparr>rq_sampled := [PInt 40, PInt 5, PInt 6], rq_forced := 2\<rparr>, [40, 5, 6])"
      by code_simp
    then show ?thesis by (rule that)
  qed
  have "fresh_forcing 1 4 [PInt 5, PInt 6] sample_request"
    by (simp add: fresh_forcing_def forcing_def sample_request_def)
  then have "\<not> window_committed t"
    using complete_audit_means_all_steps [OF _ run] by (simp add: sample_steps_def)
  then show ?thesis unfolding run by simp
qed

section \<open>The rows of a step\<close>

lemma override_row_step:
  assumes "override_row outputs discarded (i, s) (p, sampled) = (Inr (), (p', sampled'))"
  shows "length sampled' = length sampled" and "i < length discarded"
    and "\<And>j. j \<noteq> i \<Longrightarrow> map_of (pr_states p') j = map_of (pr_states p) j \<and> sampled' ! j = sampled ! j"
    and "discarded ! i \<Longrightarrow> p' = p \<and> sampled' = sampled"
    and "\<not> discarded ! i \<Longrightarrow> \<exists>s' token. i < length sampled \<and>
      override_request s (outputs (rq_output s)) (sampled ! i) = Inr (s', token) \<and>
      map_of (pr_states p') i = Some s' \<and> sampled' ! i = token"
  using assms
  by (auto simp: override_row_def runtime_error_def update_conv' split: if_splits sum.splits)

definition row_done ::
    "(nat \<Rightarrow> pyval list) \<Rightarrow> bool list \<Rightarrow> int list \<Rightarrow> nat \<times> request_state \<Rightarrow> processor \<Rightarrow> int list \<Rightarrow> bool" where
  "row_done outputs discarded drawn row p sampled \<longleftrightarrow>
     (let (i, s) = row in
      i < length discarded \<and>
      (if discarded ! i then map_of (pr_states p) i = Some s \<and> sampled ! i = drawn ! i
       else case override_request s (outputs (rq_output s)) (drawn ! i) of
              Inl _ \<Rightarrow> False
            | Inr (s', token) \<Rightarrow> map_of (pr_states p) i = Some s' \<and> sampled ! i = token))"

lemma override_rows:
  assumes "mapS (override_row outputs discarded) rows (p, sampled) = (Inr u, (p', sampled'))"
    and "distinct (map fst rows)" and "\<forall>(i, s) \<in> set rows. map_of (pr_states p) i = Some s"
  shows "(\<forall>row \<in> set rows. row_done outputs discarded sampled row p' sampled') \<and>
    (\<forall>j. j \<notin> fst ` set rows \<longrightarrow> map_of (pr_states p') j = map_of (pr_states p) j \<and> sampled' ! j = sampled ! j)"
  using assms
proof (induction rows arbitrary: p sampled u)
  case Nil
  then show ?case by simp
next
  case (Cons row rows)
  obtain i s where row: "row = (i, s)" by (cases row)
  obtain q drawn u' where step: "override_row outputs discarded (i, s) (p, sampled) = (Inr (), (q, drawn))"
    and tail: "mapS (override_row outputs discarded) rows (q, drawn) = (Inr u', (p', sampled'))"
    using Cons.prems(1) row by (auto simp: op_simps)
  note r = override_row_step [OF step]
  have i: "i \<notin> fst ` set rows" using Cons.prems(2) row by simp
  have "\<forall>(j, x) \<in> set rows. map_of (pr_states q) j = Some x"
    using Cons.prems(3) r(3) i row by (fastforce simp: image_iff)
  then have IH: "\<forall>row \<in> set rows. row_done outputs discarded drawn row p' sampled'"
    "\<forall>j. j \<notin> fst ` set rows \<longrightarrow> map_of (pr_states p') j = map_of (pr_states q) j \<and> sampled' ! j = drawn ! j"
    using Cons.IH [OF tail] Cons.prems(2) by auto
  have "row_done outputs discarded sampled (j, x) p' sampled'" if "(j, x) \<in> set rows" for j x
  proof -
    have "j \<noteq> i" using that i by force
    then have "drawn ! j = sampled ! j" using r(3) by simp
    with IH(1) that show ?thesis by (fastforce simp: row_done_def)
  qed
  moreover have "row_done outputs discarded sampled (i, s) p' sampled'"
    using r(2,4,5) IH(2) i Cons.prems(3) row by (cases "discarded ! i") (auto simp: row_done_def)
  ultimately show ?case using IH(2) r(3) row by auto
qed

text \<open>
  A step that returns gives each row of a request exactly its own override, leaves a discarded row
  and its request as they were, and leaves every row without a request to the engine.
\<close>

theorem override_keeps_rows_apart:
  assumes "native_replay_override outputs (p, sampled) = (Inr (), (p', sampled'))"
    and "distinct (map fst (pr_states p))"
  shows "\<exists>discarded. pr_mask p = Some discarded \<and>
    (\<forall>row \<in> set (pr_states p). row_done outputs discarded sampled row p' sampled') \<and>
    (\<forall>j. j \<notin> fst ` set (pr_states p) \<longrightarrow> sampled' ! j = sampled ! j)"
proof -
  obtain discarded u where d: "pr_mask p = Some discarded"
    "mapS (override_row outputs discarded) (pr_states p) (p, sampled) = (Inr u, (p', sampled'))"
    using assms(1) by (auto simp: native_replay_override_def runtime_error_def op_simps split: option.splits)
  have "\<forall>(i, s) \<in> set (pr_states p). map_of (pr_states p) i = Some s" using assms(2) by auto
  from override_rows [OF d(2) assms(2) this] d(1) show ?thesis by blast
qed

definition sample_processor :: processor where
  "sample_processor = \<lparr>pr_secret = ''k'', pr_pid = 1, pr_writes_audit = True,
     pr_states = [(0, sample_request\<lparr>rq_start := Some 0\<rparr>), (2, sample_request\<lparr>rq_id := ''nr-2'', rq_start := Some 0\<rparr>)],
     pr_seen = {''nr-1'', ''nr-2''}, pr_mask = Some [False, False, True], pr_written = [], pr_log = []\<rparr>"

theorem override_keeps_rows_apart_witness:
  "\<exists>p'. native_replay_override (\<lambda>_. []) (sample_processor, [40, 41, 42]) = (Inr (), (p', [5, 41, 42])) \<and>
     row_done (\<lambda>_. []) [False, False, True] [40, 41, 42]
       (2, sample_request\<lparr>rq_id := ''nr-2'', rq_start := Some 0\<rparr>) p' [5, 41, 42]"
proof -
  obtain p' where run: "native_replay_override (\<lambda>_. []) (sample_processor, [40, 41, 42]) = (Inr (), (p', [5, 41, 42]))"
  proof -
    have "native_replay_override (\<lambda>_. []) (sample_processor, [40, 41, 42]) =
      (Inr (), (sample_processor\<lparr>pr_states :=
          [(0, sample_request\<lparr>rq_start := Some 0, rq_sampled := [PInt 5], rq_forced := 1\<rparr>),
           (2, sample_request\<lparr>rq_id := ''nr-2'', rq_start := Some 0\<rparr>)]\<rparr>, [5, 41, 42]))"
      by code_simp
    then show ?thesis by (rule that)
  qed
  have "distinct (map fst (pr_states sample_processor))" by (simp add: sample_processor_def)
  from override_keeps_rows_apart [OF run this] run show ?thesis by (auto simp: sample_processor_def)
qed

end
