(* ===== verification/Engine_Audit.thy ===== *)
theory Engine_Audit
  imports Engine_Forcing "HOL-Library.Multiset"
begin

text \<open>
  The bookkeeping of the logits processor while the engine removes, adds and moves the rows of its
  batch: no request is lost, none is in two rows, and each is audited once.
\<close>

section \<open>The invariant\<close>

definition live_ids :: "processor \<Rightarrow> string list" where
  "live_ids p = map (\<lambda>row. rq_id (snd row)) (pr_states p)"

definition audited_ids :: "processor \<Rightarrow> string list" where
  "audited_ids p = map fst (pr_written p)"

text \<open>
  The invariant, with the identifiers of the states that an operation has taken out and not yet put
  back.  A rank that does not write keeps no account of what it finished.
\<close>

definition accounted :: "string list \<Rightarrow> processor \<Rightarrow> bool" where
  "accounted held p \<longleftrightarrow>
     distinct (map fst (pr_states p)) \<and>
     distinct (held @ live_ids p @ audited_ids p) \<and>
     set (held @ live_ids p @ audited_ids p) \<subseteq> pr_seen p \<and>
     (pr_writes_audit p \<longrightarrow> pr_seen p \<subseteq> set (held @ live_ids p @ audited_ids p)) \<and>
     pr_log p = map snd (pr_written p)"

definition processor_ok :: "processor \<Rightarrow> bool" where
  "processor_ok p \<longleftrightarrow> accounted [] p"

definition held_id :: "request_state option \<Rightarrow> string list" where
  "held_id s = (case s of None \<Rightarrow> [] | Some r \<Rightarrow> [rq_id r])"

lemma held_id_simps [simp]: "held_id None = []" "held_id (Some r) = [rq_id r]"
  by (simp_all add: held_id_def)

section \<open>Rows taken out and put back\<close>

lemma delete_rows:
  assumes "distinct (map fst rows)"
  shows "distinct (map fst (AList.delete i rows))" and "i \<notin> fst ` set (AList.delete i rows)"
    and "map_of rows i = None \<Longrightarrow> AList.delete i rows = rows"
    and "map_of rows i = Some r \<Longrightarrow>
      mset (map (\<lambda>row. f (snd row)) rows) = {#f r#} + mset (map (\<lambda>row. f (snd row)) (AList.delete i rows))"
proof -
  show "distinct (map fst (AList.delete i rows))" using assms by (rule distinct_delete)
  show "i \<notin> fst ` set (AList.delete i rows)" by (auto simp: AList.delete_eq)
  show "map_of rows i = None \<Longrightarrow> AList.delete i rows = rows"
    by (simp add: map_of_eq_None_iff delete_absent)
  show "map_of rows i = Some r \<Longrightarrow>
      mset (map (\<lambda>row. f (snd row)) rows) = {#f r#} + mset (map (\<lambda>row. f (snd row)) (AList.delete i rows))"
    using assms
  proof (induction rows)
    case Nil
    then show ?case by simp
  next
    case (Cons row rows)
    then show ?case by (cases "fst row = i") (simp_all add: delete_absent)
  qed
qed

lemma take_state_accounted:
  assumes "accounted held p" and "take_state i p = (s, q)"
  shows "accounted (held_id s @ held) q" and "i \<notin> fst ` set (pr_states q)"
    and "fst ` set (pr_states q) \<subseteq> fst ` set (pr_states p)" and "s \<noteq> None \<Longrightarrow> i \<in> fst ` set (pr_states p)"
    and "pr_seen q = pr_seen p" and "pr_written q = pr_written p" and "pr_writes_audit q = pr_writes_audit p"
proof -
  have q: "q = p\<lparr>pr_states := AList.delete i (pr_states p)\<rparr>" "s = map_of (pr_states p) i"
    using assms(2) by (auto simp: take_state_def)
  have d: "distinct (map fst (pr_states p))" using assms(1) by (simp add: accounted_def)
  note del = delete_rows [OF d, of i]
  have ids: "mset (live_ids p) = mset (held_id s @ live_ids q)"
    using del(3) del(4)[where f = rq_id] unfolding q by (cases "map_of (pr_states p) i") (auto simp: live_ids_def)
  then have all: "mset (held @ live_ids p @ audited_ids p) = mset (held_id s @ held @ live_ids q @ audited_ids q)"
    by (simp add: q(1) audited_ids_def)
  show "accounted (held_id s @ held) q"
    using assms(1) del(1) mset_eq_imp_distinct_iff [OF all] unfolding accounted_def mset_eq_setD [OF all]
    by (simp add: q(1))
  show "i \<notin> fst ` set (pr_states q)" using del(2) by (simp add: q)
  show "fst ` set (pr_states q) \<subseteq> fst ` set (pr_states p)" unfolding q by (auto simp: AList.delete_eq)
  show "s \<noteq> None \<Longrightarrow> i \<in> fst ` set (pr_states p)"
    unfolding q by (auto simp: map_of_eq_None_iff)
  show "pr_seen q = pr_seen p" "pr_written q = pr_written p" "pr_writes_audit q = pr_writes_audit p"
    by (simp_all add: q)
qed

lemma put_state_accounted:
  assumes "accounted (held_id s @ held) p" and "s \<noteq> None \<Longrightarrow> i \<notin> fst ` set (pr_states p)"
  shows "accounted held (put_state i s p)"
proof (cases s)
  case None
  with assms show ?thesis by (simp add: put_state_def)
next
  case (Some r)
  with assms have "put_state i s p = p\<lparr>pr_states := pr_states p @ [(i, r)]\<rparr>"
    by (simp add: put_state_def update_absent)
  with assms Some show ?thesis
    by (auto simp: accounted_def live_ids_def audited_ids_def)
qed

lemma audit_option_accounted:
  assumes "accounted (held_id s @ held) p"
  shows "fst (audit_option h s p) = Inr ()" and "accounted held (snd (audit_option h s p))"
    and "pr_states (snd (audit_option h s p)) = pr_states p"
    and "pr_seen (snd (audit_option h s p)) = pr_seen p"
proof -
  have fresh: "map_of (pr_written p) (rq_id r) = None" if "s = Some r" for r
    using assms that by (auto simp: accounted_def audited_ids_def map_of_eq_None_iff)
  have upd: "AList.update (rq_id r) x (pr_written p) = pr_written p @ [(rq_id r, x)]" if "s = Some r" for r x
    using fresh [OF that] by (intro update_absent) (simp add: map_of_eq_None_iff)
  have "audit_option h s p =
      (Inr (), case s of None \<Rightarrow> p | Some r \<Rightarrow> if pr_writes_audit p
         then p\<lparr>pr_written := pr_written p @ [(rq_id r, audit_of h (pr_pid p) r)],
                pr_log := pr_log p @ [audit_of h (pr_pid p) r]\<rparr>
         else p)"
    by (cases s) (simp_all add: audit_option_def write_audit_def Let_def fresh upd)
  with assms show "fst (audit_option h s p) = Inr ()" "accounted held (snd (audit_option h s p))"
    "pr_states (snd (audit_option h s p)) = pr_states p" "pr_seen (snd (audit_option h s p)) = pr_seen p"
    by (cases s; auto simp: accounted_def live_ids_def audited_ids_def)+
qed

section \<open>Batch updates\<close>

definition conflict :: err where
  "conflict = PyError ''RuntimeError: conflicting native replay audits''"

lemma check_errors:
  "value_error msg = Inl e \<Longrightarrow> e \<noteq> conflict"
  "check_request_id v msg = Inl e \<Longrightarrow> e \<noteq> conflict"
  "check_signature signature want msg = Inl e \<Longrightarrow> e \<noteq> conflict"
  by (auto simp: conflict_def value_error_def check_request_id_def check_signature_def compare_digest_def
      bindR_eq_Inl split: if_splits)

lemma new_state_outcome:
  assumes "new_state h params prompt out_ref p = (r, q)"
  shows "(\<exists>e. r = Inl e \<and> e \<noteq> conflict \<and> q = p) \<or> (r = Inr None \<and> q = p) \<or>
    (\<exists>s. r = Inr (Some s) \<and> rq_id s \<notin> pr_seen p \<and> q = p\<lparr>pr_seen := insert (rq_id s) (pr_seen p)\<rparr>)"
proof -
  have a: "capture_state h k extra prompt out_ref = Inl e \<Longrightarrow> e \<noteq> conflict" for k extra e
    by (auto simp: capture_state_def validate_capture_def bindR_eq_Inl dest: check_errors)
  have w: "validate_sampler_window h k rid b n c sig = Inl e \<Longrightarrow> e \<noteq> conflict" for k rid b n c sig e
    by (auto simp: validate_sampler_window_def bindR_eq_Inl split: if_splits dest: check_errors)
  have v: "validate_request h k rid toks sig = Inl e \<Longrightarrow> e \<noteq> conflict" for k rid toks sig e
    by (auto simp: validate_request_def bindR_eq_Inl split: if_splits dest: check_errors)
  have b: "force_state h k params prompt out_ref = Inl e \<Longrightarrow> e \<noteq> conflict" for k e
    by (auto simp: force_state_def Let_def bindR_eq_Inl split: if_splits dest: check_errors v w)
  define extra where "extra = extra_of params"
  define made where "made =
    (if phas extra ''native_replay_capture_id''
     then bindR (capture_state h (pr_secret p) extra prompt out_ref) (\<lambda>s. Inr (Some s))
     else if phas extra ''native_replay_request_id''
     then bindR (force_state h (pr_secret p) params prompt out_ref) (\<lambda>s. Inr (Some s)) else Inr None)"
  have new: "new_state h params prompt out_ref p =
      (case made of
         Inl e \<Rightarrow> (Inl e, p)
       | Inr None \<Rightarrow> (Inr None, p)
       | Inr (Some s) \<Rightarrow>
           if rq_id s \<in> pr_seen p then (value_error ''native replay request ID reused'', p)
           else (Inr (Some s), p\<lparr>pr_seen := insert (rq_id s) (pr_seen p)\<rparr>))"
    by (simp only: new_state_def Let_def made_def extra_def)
  have bad: "e \<noteq> conflict" if "made = Inl e" for e
    using that a b by (auto simp: made_def bindR_eq_Inl split: if_splits)
  have reused: "value_error ''native replay request ID reused'' = Inl (PyError ''ValueError: native replay request ID reused'')"
    by (simp add: value_error_def)
  have reused_ok: "PyError ''ValueError: native replay request ID reused'' \<noteq> conflict"
    by (simp add: conflict_def)
  show ?thesis
  proof (cases made)
    case (Inl e)
    with assms new bad show ?thesis by auto
  next
    case (Inr s)
    with assms new reused reused_ok show ?thesis by (cases s) (auto split: if_splits)
  qed
qed

definition keeps :: "(processor, 'a) op \<Rightarrow> bool" where
  "keeps m \<longleftrightarrow> (\<forall>p. processor_ok p \<longrightarrow> processor_ok (snd (m p)) \<and> fst (m p) \<noteq> Inl conflict)"

lemma keepsD: "keeps m \<Longrightarrow> processor_ok p \<Longrightarrow> processor_ok (snd (m p)) \<and> fst (m p) \<noteq> Inl conflict"
  by (simp add: keeps_def)

lemma keeps_bind: "keeps m \<Longrightarrow> (\<And>x. keeps (f x)) \<Longrightarrow> keeps (bindS m f)"
  unfolding keeps_def by (auto simp: bindS_def split: prod.splits sum.splits)

lemma keeps_unit: "keeps (liftS (Inr u))"
  by (simp add: keeps_def)

lemma keeps_map: "(\<And>x. keeps (f x)) \<Longrightarrow> keeps (mapS f xs)"
proof (induction xs)
  case Nil
  then show ?case by (simp add: keeps_def)
next
  case (Cons x xs)
  have "keeps (bindS (f x) (\<lambda>y. bindS (mapS f xs) (\<lambda>ys t. (Inr (y # ys), t))))"
    using Cons by (intro keeps_bind) (simp_all add: keeps_def)
  then show ?case by (simp add: keeps_def)
qed

lemma keeps_retire: "keeps (retire h i)"
  unfolding keeps_def
proof (intro allI impI)
  fix p
  assume "processor_ok p"
  obtain s q where t: "take_state i p = (s, q)" by (cases "take_state i p")
  have "accounted (held_id s @ []) q"
    using take_state_accounted(1) [of "[]" p, OF _ t] \<open>processor_ok p\<close> by (simp add: processor_ok_def)
  from audit_option_accounted(1,2) [OF this] t
  show "processor_ok (snd (retire h i p)) \<and> fst (retire h i p) \<noteq> Inl conflict"
    by (simp add: retire_def processor_ok_def)
qed

lemma retire_frees: "accounted [] p \<Longrightarrow> i \<notin> fst ` set (pr_states (snd (retire h i p)))"
proof -
  assume ok: "accounted [] p"
  obtain s q where t: "take_state i p = (s, q)" by (cases "take_state i p")
  note r = take_state_accounted [OF ok t]
  have "accounted (held_id s @ []) q" using r(1) by simp
  from audit_option_accounted(3) [OF this] r(2) show ?thesis by (simp add: retire_def t)
qed

lemma keeps_admit: "keeps (admit h a)"
  unfolding keeps_def
proof (intro allI impI)
  fix p
  assume ok: "processor_ok p"
  obtain i params prompt out_ref where a: "a = (i, params, prompt, out_ref)" by (cases a)
  obtain r q where q: "retire h i p = (r, q)" by (cases "retire h i p")
  have kq: "accounted [] q" "r \<noteq> Inl conflict" and free: "i \<notin> fst ` set (pr_states q)"
    using keepsD [OF keeps_retire ok, of h i] retire_frees [of p i h] ok q by (simp_all add: processor_ok_def)
  obtain made q' where m: "new_state h params prompt out_ref q = (made, q')"
    by (cases "new_state h params prompt out_ref q")
  have added: "accounted [] (put_state i (Some s) (q\<lparr>pr_seen := insert (rq_id s) (pr_seen q)\<rparr>))"
    if "rq_id s \<notin> pr_seen q" for s
    using kq(1) that free
    by (intro put_state_accounted) (auto simp: accounted_def live_ids_def audited_ids_def)
  have none: "put_state i None q = q" by (simp add: put_state_def)
  show "processor_ok (snd (admit h a p)) \<and> fst (admit h a p) \<noteq> Inl conflict"
    using new_state_outcome [OF m] kq q m added none
    by (cases r) (auto simp: admit_def a processor_ok_def)
qed

lemma keeps_move: "keeps (move_state h m)"
  unfolding keeps_def
proof (intro allI impI)
  fix p
  assume ok: "processor_ok p"
  obtain i j swap where m: "m = (i, j, swap)" by (cases m)
  obtain a q where a: "take_state i p = (a, q)" by (cases "take_state i p")
  obtain b q' where b: "take_state j q = (b, q')" by (cases "take_state j q")
  have "accounted [] p" using ok by (simp add: processor_ok_def)
  note ta = take_state_accounted [OF this a]
  note tb = take_state_accounted [OF ta(1) b]
  have swapped: "accounted (held_id a @ held_id b) q'"
    using tb(1) by (auto simp: accounted_def)
  have i: "i \<notin> fst ` set (pr_states q')" using ta(2) tb(3) by blast
  let ?q = "put_state j a q'"
  have pa: "accounted (held_id b @ []) ?q" using put_state_accounted [OF swapped] tb(2) by simp
  have "i \<notin> fst ` set (pr_states ?q)" if "b \<noteq> None"
  proof -
    have "j \<in> fst ` set (pr_states q)" using tb(4) that by simp
    then have "i \<noteq> j" using ta(2) by blast
    then show ?thesis using i tb(2) by (cases a) (simp_all add: put_state_def update_absent)
  qed
  then have "accounted [] (put_state i b ?q)" using put_state_accounted [OF pa] by blast
  with audit_option_accounted(1,2) [OF pa, of h]
  show "processor_ok (snd (move_state h m p)) \<and> fst (move_state h m p) \<noteq> Inl conflict"
    by (simp add: move_state_def m a b processor_ok_def Let_def)
qed

text \<open>
  C16: A batch update, also one that raises, keeps every request that was ever admitted in exactly one
  row or in exactly one audit, and never finds two audits of one request in conflict.
\<close>

theorem update_state_accounts_for_every_request:
  assumes "processor_ok p"
  shows "processor_ok (snd (update_state h u p)) \<and> fst (update_state h u p) \<noteq> Inl conflict"
proof -
  have "keeps (update_state h u)"
    by (cases u) (simp_all add: update_state_def keeps_unit keeps_bind keeps_map keeps_retire keeps_admit keeps_move)
  then show ?thesis using assms by (rule keepsD)
qed

text \<open>Row 0 ends, and the request of row 2 moves to row 0.\<close>

definition sample_update :: batch_update where
  "sample_update = \<lparr>removed = [0], added = [], moved = [(2, 0, False)]\<rparr>"

theorem update_state_accounts_for_every_request_witness:
  "processor_ok (snd (update_state plain_host (Some sample_update) sample_processor)) \<and>
   live_ids (snd (update_state plain_host (Some sample_update) sample_processor)) = [''nr-2''] \<and>
   audited_ids (snd (update_state plain_host (Some sample_update) sample_processor)) = [''nr-1'']"
proof -
  have "processor_ok sample_processor"
    by (simp add: processor_ok_def accounted_def live_ids_def audited_ids_def sample_processor_def sample_request_def)
  note ok = update_state_accounts_for_every_request [OF this, of plain_host "Some sample_update"]
  define audit where "audit = audit_of plain_host 1 (sample_request\<lparr>rq_start := Some 0\<rparr>)"
  have "update_state plain_host (Some sample_update) sample_processor =
      (Inr (), sample_processor\<lparr>
         pr_states := [(0, sample_request\<lparr>rq_id := ''nr-2'', rq_start := Some 0\<rparr>)],
         pr_written := [(''nr-1'', audit)], pr_log := [audit]\<rparr>)"
    by (simp add: update_state_def sample_update_def retire_def move_state_def take_state_def put_state_def
        audit_option_def write_audit_def sample_processor_def sample_request_def audit_def bindS_def Let_def)
  with ok show ?thesis by (simp add: live_ids_def audited_ids_def sample_request_def)
qed

end
