(* ===== verification/Forced.thy ===== *)
theory Forced
  imports Util
begin

text \<open>
  forced.py: the replay side of forced tokens.  It signs the recorded tokens into the upstream
  request, tails the audit log of the engine, and checks that each audit is the recorded run.

  The audit file is seen through \<open>audit_file\<close>, what one \<open>open\<close> of it finds; a future is a number, and
  the event loop, the thread of the pump and its sleep are not modelled: a run of the pump is the
  sequence of its reads.
\<close>

section \<open>Signatures\<close>

definition forced_token_payload :: "host \<Rightarrow> string \<Rightarrow> pyval list \<Rightarrow> string" where
  "forced_token_payload h request_id token_ids =
     request_id @ '':'' @ join_with '','' (map (py_str h) token_ids)"

definition forced_sign_tokens :: "host \<Rightarrow> string \<Rightarrow> string \<Rightarrow> pyval list \<Rightarrow> string" where
  "forced_sign_tokens h secret request_id token_ids =
     hmac_sha256_hex h secret (forced_token_payload h request_id token_ids)"

definition forced_sign_capture :: "host \<Rightarrow> string \<Rightarrow> string \<Rightarrow> string" where
  "forced_sign_capture h secret request_id = hmac_sha256_hex h secret (''capture:'' @ request_id)"

definition forced_sampler_window_payload :: "host \<Rightarrow> string \<Rightarrow> pyval \<Rightarrow> pyval \<Rightarrow> string" where
  "forced_sampler_window_payload h request_id start sampled =
     ''sampler-window:'' @ request_id @ '':'' @ py_str h start @ '':'' @ py_str h sampled"

definition forced_sign_sampler_window :: "host \<Rightarrow> string \<Rightarrow> string \<Rightarrow> pyval \<Rightarrow> pyval \<Rightarrow> string" where
  "forced_sign_sampler_window h secret request_id start sampled =
     hmac_sha256_hex h secret (forced_sampler_window_payload h request_id start sampled)"

definition forced_token_digest :: "host \<Rightarrow> pyval \<Rightarrow> string" where
  "forced_token_digest h token_ids = sha256_hex h (compact_json h token_ids)"

section \<open>The identity of the engine's work\<close>

definition vllm_work_identity :: "host \<Rightarrow> pyval \<Rightarrow> string res" where
  "vllm_work_identity h audit =
     (let sampled = pget audit ''sampled_token_count'';
          forced = pget audit ''forced_token_count'';
          start = pget audit ''committed_sample_start''
      in bindR (checks
           [require (is_int_not_bool sampled \<and> is_int_not_bool forced \<and> is_int_not_bool start \<and>
                     int_of forced \<le> int_of sampled \<and> 0 \<le> int_of forced)
                    ''invalid vLLM sampler work counts'',
            require (0 \<le> int_of start \<and> int_of start \<le> int_of sampled - int_of forced)
                    ''invalid vLLM committed sampler window''])
         (\<lambda>_. Inr (sha256_json h (PDict
           [(''prompt_token_sha256'', pget audit ''prompt_token_sha256''),
            (''prompt_token_count'', pget audit ''prompt_token_count''),
            (''forced_token_sha256'', pget audit ''forced_token_sha256''),
            (''forced_token_count'', forced),
            (''sampled_token_count'', sampled),
            (''committed_sample_start'', start),
            (''uncommitted_prefix_count'', start),
            (''uncommitted_suffix_count'', PInt (int_of sampled - int_of start - int_of forced)),
            (''status'', pget audit ''status'')]))))"

section \<open>The audit reader\<close>

datatype audit_file =
    NoFile
  | Unreadable
  | Opened "int \<times> int" string

record audit_reader =
  ar_identity :: "(int \<times> int) option"
  ar_offset :: nat
  ar_partial :: string
  ar_seen :: "(string \<times> pyval) list"
  ar_waiters :: "(string \<times> nat list) list"
  ar_results :: "(nat \<times> pyval res) list"
  ar_failure :: "err option"

definition new_reader :: "audit_file \<Rightarrow> bool \<Rightarrow> audit_reader" where
  "new_reader file start_at_end =
     (let (identity, offset) =
        (case file of
           Opened i content \<Rightarrow> (Some i, if start_at_end then length content else 0)
         | _ \<Rightarrow> (None, 0))
      in \<lparr>ar_identity = identity, ar_offset = offset, ar_partial = [], ar_seen = [], ar_waiters = [],
          ar_results = [], ar_failure = None\<rparr>)"

definition newline :: char where "newline = CHR 0x0A"

text \<open>One line of the log; a blank line is no record.\<close>

definition audit_line :: "host \<Rightarrow> string \<Rightarrow> pyval option res" where
  "audit_line h raw =
     (if str_strip raw = [] then Inr None
      else case json_loads h raw of
        None \<Rightarrow> Inl (ValidationError ''malformed appended forced-token audit record'')
      | Some v \<Rightarrow> bindR (require (is_dict v) ''forced-token audit record is not an object'') (\<lambda>_. Inr (Some v)))"

definition audit_lines :: "host \<Rightarrow> string list \<Rightarrow> pyval list res" where
  "audit_lines h lines = bindR (mapR (audit_line h) lines) (\<lambda>vs. Inr (map the (filter (\<lambda>v. v \<noteq> None) vs)))"

definition read_new_records :: "host \<Rightarrow> audit_file \<Rightarrow> (audit_reader, pyval list) op" where
  "read_new_records h file r =
     (case file of
        NoFile \<Rightarrow> (Inr [], r)
      | Unreadable \<Rightarrow> (Inl (ValidationError ''cannot read forced-token audit''), r)
      | Opened identity content \<Rightarrow>
          (let r = (if ar_identity r = None then r\<lparr>ar_identity := Some identity\<rparr> else r) in
           if ar_identity r \<noteq> Some identity
             then (Inl (ValidationError ''forced-token audit file changed during the run''), r)
           else if length content < ar_offset r
             then (Inl (ValidationError ''forced-token audit file was truncated during the run''), r)
           else let chunk = drop (ar_offset r) content; r = r\<lparr>ar_offset := length content\<rparr> in
             if chunk = [] then (Inr [], r)
             else let lines = split_on newline (ar_partial r @ chunk) in
               (audit_lines h (butlast lines), r\<lparr>ar_partial := last lines\<rparr>)))"

text \<open>A future that is done keeps its result.\<close>

definition settle :: "pyval res \<Rightarrow> nat \<Rightarrow> audit_reader \<Rightarrow> audit_reader" where
  "settle result future r =
     (if map_of (ar_results r) future \<noteq> None then r
      else r\<lparr>ar_results := AList.update future result (ar_results r)\<rparr>)"

definition waiters_of :: "audit_reader \<Rightarrow> string \<Rightarrow> nat list" where
  "waiters_of r request_id = (case map_of (ar_waiters r) request_id of None \<Rightarrow> [] | Some fs \<Rightarrow> fs)"

definition publish_one :: "pyval \<Rightarrow> (audit_reader, unit) op" where
  "publish_one v r =
     (case checks
        [require (py_eq (pget v ''schema_version'') (PStr ''native-agent-replay.vllm-audit/v4''))
           ''invalid forced-token audit schema'',
         require (is_nonempty_str (pget v ''request_id'')) ''invalid audit request ID'',
         require (map_of (ar_seen r) (str_of (pget v ''request_id'')) = None) ''duplicate forced-token audit'']
      of Inl e \<Rightarrow> (Inl e, r)
       | Inr _ \<Rightarrow>
           let rid = str_of (pget v ''request_id'');
               futures = waiters_of r rid;
               r = r\<lparr>ar_seen := AList.update rid v (ar_seen r), ar_waiters := AList.delete rid (ar_waiters r)\<rparr>
           in (Inr (), fold (settle (Inr v)) futures r))"

definition publish :: "pyval list \<Rightarrow> (audit_reader, unit) op" where
  "publish vs = bindS (mapS publish_one vs) (\<lambda>_. liftS (Inr ()))"

definition refresh :: "host \<Rightarrow> audit_file \<Rightarrow> (audit_reader, unit) op" where
  "refresh h file = bindS (read_new_records h file) publish"

text \<open>One turn of the pump; a failure is handed to every waiter and remembered.\<close>

definition pump_turn :: "host \<Rightarrow> audit_file \<Rightarrow> audit_reader \<Rightarrow> audit_reader" where
  "pump_turn h file r =
     (if ar_waiters r = [] then r
      else case refresh h file r of
        (Inr _, r) \<Rightarrow> r
      | (Inl e, r) \<Rightarrow>
          fold (settle (Inl e)) (concat (map snd (ar_waiters r))) (r\<lparr>ar_failure := Some e, ar_waiters := []\<rparr>))"

text \<open>
  \<open>_wait_for_record\<close>: what it finds on entry, the registration of its future, and the end of its
  wait, with the future resolved or with the time limit reached.
\<close>

definition wait_enter :: "string \<Rightarrow> nat \<Rightarrow> (audit_reader, pyval option) op" where
  "wait_enter request_id future r =
     (case ar_failure r of
        Some e \<Rightarrow> (Inl e, r)
      | None \<Rightarrow>
          (case map_of (ar_seen r) request_id of
             Some v \<Rightarrow> (Inr (Some v), r)
           | None \<Rightarrow>
               (Inr None, r\<lparr>ar_waiters :=
                  AList.update request_id (List.insert future (waiters_of r request_id)) (ar_waiters r)\<rparr>)))"

definition wait_leave :: "string \<Rightarrow> nat \<Rightarrow> string \<Rightarrow> (audit_reader, pyval) op" where
  "wait_leave request_id future missing r =
     (let fs = filter (\<lambda>f. f \<noteq> future) (waiters_of r request_id);
          r = r\<lparr>ar_waiters :=
                (if map_of (ar_waiters r) request_id = None then ar_waiters r
                 else if fs = [] then AList.delete request_id (ar_waiters r)
                 else AList.update request_id fs (ar_waiters r))\<rparr>
      in case map_of (ar_results r) future of
           None \<Rightarrow> (Inl (MismatchError missing), r)
         | Some result \<Rightarrow> (result, r))"

section \<open>Checking an audit\<close>

text \<open>\<open>a or b or ...\<close> where a test can raise.\<close>

fun any_of :: "bool res list \<Rightarrow> bool res" where
  "any_of [] = Inr False"
| "any_of (b # bs) = bindR b (\<lambda>x. if x then Inr True else any_of bs)"

fun py_len :: "pyval \<Rightarrow> int res" where
  "py_len (PList xs) = Inr (int (length xs))"
| "py_len (PStr s) = Inr (int (length s))"
| "py_len (PDict kvs) = Inr (int (length kvs))"
| "py_len _ = Inl (PyError ''TypeError'')"

abbreviation differs :: "pyval \<Rightarrow> pyval \<Rightarrow> bool res" where
  "differs v w \<equiv> Inr (\<not> py_eq v w)"

definition check_forced_audit ::
    "host \<Rightarrow> pyval \<Rightarrow> pyval list \<Rightarrow> pyval list option \<Rightarrow> pyval \<Rightarrow> pyval \<Rightarrow> pyval res" where
  "check_forced_audit h audit token_ids prompt start sampled_count =
     (let n = PInt (int (length token_ids));
          sampled = pget_or audit ''sampled_token_ids'' (PList [])
      in bindR (any_of
           [differs (pget audit ''mode'') (PStr ''force''),
            differs (pget audit ''status'') (PStr ''complete''),
            differs (pget audit ''forced_count'') n,
            differs (pget audit ''forced_token_count'') n,
            differs (pget audit ''forced_token_sha256'') (PStr (forced_token_digest h (PList token_ids))),
            differs (pget audit ''forced_token_ids'') (PList token_ids),
            Inr (\<not> is_int (pget audit ''sampled_token_count'')),
            differs (pget audit ''sampled_token_count'') sampled_count,
            bindR (py_len sampled) (\<lambda>m. differs (pget audit ''sampled_token_count'') (PInt m)),
            differs (pget audit ''sampled_token_sha256'') (PStr (forced_token_digest h sampled)),
            differs (pget audit ''committed_sample_start'') start,
            differs (pget audit ''expected_sampled_token_count'') sampled_count])
         (\<lambda>bad. if bad then Inl (MismatchError ''forced-token audit mismatch'')
           else if (case prompt of
                 None \<Rightarrow> False
               | Some p \<Rightarrow>
                   \<not> py_eq (pget audit ''prompt_token_count'') (PInt (int (length p))) \<or>
                   \<not> py_eq (pget audit ''prompt_token_sha256'') (PStr (forced_token_digest h (PList p))) \<or>
                   \<not> py_eq (pget audit ''prompt_token_ids'') (PList p))
             then Inl (MismatchError ''prompt-token audit mismatch'')
           else Inr audit))"

definition token_int :: "pyval \<Rightarrow> bool" where
  "token_int v \<longleftrightarrow> is_int v \<and> 0 \<le> int_of v"

definition check_capture_audit :: "host \<Rightarrow> pyval \<Rightarrow> pyval res" where
  "check_capture_audit h audit =
     (let prompt = pget audit ''prompt_token_ids'';
          sampled = pget audit ''sampled_token_ids''
      in if \<not> py_eq (pget audit ''mode'') (PStr ''capture'') \<or>
            \<not> py_eq (pget audit ''status'') (PStr ''capture_complete'') \<or>
            pget audit ''committed_sample_start'' \<noteq> PNone \<or>
            pget audit ''expected_sampled_token_count'' \<noteq> PNone \<or>
            \<not> is_list prompt \<or> \<not> is_list sampled \<or> items_of sampled = [] \<or>
            \<not> list_all token_int (items_of prompt @ items_of sampled) \<or>
            \<not> py_eq (pget audit ''prompt_token_sha256'') (PStr (forced_token_digest h prompt)) \<or>
            \<not> py_eq (pget audit ''sampled_token_sha256'') (PStr (forced_token_digest h sampled)) \<or>
            \<not> is_int (pget audit ''sampled_token_count'') \<or>
            int_of (pget audit ''sampled_token_count'') \<noteq> int (length (items_of sampled)) \<or>
            \<not> py_eq (pget audit ''forced_token_ids'') (PList []) \<or>
            \<not> py_eq (pget audit ''forced_token_count'') (PInt 0)
         then Inl (MismatchError ''vLLM capture audit mismatch'')
         else Inr audit)"

definition replay_audit_request_id :: "host \<Rightarrow> string option \<Rightarrow> string \<Rightarrow> string" where
  "replay_audit_request_id h namespace attempt_id =
     (let seed = (case namespace of None \<Rightarrow> ''default'' | Some n \<Rightarrow> if n = [] then ''default'' else n)
                   @ '':'' @ attempt_id
      in ''nr-'' @ take 40 (sha256_hex h seed))"

section \<open>The committed window\<close>

definition committed_sample_window :: "pyval list \<Rightarrow> pyval list \<Rightarrow> nat res" where
  "committed_sample_window sampled committed =
     bindR (require (committed \<noteq> []) ''engine committed no tokens'') (\<lambda>_.
       let width = length committed;
           starts = filter (\<lambda>start. py_eq (PList (take width (drop start sampled))) (PList committed))
                      [0..<length sampled + 1 - width]
       in case starts of
            [start] \<Rightarrow> Inr start
          | _ \<Rightarrow> Inl (ValidationError ''engine sampler sequence has no unique contiguous committed-token window''))"

definition engine_evidence :: "pyval \<Rightarrow> pyval list \<Rightarrow> pyval res" where
  "engine_evidence audit committed =
     (let sampled_ids = pget audit ''sampled_token_ids'' in
      bindR (require (is_list sampled_ids) ''invalid engine sampled-token inventory'') (\<lambda>_.
      let sampled = int (length (items_of sampled_ids)); n = int (length committed) in
      bindR (require (n \<le> sampled) ''engine sampled fewer tokens than it committed'') (\<lambda>_.
      bindR (if py_eq (pget audit ''mode'') (PStr ''capture'')
             then bindR (committed_sample_window (items_of sampled_ids) committed) (\<lambda>i. Inr (int i))
             else bindR (require (is_int_not_bool (pget audit ''committed_sample_start''))
                           ''forced-token audit omitted the committed sampler window'')
                    (\<lambda>_. Inr (int_of (pget audit ''committed_sample_start'')))) (\<lambda>start.
      let suffix = sampled - start - n in
      bindR (require (0 \<le> start \<and> 0 \<le> suffix)
               ''engine committed sampler window is outside the sampled sequence'') (\<lambda>_.
      Inr (PDict
        [(''audit_schema'', pget audit ''schema_version''),
         (''sampled_token_count'', PInt sampled),
         (''committed_sample_start'', PInt start),
         (''committed_sample_count'', PInt n),
         (''uncommitted_prefix_count'', PInt start),
         (''uncommitted_suffix_count'', PInt suffix)]))))))"

section \<open>The upstream request\<close>

definition RESERVED_ARGUMENTS :: "string list" where
  "RESERVED_ARGUMENTS =
     [''native_replay_request_id'', ''native_replay_prompt_token_ids'', ''native_replay_prompt_signature'',
      ''native_replay_token_ids'', ''native_replay_signature'', ''native_replay_committed_sample_start'',
      ''native_replay_sampled_token_count'', ''native_replay_sampler_signature'']"

text \<open>The request that was recorded, in the key order that was recorded when there is one.\<close>

definition ordered_body :: "host \<Rightarrow> pyval \<Rightarrow> pyval \<Rightarrow> pyval res" where
  "ordered_body h recorded_request entry =
     (let ordered = pget entry ''request_ordered_json'' in
      if ordered = PNone then Inr recorded_request
      else bindR (require (is_nonempty_str ordered) ''recorded ordered LLM request is invalid'') (\<lambda>_.
        case json_loads h (str_of ordered) of
          None \<Rightarrow> Inl (ValidationError ''recorded ordered LLM request is malformed'')
        | Some body \<Rightarrow>
            bindR (require (is_dict body \<and> py_eq body recorded_request)
                     ''recorded ordered LLM request does not match its canonical request'')
                  (\<lambda>_. Inr body)))"

definition api_body :: "string \<Rightarrow> pyval \<Rightarrow> pyval res" where
  "api_body api body =
     (if api = ''chat.completions'' then
        bindR (require (py_eq (pget_or body ''n'' (PInt 1)) (PInt 1))
                 ''forced replay supports one completion per request'')
              (\<lambda>_. Inr (pset ''return_token_ids'' (PBool True) body))
      else if api = ''responses'' then
        bindR (require (\<not> truthy (pget body ''stream'')) ''forced replay does not support streamed Responses'')
              (\<lambda>_. Inr (pset ''enable_response_messages'' (PBool True) body))
      else Inl (ValidationError ''unsupported LLM API''))"

definition forced_arguments ::
    "host \<Rightarrow> string \<Rightarrow> string \<Rightarrow> pyval list \<Rightarrow> pyval list \<Rightarrow> pyval \<Rightarrow> pyval \<Rightarrow> dict" where
  "forced_arguments h secret request_id prompt_ids token_ids start sampled =
     [(''native_replay_request_id'', PStr request_id),
      (''native_replay_prompt_token_ids'', PList prompt_ids),
      (''native_replay_prompt_signature'', PStr (forced_sign_tokens h secret request_id prompt_ids)),
      (''native_replay_token_ids'', PList token_ids),
      (''native_replay_signature'', PStr (forced_sign_tokens h secret request_id token_ids)),
      (''native_replay_committed_sample_start'', start),
      (''native_replay_sampled_token_count'', sampled),
      (''native_replay_sampler_signature'', PStr (forced_sign_sampler_window h secret request_id start sampled))]"

definition forced_upstream_body ::
    "host \<Rightarrow> pyval \<Rightarrow> pyval \<Rightarrow> string \<Rightarrow> string \<Rightarrow> string option \<Rightarrow> pyval res" where
  "forced_upstream_body h recorded_request entry api secret namespace =
     bindR (bindR (ordered_body h recorded_request entry) (api_body api)) (\<lambda>body.
     bindR (py_int (pget_or entry ''status_code'' (PInt 200))) (\<lambda>status.
     if 400 \<le> status then Inr body
     else
       bindR (bindR (pidx entry ''response_token_ids'') py_iter) (\<lambda>token_ids.
       bindR (require (token_ids \<noteq> []) ''forced replay needs a non-empty committed token sequence'') (\<lambda>_.
       bindR (require (is_dict (pget entry ''engine'')) ''this bundle carries no engine step window'') (\<lambda>_.
       bindR (pidx entry ''attempt_id'') (\<lambda>attempt.
       bindR (py_dict (py_or (pget body ''vllm_xargs'') (PDict []))) (\<lambda>xargs.
       bindR (require (list_all (\<lambda>k. map_of xargs k = None) RESERVED_ARGUMENTS)
                ''the recorded request already sets reserved forced-replay arguments'') (\<lambda>_.
       bindR (bindR (pidx entry ''prompt_token_ids'') py_iter) (\<lambda>prompt_ids.
       bindR (pidx (pget entry ''engine'') ''committed_sample_start'') (\<lambda>start.
       bindR (pidx (pget entry ''engine'') ''sampled_token_count'') (\<lambda>sampled.
         let request_id = replay_audit_request_id h namespace (py_str h attempt) in
         Inr (pset ''vllm_xargs''
           (PDict (pmerge xargs (forced_arguments h secret request_id prompt_ids token_ids start sampled)))
           body))))))))))))"

end
