(* ===== verification/Forced_Replay.thy ===== *)
theory Forced_Replay
  imports Forced Engine_Audit "HOL-Library.Sublist"
begin

text \<open>
  What forced replay guarantees: the committed window is located only where it is unambiguous, the
  audit log is read line by line however it grows, every waiter gets the audit of its own request,
  the engine's plugin accepts the request that replay builds, and a replayed audit is the recording.
\<close>

section \<open>The committed window\<close>

definition window_at :: "pyval list \<Rightarrow> pyval list \<Rightarrow> nat \<Rightarrow> bool" where
  "window_at sampled committed i \<longleftrightarrow>
     i + length committed \<le> length sampled \<and>
     py_eq (PList (take (length committed) (drop i sampled))) (PList committed)"

lemma singleton_filter:
  assumes "distinct xs"
  shows "filter P xs = [x] \<longleftrightarrow> x \<in> set xs \<and> P x \<and> (\<forall>y \<in> set xs. P y \<longrightarrow> y = x)"
proof
  assume "filter P xs = [x]"
  then have "set (filter P xs) = {x}" by simp
  then show "x \<in> set xs \<and> P x \<and> (\<forall>y \<in> set xs. P y \<longrightarrow> y = x)" by auto
next
  assume r: "x \<in> set xs \<and> P x \<and> (\<forall>y \<in> set xs. P y \<longrightarrow> y = x)"
  then have s: "set (filter P xs) = {x}" by auto
  have "distinct (filter P xs)" using assms by simp
  then have "length (filter P xs) = 1" using s by (metis card.empty card_insert_disjoint distinct_card
        empty_iff finite.emptyI One_nat_def)
  then obtain y where "filter P xs = [y]" by (auto simp: length_Suc_conv)
  with s show "filter P xs = [x]" by simp
qed

text \<open>
  The start of the committed window is returned exactly when the committed tokens are not empty and
  occur at that one place of the sampled tokens only.
\<close>

theorem committed_sample_window_iff:
  "committed_sample_window sampled committed = Inr i \<longleftrightarrow>
     committed \<noteq> [] \<and> (\<forall>j. window_at sampled committed j \<longleftrightarrow> j = i)"
proof -
  let ?P = "\<lambda>i. py_eq (PList (take (length committed) (drop i sampled))) (PList committed)"
  let ?starts = "filter ?P [0..<length sampled + 1 - length committed]"
  have mem: "j \<in> set ?starts \<longleftrightarrow> window_at sampled committed j" for j
    by (auto simp: window_at_def simp del: py_eq.simps)
  have one: "?starts = [i] \<longleftrightarrow> (\<forall>j. window_at sampled committed j \<longleftrightarrow> j = i)"
  proof -
    have "?starts = [i] \<longleftrightarrow> i \<in> set ?starts \<and> (\<forall>j. j \<in> set ?starts \<longrightarrow> j = i)"
      unfolding singleton_filter [OF distinct_upt] set_filter by blast
    then show ?thesis unfolding mem by blast
  qed
  have "committed_sample_window sampled committed = Inr i \<longleftrightarrow> committed \<noteq> [] \<and> ?starts = [i]"
    by (auto simp: committed_sample_window_def Let_def bindR_eq_Inr require_eq_Inr
        simp del: py_eq.simps split: list.splits)
  with one show ?thesis by blast
qed

section \<open>Reading the log\<close>

lemma split_on_append:
  "split_on c (a @ b) = butlast (split_on c a) @ split_on c (last (split_on c a) @ b)"
proof (induction a)
  case Nil
  then show ?case by simp
next
  case (Cons x a)
  obtain y ys where s: "split_on c a = y # ys" by (cases "split_on c a") auto
  show ?case using Cons s by (cases ys) auto
qed

text \<open>The lines of a text that a newline ends, and what follows the last newline.\<close>

definition complete_lines :: "string \<Rightarrow> string list" where
  "complete_lines s = butlast (split_on newline s)"

definition open_line :: "string \<Rightarrow> string" where
  "open_line s = last (split_on newline s)"

lemma complete_lines_append: "complete_lines (a @ b) = complete_lines a @ complete_lines (open_line a @ b)"
  unfolding complete_lines_def open_line_def by (subst split_on_append) (simp add: butlast_append)

lemma open_line_append: "open_line (a @ b) = open_line (open_line a @ b)"
  unfolding open_line_def by (subst split_on_append) simp

lemma lines_of_empty [simp]: "complete_lines [] = []" "open_line [] = []"
  by (simp_all add: complete_lines_def open_line_def)

lemma audit_lines_append:
  "audit_lines h (xs @ ys) = Inr vs \<longleftrightarrow>
     (\<exists>as bs. audit_lines h xs = Inr as \<and> audit_lines h ys = Inr bs \<and> vs = as @ bs)"
  by (auto simp: audit_lines_def mapR_append bindR_eq_Inr)

text \<open>A reader that has consumed a text of the file since its start.\<close>

definition reader_at :: "int \<times> int \<Rightarrow> string \<Rightarrow> string \<Rightarrow> audit_reader \<Rightarrow> bool" where
  "reader_at identity skipped before r \<longleftrightarrow>
     (ar_identity r = None \<or> ar_identity r = Some identity) \<and>
     ar_offset r = length (skipped @ before) \<and> ar_partial r = open_line before"

lemma split_lines: "butlast (split_on newline s) = complete_lines s" "last (split_on newline s) = open_line s"
  by (simp_all add: complete_lines_def open_line_def)

lemma read_step:
  assumes "reader_at identity skipped before r" and "audit_lines h (complete_lines (before @ chunk)) = Inr vs"
  shows "\<exists>earlier new r'. read_new_records h (Opened identity (skipped @ before @ chunk)) r = (Inr new, r') \<and>
    reader_at identity skipped (before @ chunk) r' \<and>
    audit_lines h (complete_lines before) = Inr earlier \<and> vs = earlier @ new"
proof -
  obtain earlier new where s: "audit_lines h (complete_lines before) = Inr earlier"
    "audit_lines h (complete_lines (open_line before @ chunk)) = Inr new" "vs = earlier @ new"
    using assms(2) unfolding complete_lines_append [of before chunk] audit_lines_append by blast
  show ?thesis
  proof (cases "chunk = []")
    case True
    have "complete_lines (open_line before) = []"
      using complete_lines_append [of before "[]"] by simp
    then have new: "new = []" using s(2) True by (simp add: audit_lines_def)
    have o: "ar_offset r = length (skipped @ before)"
      and i: "ar_identity r = None \<or> ar_identity r = Some identity"
      using assms(1) by (simp_all add: reader_at_def)
    define r' where "r' = r\<lparr>ar_identity := Some identity, ar_offset := length (skipped @ before)\<rparr>"
    have "read_new_records h (Opened identity (skipped @ before @ chunk)) r = (Inr new, r')"
      using i o True new by (cases r) (auto simp: read_new_records_def Let_def r'_def)
    moreover have "reader_at identity skipped (before @ chunk) r'"
      using assms(1) True by (simp add: reader_at_def r'_def)
    ultimately show ?thesis using s by blast
  next
    case False
    have o: "ar_offset r = length (skipped @ before)" "ar_partial r = open_line before"
      and i: "ar_identity r = None \<or> ar_identity r = Some identity"
      using assms(1) by (simp_all add: reader_at_def)
    define r' where "r' = r\<lparr>ar_identity := Some identity, ar_offset := length (skipped @ before @ chunk),
        ar_partial := open_line (open_line before @ chunk)\<rparr>"
    have "read_new_records h (Opened identity (skipped @ before @ chunk)) r = (Inr new, r')"
      using i s(2) o False
      by (cases r) (auto simp: read_new_records_def Let_def split_lines r'_def)
    moreover have "reader_at identity skipped (before @ chunk) r'"
      by (simp add: reader_at_def r'_def open_line_append [of before chunk])
    ultimately show ?thesis using s by blast
  qed
qed

text \<open>What the file holds at each read, when a chunk is appended before it.\<close>

fun contents :: "string \<Rightarrow> string list \<Rightarrow> string list" where
  "contents before [] = []"
| "contents before (chunk # chunks) = (before @ chunk) # contents (before @ chunk) chunks"

lemma reads_from:
  assumes "reader_at identity skipped before r"
    and "audit_lines h (complete_lines (before @ concat chunks)) = Inr vs"
    and "audit_lines h (complete_lines before) = Inr us"
  shows "\<exists>rss r'. mapS (read_new_records h) (map (Opened identity) (contents (skipped @ before) chunks)) r = (Inr rss, r') \<and>
    vs = us @ concat rss \<and> reader_at identity skipped (before @ concat chunks) r'"
  using assms
proof (induction chunks arbitrary: before r us)
  case Nil
  then show ?case by simp
next
  case (Cons chunk chunks)
  have all: "audit_lines h (complete_lines ((before @ chunk) @ concat chunks)) = Inr vs"
    using Cons.prems(2) by simp
  then obtain mid where mid: "audit_lines h (complete_lines (before @ chunk)) = Inr mid"
    unfolding complete_lines_append [of "before @ chunk" "concat chunks"] audit_lines_append by blast
  obtain new r' where step: "read_new_records h (Opened identity (skipped @ before @ chunk)) r = (Inr new, r')"
    "reader_at identity skipped (before @ chunk) r'" "mid = us @ new"
    using read_step [OF Cons.prems(1) mid] Cons.prems(3) by auto
  from Cons.IH [OF step(2) all mid] step show ?case by auto
qed

text \<open>
  A reader that starts at the end of the log gets, over any sequence of reads of the growing file,
  exactly the records of the complete lines appended since, each once and in order, and keeps the
  unfinished last line for the next read.
\<close>

theorem growing_log_is_read_once:
  assumes "audit_lines h (complete_lines (concat chunks)) = Inr vs"
  shows "\<exists>rss r. mapS (read_new_records h) (map (Opened identity) (contents skipped chunks))
      (new_reader (Opened identity skipped) True) = (Inr rss, r) \<and>
    concat rss = vs \<and> ar_partial r = open_line (concat chunks)"
proof -
  have at: "reader_at identity skipped [] (new_reader (Opened identity skipped) True)"
    by (simp add: reader_at_def new_reader_def)
  have "audit_lines h (complete_lines []) = Inr []" by (simp add: audit_lines_def)
  from reads_from [OF at _ this, of chunks vs] assms show ?thesis by (auto simp: reader_at_def)
qed

text \<open>A record arrives in two pieces, after a line of an earlier run that is not JSON.\<close>

theorem growing_log_is_read_once_witness:
  "\<exists>rss r. mapS (read_new_records plain_host)
      [Opened (1, 2) (''old'' @ [newline] @ ''{''), Opened (1, 2) (''old'' @ [newline] @ ''{}'' @ [newline] @ ''{'')]
      (new_reader (Opened (1, 2) (''old'' @ [newline])) True) = (Inr rss, r) \<and>
    concat rss = [PDict []] \<and> ar_partial r = ''{''"
proof -
  have "audit_lines plain_host (complete_lines (concat [''{'', ''}'' @ [newline] @ ''{''])) = Inr [PDict []]"
    by code_simp
  from growing_log_is_read_once [OF this, of "(1, 2)" "''old'' @ [newline]"]
  show ?thesis by (simp add: open_line_def newline_def)
qed

section \<open>Waking the waiters\<close>

text \<open>Every future that waits is unresolved and waits once, for a record that was not seen.\<close>

definition reader_ok :: "audit_reader \<Rightarrow> bool" where
  "reader_ok r \<longleftrightarrow>
     distinct (map fst (ar_waiters r)) \<and>
     (\<forall>(a, fs) \<in> set (ar_waiters r). map_of (ar_seen r) a = None \<and>
        (\<forall>f \<in> set fs. map_of (ar_results r) f = None) \<and>
        (\<forall>(b, gs) \<in> set (ar_waiters r). a \<noteq> b \<longrightarrow> set fs \<inter> set gs = {}))"

lemma settle_all:
  "ar_results r = rs \<Longrightarrow> map_of (ar_results (fold (settle result) fs r)) f =
     (if f \<in> set fs \<and> map_of rs f = None then Some result else map_of rs f)"
proof (induction fs arbitrary: r rs)
  case Nil
  then show ?case by simp
next
  case (Cons g fs)
  show ?case
    using Cons.IH [OF refl, of "settle result g r"] Cons.prems
    by (auto simp: settle_def update_conv' split: if_splits)
qed

lemma settle_keeps:
  "ar_waiters (fold (settle result) fs r) = ar_waiters r \<and> ar_seen (fold (settle result) fs r) = ar_seen r \<and>
   ar_failure (fold (settle result) fs r) = ar_failure r"
  by (induction fs arbitrary: r) (auto simp: settle_def)

lemma waiters_mem: "map_of (ar_waiters r) rid = Some fs \<Longrightarrow> (rid, fs) \<in> set (ar_waiters r)"
  by (rule map_of_SomeD)

lemma publish_one_returns:
  assumes "publish_one v r = (Inr (), r')"
  shows "\<exists>rid. pget v ''request_id'' = PStr rid \<and> map_of (ar_seen r) rid = None \<and>
    r' = fold (settle (Inr v)) (waiters_of r rid)
      (r\<lparr>ar_seen := AList.update rid v (ar_seen r), ar_waiters := AList.delete rid (ar_waiters r)\<rparr>)"
proof -
  obtain u where c: "checks
        [require (py_eq (pget v ''schema_version'') (PStr ''native-agent-replay.vllm-audit/v4''))
           ''invalid forced-token audit schema'',
         require (is_nonempty_str (pget v ''request_id'')) ''invalid audit request ID'',
         require (map_of (ar_seen r) (str_of (pget v ''request_id'')) = None) ''duplicate forced-token audit''] = Inr u"
    using assms by (auto simp: publish_one_def simp del: checks.simps split: sum.splits)
  then have "is_nonempty_str (pget v ''request_id'')" "map_of (ar_seen r) (str_of (pget v ''request_id'')) = None"
    by (simp_all add: checks_eq_Inr res_simps del: checks.simps)
  moreover have "r' = fold (settle (Inr v)) (waiters_of r (str_of (pget v ''request_id'')))
      (r\<lparr>ar_seen := AList.update (str_of (pget v ''request_id'')) v (ar_seen r),
         ar_waiters := AList.delete (str_of (pget v ''request_id'')) (ar_waiters r)\<rparr>)"
    using assms c by (simp add: publish_one_def Let_def del: checks.simps)
  ultimately show ?thesis by (auto simp: is_nonempty_str_iff)
qed

text \<open>A future that waits for a record, or has it.\<close>

definition waits :: "string \<Rightarrow> nat \<Rightarrow> audit_reader \<Rightarrow> bool" where
  "waits rid f r \<longleftrightarrow> f \<in> set (waiters_of r rid) \<and> map_of (ar_results r) f = None \<and> map_of (ar_seen r) rid = None"

definition served_record :: "string \<Rightarrow> nat \<Rightarrow> audit_reader \<Rightarrow> bool" where
  "served_record rid f r \<longleftrightarrow>
     (case map_of (ar_results r) f of
        Some (Inr v) \<Rightarrow> pget v ''request_id'' = PStr rid \<and> map_of (ar_seen r) rid = Some v
      | _ \<Rightarrow> False)"

lemma waiters_of_mem: "f \<in> set (waiters_of r rid) \<Longrightarrow> \<exists>fs. (rid, fs) \<in> set (ar_waiters r) \<and> f \<in> set fs"
  unfolding waiters_of_def by (cases "map_of (ar_waiters r) rid") (auto dest: map_of_SomeD)

lemma reader_okD:
  assumes "reader_ok r" and "(a, fs) \<in> set (ar_waiters r)"
  shows "map_of (ar_seen r) a = None" and "f \<in> set fs \<Longrightarrow> map_of (ar_results r) f = None"
    and "(b, gs) \<in> set (ar_waiters r) \<Longrightarrow> a \<noteq> b \<Longrightarrow> f \<in> set fs \<Longrightarrow> f \<notin> set gs"
  using assms by (fastforce simp: reader_ok_def)+

lemma waiting_future: "reader_ok r \<Longrightarrow> f \<in> set (waiters_of r rid) \<Longrightarrow> waits rid f r"
  unfolding waits_def by (blast dest: waiters_of_mem reader_okD)

lemma waiters_of_other:
  assumes "reader_ok r" and "f \<in> set (waiters_of r a)" and "a \<noteq> b"
  shows "f \<notin> set (waiters_of r b)"
  using assms reader_okD(3) waiters_of_mem by metis

lemma publish_one_ok:
  assumes ok: "reader_ok r" and pub: "publish_one v r = (Inr (), r')"
  shows "reader_ok r'"
proof -
  obtain rid where p: "r' = fold (settle (Inr v)) (waiters_of r rid)
      (r\<lparr>ar_seen := AList.update rid v (ar_seen r), ar_waiters := AList.delete rid (ar_waiters r)\<rparr>)"
    using publish_one_returns [OF pub] by blast
  have w: "ar_waiters r' = AList.delete rid (ar_waiters r)" "ar_seen r' = AList.update rid v (ar_seen r)"
    by (simp_all add: p settle_keeps)
  have res: "map_of (ar_results r') f =
      (if f \<in> set (waiters_of r rid) \<and> map_of (ar_results r) f = None then Some (Inr v) else map_of (ar_results r) f)" for f
    unfolding p by (rule settle_all) simp
  have mem: "(a, fs) \<in> set (ar_waiters r') \<longleftrightarrow> (a, fs) \<in> set (ar_waiters r) \<and> a \<noteq> rid" for a fs
    unfolding w by (auto simp: AList.delete_eq)
  have "distinct (map fst (ar_waiters r'))" using ok unfolding w reader_ok_def by (simp add: distinct_delete)
  moreover have "map_of (ar_seen r') a = None" if "(a, fs) \<in> set (ar_waiters r')" for a fs
    using that reader_okD(1) [OF ok] unfolding mem by (auto simp: w update_conv')
  moreover have "map_of (ar_results r') f = None" if a: "(a, fs) \<in> set (ar_waiters r')" and "f \<in> set fs" for a fs f
  proof -
    have "f \<in> set (waiters_of r a)"
      using that ok unfolding mem by (auto simp: waiters_of_def reader_ok_def)
    then have "f \<notin> set (waiters_of r rid)" using a waiters_of_other [OF ok] unfolding mem by blast
    then show ?thesis using that reader_okD(2) [OF ok] unfolding mem by (auto simp: res)
  qed
  moreover have "set fs \<inter> set gs = {}" if "(a, fs) \<in> set (ar_waiters r')" "(b, gs) \<in> set (ar_waiters r')" "a \<noteq> b" for a b fs gs
    using that reader_okD(3) [OF ok] unfolding mem by blast
  ultimately show ?thesis unfolding reader_ok_def by blast
qed

lemma publish_one_follows:
  assumes ok: "reader_ok r" and pub: "publish_one v r = (Inr (), r')"
    and f: "waits rid f r \<or> served_record rid f r"
  shows "waits rid f r' \<or> served_record rid f r'"
proof -
  obtain a where a: "pget v ''request_id'' = PStr a" "map_of (ar_seen r) a = None"
    and p: "r' = fold (settle (Inr v)) (waiters_of r a)
      (r\<lparr>ar_seen := AList.update a v (ar_seen r), ar_waiters := AList.delete a (ar_waiters r)\<rparr>)"
    using publish_one_returns [OF pub] by blast
  have w: "ar_waiters r' = AList.delete a (ar_waiters r)" "ar_seen r' = AList.update a v (ar_seen r)"
    by (simp_all add: p settle_keeps)
  have res: "map_of (ar_results r') f =
      (if f \<in> set (waiters_of r a) \<and> map_of (ar_results r) f = None then Some (Inr v) else map_of (ar_results r) f)"
    unfolding p by (rule settle_all) simp
  show ?thesis
  proof (cases "waits rid f r")
    case True
    show ?thesis
    proof (cases "rid = a")
      case True
      with \<open>waits rid f r\<close> a have "served_record rid f r'"
        by (simp add: served_record_def waits_def res w update_conv')
      then show ?thesis ..
    next
      case False
      then have "f \<notin> set (waiters_of r a)"
        using True waiters_of_other [OF ok, of f rid a] by (simp add: waits_def)
      with True False have "waits rid f r'"
        by (simp add: waits_def res w update_conv' waiters_of_def delete_conv')
      then show ?thesis ..
    qed
  next
    case False
    then obtain x where x: "map_of (ar_results r) f = Some (Inr x)" "pget x ''request_id'' = PStr rid"
      "map_of (ar_seen r) rid = Some x"
      using f by (auto simp: served_record_def split: option.splits sum.splits)
    then have "rid \<noteq> a" using a(2) by auto
    with x have "served_record rid f r'" by (simp add: served_record_def res w update_conv')
    then show ?thesis ..
  qed
qed

lemma publish_one_raises: "publish_one v r = (Inl e, r') \<Longrightarrow> r' = r"
  by (auto simp: publish_one_def Let_def simp del: checks.simps split: sum.splits)

definition watched :: "string \<Rightarrow> nat \<Rightarrow> audit_reader \<Rightarrow> bool" where
  "watched rid f r \<longleftrightarrow> reader_ok r \<and> (waits rid f r \<or> served_record rid f r)"

lemma publish_watched: "watched rid f r \<Longrightarrow> watched rid f (snd (publish vs r))"
proof -
  assume w: "watched rid f r"
  have one: "watched rid f (snd (publish_one v s))" if "watched rid f s" for v s
  proof (cases "publish_one v s")
    case (Pair res t)
    then show ?thesis
      using that publish_one_ok [of s v t] publish_one_follows [of s v t rid f] publish_one_raises [of v s]
      by (cases res) (auto simp: watched_def)
  qed
  have "watched rid f (snd (mapS publish_one vs r))" by (rule mapS_keeps [OF w one])
  then show ?thesis by (cases "mapS publish_one vs r") (auto simp: publish_def bindS_def split: sum.splits)
qed

lemma read_new_records_keeps:
  assumes "read_new_records h file r = (x, r')"
  shows "ar_waiters r' = ar_waiters r" and "ar_seen r' = ar_seen r" and "ar_results r' = ar_results r"
  using assms by (auto simp: read_new_records_def Let_def split: audit_file.splits if_splits)

lemma refresh_watched: "watched rid f r \<Longrightarrow> watched rid f (snd (refresh h file r))"
proof -
  assume w: "watched rid f r"
  obtain x r1 where x: "read_new_records h file r = (x, r1)" by (cases "read_new_records h file r")
  have "watched rid f r1"
    using w unfolding watched_def reader_ok_def waits_def served_record_def waiters_of_def
      read_new_records_keeps [OF x] .
  then show ?thesis using x publish_watched by (cases x) (simp_all add: refresh_def)
qed

text \<open>
  A turn of the pump loses no waiter: a future that waited for an audit has the audit of its own
  request if that was read, the exception if the turn failed, and waits on if neither.
\<close>

theorem pump_turn_loses_no_waiter:
  assumes "reader_ok r" and "f \<in> set (waiters_of r rid)"
  shows "let r' = pump_turn h file r in
    (case map_of (ar_results r') f of
       None \<Rightarrow> f \<in> set (waiters_of r' rid) \<and> map_of (ar_seen r') rid = None \<and> ar_waiters r' \<noteq> []
     | Some (Inr v) \<Rightarrow> pget v ''request_id'' = PStr rid \<and> map_of (ar_seen r') rid = Some v
     | Some (Inl e) \<Rightarrow> ar_failure r' = Some e \<and> ar_waiters r' = [])"
proof -
  have w: "watched rid f r" using assms waiting_future by (simp add: watched_def)
  have nonempty: "ar_waiters s \<noteq> []" if "f \<in> set (waiters_of s rid)" for s
    using waiters_of_mem [OF that] by auto
  obtain x t where t: "refresh h file r = (x, t)" by (cases "refresh h file r")
  have wt: "waits rid f t \<or> served_record rid f t" using refresh_watched [OF w, of h "file"] t by (simp add: watched_def)
  show ?thesis
  proof (cases x)
    case (Inr u)
    then have "pump_turn h file r = t" using t nonempty [OF assms(2)] by (simp add: pump_turn_def)
    then show ?thesis
      using wt nonempty [of t] by (auto simp: waits_def served_record_def Let_def split: option.splits sum.splits)
  next
    case (Inl e)
    let ?fs = "concat (map snd (ar_waiters t))"
    have r': "pump_turn h file r = fold (settle (Inl e)) ?fs (t\<lparr>ar_failure := Some e, ar_waiters := []\<rparr>)"
      using t Inl nonempty [OF assms(2)] by (simp add: pump_turn_def)
    have res: "map_of (ar_results (pump_turn h file r)) f =
        (if f \<in> set ?fs \<and> map_of (ar_results t) f = None then Some (Inl e) else map_of (ar_results t) f)"
      unfolding r' by (rule settle_all) simp
    have others: "ar_failure (pump_turn h file r) = Some e" "ar_waiters (pump_turn h file r) = []"
      "ar_seen (pump_turn h file r) = ar_seen t"
      unfolding r' by (simp_all add: settle_keeps)
    from wt show ?thesis
    proof
      assume "waits rid f t"
      then have "f \<in> set ?fs" "map_of (ar_results t) f = None"
        using waiters_of_mem [of f t rid] by (force simp: waits_def)+
      then show ?thesis using res others by (simp add: Let_def)
    next
      assume "served_record rid f t"
      then show ?thesis
        using res others by (auto simp: served_record_def Let_def split: option.splits sum.splits)
    qed
  qed
qed

definition sample_reader :: audit_reader where
  "sample_reader = \<lparr>ar_identity = Some (1, 2), ar_offset = 0, ar_partial = [], ar_seen = [],
     ar_waiters = [(''a'', [0, 1]), (''b'', [2])], ar_results = [], ar_failure = None\<rparr>"

text \<open>The log was replaced by another file: all three futures fail.\<close>

theorem pump_turn_loses_no_waiter_witness:
  "map_of (ar_results (pump_turn plain_host (Opened (1, 3) []) sample_reader)) 1 =
     Some (Inl (ValidationError ''forced-token audit file changed during the run''))"
proof -
  have "reader_ok sample_reader" "1 \<in> set (waiters_of sample_reader ''a'')"
    by (simp_all add: reader_ok_def sample_reader_def waiters_of_def)
  note facts = pump_turn_loses_no_waiter [OF this, of plain_host "Opened (1, 3) []"]
  have "ar_failure (pump_turn plain_host (Opened (1, 3) []) sample_reader) =
      Some (ValidationError ''forced-token audit file changed during the run'')"
    by (simp add: pump_turn_def sample_reader_def refresh_def read_new_records_def bindS_def settle_def)
  moreover have "ar_waiters (pump_turn plain_host (Opened (1, 3) []) sample_reader) = []"
    "ar_seen (pump_turn plain_host (Opened (1, 3) []) sample_reader) = []"
    by (simp_all add: pump_turn_def sample_reader_def refresh_def read_new_records_def bindS_def settle_def)
  ultimately show ?thesis
    using facts by (auto simp: Let_def waiters_of_def split: option.splits sum.splits)
qed

section \<open>The request that replay sends\<close>

text \<open>What \<open>hexdigest\<close> promises: a text of hexadecimal digits.\<close>

definition hex_digests :: "host \<Rightarrow> bool" where
  "hex_digests h \<longleftrightarrow>
     (\<forall>s. list_all is_alnum (sha256_hex h s)) \<and> (\<forall>k m. list_all is_alnum (hmac_sha256_hex h k m))"

lemma signatures_agree:
  "forced_sign_tokens h = sign_tokens h" "forced_sign_capture h = sign_capture h"
  "forced_sign_sampler_window h = sign_sampler_window h"
  by (simp_all add: fun_eq_iff forced_sign_tokens_def forced_token_payload_def sign_tokens_def token_payload_def
      forced_sign_capture_def sign_capture_def forced_sign_sampler_window_def sign_sampler_window_def
      forced_sampler_window_payload_def sampler_window_payload_def colon_def)

lemma alnum_ascii: "list_all is_alnum s \<Longrightarrow> is_ascii s"
  by (induction s) (auto simp: is_alnum_def is_ascii_def Let_def)

lemma check_signature_ok: "hex_digests h \<Longrightarrow> check_signature (PStr (hmac_sha256_hex h k m)) (hmac_sha256_hex h k m) msg = Inr ()"
  by (simp add: check_signature_def compare_digest_def alnum_ascii hex_digests_def)

lemma replay_id_valid: "hex_digests h \<Longrightarrow> valid_request_id (replay_audit_request_id h ns attempt)"
proof -
  assume "hex_digests h"
  then have "list_all is_alnum (take 40 (sha256_hex h seed))" for seed
    by (simp add: hex_digests_def list_all_iff) (meson in_set_takeD)
  then have "list_all is_id_char (take 40 (sha256_hex h seed))" for seed
    by (simp add: list_all_iff is_id_char_def)
  moreover have "is_alnum (CHR ''n'')" "is_id_char (CHR ''r'')" "is_id_char (CHR ''-'')" by code_simp+
  ultimately show ?thesis by (simp add: replay_audit_request_id_def Let_def)
qed

definition recorded_window :: "pyval \<Rightarrow> pyval list \<Rightarrow> pyval list \<Rightarrow> nat \<Rightarrow> nat \<Rightarrow> bool" where
  "recorded_window entry prompt tokens start sampled \<longleftrightarrow>
     pidx entry ''prompt_token_ids'' = Inr (PList prompt) \<and> pidx entry ''response_token_ids'' = Inr (PList tokens) \<and>
     pidx (pget entry ''engine'') ''committed_sample_start'' = Inr (PInt (int start)) \<and>
     pidx (pget entry ''engine'') ''sampled_token_count'' = Inr (PInt (int sampled)) \<and>
     prompt \<noteq> [] \<and> list_all is_token prompt \<and> list_all is_token tokens \<and> start + length tokens \<le> sampled"

lemma forced_upstream_body_arguments:
  assumes "forced_upstream_body h req entry api secret ns = Inr body"
    and "py_int (pget_or entry ''status_code'' (PInt 200)) = Inr status" and "status < 400"
    and "recorded_window entry prompt tokens b n"
  shows "\<exists>xargs attempt. tokens \<noteq> [] \<and> pidx entry ''attempt_id'' = Inr attempt \<and>
    pget body ''vllm_xargs'' = PDict (pmerge xargs (forced_arguments h secret
      (replay_audit_request_id h ns (py_str h attempt)) prompt tokens (PInt (int b)) (PInt (int n))))"
  using assms
  by (auto simp: forced_upstream_body_def recorded_window_def bindR_eq_Inr require_eq_Inr Let_def pget_pset
      split: if_splits)

lemma token_values: "list_all is_token xs \<Longrightarrow> list_all is_token_value xs"
  by (induction xs) (auto simp: is_token_iff is_token_value_def)

text \<open>
  C15: The request that replay builds for a recorded answer is accepted by the engine's plugin when its
  identifier is new and it does not also ask for a capture: the state it opens is fresh, forces the
  recorded tokens in the recorded window and carries the identifier the audit reader waits for.
\<close>

theorem forced_request_accepted:
  assumes digests: "hex_digests h"
    and body: "forced_upstream_body h req entry api (pr_secret p) ns = Inr body"
    and status: "py_int (pget_or entry ''status_code'' (PInt 200)) = Inr status" "status < 400"
    and win: "recorded_window entry prompt tokens b n"
    and no_capture: "\<not> phas (pget body ''vllm_xargs'') ''native_replay_capture_id''"
    and fresh: "\<forall>attempt. pidx entry ''attempt_id'' = Inr attempt \<longrightarrow>
      replay_audit_request_id h ns (py_str h attempt) \<notin> pr_seen p"
    and limit: "\<forall>m. limit_tokens = Some m \<longrightarrow> int (length tokens) \<le> m"
  shows "\<exists>s p' attempt.
    validate_params \<lparr>extra_args = pget body ''vllm_xargs'', max_tokens = limit_tokens\<rparr> = Inr () \<and>
    new_state h \<lparr>extra_args = pget body ''vllm_xargs'', max_tokens = limit_tokens\<rparr> prompt out_ref p = (Inr (Some s), p') \<and>
    fresh_forcing b n tokens s \<and> pidx entry ''attempt_id'' = Inr attempt \<and>
    rq_id s = replay_audit_request_id h ns (py_str h attempt)"
proof -
  obtain xargs attempt where ne: "tokens \<noteq> []" and at: "pidx entry ''attempt_id'' = Inr attempt"
    and x: "pget body ''vllm_xargs'' = PDict (pmerge xargs (forced_arguments h (pr_secret p)
      (replay_audit_request_id h ns (py_str h attempt)) prompt tokens (PInt (int b)) (PInt (int n))))"
    using forced_upstream_body_arguments [OF body status win] by blast
  define rid where "rid = replay_audit_request_id h ns (py_str h attempt)"
  define args where "args = pmerge xargs (forced_arguments h (pr_secret p) rid prompt tokens (PInt (int b)) (PInt (int n)))"
  define params where "params = \<lparr>extra_args = PDict args, max_tokens = limit_tokens\<rparr>"
  have p_args: "pget body ''vllm_xargs'' = PDict args" using x by (simp add: args_def rid_def)
  have look: "map_of args ''native_replay_request_id'' = Some (PStr rid)"
    "map_of args ''native_replay_prompt_token_ids'' = Some (PList prompt)"
    "map_of args ''native_replay_prompt_signature'' = Some (PStr (sign_tokens h (pr_secret p) rid prompt))"
    "map_of args ''native_replay_token_ids'' = Some (PList tokens)"
    "map_of args ''native_replay_signature'' = Some (PStr (sign_tokens h (pr_secret p) rid tokens))"
    "map_of args ''native_replay_committed_sample_start'' = Some (PInt (int b))"
    "map_of args ''native_replay_sampled_token_count'' = Some (PInt (int n))"
    "map_of args ''native_replay_sampler_signature'' =
       Some (PStr (sign_sampler_window h (pr_secret p) rid (PInt (int b)) (PInt (int n))))"
    by (simp_all add: args_def map_of_pmerge forced_arguments_def signatures_agree)
  have cap: "map_of args ''native_replay_capture_id'' = None" using no_capture by (simp add: p_args phas_def)
  have "args \<noteq> []" using look(1) by auto
  then have extra: "extra_of params = PDict args" by (simp add: extra_of_def params_def py_or_def)
  have pm: "max_tokens params = limit_tokens" by (simp add: params_def)
  have toks: "list_all is_token prompt" "list_all is_token tokens" "prompt \<noteq> []" "b + length tokens \<le> n"
    using win by (simp_all add: recorded_window_def)
  have id: "check_request_id (PStr rid) msg = Inr rid" for msg
    using replay_id_valid [OF digests] by (simp add: check_request_id_def rid_def)
  have sig: "check_signature (PStr (sign_tokens h k r xs)) (sign_tokens h k r xs) msg = Inr ()"
    "check_signature (PStr (sign_sampler_window h k r v w)) (sign_sampler_window h k r v w) msg = Inr ()" for k r xs v w msg
    unfolding sign_tokens_def sign_sampler_window_def by (rule check_signature_ok [OF digests])+
  have req: "validate_request h (pr_secret p) (PStr rid) (PList xs) (PStr (sign_tokens h (pr_secret p) rid xs)) = Inr (rid, xs)"
    if "xs \<noteq> []" "list_all is_token xs" for xs
    using that by (simp add: validate_request_def id sig token_values)
  have window: "validate_sampler_window h (pr_secret p) rid (PInt (int b)) (PInt (int n)) (length tokens)
      (PStr (sign_sampler_window h (pr_secret p) rid (PInt (int b)) (PInt (int n)))) = Inr (int b, int n)"
    using toks(4) by (simp add: validate_sampler_window_def sig is_int_not_bool_def)
  define s where "s = \<lparr>rq_id = rid, rq_mode = ''force'', rq_prompt = prompt, rq_tokens = tokens, rq_sampled = [],
      rq_output = out_ref, rq_start = Some (int b), rq_expected = Some (int n), rq_forced = 0\<rparr>"
  have same: "same_tokens prompt prompt" using same_tokens_iff [OF toks(1) toks(1)] by blast
  have "force_state h (pr_secret p) params prompt out_ref = Inr s"
    using same limit
    by (simp add: force_state_def Let_def extra pget_PDict look req [OF toks(3,1)] req [OF ne toks(2)] window
        s_def pm not_less del: py_eq.simps split: option.splits)
  then have "new_state h params prompt out_ref p = (Inr (Some s), p\<lparr>pr_seen := insert rid (pr_seen p)\<rparr>)"
    using fresh at by (simp add: new_state_def extra phas_def cap look s_def rid_def)
  moreover have "validate_params params = Inr ()"
    by (simp add: validate_params_def extra phas_def cap look FORCED_FIELDS_def)
  moreover have "fresh_forcing b n tokens s" using toks by (simp add: fresh_forcing_def forcing_def s_def)
  moreover have "rq_id s = rid" by (simp add: s_def)
  ultimately show ?thesis using at unfolding p_args params_def rid_def by blast
qed

definition hex_host :: host where
  "hex_host = plain_host\<lparr>sha256_hex := (\<lambda>s. concat (map (\<lambda>c. hex2 (of_char c)) s)),
     hmac_sha256_hex := (\<lambda>k m. concat (map (\<lambda>c. hex2 (of_char c)) (k @ m)))\<rparr>"

lemma hex_digit_alnum: "d < 16 \<Longrightarrow> is_alnum (hex_digit d)"
  by (auto simp: is_alnum_def hex_digit_def Let_def of_char_of take_bit_eq_mod)

lemma hex_host_digests: "hex_digests hex_host"
  by (auto simp: hex_digests_def hex_host_def list_all_iff hex2_def hex_digit_alnum)

definition sample_entry :: pyval where
  "sample_entry = PDict
     [(''attempt_id'', PStr ''a1''), (''prompt_token_ids'', PList [PInt 9]),
      (''response_token_ids'', PList [PInt 5, PInt 6]),
      (''engine'', PDict [(''committed_sample_start'', PInt 1), (''sampled_token_count'', PInt 4)])]"

theorem forced_request_accepted_witness:
  "\<exists>body s p'. forced_upstream_body hex_host (PDict [(''model'', PStr ''m'')]) sample_entry ''chat.completions'' ''k'' None = Inr body \<and>
     new_state hex_host \<lparr>extra_args = pget body ''vllm_xargs'', max_tokens = Some 8\<rparr> [PInt 9] 0
       (sample_processor\<lparr>pr_seen := {}\<rparr>) = (Inr (Some s), p') \<and>
     fresh_forcing 1 4 [PInt 5, PInt 6] s"
proof -
  let ?body = "projr (forced_upstream_body hex_host (PDict [(''model'', PStr ''m'')]) sample_entry ''chat.completions'' ''k'' None)"
  have body: "forced_upstream_body hex_host (PDict [(''model'', PStr ''m'')]) sample_entry ''chat.completions''
      (pr_secret (sample_processor\<lparr>pr_seen := {}\<rparr>)) None = Inr ?body"
    by (simp add: forced_upstream_body_def ordered_body_def api_body_def sample_entry_def sample_processor_def
        pget_def pget_or_def pidx_def py_dict_def py_or_def RESERVED_ARGUMENTS_def pset_def Let_def)
  have "recorded_window sample_entry [PInt 9] [PInt 5, PInt 6] 1 4"
    by (simp add: recorded_window_def sample_entry_def pidx_def)
  moreover have "py_int (pget_or sample_entry ''status_code'' (PInt 200)) = Inr 200"
    by (simp add: sample_entry_def pget_or_def)
  moreover have "\<not> phas (pget ?body ''vllm_xargs'') ''native_replay_capture_id''"
    by (simp add: forced_upstream_body_def ordered_body_def api_body_def sample_entry_def
        pget_def pget_or_def pidx_def py_dict_def py_or_def RESERVED_ARGUMENTS_def pset_def Let_def
        phas_def map_of_pmerge forced_arguments_def)
  ultimately show ?thesis
    using forced_request_accepted [OF hex_host_digests body, of 200 "[PInt 9]" "[PInt 5, PInt 6]" 1 4 "Some 8" 0] body
    by (auto simp: sample_processor_def)
qed

section \<open>The evidence of a replay\<close>

text \<open>A captured request commits what the sampler drew.\<close>

lemma capture_steps:
  "rq_mode s = ''capture'' \<Longrightarrow>
   override_steps s steps = Inr (s\<lparr>rq_sampled := rq_sampled s @ map (\<lambda>step. PInt (snd step)) steps\<rparr>, map snd steps)"
proof (induction steps arbitrary: s)
  case Nil
  then show ?case by simp
next
  case (Cons step steps)
  then show ?case by (cases step) (simp add: override_request_def keep_sample_def)
qed

lemma force_steps_keep:
  "override_steps s steps = Inr (t, out) \<Longrightarrow> rq_prompt t = rq_prompt s \<and> rq_id t = rq_id s"
proof (induction s steps arbitrary: t out rule: override_steps.induct)
  case (1 s)
  then show ?case by simp
next
  case (2 s held natural steps)
  then obtain s' token rest where step: "override_request s held natural = Inr (s', token)"
    and tail: "override_steps s' steps = Inr (t, rest)" by (auto simp: bindR_eq_Inr)
  from step have "rq_prompt s' = rq_prompt s \<and> rq_id s' = rq_id s"
    by (auto simp: override_request_def keep_sample_def Let_def bindR_eq_Inr runtime_error_def
        split: if_splits option.splits)
  with "2.IH" [OF step refl tail] show ?case by simp
qed

lemma audit_fields:
  "pget (audit_of h pid s) ''schema_version'' = PStr AUDIT_SCHEMA"
  "pget (audit_of h pid s) ''mode'' = PStr (rq_mode s)"
  "pget (audit_of h pid s) ''prompt_token_ids'' = PList (rq_prompt s)"
  "pget (audit_of h pid s) ''prompt_token_count'' = PInt (int (length (rq_prompt s)))"
  "pget (audit_of h pid s) ''prompt_token_sha256'' = PStr (token_digest h (rq_prompt s))"
  "pget (audit_of h pid s) ''sampled_token_ids'' = PList (rq_sampled s)"
  "pget_or (audit_of h pid s) ''sampled_token_ids'' d = PList (rq_sampled s)"
  "pget (audit_of h pid s) ''sampled_token_count'' = PInt (int (length (rq_sampled s)))"
  "pget (audit_of h pid s) ''sampled_token_sha256'' = PStr (token_digest h (rq_sampled s))"
  "pget (audit_of h pid s) ''committed_sample_start'' = opt_int (rq_start s)"
  "pget (audit_of h pid s) ''expected_sampled_token_count'' = opt_int (rq_expected s)"
  "pget (audit_of h pid s) ''forced_count'' = PInt (rq_forced s)"
  by (simp_all add: audit_of_def audit_payload_def pget_or_def)

lemma forced_audit_fields:
  assumes "rq_mode s = ''force''" and "window_committed s"
  shows "pget (audit_of h pid s) ''forced_token_ids'' = PList (rq_tokens s)"
    and "pget (audit_of h pid s) ''forced_token_count'' = PInt (int (length (rq_tokens s)))"
    and "pget (audit_of h pid s) ''forced_token_sha256'' = PStr (token_digest h (rq_tokens s))"
    and "pget (audit_of h pid s) ''status'' = PStr ''complete''"
  using assms by (simp_all add: audit_of_def audit_payload_def)

lemma digest_agrees: "list_all is_int xs \<Longrightarrow> forced_token_digest h (PList xs) = token_digest h xs"
  by (simp only: forced_token_digest_def token_digest_def compact_json_ints)

lemma token_is_int: "list_all is_token xs \<Longrightarrow> list_all is_int xs"
  by (induction xs) (auto simp: is_token_iff)

lemma PInts_are_int: "list_all is_int (map PInt out)"
  by (induction out) auto

lemma PList_eq_self: "list_all is_int xs \<Longrightarrow> py_eq (PList xs) (PList xs)"
  by (rule py_eq_refl) (auto simp: list_all_iff elim!: is_int.elims)

lemma evidence_self: "engine_evidence (audit_of h pid s) tokens = Inr e \<Longrightarrow> py_eq e e"
  by (rule py_eq_refl) (auto simp: engine_evidence_def Let_def bindR_eq_Inr require_eq_Inr audit_fields)

lemma evidence_reproduced:
  assumes capture: "rq_mode c = ''capture''" "rq_sampled c = []" "override_steps c drawn_steps = Inr (c', drawn)"
    and evidence: "engine_evidence (audit_of h pid c') tokens = Inr e"
    and window: "pget e ''committed_sample_start'' = PInt (int b)" "pget e ''sampled_token_count'' = PInt (int n)"
    and replay: "fresh_forcing b n tokens s" "override_steps s steps = Inr (t, out)" "length steps = n"
    and prompt: "list_all is_token (rq_prompt s)"
  shows "check_forced_audit h (audit_of h pid' t) tokens (Some (rq_prompt s)) (PInt (int b)) (PInt (int n)) =
      Inr (audit_of h pid' t) \<and> engine_evidence (audit_of h pid' t) tokens = Inr e"
proof
  note r = fresh_run [OF replay(1,2)]
  have f: "rq_mode t = ''force''" "rq_start t = Some (int b)" "rq_expected t = Some (int n)" "rq_tokens t = tokens"
    using r(3) by (simp_all add: forcing_def)
  have toks: "list_all is_token tokens" "b + length tokens \<le> n" using replay(1) by (simp_all add: fresh_forcing_def)
  have len: "length out = n" using r(1) replay(3) by simp
  have committed: "window_committed t" by (rule complete_run(2) [OF replay])
  have count: "rq_forced t = int (length tokens)" using r(5) replay(3) toks(2) by simp
  have p: "rq_prompt t = rq_prompt s" using force_steps_keep [OF replay(2)] by simp
  note fields = audit_fields forced_audit_fields [OF f(1) committed] r(2) f count p
  note digests = digest_agrees [OF token_is_int [OF toks(1)]] digest_agrees [OF token_is_int [OF prompt]]
    digest_agrees [OF PInts_are_int]
  note selfs = PList_eq_self [OF token_is_int [OF toks(1)]] PList_eq_self [OF token_is_int [OF prompt]]
  show "check_forced_audit h (audit_of h pid' t) tokens (Some (rq_prompt s)) (PInt (int b)) (PInt (int n)) =
      Inr (audit_of h pid' t)"
    unfolding check_forced_audit_def Let_def
    using selfs by (simp add: fields digests len opt_int_def py_eq_PInt)
  have c: "rq_mode c' = ''capture''" "rq_sampled c' = map (\<lambda>step. PInt (snd step)) drawn_steps"
    using capture capture_steps [OF capture(1), of drawn_steps] by auto
  have e: "e = PDict
        [(''audit_schema'', PStr AUDIT_SCHEMA), (''sampled_token_count'', PInt (int n)),
         (''committed_sample_start'', PInt (int b)), (''committed_sample_count'', PInt (int (length tokens))),
         (''uncommitted_prefix_count'', PInt (int b)),
         (''uncommitted_suffix_count'', PInt (int n - int b - int (length tokens)))]"
    using evidence window
    by (auto simp: engine_evidence_def Let_def bindR_eq_Inr require_eq_Inr audit_fields c)
  show "engine_evidence (audit_of h pid' t) tokens = Inr e"
    using toks(2) len by (simp add: engine_evidence_def Let_def e fields opt_int_def is_int_not_bool_def)
qed

text \<open>
  C14: When a forced run of the recorded number of steps ends, its audit passes the reader's check for the
  recorded tokens and window, and the evidence taken from it is the evidence that was taken from the
  capture of the original run.
\<close>

theorem replay_reproduces_evidence:
  assumes capture: "rq_mode c = ''capture''" "rq_sampled c = []" "override_steps c drawn_steps = Inr (c', drawn)"
    and evidence: "engine_evidence (audit_of h pid c') tokens = Inr e"
    and window: "pget e ''committed_sample_start'' = PInt (int b)" "pget e ''sampled_token_count'' = PInt (int n)"
    and replay: "fresh_forcing b n tokens s" "override_steps s steps = Inr (t, out)" "length steps = n"
    and prompt: "list_all is_token (rq_prompt s)"
  shows "check_forced_audit h (audit_of h pid' t) tokens (Some (rq_prompt s)) (PInt (int b)) (PInt (int n)) =
      Inr (audit_of h pid' t) \<and> engine_evidence (audit_of h pid' t) tokens = Inr e"
  by (rule evidence_reproduced [OF assms])

definition sample_capture :: request_state where
  "sample_capture = \<lparr>rq_id = ''c-1'', rq_mode = ''capture'', rq_prompt = [PInt 9], rq_tokens = [], rq_sampled = [],
     rq_output = 0, rq_start = None, rq_expected = None, rq_forced = 0\<rparr>"

theorem replay_reproduces_evidence_witness:
  "\<exists>c' t out e. override_steps sample_capture [([], 1), ([], 5), ([], 6), ([], 2)] = Inr (c', [1, 5, 6, 2]) \<and>
     override_steps sample_request sample_steps = Inr (t, out) \<and>
     engine_evidence (audit_of plain_host 1 c') [PInt 5, PInt 6] = Inr e \<and>
     engine_evidence (audit_of plain_host 7 t) [PInt 5, PInt 6] = Inr e"
proof -
  define c' where "c' = sample_capture\<lparr>rq_sampled := [PInt 1, PInt 5, PInt 6, PInt 2]\<rparr>"
  have capture: "override_steps sample_capture [([], 1), ([], 5), ([], 6), ([], 2)] = Inr (c', [1, 5, 6, 2])"
    unfolding c'_def by (subst capture_steps) (simp_all add: sample_capture_def)
  have "committed_sample_window [PInt 1, PInt 5, PInt 6, PInt 2] [PInt 5, PInt 6] = Inr 1" by code_simp
  then have evidence: "engine_evidence (audit_of plain_host 1 c') [PInt 5, PInt 6] = Inr (PDict
        [(''audit_schema'', PStr AUDIT_SCHEMA), (''sampled_token_count'', PInt 4),
         (''committed_sample_start'', PInt 1), (''committed_sample_count'', PInt 2),
         (''uncommitted_prefix_count'', PInt 1), (''uncommitted_suffix_count'', PInt 1)])"
    by (simp add: engine_evidence_def Let_def audit_fields c'_def sample_capture_def)
  have replay: "fresh_forcing 1 4 [PInt 5, PInt 6] sample_request"
    by (simp add: fresh_forcing_def forcing_def sample_request_def)
  define t where "t = sample_request\<lparr>rq_sampled := [PInt 40, PInt 5, PInt 6, PInt 43], rq_forced := 2\<rparr>"
  have run: "override_steps sample_request sample_steps = Inr (t, [40, 5, 6, 43])"
    unfolding t_def by code_simp
  have "engine_evidence (audit_of plain_host 7 t) [PInt 5, PInt 6] = engine_evidence (audit_of plain_host 1 c') [PInt 5, PInt 6]"
    using replay_reproduces_evidence [OF _ _ capture evidence _ _ replay run, of 7]
    by (simp add: evidence sample_capture_def sample_steps_def sample_request_def)
  with capture run evidence show ?thesis by (metis (no_types))
qed

end
