(* ===== verification/Sse.thy ===== *)
theory Sse
  imports Util
begin

text \<open>
  llm_store.py, the event stream: the decoder that cuts an upstream stream into events, the payload
  of an event, and the events that replay writes.

  A text is kept as its UTF-8 bytes here, so a character is one byte; bytes that are no UTF-8, where
  \<open>decode\<close> raises, are outside the model.
\<close>

section \<open>The decoder\<close>

definition LF2 :: string where
  "LF2 = [CHR 0x0A, CHR 0x0A]"

definition CRLF2 :: string where
  "CRLF2 = [CHR 0x0D, CHR 0x0A, CHR 0x0D, CHR 0x0A]"

lemma starts_with_length: "starts_with p s \<Longrightarrow> length p \<le> length s"
  by (auto simp: starts_with_iff)

lemma str_find_bound: "str_find p s = Some i \<Longrightarrow> i + length p \<le> length s"
proof (induction s arbitrary: i)
  case Nil
  then show ?case by (simp split: if_splits)
next
  case (Cons c cs)
  then show ?case using starts_with_length [of p "c # cs"] by (auto split: if_splits)
qed

text \<open>The separators in the order of the code, and the first one that occurs in the buffer.\<close>

definition next_event :: "string \<Rightarrow> (string \<times> string) option" where
  "next_event buffer =
     (case str_find LF2 buffer of
        Some i \<Rightarrow> Some (take i buffer, drop (i + length LF2) buffer)
      | None \<Rightarrow>
          (case str_find CRLF2 buffer of
             Some i \<Rightarrow> Some (take i buffer, drop (i + length CRLF2) buffer)
           | None \<Rightarrow> None))"

lemma next_event_shorter: "next_event buffer = Some (event, rest) \<Longrightarrow> length rest < length buffer"
  by (auto simp: next_event_def LF2_def CRLF2_def dest: str_find_bound split: option.splits)

text \<open>The loop of \<open>feed\<close>: the events of a buffer and what stays in it.\<close>

function drain :: "string \<Rightarrow> string list \<times> string" where
  "drain buffer =
     (case next_event buffer of
        None \<Rightarrow> ([], buffer)
      | Some (event, rest) \<Rightarrow> (let (events, left) = drain rest in (event # events, left)))"
  by pat_completeness auto

termination drain
  by (relation "measure length") (auto dest: next_event_shorter)

declare drain.simps [simp del]

definition feed :: "string \<Rightarrow> string \<Rightarrow> string list \<times> string" where
  "feed buffer chunk = drain (buffer @ chunk)"

text \<open>\<open>bytes.strip()\<close> takes the ASCII white space only.\<close>

definition byte_space :: "char \<Rightarrow> bool" where
  "byte_space c \<longleftrightarrow> of_char c \<in> {9::nat, 10, 11, 12, 13, 32}"

definition bytes_strip :: "string \<Rightarrow> string" where
  "bytes_strip s = rev (dropWhile byte_space (rev (dropWhile byte_space s)))"

definition decoder_finish :: "string \<Rightarrow> unit res" where
  "decoder_finish buffer =
     (if bytes_strip buffer \<noteq> [] then Inl (ValidationError ''upstream SSE stream ended mid-event'') else Inr ())"

section \<open>Events\<close>

definition DATA :: string where "DATA = ''data:''"

definition sse_payload :: "string \<Rightarrow> string option" where
  "sse_payload event =
     (case filter (starts_with DATA) (split_on (CHR 0x0A) event) of
        [] \<Rightarrow> None
      | line # _ \<Rightarrow> Some (bytes_strip (drop (length DATA) line)))"

definition encode_sse :: "string \<Rightarrow> string" where
  "encode_sse payload = ''data: '' @ payload @ LF2"

section \<open>Chunks of a stream\<close>

text \<open>The events of a stream that arrives in chunks.\<close>

fun feed_all :: "string \<Rightarrow> string list \<Rightarrow> string list \<times> string" where
  "feed_all buffer [] = ([], buffer)"
| "feed_all buffer (chunk # chunks) =
     (let (events, left) = feed buffer chunk; (more_events, last_left) = feed_all left chunks
      in (events @ more_events, last_left))"

lemma starts_with_prefix: "length p \<le> length s \<Longrightarrow> starts_with p (s @ t) \<longleftrightarrow> starts_with p s"
  by (simp add: starts_with_def)

text \<open>The first occurrence is the first occurrence in every longer text.\<close>

lemma str_find_append: "str_find p s = Some i \<Longrightarrow> str_find p (s @ t) = Some i"
proof (induction s arbitrary: i)
  case Nil
  then show ?case by (cases t) (auto simp: starts_with_def split: if_splits)
next
  case (Cons c cs)
  have "length p \<le> length (c # cs)" using str_find_bound [OF Cons.prems] by simp
  then have "starts_with p (c # cs @ t) \<longleftrightarrow> starts_with p (c # cs)"
    using starts_with_prefix [of p "c # cs" t] by simp
  then show ?case using Cons by (auto split: if_splits)
qed

lemma str_find_None_suffix: "str_find p (s @ t) = None \<Longrightarrow> str_find p t = None"
  by (induction s) (auto split: if_splits)

lemma str_find_None_prefix: "str_find p (s @ t) = None \<Longrightarrow> str_find p s = None"
  by (cases "str_find p s") (auto dest: str_find_append [of p s _ t])

text \<open>A stream whose events are all ended by the same separator.\<close>

definition one_separator :: "string \<Rightarrow> bool" where
  "one_separator s \<longleftrightarrow> str_find LF2 s = None \<or> str_find CRLF2 s = None"

lemma one_separator_parts: "one_separator (s @ t) \<Longrightarrow> one_separator s \<and> one_separator t"
  unfolding one_separator_def
  using str_find_None_prefix [of LF2 s t] str_find_None_suffix [of LF2 s t]
    str_find_None_prefix [of CRLF2 s t] str_find_None_suffix [of CRLF2 s t] by argo

lemma next_event_append:
  assumes "one_separator (s @ t)" and "next_event s = Some (event, rest)"
  shows "next_event (s @ t) = Some (event, rest @ t)"
proof (cases "str_find LF2 s")
  case (Some i)
  with assms(2) have r: "event = take i s" "rest = drop (i + length LF2) s" by (simp_all add: next_event_def)
  have "i + length LF2 \<le> length s" using str_find_bound [OF Some] .
  then show ?thesis using str_find_append [OF Some, of t] by (simp add: next_event_def r)
next
  case None
  then obtain i where i: "str_find CRLF2 s = Some i"
    using assms(2) by (auto simp: next_event_def split: option.splits)
  with None assms(2) have r: "event = take i s" "rest = drop (i + length CRLF2) s" by (simp_all add: next_event_def)
  have c: "str_find CRLF2 (s @ t) = Some i" using str_find_append [OF i] .
  then have "str_find LF2 (s @ t) = None" using assms(1) by (simp add: one_separator_def)
  moreover have "i + length CRLF2 \<le> length s" using str_find_bound [OF i] .
  ultimately show ?thesis using c by (simp add: next_event_def r)
qed

lemma next_event_rest: "next_event s = Some (event, rest) \<Longrightarrow> \<exists>p. s = p @ rest"
  unfolding next_event_def by (auto split: option.splits) (metis append_take_drop_id)+

lemma drain_append:
  "one_separator (s @ t) \<Longrightarrow> drain (s @ t) =
     (let (events, left) = drain s; (more_events, last_left) = drain (left @ t)
      in (events @ more_events, last_left))"
proof (induction s rule: drain.induct)
  case (1 s)
  show ?case
  proof (cases "next_event s")
    case None
    then show ?thesis by (simp add: drain.simps [of s] Let_def)
  next
    case (Some er)
    obtain event rest where er: "er = (event, rest)" by (cases er)
    note n = Some [unfolded er]
    obtain p where "s = p @ rest" using next_event_rest [OF n] by blast
    then have "one_separator (rest @ t)" using "1.prems" one_separator_parts [of p "rest @ t"] by simp
    from "1.IH" [OF n refl this] next_event_append [OF "1.prems" n]
    show ?thesis by (simp add: drain.simps [of "s @ t"] drain.simps [of s] n split_def Let_def)
  qed
qed

lemma drain_left: "drain s = (events, left) \<Longrightarrow> (\<exists>p. s = p @ left) \<and> next_event left = None"
proof (induction s arbitrary: events left rule: drain.induct)
  case (1 s)
  show ?case
  proof (cases "next_event s")
    case None
    then show ?thesis using "1.prems" by (simp add: drain.simps [of s])
  next
    case (Some er)
    obtain event rest where er: "er = (event, rest)" by (cases er)
    note n = Some [unfolded er]
    obtain es l where d: "drain rest = (es, l)" by (cases "drain rest")
    then have "l = left" using "1.prems" n by (simp add: drain.simps [of s] Let_def)
    with "1.IH" [OF n refl d] next_event_rest [OF n] show ?thesis by (metis append.assoc)
  qed
qed

text \<open>
  When all separators of a stream are of one kind, the events read from it do not depend on how the
  network cuts the stream into chunks.
\<close>

theorem sse_chunking_is_irrelevant:
  assumes "one_separator (concat chunks)"
  shows "feed_all [] chunks = drain (concat chunks)"
proof -
  have "feed_all buffer chunks = drain (buffer @ concat chunks)"
    if "one_separator (buffer @ concat chunks)" "next_event buffer = None" for buffer
    using that
  proof (induction chunks arbitrary: buffer)
    case Nil
    then show ?case by (simp add: drain.simps)
  next
    case (Cons chunk chunks)
    obtain events left where d: "drain (buffer @ chunk) = (events, left)" by (cases "drain (buffer @ chunk)")
    have all: "one_separator ((buffer @ chunk) @ concat chunks)" using Cons.prems by simp
    have "one_separator (left @ concat chunks) \<and> next_event left = None"
      using drain_left [OF d] all one_separator_parts by (metis append.assoc)
    then show ?case
      using Cons.IH [of left] drain_append [OF all] by (simp add: feed_def d split_def Let_def)
  qed
  from this [of "[]"] assms show ?thesis by (simp add: next_event_def LF2_def CRLF2_def starts_with_def)
qed

theorem sse_chunking_is_irrelevant_witness:
  "feed_all [] [''data: 1'' @ [CHR 0x0A], [CHR 0x0A] @ ''da'', ''ta: 2'' @ LF2 @ ''d''] =
     ([''data: 1'', ''data: 2''], ''d'')"
proof -
  have "one_separator (concat [''data: 1'' @ [CHR 0x0A], [CHR 0x0A] @ ''da'', ''ta: 2'' @ LF2 @ ''d''])"
    by code_simp
  note same = sse_chunking_is_irrelevant [OF this]
  show ?thesis unfolding same by code_simp
qed

text \<open>With both kinds of separator in one stream, the cut decides what an event is.\<close>

lemma mixed_separators_depend_on_chunks:
  "feed_all [] [''a'' @ CRLF2, ''b'' @ LF2] = ([''a'', ''b''], [])"
  "feed_all [] [''a'' @ CRLF2 @ ''b'' @ LF2] = ([''a'' @ CRLF2 @ ''b''], [])"
  by code_simp+

text \<open>What replay writes for a payload is read back as that payload, and no bytes are left over.\<close>

theorem sse_roundtrip:
  assumes "bytes_strip payload = payload" and "CHR 0x0A \<notin> set payload"
  shows "\<exists>event. drain (encode_sse payload) = ([event], []) \<and> sse_payload event = Some payload \<and>
    decoder_finish [] = Inr ()"
proof -
  have pos: "str_find LF2 (s @ LF2) = Some (length s)" if "CHR 0x0A \<notin> set s" for s
    using that
  proof (induction s)
    case Nil
    then show ?case by (simp add: LF2_def starts_with_def)
  next
    case (Cons c cs)
    then show ?case by (auto simp: LF2_def starts_with_def)
  qed
  have no: "CHR 0x0A \<notin> set (''data: '' @ payload)" using assms(2) by auto
  have "next_event ((''data: '' @ payload) @ LF2) = Some (''data: '' @ payload, [])"
    unfolding next_event_def pos [OF no] by simp
  then have "drain (encode_sse payload) = ([''data: '' @ payload], [])"
    unfolding encode_sse_def by (subst drain.simps) (simp add: drain.simps [of "[]"] next_event_def LF2_def CRLF2_def starts_with_def)
  moreover have "split_on (CHR 0x0A) s = [s]" if "CHR 0x0A \<notin> set s" for s
    using that by (induction s) auto
  note one_line = this [OF no]
  have "bytes_strip (CHR '' '' # payload) = payload"
    using assms(1) by (simp add: bytes_strip_def byte_space_def)
  then have "sse_payload (''data: '' @ payload) = Some payload"
    unfolding sse_payload_def one_line by (simp add: DATA_def starts_with_def)
  ultimately show ?thesis by (auto simp: decoder_finish_def bytes_strip_def)
qed

theorem sse_roundtrip_witness:
  "\<exists>event. drain (encode_sse ''[DONE]'') = ([event], []) \<and> sse_payload event = Some ''[DONE]''"
  using sse_roundtrip [of "''[DONE]''"] by (fastforce simp: bytes_strip_def byte_space_def)

end
