(* ===== verification/Llm_Shape.thy ===== *)
theory Llm_Shape
  imports Sse
begin

text \<open>
  llm_store.py, the pure functions on JSON values: the token fields that the framework must not see,
  the end of a stream, and the shape by which a replayed request is compared with the recorded one.
\<close>

section \<open>Token fields\<close>

definition TOKEN_FIELDS :: "string list" where
  "TOKEN_FIELDS = [''prompt_token_ids'', ''token_ids'', ''raw_message_tokens'']"

fun strip_token_fields :: "pyval \<Rightarrow> pyval" where
  "strip_token_fields (PDict kvs) =
     PDict (map (\<lambda>kv. (fst kv, strip_token_fields (snd kv))) (filter (\<lambda>kv. fst kv \<notin> set TOKEN_FIELDS) kvs))"
| "strip_token_fields (PList xs) = PList (map strip_token_fields xs)"
| "strip_token_fields v = v"

text \<open>\<open>[int(t) for t in value if isinstance(t, int)]\<close>.\<close>

definition ints_of :: "pyval \<Rightarrow> int list" where
  "ints_of v = map int_of (filter is_int (items_of v))"

text \<open>The two lists that the visitor fills: the first prompt it meets, and every output.\<close>

type_synonym found_tokens = "int list \<times> int list"

definition note_tokens :: "pyval \<Rightarrow> found_tokens \<Rightarrow> found_tokens" where
  "note_tokens item found =
     (let (prompt, result) = found;
          raw_prompt = pget item ''prompt_token_ids'';
          raw_output = pget item ''token_ids''
      in (if is_list raw_prompt \<and> prompt = [] then ints_of raw_prompt else prompt,
          if is_list raw_output then result @ ints_of raw_output else result))"

fun visit_tokens :: "pyval \<Rightarrow> found_tokens \<Rightarrow> found_tokens" where
  "visit_tokens (PDict kvs) found =
     fold (\<lambda>kv. visit_tokens (snd kv)) kvs (note_tokens (PDict kvs) found)"
| "visit_tokens (PList xs) found = fold visit_tokens xs found"
| "visit_tokens v found = found"

definition collect_token_fields :: "pyval \<Rightarrow> found_tokens" where
  "collect_token_fields v = visit_tokens v ([], [])"

lemma strip_no_field: "k \<in> set TOKEN_FIELDS \<Longrightarrow> pget (strip_token_fields v) k = PNone"
proof (cases v)
  case (PDict kvs)
  assume k: "k \<in> set TOKEN_FIELDS"
  have "map_of (map (\<lambda>kv. (fst kv, strip_token_fields (snd kv))) (filter (\<lambda>kv. fst kv \<notin> set TOKEN_FIELDS) kvs)) k = None"
    using k by (auto simp: map_of_eq_None_iff)
  then show ?thesis by (simp add: PDict pget_def pget_or_def)
qed (simp_all add: pget_def pget_or_def)

lemma note_nothing: "note_tokens (strip_token_fields v) found = found"
  using strip_no_field [of "''prompt_token_ids''" v] strip_no_field [of "''token_ids''" v]
  by (simp add: note_tokens_def TOKEN_FIELDS_def split_def)

lemma fold_same: "(\<And>x. x \<in> set xs \<Longrightarrow> f x s = s) \<Longrightarrow> fold f xs s = s"
  by (induction xs) auto

lemma visit_stripped: "visit_tokens (strip_token_fields v) found = found"
proof (induction v arbitrary: found rule: strip_token_fields.induct)
  case (1 kvs)
  show ?case
    using note_nothing [of "PDict kvs"] 1
    by (simp add: fold_map comp_def) (rule fold_same, auto)
next
  case (2 xs)
  then show ?case by (simp add: fold_map comp_def) (rule fold_same, auto)
qed simp_all

lemma strip_idempotent: "strip_token_fields (strip_token_fields v) = strip_token_fields v"
  by (induction v rule: strip_token_fields.induct) (simp_all add: comp_def filter_map)

text \<open>What is no token field stays, stripped inside.\<close>

lemma pget_strip:
  assumes "k \<notin> set TOKEN_FIELDS"
  shows "pget (strip_token_fields v) k = strip_token_fields (pget v k)"
proof (cases v)
  case (PDict kvs)
  have "map_of (map (\<lambda>kv. (fst kv, strip_token_fields (snd kv))) (filter (\<lambda>kv. fst kv \<notin> set TOKEN_FIELDS) kvs)) k =
      map_option strip_token_fields (map_of kvs k)"
    using assms by (induction kvs) auto
  then show ?thesis by (auto simp: PDict pget_def pget_or_def split: option.splits)
qed (simp_all add: pget_def pget_or_def)

text \<open>
  The answer that the framework sees holds no engine tokens at any depth, every other field is the
  engine's, and cleaning it again changes nothing.
\<close>

theorem stripped_answer_holds_no_tokens:
  "collect_token_fields (strip_token_fields v) = ([], []) \<and>
   strip_token_fields (strip_token_fields v) = strip_token_fields v \<and>
   (\<forall>k. pget (strip_token_fields v) k = (if k \<in> set TOKEN_FIELDS then PNone else strip_token_fields (pget v k)))"
  using visit_stripped [of v "([], [])"] strip_idempotent [of v] strip_no_field pget_strip
  by (simp add: collect_token_fields_def)

section \<open>The end of a stream\<close>

definition stream_payload_is_terminal :: "string \<Rightarrow> pyval \<Rightarrow> bool res" where
  "stream_payload_is_terminal api payload =
     (if \<not> is_dict payload then Inl (PyError ''AttributeError'')
      else if api = ''chat.completions'' then
        Inr (list_ex (\<lambda>choice. is_dict choice \<and> pget choice ''finish_reason'' \<noteq> PNone)
               (items_of (pget payload ''choices'')))
      else in_strs (pget payload ''type'') [''response.completed'', ''response.failed'', ''response.incomplete''])"

section \<open>The shape of a value\<close>

definition SHAPE_STRUCTURAL :: "string list" where
  "SHAPE_STRUCTURAL = [''name'', ''role'', ''type'']"

text \<open>The loop of \<open>_size_bucket\<close>, whose bound is \<open>16 * 4 ^ k\<close> in its \<open>k\<close>-th turn.\<close>

function bucket_bound :: "nat \<Rightarrow> nat \<Rightarrow> nat" where
  "bucket_bound n k = (if 16 * 4 ^ k < n then bucket_bound n (Suc k) else 16 * 4 ^ k)"
  by pat_completeness auto

lemma power4_above: "k < 16 * 4 ^ k" for k :: nat
  by (induction k) auto

termination bucket_bound
proof (relation "measure (\<lambda>(n, k). n - k)")
  fix n k :: nat
  assume "16 * 4 ^ k < n"
  then have "k < n" using power4_above [of k] by linarith
  then show "((n, Suc k), (n, k)) \<in> measure (\<lambda>(n, k). n - k)" by simp
qed simp

declare bucket_bound.simps [simp del]

definition size_bucket :: "string \<Rightarrow> string" where
  "size_bucket value = (if value = [] then ''0'' else ''1-'' @ nat_str (bucket_bound (length value) 0))"

definition inline_data_shape :: "string \<Rightarrow> pyval" where
  "inline_data_shape value =
     (let header = hd (split_on (CHR '','') value);
          media = hd (split_on (CHR '';'') (drop (length ''data:'') header))
      in PDict [(''kind'', PStr ''inline-data''),
                (''media_type'', PStr (if media = [] then ''application/octet-stream'' else media))])"

definition text_shape :: "string \<Rightarrow> pyval" where
  "text_shape value =
     (if starts_with ''data:'' value then inline_data_shape value
      else PDict [(''kind'', PStr ''text''), (''size_bucket'', PStr (size_bucket value))])"

fun shape :: "string option \<Rightarrow> pyval \<Rightarrow> pyval" where
  "shape field (PDict kvs) = PDict (map (\<lambda>kv. (fst kv, shape (Some (fst kv)) (snd kv))) kvs)"
| "shape field (PList xs) = PList (map (shape field) xs)"
| "shape field (PStr s) = (if field \<in> Some ` set SHAPE_STRUCTURAL then PStr s else text_shape s)"
| "shape field v = v"

definition PAYLOAD_KEYS :: "string list" where
  "PAYLOAD_KEYS = [''messages'', ''input'', ''prompt'']"

definition request_shape :: "pyval \<Rightarrow> pyval" where
  "request_shape body =
     PDict
       [(''payload'', PDict (map (\<lambda>kv. (fst kv, shape None (snd kv)))
           (filter (\<lambda>kv. fst kv \<in> set PAYLOAD_KEYS) (fields_of body)))),
        (''configuration'', PDict (filter (\<lambda>kv. fst kv \<notin> set PAYLOAD_KEYS) (fields_of body)))]"

section \<open>Live media and documents\<close>

fun contains_inline_data :: "pyval \<Rightarrow> bool" where
  "contains_inline_data (PStr s) = starts_with ''data:'' s"
| "contains_inline_data (PDict kvs) = list_ex (\<lambda>kv. contains_inline_data (snd kv)) kvs"
| "contains_inline_data (PList xs) = list_ex contains_inline_data xs"
| "contains_inline_data v = False"

definition live_multimodal_request_shape :: "pyval \<Rightarrow> pyval option" where
  "live_multimodal_request_shape body =
     (if \<not> is_list (pget body ''messages'') then None
      else let messages = items_of (pget body ''messages'');
               inline_messages = filter (\<lambda>m. is_dict m \<and> contains_inline_data (pget m ''content'')) messages
        in if inline_messages = [] then None
           else let system_messages = filter (\<lambda>m. is_dict m \<and> py_eq (pget m ''role'') (PStr ''system'')) messages;
                    other_payload = map (\<lambda>kv. (fst kv, shape None (snd kv)))
                      (filter (\<lambda>kv. fst kv \<in> {''input'', ''prompt''}) (fields_of body))
             in Some (PDict
                  [(''payload'', PDict (other_payload @ [(''messages'', PDict
                      [(''system'', PList (map (shape None) system_messages)),
                       (''latest_inline'', shape None (last inline_messages))])])),
                   (''configuration'', PDict (filter (\<lambda>kv. fst kv \<notin> set PAYLOAD_KEYS) (fields_of body)))]))"

definition DOCUMENT_OPENING :: string where "DOCUMENT_OPENING = ''<document_part>''"
definition DOCUMENT_CLOSING :: string where "DOCUMENT_CLOSING = ''</document_part>''"

definition newline_char :: char where "newline_char = CHR 0x0A"

text \<open>The text of a live document chunk, replaced between its delimiters when both are there.\<close>

definition redact_text :: "string \<Rightarrow> string option" where
  "redact_text value =
     (case str_find DOCUMENT_OPENING value of
        None \<Rightarrow> None
      | Some start \<Rightarrow>
          (let inside = start + length DOCUMENT_OPENING in
           case str_find DOCUMENT_CLOSING (drop inside value) of
             None \<Rightarrow> None
           | Some n \<Rightarrow>
               Some (take inside value @ [newline_char] @ ''<live-document-chunk>'' @ [newline_char] @
                     drop (inside + n) value)))"

text \<open>The redacted value, and whether a text in it was replaced.\<close>

fun redact :: "pyval \<Rightarrow> pyval" where
  "redact (PDict kvs) = PDict (map (\<lambda>kv. (fst kv, redact (snd kv))) kvs)"
| "redact (PList xs) = PList (map redact xs)"
| "redact (PStr s) = (case redact_text s of None \<Rightarrow> PStr s | Some t \<Rightarrow> PStr t)"
| "redact v = v"

fun redacts :: "pyval \<Rightarrow> bool" where
  "redacts (PDict kvs) = list_ex (\<lambda>kv. redacts (snd kv)) kvs"
| "redacts (PList xs) = list_ex redacts xs"
| "redacts (PStr s) = (redact_text s \<noteq> None)"
| "redacts v = False"

definition live_document_request_shape :: "pyval \<Rightarrow> pyval option" where
  "live_document_request_shape body = (if redacts body then Some (request_shape (redact body)) else None)"

section \<open>The first difference\<close>

fun type_name :: "pyval \<Rightarrow> string" where
  "type_name PNone = ''NoneType''"
| "type_name (PBool _) = ''bool''"
| "type_name (PInt _) = ''int''"
| "type_name (PFloat _) = ''float''"
| "type_name (PStr _) = ''str''"
| "type_name (PList _) = ''list''"
| "type_name (PDict _) = ''dict''"

definition keys_text :: "host \<Rightarrow> dict \<Rightarrow> string" where
  "keys_text h kvs = py_repr h (PList (map PStr (sort (remdups (map fst kvs)))))"

text \<open>The first of several differences.\<close>

fun first_some :: "'a option list \<Rightarrow> 'a option" where
  "first_some [] = None"
| "first_some (x # xs) = (case x of None \<Rightarrow> first_some xs | Some y \<Rightarrow> Some y)"

lemma first_some_None: "first_some xs = None \<longleftrightarrow> (\<forall>x \<in> set xs. x = None)"
  by (induction xs) (auto split: option.splits)

lemma size_numbered [termination_simp]:
  assumes "(i, v, w) \<in> set (zip ns (zip xs ys))"
  shows "size (v :: pyval) < Suc (size_list size xs)" and "size (w :: pyval) < Suc (size_list size ys)"
  using pyval_size_zip [OF set_zip_rightD [OF assms]] by simp_all

fun first_shape_difference :: "host \<Rightarrow> pyval \<Rightarrow> pyval \<Rightarrow> string \<Rightarrow> string option" where
  "first_shape_difference h v w path =
     (if type_name v \<noteq> type_name w
      then Some (path @ '': expected type '' @ type_name v @ '', observed type '' @ type_name w)
      else case v of
        PDict kvs \<Rightarrow>
          (case w of PDict lvs \<Rightarrow>
             (if set (map fst kvs) \<noteq> set (map fst lvs)
              then Some (path @ '': expected keys '' @ keys_text h kvs @ '', observed '' @ keys_text h lvs)
              else first_some (map (\<lambda>key.
                     case map_of kvs key of
                       Some x \<Rightarrow> (case map_of lvs key of
                         Some y \<Rightarrow> first_shape_difference h x y (path @ ''.'' @ key)
                       | None \<Rightarrow> None)
                     | None \<Rightarrow> None) (sort (remdups (map fst kvs)))))
           | _ \<Rightarrow> None)
      | PList xs \<Rightarrow>
          (case w of PList ys \<Rightarrow>
             (if length xs \<noteq> length ys
              then Some (path @ '': expected length '' @ nat_str (length xs) @ '', observed '' @ nat_str (length ys))
              else first_some (map (\<lambda>(i, x, y). first_shape_difference h x y (path @ ''['' @ nat_str i @ '']''))
                     (zip [0..<length xs] (zip xs ys))))
           | _ \<Rightarrow> None)
      | _ \<Rightarrow> if v \<noteq> w then Some (path @ '': expected '' @ py_repr h v @ '', observed '' @ py_repr h w) else None)"

declare first_shape_difference.simps [simp del]

end
