(* ===== verification/Llm_Similarity.thy ===== *)
theory Llm_Similarity
  imports Llm_Shape
begin

text \<open>
  What the request shapes mean: the size classes, when two requests have the same shape, and when the
  comparison that explains a drift finds a difference.
\<close>

section \<open>Size classes\<close>

lemma bucket_bound_from:
  "\<exists>k. i \<le> k \<and> bucket_bound n i = 16 * 4 ^ k \<and> n \<le> 16 * 4 ^ k \<and> (\<forall>j. i \<le> j \<longrightarrow> j < k \<longrightarrow> 16 * 4 ^ j < n)"
proof (induction n i rule: bucket_bound.induct)
  case (1 n i)
  show ?case
  proof (cases "16 * 4 ^ i < n")
    case True
    from "1.IH" [OF True] obtain k where k: "Suc i \<le> k" "bucket_bound n (Suc i) = 16 * 4 ^ k"
      "n \<le> 16 * 4 ^ k" "\<forall>j. Suc i \<le> j \<longrightarrow> j < k \<longrightarrow> 16 * 4 ^ j < n" by blast
    have "\<forall>j. i \<le> j \<longrightarrow> j < k \<longrightarrow> 16 * 4 ^ j < n"
      using k(4) True by (metis Suc_leI le_neq_implies_less)
    with k True show ?thesis by (intro exI [of _ k]) (simp add: bucket_bound.simps [of n i])
  next
    case False
    then show ?thesis by (intro exI [of _ i]) (simp add: bucket_bound.simps [of n i])
  qed
qed

lemma bucket_bound_least:
  "\<exists>k. bucket_bound n 0 = 16 * 4 ^ k \<and> n \<le> 16 * 4 ^ k \<and> (\<forall>j < k. 16 * 4 ^ j < n)"
  using bucket_bound_from [of 0 n] by auto

text \<open>
  The loop that finds the size class of a text always ends, with a bound of the series 16, 64, 256, ...
  that the size does not exceed and that is at most four times the size, or 16.
\<close>

theorem size_class_bounds:
  "n \<le> bucket_bound n 0 \<and> bucket_bound n 0 \<le> max 16 (4 * n) \<and> (\<exists>k. bucket_bound n 0 = 16 * 4 ^ k)"
proof -
  obtain k where k: "bucket_bound n 0 = 16 * 4 ^ k" "n \<le> 16 * 4 ^ k" "\<forall>j < k. 16 * 4 ^ j < n"
    using bucket_bound_least by blast
  have "16 * 4 ^ k \<le> max 16 (4 * n)"
  proof (cases k)
    case (Suc j)
    then have "16 * 4 ^ j < n" using k(3) by simp
    then show ?thesis using Suc by simp
  qed simp
  with k show ?thesis by auto
qed

lemma bucket_bound_le: "bucket_bound n 0 \<le> 16 * 4 ^ k \<longleftrightarrow> n \<le> 16 * 4 ^ k"
proof -
  obtain i where i: "bucket_bound n 0 = 16 * 4 ^ i" "n \<le> 16 * 4 ^ i" "\<forall>j < i. 16 * 4 ^ j < n"
    using bucket_bound_least by blast
  show ?thesis
  proof
    assume "n \<le> 16 * 4 ^ k"
    then have "\<not> k < i" using i(3) by (meson leD)
    then show "bucket_bound n 0 \<le> 16 * 4 ^ k" by (simp add: i(1))
  next
    assume "bucket_bound n 0 \<le> 16 * 4 ^ k"
    then show "n \<le> 16 * 4 ^ k" using i by linarith
  qed
qed

lemma bucket_bound_eq: "bucket_bound m 0 = bucket_bound n 0 \<longleftrightarrow> (\<forall>k. m \<le> 16 * 4 ^ k \<longleftrightarrow> n \<le> 16 * 4 ^ k)"
proof
  assume "bucket_bound m 0 = bucket_bound n 0"
  then show "\<forall>k. m \<le> 16 * 4 ^ k \<longleftrightarrow> n \<le> 16 * 4 ^ k" by (metis bucket_bound_le)
next
  assume same: "\<forall>k. m \<le> 16 * 4 ^ k \<longleftrightarrow> n \<le> 16 * 4 ^ k"
  obtain i j where b: "bucket_bound m 0 = 16 * 4 ^ i" "bucket_bound n 0 = 16 * 4 ^ j"
    using bucket_bound_least by metis
  have "bucket_bound m 0 \<le> bucket_bound n 0" "bucket_bound n 0 \<le> bucket_bound m 0"
    using same bucket_bound_le b by (metis order_refl)+
  then show "bucket_bound m 0 = bucket_bound n 0" by simp
qed

lemma size_bucket_eq:
  "size_bucket s = size_bucket t \<longleftrightarrow>
     (s = [] \<longleftrightarrow> t = []) \<and> (\<forall>k. length s \<le> 16 * 4 ^ k \<longleftrightarrow> length t \<le> 16 * 4 ^ k)"
  by (auto simp: size_bucket_def nat_str_inject bucket_bound_eq)

section \<open>Similar values\<close>

text \<open>The media type that an inline text declares.\<close>

definition media_type :: "string \<Rightarrow> string" where
  "media_type value =
     (let media = hd (split_on (CHR '';'') (drop (length ''data:'') (hd (split_on (CHR '','') value))))
      in if media = [] then ''application/octet-stream'' else media)"

text \<open>Free texts: inline data of one media type, or other texts of one size class.\<close>

definition similar_text :: "string \<Rightarrow> string \<Rightarrow> bool" where
  "similar_text s t \<longleftrightarrow>
     (if starts_with ''data:'' s then starts_with ''data:'' t \<and> media_type s = media_type t
      else \<not> starts_with ''data:'' t \<and> (s = [] \<longleftrightarrow> t = []) \<and>
        bucket_bound (length s) 0 = bucket_bound (length t) 0)"

fun similar :: "string option \<Rightarrow> pyval \<Rightarrow> pyval \<Rightarrow> bool" where
  "similar field (PDict kvs) w =
     (case w of PDict lvs \<Rightarrow> list_all2 (\<lambda>kv lv. fst kv = fst lv \<and> similar (Some (fst kv)) (snd kv) (snd lv)) kvs lvs
      | _ \<Rightarrow> False)"
| "similar field (PList xs) w =
     (case w of PList ys \<Rightarrow> list_all2 (similar field) xs ys | _ \<Rightarrow> False)"
| "similar field (PStr s) w =
     (case w of PStr t \<Rightarrow> (if field \<in> Some ` set SHAPE_STRUCTURAL then s = t else similar_text s t) | _ \<Rightarrow> False)"
| "similar field v w = (v = w)"

lemma inline_data_shape_eq: "inline_data_shape s = inline_data_shape t \<longleftrightarrow> media_type s = media_type t"
proof -
  have "inline_data_shape u = PDict [(''kind'', PStr ''inline-data''), (''media_type'', PStr (media_type u))]" for u
    by (simp add: inline_data_shape_def media_type_def Let_def)
  then show ?thesis by simp
qed

lemma size_bucket_same:
  "size_bucket s = size_bucket t \<longleftrightarrow>
     (s = [] \<longleftrightarrow> t = []) \<and> bucket_bound (length s) 0 = bucket_bound (length t) 0"
  by (simp only: size_bucket_eq bucket_bound_eq)

lemma inline_not_text: "inline_data_shape s \<noteq> PDict [(''kind'', PStr ''text''), b]"
  by (simp add: inline_data_shape_def Let_def)

lemma text_shape_eq: "text_shape s = text_shape t \<longleftrightarrow> similar_text s t"
  unfolding text_shape_def similar_text_def
  by (simp add: inline_data_shape_eq size_bucket_same inline_not_text inline_not_text [symmetric])

lemma text_shape_kinds [simp]:
  "text_shape s \<noteq> PNone" "text_shape s \<noteq> PBool b" "text_shape s \<noteq> PInt i" "text_shape s \<noteq> PFloat r"
  "text_shape s \<noteq> PStr t" "text_shape s \<noteq> PList xs"
  "PNone \<noteq> text_shape s" "PBool b \<noteq> text_shape s" "PInt i \<noteq> text_shape s" "PFloat r \<noteq> text_shape s"
  "PStr t \<noteq> text_shape s" "PList xs \<noteq> text_shape s"
  by (simp_all add: text_shape_def inline_data_shape_def Let_def)

lemma text_shape_is_dict: "\<exists>a b. text_shape s = PDict [(''kind'', PStr a), b]"
  by (auto simp: text_shape_def inline_data_shape_def Let_def)

lemma shape_free_text_not_str: "shape (Some ''kind'') v \<noteq> PStr s"
  by (cases v) (simp_all add: SHAPE_STRUCTURAL_def)

lemma shape_dict_not_text: "shape field (PDict kvs) \<noteq> text_shape s"
proof
  assume eq: "shape field (PDict kvs) = text_shape s"
  obtain a b where "text_shape s = PDict [(''kind'', PStr a), b]" using text_shape_is_dict by blast
  with eq obtain k v where "k = ''kind''" "shape (Some k) v = PStr a"
    by (cases kvs) auto
  then show False using shape_free_text_not_str by metis
qed

lemma map_eq_iff_rel: "map f xs = map f ys \<longleftrightarrow> list_all2 (\<lambda>x y. f x = f y) xs ys"
  by (simp add: list.rel_eq [symmetric] list.rel_map)

lemma shape_eq_iff: "shape field v = shape field w \<longleftrightarrow> similar field v w"
proof (induction field v arbitrary: w rule: shape.induct [case_names Dict List Str None Bool Int Float])
  case (Dict field kvs)
  show ?case
  proof (cases w)
    case (PDict lvs)
    have "shape field (PDict kvs) = shape field w \<longleftrightarrow>
        list_all2 (\<lambda>kv lv. (fst kv, shape (Some (fst kv)) (snd kv)) = (fst lv, shape (Some (fst lv)) (snd lv))) kvs lvs"
      by (simp only: PDict shape.simps pyval.inject map_eq_iff_rel)
    also have "\<dots> \<longleftrightarrow> list_all2 (\<lambda>kv lv. fst kv = fst lv \<and> similar (Some (fst kv)) (snd kv) (snd lv)) kvs lvs"
      using Dict by (intro list.rel_cong refl) auto
    finally show ?thesis by (simp add: PDict)
  next
    case (PStr s)
    have "similar field (PDict kvs) w = False" by (simp add: PStr)
    then show ?thesis using shape_dict_not_text [of field kvs s] by (simp add: PStr del: shape.simps(1)) simp
  qed simp_all
next
  case (List field xs)
  show ?case
  proof (cases w)
    case (PList ys)
    have "shape field (PList xs) = shape field w \<longleftrightarrow> list_all2 (\<lambda>x y. shape field x = shape field y) xs ys"
      by (simp only: PList shape.simps pyval.inject map_eq_iff_rel)
    also have "\<dots> \<longleftrightarrow> list_all2 (similar field) xs ys" using List by (intro list.rel_cong refl) auto
    finally show ?thesis by (simp add: PList)
  next
    case (PStr s)
    then show ?thesis by simp
  qed simp_all
next
  case (Str field s)
  show ?case
  proof (cases w)
    case (PDict lvs)
    then show ?thesis using shape_dict_not_text [of field lvs s, symmetric] by (simp del: shape.simps(1)) simp
  next
    case (PStr t)
    then show ?thesis by (simp add: text_shape_eq)
  qed simp_all
next
  case (None field)
  then show ?case by (cases w) auto
next
  case (Bool field b)
  then show ?case by (cases w) auto
next
  case (Int field b)
  then show ?case by (cases w) auto
next
  case (Float field b)
  then show ?case by (cases w) auto
qed

section \<open>Requests of one shape\<close>

lemma insort_key_map_value:
  "insort_key fst (fst x, g x) (map (\<lambda>kv. (fst kv, g kv)) ys) = map (\<lambda>kv. (fst kv, g kv)) (insort_key fst x ys)"
  by (induction ys) auto

lemma sort_key_map_value:
  "sort_key fst (map (\<lambda>kv. (fst kv, g kv)) kvs) = map (\<lambda>kv. (fst kv, g kv)) (sort_key fst kvs)"
  by (induction kvs) (simp_all add: insort_key_map_value)

lemma canon_PDict: "canon (PDict kvs) = PDict (sort_key fst (map (\<lambda>kv. (fst kv, canon (snd kv))) kvs))"
  by (simp add: sort_key_map_value)

lemma canon_text_shape: "canon (text_shape s) = text_shape s"
  by (simp add: text_shape_def inline_data_shape_def Let_def sort_key_def insort_key_def)

lemma shape_canon: "shape field (canon v) = canon (shape field v)"
proof (induction v arbitrary: field rule: canon.induct [case_names List Dict None Bool Int Float Str])
  case (List xs)
  then show ?case by simp
next
  case (Dict kvs)
  have "map ((\<lambda>kv. (fst kv, shape (Some (fst kv)) (snd kv))) \<circ> (\<lambda>kv. (fst kv, canon (snd kv)))) (sort_key fst kvs) =
      map ((\<lambda>kv. (fst kv, canon (snd kv))) \<circ> (\<lambda>kv. (fst kv, shape (Some (fst kv)) (snd kv)))) (sort_key fst kvs)"
    using Dict by simp
  then show ?case by (simp only: canon.simps shape.simps map_map sort_key_map_value)
next
  case (Str s)
  then show ?case by (simp add: canon_text_shape)
qed simp_all

definition payload_fields :: "pyval \<Rightarrow> dict" where
  "payload_fields v = filter (\<lambda>kv. fst kv \<in> set PAYLOAD_KEYS) (fields_of v)"

definition configuration_fields :: "pyval \<Rightarrow> dict" where
  "configuration_fields v = filter (\<lambda>kv. fst kv \<notin> set PAYLOAD_KEYS) (fields_of v)"

text \<open>The same configuration, and similar payloads.\<close>

definition similar_requests :: "pyval \<Rightarrow> pyval \<Rightarrow> bool" where
  "similar_requests a b \<longleftrightarrow>
     configuration_fields a = configuration_fields b \<and>
     list_all2 (\<lambda>kv lv. fst kv = fst lv \<and> similar None (snd kv) (snd lv)) (payload_fields a) (payload_fields b)"

lemma fields_canon:
  "fields_of (canon v) = map (\<lambda>kv. (fst kv, canon (snd kv))) (sort_key fst (fields_of v))"
  by (cases v) simp_all

lemma filter_canon_fields:
  "filter (\<lambda>kv. P (fst kv)) (fields_of (canon v)) =
     map (\<lambda>kv. (fst kv, canon (snd kv))) (sort_key fst (filter (\<lambda>kv. P (fst kv)) (fields_of v)))"
  by (simp add: fields_canon filter_map filter_sort comp_def)

lemma canon_request_shape:
  "canon (request_shape v) =
     PDict [(''configuration'', PDict (configuration_fields (canon v))),
            (''payload'', PDict (map (\<lambda>kv. (fst kv, shape None (snd kv))) (payload_fields (canon v))))]"
proof -
  have "canon (PDict (map (\<lambda>kv. (fst kv, shape None (snd kv))) (payload_fields v))) =
      PDict (map (\<lambda>kv. (fst kv, shape None (snd kv))) (payload_fields (canon v)))"
    by (simp add: payload_fields_def filter_canon_fields [of "\<lambda>k. k \<in> set PAYLOAD_KEYS"] sort_key_map_value comp_def shape_canon)
  moreover have "canon (PDict (configuration_fields v)) = PDict (configuration_fields (canon v))"
    by (simp add: configuration_fields_def filter_canon_fields [of "\<lambda>k. k \<notin> set PAYLOAD_KEYS"])
  ultimately show ?thesis
    by (simp add: request_shape_def payload_fields_def [symmetric] configuration_fields_def [symmetric]
        sort_key_def insort_key_def)
qed

text \<open>
  C22: The shapes of two requests have the same canonical text, which is what their digests are taken of,
  exactly when the requests have equal configurations and payloads that differ only in free texts of
  one size class and in inline data of one media type, whatever the order of their keys.
\<close>

theorem shapes_agree_iff_similar:
  assumes "float_text_ok h"
  shows "canonical_json h (request_shape a) = canonical_json h (request_shape b) \<longleftrightarrow>
    similar_requests (canon a) (canon b)"
proof -
  have "canonical_json h (request_shape a) = canonical_json h (request_shape b) \<longleftrightarrow>
      canon (request_shape a) = canon (request_shape b)"
    by (rule canonical_json_eq [OF assms])
  also have "\<dots> \<longleftrightarrow> configuration_fields (canon a) = configuration_fields (canon b) \<and>
      map (\<lambda>kv. (fst kv, shape None (snd kv))) (payload_fields (canon a)) =
      map (\<lambda>kv. (fst kv, shape None (snd kv))) (payload_fields (canon b))"
    by (simp add: canon_request_shape)
  also have "\<dots> \<longleftrightarrow> similar_requests (canon a) (canon b)"
    unfolding similar_requests_def map_eq_iff_rel by (simp add: shape_eq_iff)
  finally show ?thesis .
qed

text \<open>A prompt of another run of the same size class, and one that is much longer.\<close>

definition sample_chat :: "string \<Rightarrow> pyval" where
  "sample_chat prompt = PDict [(''model'', PStr ''m''), (''messages'', PList
     [PDict [(''role'', PStr ''user''), (''content'', PStr prompt)]])]"

theorem shapes_agree_iff_similar_witness:
  "canonical_json plain_host (request_shape (sample_chat ''run-1'')) =
     canonical_json plain_host (request_shape (sample_chat ''run-23'')) \<and>
   canonical_json plain_host (request_shape (sample_chat ''run-1'')) \<noteq>
     canonical_json plain_host (request_shape (sample_chat ''a much longer prompt''))"
proof -
  have "similar_requests (canon (sample_chat ''run-1'')) (canon (sample_chat ''run-23''))"
    "\<not> similar_requests (canon (sample_chat ''run-1'')) (canon (sample_chat ''a much longer prompt''))"
    by code_simp+
  then show ?thesis unfolding shapes_agree_iff_similar [OF plain_host_float_text_ok] by blast
qed

section \<open>The first difference\<close>

lemma sort_key_distinct_eq:
  fixes kvs lvs :: dict
  assumes "distinct (map fst kvs)" and "distinct (map fst lvs)"
  shows "sort_key fst kvs = sort_key fst lvs \<longleftrightarrow> set kvs = set lvs"
proof
  assume "sort_key fst kvs = sort_key fst lvs"
  then show "set kvs = set lvs" by (metis set_sort)
next
  assume same: "set kvs = set lvs"
  have inj: "inj_on fst (set (sort_key fst kvs) \<union> set (sort_key fst lvs))"
    using assms(1) same by (simp add: distinct_map)
  have "distinct (map fst (sort_key fst xs))" if "distinct (map fst xs)" for xs :: "dict"
    using that by (simp add: distinct_map)
  then show "sort_key fst kvs = sort_key fst lvs"
    using map_sorted_distinct_set_unique [OF inj] assms same by simp
qed

lemma canon_dict_eq:
  assumes "distinct (map fst kvs)" and "distinct (map fst lvs)"
  shows "canon (PDict kvs) = canon (PDict lvs) \<longleftrightarrow>
    set (map fst kvs) = set (map fst lvs) \<and>
    (\<forall>k v w. map_of kvs k = Some v \<longrightarrow> map_of lvs k = Some w \<longrightarrow> canon v = canon w)"
proof -
  let ?c = "map (\<lambda>kv. (fst kv, canon (snd kv)))"
  have keys: "map fst (?c xs) = map fst xs" for xs :: dict by simp
  have "canon (PDict kvs) = canon (PDict lvs) \<longleftrightarrow> sort_key fst (?c kvs) = sort_key fst (?c lvs)"
    by (simp only: canon_PDict pyval.inject)
  also have "\<dots> \<longleftrightarrow> set (?c kvs) = set (?c lvs)"
    using assms by (intro sort_key_distinct_eq) (simp_all only: keys)
  also have "\<dots> \<longleftrightarrow> map_of (?c kvs) = map_of (?c lvs)"
    using assms map_of_inject_set [of "?c kvs" "?c lvs"] by (simp only: keys)
  also have "\<dots> \<longleftrightarrow> (\<forall>k. map_option canon (map_of kvs k) = map_option canon (map_of lvs k))"
  proof -
    have "map_of (?c xs) k = map_option canon (map_of xs k)" for xs :: dict and k by (induction xs) auto
    then show ?thesis by (simp add: fun_eq_iff)
  qed
  also have "\<dots> \<longleftrightarrow> set (map fst kvs) = set (map fst lvs) \<and>
      (\<forall>k v w. map_of kvs k = Some v \<longrightarrow> map_of lvs k = Some w \<longrightarrow> canon v = canon w)"
  proof -
    have one: "map_option canon x = map_option canon y \<longleftrightarrow> (x = None \<longleftrightarrow> y = None) \<and>
        (\<forall>v w. x = Some v \<longrightarrow> y = Some w \<longrightarrow> canon v = canon w)" for x y
      by (cases x; cases y) auto
    have keys: "(\<forall>k. map_of kvs k = None \<longleftrightarrow> map_of lvs k = None) \<longleftrightarrow> set (map fst kvs) = set (map fst lvs)"
      by (auto simp: map_of_eq_None_iff set_eq_iff)
    show ?thesis unfolding one all_conj_distrib keys ..
  qed
  finally show ?thesis .
qed

lemma canon_type: "type_name v \<noteq> type_name w \<Longrightarrow> canon v \<noteq> canon w"
  by (cases v; cases w) auto

lemma wf_field: "wf_val (PDict kvs) \<Longrightarrow> map_of kvs k = Some v \<Longrightarrow> wf_val v"
  by (fastforce simp: list_all_iff dest: map_of_SomeD)

definition atomic :: "pyval \<Rightarrow> bool" where
  "atomic v \<longleftrightarrow> \<not> is_dict v \<and> \<not> is_list v"

lemma atomic_difference:
  assumes "type_name v = type_name w" and "atomic v"
  shows "first_shape_difference h v w path = None \<longleftrightarrow> canon v = canon w"
proof -
  have "canon v = v" "canon w = w" using assms by (cases v; cases w; simp add: atomic_def)+
  moreover have "first_shape_difference h v w path = None \<longleftrightarrow> v = w"
    using assms by (subst first_shape_difference.simps) (cases v; simp add: atomic_def)
  ultimately show ?thesis by simp
qed

lemma set_zip_numbered:
  "length xs = length ys \<Longrightarrow>
   set (zip [0..<length xs] (zip xs ys)) = (\<lambda>i. (i, xs ! i, ys ! i)) ` {..<length xs}"
  by (force simp: set_zip)

lemma first_difference_canon:
  "wf_val v \<Longrightarrow> wf_val w \<Longrightarrow> first_shape_difference h v w path = None \<longleftrightarrow> canon v = canon w"
proof (induction h v w path rule: first_shape_difference.induct)
  case (1 h v w path)
  show ?case
  proof (cases "type_name v = type_name w")
    case False
    then show ?thesis using canon_type [OF False] by (simp add: first_shape_difference.simps [of h v])
  next
    case same: True
    show ?thesis
    proof (cases v)
      case (PDict kvs)
      then obtain lvs where w: "w = PDict lvs" using same by (cases w) auto
      have d: "distinct (map fst kvs)" "distinct (map fst lvs)" using "1.prems" PDict w by simp_all
      show ?thesis
      proof (cases "set (map fst kvs) = set (map fst lvs)")
        case False
        then show ?thesis
          using canon_dict_eq [OF d] unfolding PDict w
          by (simp add: first_shape_difference.simps [of h "PDict kvs"] del: canon.simps)
      next
        case keys: True
        have step: "(case map_of kvs k of
              Some x \<Rightarrow> (case map_of lvs k of
                Some y \<Rightarrow> first_shape_difference h x y (path @ ''.'' @ k) | None \<Rightarrow> None)
            | None \<Rightarrow> None) = None \<longleftrightarrow>
            (\<forall>x y. map_of kvs k = Some x \<longrightarrow> map_of lvs k = Some y \<longrightarrow> canon x = canon y)"
          if k: "k \<in> set (map fst kvs)" for k
        proof -
          obtain x y where xy: "map_of kvs k = Some x" "map_of lvs k = Some y"
            using k keys by (metis map_of_eq_None_iff not_None_eq set_map)
          have "wf_val x" "wf_val y" using wf_field xy "1.prems" PDict w by blast+
          then have "first_shape_difference h x y (path @ ''.'' @ k) = None \<longleftrightarrow> canon x = canon y"
            using "1.IH"(2) [of kvs lvs k x y] same PDict w keys k xy by simp
          then show ?thesis by (simp add: xy)
        qed
        have "first_shape_difference h v w path = None \<longleftrightarrow>
            (\<forall>k \<in> set (map fst kvs). \<forall>x y. map_of kvs k = Some x \<longrightarrow> map_of lvs k = Some y \<longrightarrow> canon x = canon y)"
          using step keys unfolding PDict w
          by (simp add: first_shape_difference.simps [of h "PDict kvs"] first_some_None)
        also have "\<dots> \<longleftrightarrow> (\<forall>k x y. map_of kvs k = Some x \<longrightarrow> map_of lvs k = Some y \<longrightarrow> canon x = canon y)"
          by (metis map_of_eq_None_iff option.discI set_map)
        finally show ?thesis using canon_dict_eq [OF d] keys unfolding PDict w by simp
      qed
    next
      case (PList xs)
      then obtain ys where w: "w = PList ys" using same by (cases w) auto
      show ?thesis
      proof (cases "length xs = length ys")
        case False
        then have "map canon xs \<noteq> map canon ys" by (metis length_map)
        with False show ?thesis unfolding PList w by (simp add: first_shape_difference.simps [of h "PList xs"])
      next
        case len: True
        have "first_shape_difference h v w path = None \<longleftrightarrow>
            (\<forall>i < length xs. first_shape_difference h (xs ! i) (ys ! i) (path @ ''['' @ nat_str i @ '']'') = None)"
          unfolding PList w by (auto simp: first_shape_difference.simps [of h "PList xs"] first_some_None len set_zip_numbered [OF len, unfolded len])
        also have "\<dots> \<longleftrightarrow> (\<forall>i < length xs. canon (xs ! i) = canon (ys ! i))"
        proof -
          have "first_shape_difference h (xs ! i) (ys ! i) (path @ ''['' @ nat_str i @ '']'') = None \<longleftrightarrow>
              canon (xs ! i) = canon (ys ! i)" if i: "i < length xs" for i
          proof -
            have mem: "(i, xs ! i, ys ! i) \<in> set (zip [0..<length xs] (zip xs ys))"
              using i by (simp add: set_zip_numbered [OF len])
            have "wf_val (xs ! i)" "wf_val (ys ! i)" using "1.prems" i len PList w by (auto simp: list_all_length)
            then show ?thesis
              using "1.IH"(1) [of xs ys "(i, xs ! i, ys ! i)" i "(xs ! i, ys ! i)" "xs ! i" "ys ! i"] same PList w len mem
              by simp
          qed
          then show ?thesis by simp
        qed
        also have "\<dots> \<longleftrightarrow> canon v = canon w" unfolding PList w by (simp add: list_eq_iff_nth_eq len)
        finally show ?thesis .
      qed
    qed (rule atomic_difference [OF same], simp add: atomic_def)+
  qed
qed

text \<open>
  The explanation of a drift names a difference exactly when the canonical texts of the shapes, and
  so what their digests are taken of, differ; the fallback text for differing digests is never needed.
\<close>

theorem drift_is_always_explained:
  assumes "float_text_ok h" and "wf_val v" and "wf_val w"
  shows "first_shape_difference h v w path = None \<longleftrightarrow> canonical_json h v = canonical_json h w"
  unfolding canonical_json_eq [OF assms(1)] by (rule first_difference_canon [OF assms(2,3)])

theorem drift_is_always_explained_witness:
  "first_shape_difference plain_host (PDict [(''a'', PInt 1)]) (PDict [(''a'', PInt 2)]) ''$'' \<noteq> None"
proof -
  have "canonical_json plain_host (PDict [(''a'', PInt 1)]) \<noteq> canonical_json plain_host (PDict [(''a'', PInt 2)])"
    by code_simp
  then show ?thesis
    using drift_is_always_explained [OF plain_host_float_text_ok, of "PDict [(''a'', PInt 1)]" "PDict [(''a'', PInt 2)]" "''$''"]
    by simp
qed

end
