(* ===== verification/Replay_Control.thy ===== *)
theory Replay_Control
  imports Util
begin

text \<open>
  replay_control.py: the marker files that say that a session has consumed its recorded prefix.  The
  files under the run dir that exist are a set of paths.
\<close>

definition SESSION_PREFIX_SCHEMA :: string where
  "SESSION_PREFIX_SCHEMA = ''minireplay.session-prefix-consumed/v1''"

definition session_prefix_marker :: "host \<Rightarrow> string \<Rightarrow> string \<Rightarrow> string \<Rightarrow> string" where
  "session_prefix_marker h run_root actor_id session_id =
     (let digest = sha256_json h (PDict [(''actor_id'', PStr actor_id), (''session_id'', PStr session_id)])
      in run_root @ ''/session-prefix-consumed/'' @ digest @ ''.json'')"

text \<open>The content that is written, and the write.\<close>

definition session_prefix_content :: "string \<Rightarrow> string \<Rightarrow> pyval" where
  "session_prefix_content actor_id session_id =
     PDict [(''schema_version'', PStr SESSION_PREFIX_SCHEMA), (''actor_id'', PStr actor_id),
            (''session_id'', PStr session_id)]"

definition mark_session_prefix_consumed ::
    "host \<Rightarrow> string \<Rightarrow> string \<Rightarrow> string \<Rightarrow> (string \<times> pyval) list \<Rightarrow> (string \<times> pyval) list" where
  "mark_session_prefix_consumed h run_root actor_id session_id files =
     AList.update (session_prefix_marker h run_root actor_id session_id)
       (session_prefix_content actor_id session_id) files"

definition session_prefix_consumed :: "host \<Rightarrow> string \<Rightarrow> string \<Rightarrow> string \<Rightarrow> (string \<times> pyval) list \<Rightarrow> bool" where
  "session_prefix_consumed h run_root actor_id session_id files \<longleftrightarrow>
     map_of files (session_prefix_marker h run_root actor_id session_id) \<noteq> None"

lemma marker_inject:
  assumes "inj (sha256_hex h)" and "float_text_ok h"
    and "session_prefix_marker h dir a s = session_prefix_marker h dir b t"
  shows "a = b \<and> s = t"
proof -
  have "sha256_json h (PDict [(''actor_id'', PStr a), (''session_id'', PStr s)]) =
      sha256_json h (PDict [(''actor_id'', PStr b), (''session_id'', PStr t)])"
    using assms(3) by (simp add: session_prefix_marker_def Let_def)
  then have "canonical_json h (PDict [(''actor_id'', PStr a), (''session_id'', PStr s)]) =
      canonical_json h (PDict [(''actor_id'', PStr b), (''session_id'', PStr t)])"
    using assms(1) by (simp add: sha256_json_def inj_eq)
  then have "canon (PDict [(''actor_id'', PStr a), (''session_id'', PStr s)]) =
      canon (PDict [(''actor_id'', PStr b), (''session_id'', PStr t)])"
    unfolding canonical_json_eq [OF assms(2)] .
  then show ?thesis by (simp add: sort_key_def insort_key_def split: if_splits)
qed

text \<open>
  With digests that do not collide, a session is marked exactly when that session was marked: the
  marker of one session says nothing of another one.
\<close>

theorem marker_names_one_session:
  assumes "inj (sha256_hex h)" and "float_text_ok h"
  shows "session_prefix_consumed h dir b t (mark_session_prefix_consumed h dir a s files) \<longleftrightarrow>
    (a = b \<and> s = t) \<or> session_prefix_consumed h dir b t files"
  using marker_inject [OF assms, of dir a s b t]
  by (auto simp: session_prefix_consumed_def mark_session_prefix_consumed_def update_conv')

theorem marker_names_one_session_witness:
  "session_prefix_consumed plain_host ''/run'' ''a1'' ''s1'' (mark_session_prefix_consumed plain_host ''/run'' ''a1'' ''s1'' []) \<and>
   \<not> session_prefix_consumed plain_host ''/run'' ''a1'' ''s2'' (mark_session_prefix_consumed plain_host ''/run'' ''a1'' ''s1'' [])"
proof -
  have "inj (sha256_hex plain_host)" by (simp add: plain_host_def inj_def)
  from marker_names_one_session [OF this plain_host_float_text_ok] show ?thesis
    by (simp add: session_prefix_consumed_def)
qed

end
