(* ===== verification/Llm_Store.thy ===== *)
theory Llm_Store
  imports Llm_Shape Forced Replay_Control Schema
begin

text \<open>
  llm_store.py, the store: its state, the claim of a recorded attempt, recording with its streams, the
  two ways of replay, and the accounting.

  What the store does not decide itself comes in as an argument: the identifiers and clock readings of
  a call, what the upstream engine and the client's connection do, and the audits.  \<open>audit_path\<close> given
  or not is \<open>ls_has_audit\<close>; the ledger files are the lists of the records appended to them.
\<close>

section \<open>State\<close>

type_synonym llm_key = "string \<times> string \<times> string"

record request_identity =
  id_actor :: string
  id_session :: string
  id_role :: string
  id_target :: string
  id_parent_span :: "string option"

definition identity_key :: "request_identity \<Rightarrow> llm_key" where
  "identity_key i = (id_actor i, id_session i, id_role i)"

text \<open>The headers are looked up by name; a missing one has a default.\<close>

definition identity_of_headers :: "(string \<Rightarrow> string option) \<Rightarrow> request_identity" where
  "identity_of_headers headers =
     (let get = (\<lambda>name default. case headers name of None \<Rightarrow> default | Some v \<Rightarrow> v)
      in \<lparr>id_actor = get ''X-Native-Replay-Actor'' ''unknown'',
          id_session = get ''X-Native-Replay-Session'' ''unknown'',
          id_role = get ''X-Native-Replay-Role'' ''agent'',
          id_target = get ''X-Native-Replay-Target'' ''default'',
          id_parent_span = headers ''X-Native-Replay-Parent-Span''\<rparr>)"

record llm_store =
  ls_replaying :: bool
  ls_replay_mode :: string
  ls_run_root :: string
  ls_upstreams :: "(string \<times> string) list"
  ls_secret :: "string option"
  ls_has_audit :: bool
  ls_namespace :: "string option"
  ls_failure :: "string option"
  ls_catalogue :: "(string \<times> pyval) list"
  ls_record_sequence :: "llm_key \<Rightarrow> nat"
  ls_replay_sequence :: "llm_key \<Rightarrow> nat"
  ls_queues :: "(llm_key \<times> pyval list) list"
  ls_call_index :: "(string \<times> string) list"
  ls_consumed :: nat
  ls_completed :: "string set"
  ls_delivered :: "string set"
  ls_inflight :: "(string \<times> dict) list"
  ls_truncated :: "string set"
  ls_truncated_elapsed :: "(string \<times> int) list"
  ls_truncated_started :: "(string \<times> int) list"
  ls_cutoff :: "int option"
  ls_llm_file :: "pyval list"
  ls_span_file :: "pyval list"
  ls_tail_file :: "pyval list"
  ls_markers :: "(string \<times> pyval) list"

definition REPLAY_MODES :: "string list" where
  "REPLAY_MODES = [''tool-only'', ''full'', ''llm-only'']"

definition FORCED_REPLAY_MODES :: "string list" where
  "FORCED_REPLAY_MODES = [''full'', ''llm-only'']"

text \<open>\<open>str(record["attempt_id"])\<close>; every record of a validated bundle has one.\<close>

definition attempt_of :: "host \<Rightarrow> pyval \<Rightarrow> string" where
  "attempt_of h r = py_str h (pget r ''attempt_id'')"

definition llm_queue :: "llm_store \<Rightarrow> llm_key \<Rightarrow> pyval list" where
  "llm_queue st key = (case map_of (ls_queues st) key of None \<Rightarrow> [] | Some q \<Rightarrow> q)"

text \<open>\<open>self._expected.setdefault(key, []).append(record)\<close>, then each queue by its sequence numbers.\<close>

definition record_key :: "pyval \<Rightarrow> llm_key" where
  "record_key r = (str_of (pget r ''actor_id''), str_of (pget r ''session_id''), str_of (pget r ''role''))"

definition queue_record :: "pyval \<Rightarrow> (llm_key \<times> pyval list) list \<Rightarrow> (llm_key \<times> pyval list) list" where
  "queue_record r qs =
     AList.update (record_key r)
       ((case map_of qs (record_key r) of None \<Rightarrow> [] | Some q \<Rightarrow> q) @ [r]) qs"

definition sequence_of :: "pyval \<Rightarrow> int" where
  "sequence_of r = int_of (pget r ''sequence'')"

definition load_queues :: "pyval list \<Rightarrow> (llm_key \<times> pyval list) list" where
  "load_queues records =
     map (\<lambda>(key, q). (key, sort_key sequence_of q)) (fold queue_record records [])"

text \<open>A bundle is given by its manifest and its LLM records.\<close>

definition new_llm_store ::
    "string \<Rightarrow> string \<Rightarrow> string \<Rightarrow> (string \<times> string) list \<Rightarrow> (pyval \<times> pyval list) option \<Rightarrow>
     string option \<Rightarrow> bool \<Rightarrow> string option \<Rightarrow> llm_store res" where
  "new_llm_store mode replay_mode run_root upstreams bundle secret has_audit namespace =
     bindR (checks [require (mode \<in> {''record'', ''replay''}) ''invalid LLM store mode'',
                    require (replay_mode \<in> set REPLAY_MODES) ''invalid replay mode'']) (\<lambda>_.
       let recorded = (case bundle of None \<Rightarrow> PNone | Some (manifest, _) \<Rightarrow> pget manifest ''llm_models'')
       in Inr \<lparr>ls_replaying = (mode = ''replay''), ls_replay_mode = replay_mode, ls_run_root = run_root,
               ls_upstreams = upstreams, ls_secret = secret, ls_has_audit = has_audit, ls_namespace = namespace,
               ls_failure = None, ls_catalogue = fields_of recorded,
               ls_record_sequence = (\<lambda>_. 0), ls_replay_sequence = (\<lambda>_. 0),
               ls_queues = (case bundle of None \<Rightarrow> [] | Some (_, records) \<Rightarrow> load_queues records),
               ls_call_index = [], ls_consumed = 0, ls_completed = {}, ls_delivered = {},
               ls_inflight = [], ls_truncated = {}, ls_truncated_elapsed = [], ls_truncated_started = [],
               ls_cutoff = None, ls_llm_file = [], ls_span_file = [], ls_tail_file = [], ls_markers = []\<rparr>)"

section \<open>The index of model calls\<close>

definition attempt_for_call :: "llm_store \<Rightarrow> pyval \<Rightarrow> string option" where
  "attempt_for_call st v = (if is_str v then map_of (ls_call_index st) (str_of v) else None)"

text \<open>\<open>dict.setdefault\<close>: an identifier keeps the attempt that emitted it first.\<close>

definition set_default :: "string \<Rightarrow> string \<Rightarrow> (string \<times> string) list \<Rightarrow> (string \<times> string) list" where
  "set_default k v m = (case map_of m k of None \<Rightarrow> m @ [(k, v)] | Some _ \<Rightarrow> m)"

text \<open>The call identifiers that one object of a response declares.\<close>

definition declared_calls :: "pyval \<Rightarrow> string list" where
  "declared_calls item =
     (let call_id = pget item ''id'' in
      (if is_str call_id \<and> pget item ''type'' \<in> {PStr ''function'', PStr ''tool_call''} then [str_of call_id] else []) @
      map (\<lambda>call. str_of (pget call ''id''))
        (filter (\<lambda>call. is_dict call \<and> is_str (pget call ''id'')) (items_of (pget item ''tool_calls''))))"

fun visit_calls :: "pyval \<Rightarrow> string list" where
  "visit_calls (PDict kvs) = declared_calls (PDict kvs) @ concat (map (\<lambda>kv. visit_calls (snd kv)) kvs)"
| "visit_calls (PList xs) = concat (map visit_calls xs)"
| "visit_calls v = []"

definition index_model_calls :: "string \<Rightarrow> pyval \<Rightarrow> llm_store \<Rightarrow> llm_store" where
  "index_model_calls attempt_id response st =
     st\<lparr>ls_call_index := fold (\<lambda>call. set_default call attempt_id) (visit_calls response) (ls_call_index st)\<rparr>"

section \<open>The claim\<close>

text \<open>The predicates that the services install: of the whole run, and of one actor.\<close>

record run_progress =
  rp_run_complete :: bool
  rp_actor_complete :: "string \<Rightarrow> bool"

definition llm_lane_complete :: "host \<Rightarrow> llm_store \<Rightarrow> llm_key \<Rightarrow> bool" where
  "llm_lane_complete h st key \<longleftrightarrow>
     llm_queue st key \<noteq> [] \<and> list_all (\<lambda>r. attempt_of h r \<in> ls_delivered st) (llm_queue st key)"

definition same_projection :: "pyval option \<Rightarrow> pyval option \<Rightarrow> bool" where
  "same_projection a b \<longleftrightarrow> (case (a, b) of (Some v, Some w) \<Rightarrow> py_eq v w | _ \<Rightarrow> False)"

definition document_shape :: "request_identity \<Rightarrow> pyval \<Rightarrow> pyval option" where
  "document_shape identity body =
     (if id_role identity = ''document'' then live_document_request_shape body else None)"

text \<open>Whether a request may take the recorded slot.\<close>

definition request_matches :: "host \<Rightarrow> request_identity \<Rightarrow> pyval \<Rightarrow> pyval \<Rightarrow> bool" where
  "request_matches h identity want body \<longleftrightarrow>
     pget want ''request_shape_sha256'' = PStr (sha256_json h (request_shape body)) \<or>
     same_projection (live_multimodal_request_shape (pget want ''request'')) (live_multimodal_request_shape body) \<or>
     same_projection (document_shape identity (pget want ''request'')) (document_shape identity body)"

definition difference_text :: "string option \<Rightarrow> string \<Rightarrow> string" where
  "difference_text d otherwise = (case d of None \<Rightarrow> otherwise | Some t \<Rightarrow> t)"

definition add_projection :: "host \<Rightarrow> string \<Rightarrow> pyval option \<Rightarrow> pyval option \<Rightarrow> string \<Rightarrow> string" where
  "add_projection h name a b text =
     (case (a, b) of
        (Some v, Some w) \<Rightarrow>
          text @ ''; '' @ name @ '' projection: '' @ difference_text (first_shape_difference h v w ''$'') ''matched''
      | _ \<Rightarrow> text)"

text \<open>The explanation that the error message ends with.\<close>

definition drift_text :: "host \<Rightarrow> request_identity \<Rightarrow> pyval \<Rightarrow> pyval \<Rightarrow> string" where
  "drift_text h identity want body =
     (let recorded = pget want ''request'';
          shape_text = difference_text
            (first_shape_difference h (request_shape recorded) (request_shape body) ''$'') ''shape hashes differ'';
          live_text = add_projection h ''live multimodal'' (live_multimodal_request_shape recorded)
            (live_multimodal_request_shape body) shape_text
      in add_projection h ''live document'' (document_shape identity recorded) (document_shape identity body) live_text)"

definition llm_claim ::
    "host \<Rightarrow> run_progress \<Rightarrow> request_identity \<Rightarrow> pyval \<Rightarrow> string \<Rightarrow> (llm_store, pyval) op" where
  "llm_claim h p identity body api st =
     (let key = identity_key identity; queue = llm_queue st key; sequence = ls_replay_sequence st key in
      if length queue \<le> sequence then
        (let lane = llm_lane_complete h st key;
             st' = (if lane
                    then st\<lparr>ls_markers := mark_session_prefix_consumed h (ls_run_root st) (id_actor identity)
                           (id_session identity) (ls_markers st)\<rparr>
                    else st)
         in (Inl (if rp_run_complete p \<or> rp_actor_complete p (id_actor identity) \<or> lane
                  then WorkloadComplete ''LLM request arrived after the recorded window closed''
                  else MismatchError ''unexpected LLM request''), st'))
      else
        (let want = queue ! sequence in
         if \<not> py_eq (pget want ''api'') (PStr api) then (Inl (MismatchError ''LLM API drift''), st)
         else if \<not> request_matches h identity want body
           then (Inl (MismatchError (''LLM request drift: first difference: '' @ drift_text h identity want body)), st)
         else (Inr want, st\<lparr>ls_replay_sequence := (ls_replay_sequence st)(key := sequence + 1)\<rparr>)))"

section \<open>Upstreams and models\<close>

definition upstream_url :: "llm_store \<Rightarrow> request_identity \<Rightarrow> string res" where
  "upstream_url st identity =
     (case map_of (ls_upstreams st) (id_target identity) of
        None \<Rightarrow> Inl (MismatchError ''no vLLM upstream is configured for the target'')
      | Some url \<Rightarrow> Inr (rstrip_char (CHR ''/'') url))"

datatype llm_reply =
    LlmHeld
  | LlmJson int pyval
  | LlmStream int "string list"
  | LlmError int string

text \<open>The answer of a client that asks what a target serves; \<open>answer\<close> is what the engine answered.\<close>

definition handle_models :: "request_identity \<Rightarrow> int \<times> pyval \<Rightarrow> (llm_store, llm_reply) op" where
  "handle_models identity answer st =
     (if ls_replaying st \<and> ls_replay_mode st = ''tool-only'' then
        (case map_of (ls_catalogue st) (id_target identity) of
           None \<Rightarrow>
             (let m = ''replay asked a target what it serves, but the recording never did''
              in (Inr (LlmError 409 m), st\<lparr>ls_failure := Some m\<rparr>))
         | Some v \<Rightarrow>
             if v = PNone then
               (let m = ''replay asked a target what it serves, but the recording never did''
                in (Inr (LlmError 409 m), st\<lparr>ls_failure := Some m\<rparr>))
             else (Inr (LlmJson 200 v), st))
      else case upstream_url st identity of
        Inl e \<Rightarrow>
          (let m = ''no vLLM upstream is configured for the target''
           in (Inr (LlmError 409 m), st\<lparr>ls_failure := Some m\<rparr>))
      | Inr _ \<Rightarrow>
          (Inr (LlmJson (fst answer) (snd answer)),
           if \<not> ls_replaying st \<and> fst answer = 200
           then st\<lparr>ls_catalogue := AList.update (id_target identity) (snd answer) (ls_catalogue st)\<rparr> else st))"

section \<open>Recording\<close>

text \<open>The identifiers and the clock reading of one recorded call.\<close>

record call_ids =
  ci_attempt :: string
  ci_span :: string
  ci_started :: int

definition capture_arguments :: "host \<Rightarrow> string \<Rightarrow> string \<Rightarrow> dict" where
  "capture_arguments h secret request_id =
     [(''native_replay_capture_id'', PStr request_id),
      (''native_replay_capture_signature'', PStr (forced_sign_capture h secret request_id))]"

definition record_upstream_body :: "host \<Rightarrow> llm_store \<Rightarrow> string \<Rightarrow> pyval \<Rightarrow> string \<Rightarrow> pyval res" where
  "record_upstream_body h st attempt_id body api =
     (let asked = (if api = ''chat.completions'' then pset ''return_token_ids'' (PBool True) body
                   else pset ''enable_response_messages'' (PBool True) body)
      in case ls_secret st of
           Some secret \<Rightarrow>
             if ls_has_audit st then
               bindR (py_dict (py_or (pget asked ''vllm_xargs'') (PDict []))) (\<lambda>xargs.
                 Inr (pset ''vllm_xargs'' (PDict (pmerge xargs (capture_arguments h secret
                        (replay_audit_request_id h (ls_namespace st) attempt_id)))) asked))
             else Inr asked
         | None \<Rightarrow> Inr asked)"

definition inflight_entry ::
    "host \<Rightarrow> call_ids \<Rightarrow> request_identity \<Rightarrow> pyval \<Rightarrow> string \<Rightarrow> nat \<Rightarrow> dict" where
  "inflight_entry h ids identity body api sequence =
     [(''cutoff_truncated'', PBool True),
      (''attempt_id'', PStr (ci_attempt ids)),
      (''span_id'', PStr (ci_span ids)),
      (''actor_id'', PStr (id_actor identity)),
      (''session_id'', PStr (id_session identity)),
      (''role'', PStr (id_role identity)),
      (''target_id'', PStr (id_target identity)),
      (''api'', PStr api),
      (''sequence'', PInt (int sequence)),
      (''request'', body),
      (''request_sha256'', PStr (sha256_json h body)),
      (''request_shape_sha256'', PStr (sha256_json h (request_shape body))),
      (''started_at_ns'', PInt (ci_started ids))]"

text \<open>Up to the request to the engine: what is sent to it, and the sequence number of the attempt.\<close>

definition begin_record ::
    "host \<Rightarrow> call_ids \<Rightarrow> request_identity \<Rightarrow> pyval \<Rightarrow> string \<Rightarrow> (llm_store, nat \<times> string \<times> pyval) op" where
  "begin_record h ids identity body api st =
     (let key = identity_key identity;
          sequence = ls_record_sequence st key;
          st = st\<lparr>ls_record_sequence := (ls_record_sequence st)(key := sequence + 1)\<rparr>
      in case record_upstream_body h st (ci_attempt ids) body api of
           Inl e \<Rightarrow> (Inl e, st)
         | Inr upstream_body \<Rightarrow>
             (case upstream_url st identity of
                Inl e \<Rightarrow> (Inl e, st)
              | Inr url \<Rightarrow>
                  (Inr (sequence, url @ ''/v1/'' @ (if api = ''chat.completions'' then ''chat/completions'' else ''responses''),
                        upstream_body),
                   st\<lparr>ls_inflight := AList.update (ci_attempt ids)
                        (inflight_entry h ids identity body api sequence) (ls_inflight st)\<rparr>)))"

text \<open>\<open>_capture_engine\<close>; \<open>audit\<close> is what waiting for the capture audit gives.\<close>

definition capture_engine :: "llm_store \<Rightarrow> pyval list \<Rightarrow> pyval res \<Rightarrow> pyval res" where
  "capture_engine st committed audit =
     (if \<not> ls_has_audit st \<or> ls_secret st = None \<or> committed = [] then Inr PNone
      else case audit of
        Inl (MismatchError m) \<Rightarrow> Inl (MismatchError (''capture audit did not arrive: '' @ m))
      | Inl e \<Rightarrow> Inl e
      | Inr v \<Rightarrow> engine_evidence v committed)"

definition attempt_record ::
    "host \<Rightarrow> call_ids \<Rightarrow> request_identity \<Rightarrow> nat \<Rightarrow> string \<Rightarrow> pyval \<Rightarrow> pyval \<Rightarrow> bool \<Rightarrow> int \<Rightarrow> found_tokens \<Rightarrow>
     pyval \<Rightarrow> string \<Rightarrow> int \<Rightarrow> pyval" where
  "attempt_record h ids identity sequence api body response stream status tokens engine span_id ended =
     PDict
       [(''schema_version'', PStr LLM_SCHEMA),
        (''attempt_id'', PStr (ci_attempt ids)),
        (''span_id'', PStr span_id),
        (''actor_id'', PStr (id_actor identity)),
        (''session_id'', PStr (id_session identity)),
        (''role'', PStr (id_role identity)),
        (''target_id'', PStr (id_target identity)),
        (''sequence'', PInt (int sequence)),
        (''api'', PStr api),
        (''request'', body),
        (''request_ordered_json'', PStr (ordered_json h body)),
        (''request_sha256'', PStr (sha256_json h body)),
        (''request_shape_sha256'', PStr (sha256_json h (request_shape body))),
        (''response'', response),
        (''stream'', PBool stream),
        (''status_code'', PInt status),
        (''prompt_token_ids'', PList (map PInt (fst tokens))),
        (''response_token_ids'', PList (map PInt (snd tokens))),
        (''engine'', engine),
        (''started_at_ns'', PInt (ci_started ids)),
        (''ended_at_ns'', PInt ended)]"

definition llm_span :: "string \<Rightarrow> pyval \<Rightarrow> string \<Rightarrow> string \<Rightarrow> string \<Rightarrow> int \<Rightarrow> int \<Rightarrow> pyval" where
  "llm_span span_id parent actor role status started ended =
     PDict
       [(''schema_version'', PStr SPAN_SCHEMA),
        (''span_id'', PStr span_id),
        (''parent_span_id'', parent),
        (''actor_id'', PStr actor),
        (''kind'', PStr ''llm''),
        (''name'', PStr (''llm:'' @ role)),
        (''status'', PStr status),
        (''started_at_ns'', PInt started),
        (''ended_at_ns'', PInt ended)]"

definition write_attempt ::
    "host \<Rightarrow> call_ids \<Rightarrow> request_identity \<Rightarrow> nat \<Rightarrow> string \<Rightarrow> pyval \<Rightarrow> pyval \<Rightarrow> bool \<Rightarrow> int \<Rightarrow> found_tokens \<Rightarrow>
     pyval \<Rightarrow> string \<Rightarrow> int \<Rightarrow> llm_store \<Rightarrow> llm_store" where
  "write_attempt h ids identity sequence api body response stream status tokens engine span_id ended st =
     (let st = st\<lparr>ls_inflight := AList.delete (ci_attempt ids) (ls_inflight st)\<rparr> in
      if (case ls_cutoff st of None \<Rightarrow> False | Some c \<Rightarrow> c < ended) then st
      else st\<lparr>ls_llm_file := ls_llm_file st @
                [attempt_record h ids identity sequence api body response stream status tokens engine span_id ended],
              ls_span_file := ls_span_file st @
                [llm_span span_id (opt_str (id_parent_span identity)) (id_actor identity) (id_role identity)
                   (if status < 400 then ''ok'' else ''error'') (ci_started ids) ended],
              ls_consumed := ls_consumed st + 1\<rparr>)"

text \<open>The rest of a call that does not stream: the engine's status and payload, and its audit.\<close>

definition finish_record ::
    "host \<Rightarrow> call_ids \<Rightarrow> request_identity \<Rightarrow> pyval \<Rightarrow> string \<Rightarrow> nat \<Rightarrow> int \<Rightarrow> pyval \<Rightarrow> pyval res \<Rightarrow> string \<Rightarrow> int \<Rightarrow>
     (llm_store, llm_reply) op" where
  "finish_record h ids identity body api sequence status payload audit span_id ended st =
     (let tokens = collect_token_fields payload; clean = strip_token_fields payload in
      case capture_engine st (map PInt (snd tokens)) audit of
        Inl e \<Rightarrow> (Inl e, st)
      | Inr engine \<Rightarrow>
          (Inr (LlmJson status clean),
           index_model_calls (ci_attempt ids) clean
             (write_attempt h ids identity sequence api body clean False status tokens engine span_id ended st)))"

end
