(* ===== verification/Llm_Replay.thy ===== *)
theory Llm_Replay
  imports Llm_Store
begin

text \<open>
  llm_store.py, second part: the recording of a streamed answer, the replay of a recorded attempt, the
  handler that chooses between them, the cutoff and the accounting.

  The client's connection is the number of writes that it still accepts, \<open>None\<close> for a client that
  stays; a write it does not accept raises \<open>ConnectionResetError\<close>.
\<close>

section \<open>Recording a stream\<close>

record stream_run =
  sr_buffer :: string
  sr_chunks :: "pyval list"
  sr_prompt :: "int list"
  sr_output :: "int list"
  sr_complete :: bool
  sr_written :: "string list"
  sr_accepts :: "nat option"

definition new_stream :: "nat option \<Rightarrow> stream_run" where
  "new_stream accepts = \<lparr>sr_buffer = [], sr_chunks = [], sr_prompt = [], sr_output = [], sr_complete = False,
     sr_written = [], sr_accepts = accepts\<rparr>"

definition connection_reset :: err where
  "connection_reset = PyError ''ConnectionResetError''"

definition stream_write :: "string \<Rightarrow> (stream_run, unit) op" where
  "stream_write bytes r =
     (case sr_accepts r of
        Some 0 \<Rightarrow> (Inl connection_reset, r)
      | Some (Suc n) \<Rightarrow> (Inr (), r\<lparr>sr_written := sr_written r @ [bytes], sr_accepts := Some n\<rparr>)
      | None \<Rightarrow> (Inr (), r\<lparr>sr_written := sr_written r @ [bytes]\<rparr>))"

definition done_chunk :: pyval where
  "done_chunk = PDict [(''done'', PBool True)]"

definition payload_chunk :: "pyval \<Rightarrow> pyval" where
  "payload_chunk clean = PDict [(''done'', PBool False), (''payload'', clean)]"

text \<open>\<open>[DONE]\<close>: a client that closed after a terminal payload is fine.\<close>

definition record_done :: "(stream_run, unit) op" where
  "record_done r =
     (case stream_write (encode_sse ''[DONE]'') r of
        (Inl e, r) \<Rightarrow> (if sr_complete r then (Inr (), r) else (Inl e, r))
      | (Inr _, r) \<Rightarrow> (Inr (), r\<lparr>sr_chunks := sr_chunks r @ [done_chunk], sr_complete := True\<rparr>))"

definition record_payload ::
    "host \<Rightarrow> string \<Rightarrow> string \<Rightarrow> pyval \<Rightarrow> (llm_store \<times> stream_run, unit) op" where
  "record_payload h api attempt_id parsed sr =
     (let (st, r) = sr;
          (prompt, result) = collect_token_fields parsed;
          clean = strip_token_fields parsed;
          r = r\<lparr>sr_output := sr_output r @ result,
                sr_prompt := (if prompt \<noteq> [] \<and> sr_prompt r = [] then prompt else sr_prompt r)\<rparr>;
          st = index_model_calls attempt_id clean st
      in case stream_write (encode_sse (compact_json h clean)) r of
           (Inl e, r) \<Rightarrow> (Inl e, (st, r))
         | (Inr _, r) \<Rightarrow>
             (let r = r\<lparr>sr_chunks := sr_chunks r @ [payload_chunk clean]\<rparr> in
              case stream_payload_is_terminal api clean of
                Inl e \<Rightarrow> (Inl e, (st, r))
              | Inr terminal \<Rightarrow> (Inr (), (st, r\<lparr>sr_complete := sr_complete r \<or> terminal\<rparr>))))"

definition record_event :: "host \<Rightarrow> string \<Rightarrow> string \<Rightarrow> string \<Rightarrow> (llm_store \<times> stream_run, unit) op" where
  "record_event h api attempt_id event sr =
     (case sse_payload event of
        None \<Rightarrow> (Inr (), sr)
      | Some payload \<Rightarrow>
          if payload = ''[DONE]'' then
            (case record_done (snd sr) of (res, r) \<Rightarrow> (res, (fst sr, r)))
          else case json_loads h payload of
            None \<Rightarrow> (Inl (PyError ''JSONDecodeError''), sr)
          | Some parsed \<Rightarrow> record_payload h api attempt_id parsed sr)"

definition record_chunk :: "host \<Rightarrow> string \<Rightarrow> string \<Rightarrow> string \<Rightarrow> (llm_store \<times> stream_run, unit) op" where
  "record_chunk h api attempt_id data sr =
     (let (events, left) = feed (sr_buffer (snd sr)) data
      in bindS (mapS (record_event h api attempt_id) events) (\<lambda>_. liftS (Inr ()))
           (fst sr, (snd sr)\<lparr>sr_buffer := left\<rparr>))"

text \<open>The body of the \<open>try\<close>: \<open>prepare\<close> and \<open>write_eof\<close> reach the client too.\<close>

definition reach_client :: "(llm_store \<times> stream_run, unit) op" where
  "reach_client sr = (if sr_accepts (snd sr) = Some 0 then Inl connection_reset else Inr (), sr)"

definition read_stream :: "host \<Rightarrow> string \<Rightarrow> string \<Rightarrow> string list \<Rightarrow> (llm_store \<times> stream_run, unit) op" where
  "read_stream h api attempt_id chunks =
     bindS reach_client (\<lambda>_.
     bindS (mapS (record_chunk h api attempt_id) chunks) (\<lambda>_.
     bindS (\<lambda>sr. (decoder_finish (sr_buffer (snd sr)), sr)) (\<lambda>_. reach_client)))"

definition mark_stream_interrupted :: "string \<Rightarrow> stream_run \<Rightarrow> string \<Rightarrow> int \<Rightarrow> llm_store \<Rightarrow> llm_store" where
  "mark_stream_interrupted attempt_id r reason now st =
     (case map_of (ls_inflight st) attempt_id of
        None \<Rightarrow> st
      | Some entry \<Rightarrow> st\<lparr>ls_inflight := AList.update attempt_id (pmerge entry
          [(''interrupted_at_ns'', PInt now),
           (''interruption'', PStr reason),
           (''partial_response'', PDict [(''chunks'', PList (sr_chunks r))]),
           (''partial_prompt_token_ids'', PList (map PInt (sr_prompt r))),
           (''partial_response_token_ids'', PList (map PInt (sr_output r)))]) (ls_inflight st)\<rparr>)"

text \<open>What follows the stream when its end was seen.\<close>

definition finish_stream ::
    "host \<Rightarrow> call_ids \<Rightarrow> request_identity \<Rightarrow> pyval \<Rightarrow> string \<Rightarrow> nat \<Rightarrow> int \<Rightarrow> stream_run \<Rightarrow> pyval res \<Rightarrow>
     string \<Rightarrow> int \<Rightarrow> (llm_store, llm_reply) op" where
  "finish_stream h ids identity body api sequence status r audit span_id ended st =
     (case capture_engine st (map PInt (sr_output r)) audit of
        Inl e \<Rightarrow> (Inl e, st)
      | Inr engine \<Rightarrow>
          (Inr (LlmStream status (sr_written r)),
           write_attempt h ids identity sequence api body (PDict [(''chunks'', PList (sr_chunks r))]) True status
             (sr_prompt r, sr_output r) engine span_id ended st))"

text \<open>
  The whole of \<open>_record_stream\<close>: \<open>ended\<close> is the clock at its end, \<open>span_id\<close> the new span, \<open>audit\<close> what
  waiting for the capture audit gives.  A reset of the connection is handled here, every other
  exception goes to the handler.
\<close>

definition record_stream ::
    "host \<Rightarrow> call_ids \<Rightarrow> request_identity \<Rightarrow> pyval \<Rightarrow> string \<Rightarrow> nat \<Rightarrow> int \<Rightarrow> string list \<Rightarrow> nat option \<Rightarrow> pyval res \<Rightarrow>
     string \<Rightarrow> int \<Rightarrow> (llm_store, llm_reply) op" where
  "record_stream h ids identity body api sequence status chunks accepts audit span_id ended st =
     (case read_stream h api (ci_attempt ids) chunks (st, new_stream accepts) of
        (Inl e, (st, r)) \<Rightarrow>
          if e \<noteq> connection_reset then (Inl e, st)
          else if sr_complete r then finish_stream h ids identity body api sequence status r audit span_id ended st
          else (Inr (LlmStream status (sr_written r)),
                mark_stream_interrupted (ci_attempt ids) r ''client-disconnected-before-terminal'' ended st)
      | (Inr _, (st, r)) \<Rightarrow>
          if sr_complete r then finish_stream h ids identity body api sequence status r audit span_id ended st
          else (Inr (LlmStream status (sr_written r)),
                mark_stream_interrupted (ci_attempt ids) r ''upstream-ended-before-terminal'' ended st))"

section \<open>Replay\<close>

text \<open>What the engine does with the forced request: its status, and what waiting for the audit gives.\<close>

record engine_run =
  er_status :: int
  er_audit :: "pyval res"

definition run_upstream ::
    "host \<Rightarrow> llm_store \<Rightarrow> request_identity \<Rightarrow> string \<Rightarrow> pyval \<Rightarrow> engine_run \<Rightarrow> unit res" where
  "run_upstream h st identity api want engine =
     (case ls_secret st of
        None \<Rightarrow> Inl (MismatchError ''--mode full needs a forced-capable vLLM'')
      | Some secret \<Rightarrow>
          if \<not> ls_has_audit st then Inl (MismatchError ''--mode full needs a forced-capable vLLM'')
          else
            bindR (forced_upstream_body h (pget want ''request'') want api secret (ls_namespace st)) (\<lambda>_.
            bindR (upstream_url st identity) (\<lambda>_.
            bindR (py_int (pget_or want ''status_code'' (PInt 200))) (\<lambda>status.
            if er_status engine \<noteq> status then Inl (MismatchError ''forced replay returned another status'')
            else
              bindR (bindR (pidx want ''response_token_ids'') py_iter) (\<lambda>committed.
              bindR (bindR (pidx want ''prompt_token_ids'') py_iter) (\<lambda>prompt.
              bindR (pidx (pget want ''engine'') ''committed_sample_start'') (\<lambda>start.
              bindR (pidx (pget want ''engine'') ''sampled_token_count'') (\<lambda>sampled.
              bindR (er_audit engine) (\<lambda>audit.
              bindR (check_forced_audit h audit committed (Some prompt) start sampled) (\<lambda>_.
              bindR (engine_evidence audit committed) (\<lambda>observed.
                if py_eq observed (pget want ''engine'') then Inr ()
                else Inl (MismatchError ''engine step drift'')))))))))))) "

definition write_replay_attempt ::
    "host \<Rightarrow> pyval \<Rightarrow> request_identity \<Rightarrow> int \<Rightarrow> int \<Rightarrow> llm_store \<Rightarrow> llm_store" where
  "write_replay_attempt h want identity started ended st =
     st\<lparr>ls_llm_file := ls_llm_file st @
          [PDict (pmerge (fields_of want)
             [(''started_at_ns'', PInt started), (''ended_at_ns'', PInt ended),
              (''replay_mode'', PStr (ls_replay_mode st))])],
        ls_span_file := ls_span_file st @
          [llm_span (py_str h (pget want ''span_id'')) (opt_str (id_parent_span identity))
             (py_str h (pget want ''actor_id'')) (py_str h (pget want ''role'')) ''ok'' started ended],
        ls_completed := insert (attempt_of h want) (ls_completed st)\<rparr>"

text \<open>The bytes of one recorded chunk.\<close>

definition chunk_bytes :: "host \<Rightarrow> pyval \<Rightarrow> string" where
  "chunk_bytes h chunk =
     (if truthy (pget chunk ''done'') then encode_sse ''[DONE]''
      else encode_sse (compact_json h (pget chunk ''payload'')))"

definition stream_recorded_complete :: "string \<Rightarrow> pyval list \<Rightarrow> bool" where
  "stream_recorded_complete api chunks \<longleftrightarrow>
     list_ex (\<lambda>c. truthy (pget c ''done'')) chunks \<or>
     list_ex (\<lambda>c. is_dict (pget c ''payload'') \<and>
       stream_payload_is_terminal api (pget c ''payload'') = Inr True) chunks"

text \<open>
  \<open>_replay_stream\<close>: a reset while a chunk is written raises; one at the end of the stream does so only
  when no recorded chunk ends the stream.
\<close>

definition replay_stream :: "host \<Rightarrow> pyval \<Rightarrow> nat option \<Rightarrow> string list res" where
  "replay_stream h want accepts =
     (let chunks = items_of (pget (pget want ''response'') ''chunks'');
          bytes = map (chunk_bytes h) chunks
      in case accepts of
           None \<Rightarrow> Inr bytes
         | Some n \<Rightarrow>
             if n = 0 \<or> n < length bytes then Inl connection_reset
             else if n = length bytes \<and> \<not> stream_recorded_complete (py_str h (pget want ''api'')) chunks
               then Inl connection_reset
             else Inr bytes)"

definition deliver :: "host \<Rightarrow> pyval \<Rightarrow> llm_store \<Rightarrow> llm_store" where
  "deliver h want st =
     st\<lparr>ls_delivered := insert (attempt_of h want) (ls_delivered st), ls_consumed := ls_consumed st + 1\<rparr>"

text \<open>The clock at the start and at the end of the call.\<close>

definition replay_attempt ::
    "host \<Rightarrow> request_identity \<Rightarrow> string \<Rightarrow> pyval \<Rightarrow> int \<times> int \<Rightarrow> engine_run \<Rightarrow> nat option \<Rightarrow> (llm_store, llm_reply) op" where
  "replay_attempt h identity api want clock engine accepts st =
     (case (if ls_replay_mode st \<in> set FORCED_REPLAY_MODES then run_upstream h st identity api want engine
            else Inr ()) of
        Inl e \<Rightarrow> (Inl e, st)
      | Inr _ \<Rightarrow>
          let st = index_model_calls (attempt_of h want) (pget want ''response'') st;
              st = write_replay_attempt h want identity (fst clock) (snd clock) st
          in if truthy (pget want ''stream'') then
               (case replay_stream h want accepts of
                  Inl e \<Rightarrow> (Inl e, st)
                | Inr bytes \<Rightarrow> (Inr (LlmStream (int_of (pget want ''status_code'')) bytes), deliver h want st))
             else if accepts = Some 0 then (Inl connection_reset, st)
             else (Inr (LlmJson (int_of (pget want ''status_code'')) (pget want ''response'')), deliver h want st))"

text \<open>The clock is read twice.\<close>

definition hold_truncated_attempt :: "host \<Rightarrow> int \<times> int \<Rightarrow> pyval \<Rightarrow> llm_store \<Rightarrow> llm_store" where
  "hold_truncated_attempt h clock want st =
     st\<lparr>ls_truncated_started := AList.update (attempt_of h want) (fst clock) (ls_truncated_started st),
        ls_tail_file := ls_tail_file st @
          [PDict [(''schema_version'', PStr ''minireplay.cutoff-tail-runtime/v1''),
                  (''kind'', PStr ''llm''),
                  (''record_id'', PStr (attempt_of h want)),
                  (''actor_id'', pget want ''actor_id''),
                  (''started_at_ns'', PInt (snd clock))]]\<rparr>"

section \<open>The handler\<close>

text \<open>Everything outside the store that one request meets.\<close>

record llm_env =
  le_progress :: run_progress
  le_ids :: call_ids
  le_span :: string
  le_ended :: int
  le_status :: int
  le_payload :: pyval
  le_stream :: "string list"
  le_accepts :: "nat option"
  le_audit :: "pyval res"

definition record_call ::
    "host \<Rightarrow> llm_env \<Rightarrow> request_identity \<Rightarrow> pyval \<Rightarrow> string \<Rightarrow> (llm_store, llm_reply) op" where
  "record_call h env identity body api =
     bindS (begin_record h (le_ids env) identity body api) (\<lambda>(sequence, _, _).
       if truthy (pget body ''stream'')
       then record_stream h (le_ids env) identity body api sequence (le_status env) (le_stream env) (le_accepts env)
              (le_audit env) (le_span env) (le_ended env)
       else finish_record h (le_ids env) identity body api sequence (le_status env) (le_payload env) (le_audit env)
              (le_span env) (le_ended env))"

definition replay_call ::
    "host \<Rightarrow> llm_env \<Rightarrow> request_identity \<Rightarrow> pyval \<Rightarrow> string \<Rightarrow> (llm_store, llm_reply) op" where
  "replay_call h env identity body api st =
     (case llm_claim h (le_progress env) identity body api st of
        (Inl (WorkloadComplete m), st) \<Rightarrow> (Inr LlmHeld, st)
      | (Inl e, st) \<Rightarrow> (Inl e, st)
      | (Inr want, st) \<Rightarrow>
          if attempt_of h want \<in> ls_truncated st
          then (Inr LlmHeld, hold_truncated_attempt h (ci_started (le_ids env), le_ended env) want st)
          else replay_attempt h identity api want (ci_started (le_ids env), le_ended env)
                 \<lparr>er_status = le_status env, er_audit = le_audit env\<rparr> (le_accepts env) st)"

text \<open>The text of an exception, and what the handler answers to it.\<close>

fun err_text :: "err \<Rightarrow> string" where
  "err_text (ValidationError m) = m"
| "err_text (MismatchError m) = m"
| "err_text (InfrastructureError m) = m"
| "err_text (WorkloadComplete m) = m"
| "err_text (PyError m) = m"

definition answer_error :: "err \<Rightarrow> llm_store \<Rightarrow> llm_reply \<times> llm_store" where
  "answer_error e st =
     (case e of
        ValidationError m \<Rightarrow> (LlmError 409 m, st\<lparr>ls_failure := Some m\<rparr>)
      | MismatchError m \<Rightarrow> (LlmError 409 m, st\<lparr>ls_failure := Some m\<rparr>)
      | _ \<Rightarrow> (let m = ''LLM store failure: '' @ err_text e in (LlmError 502 m, st\<lparr>ls_failure := Some m\<rparr>)))"

definition handle_llm ::
    "host \<Rightarrow> llm_env \<Rightarrow> request_identity \<Rightarrow> string \<Rightarrow> string \<Rightarrow> llm_store \<Rightarrow> llm_reply \<times> llm_store" where
  "handle_llm h env identity raw api st =
     (case json_loads h raw of
        None \<Rightarrow> answer_error (ValidationError ''malformed LLM request body'') st
      | Some body \<Rightarrow>
          if \<not> is_dict body then answer_error (ValidationError ''LLM request body must be an object'') st
          else case (if ls_replaying st then replay_call h env identity body api st
                     else record_call h env identity body api st) of
            (Inl e, st) \<Rightarrow> answer_error e st
          | (Inr reply, st) \<Rightarrow> (reply, st))"

section \<open>Cutoff and accounting\<close>

definition inflight_tail :: "int \<Rightarrow> dict \<Rightarrow> dict res" where
  "inflight_tail cutoff_at_ns entry =
     bindR (py_int (pget_or (PDict entry) ''interrupted_at_ns'' (PInt cutoff_at_ns))) (\<lambda>interrupted.
     bindR (bindR (pidx (PDict entry) ''started_at_ns'') py_int) (\<lambda>started.
       Inr (AList.update ''elapsed_ns'' (PInt (max 0 (min cutoff_at_ns interrupted - started))) entry)))"

definition freeze_inflight :: "int \<Rightarrow> string \<times> dict \<Rightarrow> (llm_store, pyval) op" where
  "freeze_inflight cutoff_at_ns item st =
     (case inflight_tail cutoff_at_ns (snd item) of
        Inl e \<Rightarrow> (Inl e, st)
      | Inr tail \<Rightarrow>
          (Inr (PDict tail),
           st\<lparr>ls_truncated := insert (fst item) (ls_truncated st),
              ls_truncated_elapsed := AList.update (fst item) (int_of (pget (PDict tail) ''elapsed_ns''))
                (ls_truncated_elapsed st)\<rparr>))"

definition llm_freeze_source_cutoff :: "int \<Rightarrow> (llm_store, pyval list) op" where
  "llm_freeze_source_cutoff cutoff_at_ns st =
     mapS (freeze_inflight cutoff_at_ns) (ls_inflight st) (st\<lparr>ls_cutoff := Some cutoff_at_ns\<rparr>)"

definition llm_records :: "llm_store \<Rightarrow> pyval list" where
  "llm_records st = concat (map snd (ls_queues st))"

definition llm_served :: "int \<Rightarrow> llm_store \<Rightarrow> string \<Rightarrow> int \<Rightarrow> bool" where
  "llm_served now st attempt_id required \<longleftrightarrow>
     (case map_of (ls_truncated_started st) attempt_id of None \<Rightarrow> False | Some started \<Rightarrow> required \<le> now - started)"

definition llm_expected_complete :: "host \<Rightarrow> int \<Rightarrow> llm_store \<Rightarrow> bool" where
  "llm_expected_complete h now st \<longleftrightarrow>
     ls_replaying st \<and>
     list_all (\<lambda>r. attempt_of h r \<in> ls_delivered st) (llm_records st) \<and>
     list_all (\<lambda>(attempt, required). llm_served now st attempt required) (ls_truncated_elapsed st)"

definition actor_records :: "llm_store \<Rightarrow> string \<Rightarrow> pyval list" where
  "actor_records st actor_id = concat (map snd (filter (\<lambda>(key, _). fst key = actor_id) (ls_queues st)))"

definition llm_actor_expected_complete :: "host \<Rightarrow> int \<Rightarrow> llm_store \<Rightarrow> string \<Rightarrow> bool" where
  "llm_actor_expected_complete h now st actor_id \<longleftrightarrow>
     ls_replaying st \<and>
     list_all (\<lambda>r.
       if attempt_of h r \<in> ls_truncated st
       then (case map_of (ls_truncated_elapsed st) (attempt_of h r) of
               None \<Rightarrow> False | Some required \<Rightarrow> llm_served now st (attempt_of h r) required)
       else attempt_of h r \<in> ls_delivered st) (actor_records st actor_id)"

definition llm_actor_expected_prefix_consumed :: "host \<Rightarrow> llm_store \<Rightarrow> string \<Rightarrow> bool" where
  "llm_actor_expected_prefix_consumed h st actor_id \<longleftrightarrow>
     ls_replaying st \<and>
     list_all (\<lambda>(key, queue). fst key = actor_id \<longrightarrow>
       length queue \<le> ls_replay_sequence st key \<and>
       list_all (\<lambda>r. attempt_of h r \<in> ls_truncated st \<longrightarrow>
         map_of (ls_truncated_started st) (attempt_of h r) \<noteq> None) queue) (ls_queues st)"

definition key_text :: "llm_key \<Rightarrow> string" where
  "key_text key = (let (a, s, r) = key in ''('' @ str_repr a @ '', '' @ str_repr s @ '', '' @ str_repr r @ '')'')"

definition llm_outstanding :: "host \<Rightarrow> llm_store \<Rightarrow> pyval" where
  "llm_outstanding h st =
     (let undelivered = (\<lambda>r. attempt_of h r \<notin> ls_delivered st);
          missing = map (\<lambda>(key, q). (key_text key, PInt (int (length (filter undelivered q)))))
            (filter (\<lambda>(key, q). list_ex undelivered q) (ls_queues st));
          claimed = concat (map (\<lambda>(key, q). filter undelivered (take (ls_replay_sequence st key) q)) (ls_queues st))
      in PDict [(''missing_llm'', PDict missing),
                (''claimed_not_delivered'', PList (map PStr (sort (map (attempt_of h) claimed)))),
                (''evidence_not_delivered'', PList (map PStr (sorted_list_of_set (ls_completed st - ls_delivered st)))),
                (''consumed'', PInt (int (ls_consumed st)))])"

definition llm_assert_consumed :: "host \<Rightarrow> llm_store \<Rightarrow> unit res" where
  "llm_assert_consumed h st =
     (if truthy (pget (llm_outstanding h st) ''missing_llm'') then Inl (MismatchError ''missing LLM attempts'')
      else Inr ())"

end
