(* ===== verification/Llm_Invariant.thy ===== *)
theory Llm_Invariant
  imports Llm_Replay
begin

text \<open>
  The contract between the recording of a call and a property of the store: a property that the few
  updates keep, by which recording changes the store, is kept by the recording of every call, however the
  engine's answer is cut into chunks and wherever it stops.
\<close>

locale record_invariant =
  fixes h :: host and P :: "llm_store \<Rightarrow> bool"
  assumes index: "P t \<Longrightarrow> P (index_model_calls a v t)"
    and attempt: "P t \<Longrightarrow> P (write_attempt h ids i n api body resp b status tokens eng sp ended t)"
    and interrupted: "P t \<Longrightarrow> P (mark_stream_interrupted a r m now t)"
    and begun: "P t \<Longrightarrow> P (snd (begin_record h ids i body api t))"
begin

lemma record_event_keeps: "P (fst sr) \<Longrightarrow> P (fst (snd (record_event h api a event sr)))"
  by (auto simp: record_event_def record_payload_def Let_def split_def index
      split: option.splits prod.splits sum.splits if_splits)

lemma record_chunk_keeps:
  assumes "P (fst sr)"
  shows "P (fst (snd (record_chunk h api a data sr)))"
proof -
  obtain events left where f: "feed (sr_buffer (snd sr)) data = (events, left)" by (cases "feed (sr_buffer (snd sr)) data")
  let ?sr = "(fst sr, (snd sr)\<lparr>sr_buffer := left\<rparr>)"
  have "P (fst (snd (mapS (record_event h api a) events ?sr)))"
    by (rule mapS_keeps [where P = "\<lambda>x. P (fst x)"]) (use assms in \<open>auto intro: record_event_keeps\<close>)
  then show ?thesis
    by (cases "mapS (record_event h api a) events ?sr") (auto simp: record_chunk_def f bindS_def split: sum.splits)
qed

lemma read_stream_keeps:
  assumes "P (fst sr)"
  shows "P (fst (snd (read_stream h api a chunks sr)))"
proof -
  have "P (fst (snd (mapS (record_chunk h api a) chunks sr)))"
    by (rule mapS_keeps [where P = "\<lambda>x. P (fst x)"]) (use assms in \<open>auto intro: record_chunk_keeps\<close>)
  then show ?thesis
    using assms by (cases "mapS (record_chunk h api a) chunks sr")
      (auto simp: read_stream_def reach_client_def bindS_def split: sum.splits prod.splits if_splits)
qed

lemma record_stream_keeps:
  assumes "P t"
  shows "P (snd (record_stream h ids identity body api n status chunks acc audit sp ended t))"
proof -
  obtain res u r where r: "read_stream h api (ci_attempt ids) chunks (t, new_stream acc) = (res, (u, r))"
    by (metis prod.exhaust)
  then have "P u"
    using read_stream_keeps [of "(t, new_stream acc)" api "ci_attempt ids" chunks] assms by simp
  then show ?thesis
    by (cases res) (auto simp: record_stream_def r finish_stream_def interrupted attempt split: sum.splits)
qed

lemma finish_record_keeps: "P t \<Longrightarrow> P (snd (finish_record h ids identity body api n status payload audit sp ended t))"
  by (auto simp: finish_record_def Let_def index attempt split: sum.splits)

lemma record_call_keeps:
  assumes "P st"
  shows "P (snd (record_call h env identity body api st))"
proof -
  obtain res t where b: "begin_record h (le_ids env) identity body api st = (res, t)" by fastforce
  then have "P t" using begun [OF assms] by (metis snd_conv)
  then show ?thesis
    by (auto simp: record_call_def bindS_def b finish_record_keeps record_stream_keeps split: sum.splits prod.splits)
qed

end

end
