(* ===== verification/Llm_Order.thy ===== *)
theory Llm_Order
  imports Llm_Invariant Claim_Queue
begin

text \<open>
  The LLM store as a keyed queue: whatever requests arrive, the recorded attempts of one framework
  agent are replayed in their recorded order, none skipped and none twice.
\<close>

section \<open>What a request takes\<close>

text \<open>A request as the handler sees it: its surroundings, identity, body and API.\<close>

type_synonym llm_request = "llm_env \<times> request_identity \<times> string \<times> string"

definition llm_step :: "host \<Rightarrow> llm_request \<Rightarrow> llm_store \<Rightarrow> llm_store" where
  "llm_step h call st = (let (env, identity, raw, api) = call in snd (handle_llm h env identity raw api st))"

definition llm_taken :: "host \<Rightarrow> llm_request \<Rightarrow> llm_store \<Rightarrow> (llm_key \<times> pyval) option" where
  "llm_taken h call st =
     (let (env, identity, raw, api) = call in
      if \<not> ls_replaying st then None
      else case json_loads h raw of
        None \<Rightarrow> None
      | Some body \<Rightarrow>
          if \<not> is_dict body then None
          else case fst (llm_claim h (le_progress env) identity body api st) of
            Inr want \<Rightarrow> Some (identity_key identity, want)
          | Inl _ \<Rightarrow> None)"

text \<open>The part of the store that only a claim changes.\<close>

definition same_slots :: "llm_store \<Rightarrow> llm_store \<Rightarrow> bool" where
  "same_slots s t \<longleftrightarrow> ls_queues t = ls_queues s \<and> ls_replay_sequence t = ls_replay_sequence s \<and>
     ls_replaying t = ls_replaying s \<and> ls_replay_mode t = ls_replay_mode s"

lemma same_slots_refl [simp]: "same_slots s s"
  by (simp add: same_slots_def)

lemma same_slots_trans: "same_slots s t \<Longrightarrow> same_slots t u \<Longrightarrow> same_slots s u"
  by (simp add: same_slots_def)

lemma same_slots_steps [simp]:
  "same_slots s (index_model_calls a v t) \<longleftrightarrow> same_slots s t"
  "same_slots s (write_attempt h ids i n api body resp b status tokens eng sp ended t) \<longleftrightarrow> same_slots s t"
  "same_slots s (mark_stream_interrupted a r m now t) \<longleftrightarrow> same_slots s t"
  "same_slots s (write_replay_attempt h w i x y t) \<longleftrightarrow> same_slots s t"
  "same_slots s (deliver h w t) \<longleftrightarrow> same_slots s t"
  "same_slots s (hold_truncated_attempt h c w t) \<longleftrightarrow> same_slots s t"
  "same_slots s (snd (answer_error err t)) \<longleftrightarrow> same_slots s t"
  by (auto simp: same_slots_def index_model_calls_def write_attempt_def Let_def mark_stream_interrupted_def
      write_replay_attempt_def deliver_def hold_truncated_attempt_def answer_error_def split: option.split err.split)

lemma claim_outcome:
  assumes "llm_claim h p identity body api st = (res, t)"
  shows "(\<exists>want. res = Inr want \<and> ls_replay_sequence st (identity_key identity) < length (llm_queue st (identity_key identity)) \<and>
      want = llm_queue st (identity_key identity) ! ls_replay_sequence st (identity_key identity) \<and>
      py_eq (pget want ''api'') (PStr api) \<and> request_matches h identity want body \<and>
      t = st\<lparr>ls_replay_sequence := (ls_replay_sequence st)
             (identity_key identity := Suc (ls_replay_sequence st (identity_key identity)))\<rparr>) \<or>
    (\<exists>e. res = Inl e \<and> same_slots st t \<and> ls_llm_file t = ls_llm_file st \<and> ls_completed t = ls_completed st \<and>
      ls_delivered t = ls_delivered st \<and> ls_truncated t = ls_truncated st \<and> ls_consumed t = ls_consumed st)"
  using assms by (auto simp: llm_claim_def Let_def same_slots_def split: if_splits)

lemma begin_record_slots: "same_slots s t \<Longrightarrow> same_slots s (snd (begin_record h ids i body api t))"
  by (auto simp: begin_record_def Let_def same_slots_def split: sum.splits)

interpretation slots: record_invariant h "same_slots s"
  for h :: host and s :: llm_store
  by unfold_locales (simp_all add: begin_record_slots)

lemma replay_attempt_slots: "same_slots s t \<Longrightarrow> same_slots s (snd (replay_attempt h identity api want clock engine acc t))"
  by (auto simp: replay_attempt_def Let_def split: sum.splits)

lemma answer_error_slots: "same_slots s t \<Longrightarrow> same_slots s (snd (answer_error e t))"
  by simp

text \<open>How a request moves the position of its key, and of no other key.\<close>

lemma llm_step_slots:
  "case llm_taken h call st of
     None \<Rightarrow> same_slots st (llm_step h call st)
   | Some (key, want) \<Rightarrow>
       ls_replay_sequence st key < length (llm_queue st key) \<and>
       want = llm_queue st key ! ls_replay_sequence st key \<and>
       same_slots (st\<lparr>ls_replay_sequence := (ls_replay_sequence st)(key := Suc (ls_replay_sequence st key))\<rparr>)
         (llm_step h call st)"
proof -
  obtain env identity raw api where call: "call = (env, identity, raw, api)" by (metis prod.exhaust)
  show ?thesis
  proof (cases "json_loads h raw")
    case None
    then show ?thesis by (simp add: call llm_taken_def llm_step_def handle_llm_def)
  next
    case body: (Some body)
    show ?thesis
    proof (cases "is_dict body \<and> ls_replaying st")
      case False
      then show ?thesis
        using slots.record_call_keeps [OF same_slots_refl, of st h env identity body api] body
        by (auto simp: call llm_taken_def llm_step_def handle_llm_def split: prod.splits sum.splits)
    next
      case True
      obtain res t where claim: "llm_claim h (le_progress env) identity body api st = (res, t)"
        by (metis prod.exhaust)
      note o = claim_outcome [OF claim]
      show ?thesis
      proof (cases res)
        case (Inl e)
        then have "same_slots st t" using o by auto
        then show ?thesis
          using True body Inl claim
          by (cases e) (auto simp: call llm_taken_def llm_step_def handle_llm_def replay_call_def)
      next
        case (Inr want)
        let ?key = "identity_key identity"
        let ?u = "st\<lparr>ls_replay_sequence := (ls_replay_sequence st)(?key := Suc (ls_replay_sequence st ?key))\<rparr>"
        have t: "t = ?u" "ls_replay_sequence st ?key < length (llm_queue st ?key)"
          "want = llm_queue st ?key ! ls_replay_sequence st ?key" using o Inr by auto
        have "same_slots ?u (snd (replay_call h env identity body api st))"
          using claim Inr by (auto simp: replay_call_def t(1) intro: replay_attempt_slots)
        then have "same_slots ?u (llm_step h call st)"
          using True body
          by (auto simp: call llm_step_def handle_llm_def split: prod.splits sum.splits)
        then show ?thesis
          using True body claim Inr t by (simp add: call llm_taken_def)
      qed
    qed
  qed
qed

interpretation lq: keyed_queue llm_queue ls_replay_sequence "llm_step h" "llm_taken h"
  for h :: host
proof
  fix call st
  show "llm_queue (llm_step h call st) = llm_queue st"
    using llm_step_slots [where h = h and call = call and st = st] by (auto simp: same_slots_def llm_queue_def fun_eq_iff split: option.splits)
  fix key want
  assume "llm_taken h call st = Some (key, want)"
  then show "ls_replay_sequence st key < length (llm_queue st key) \<and>
      want = llm_queue st key ! ls_replay_sequence st key \<and>
      ls_replay_sequence (llm_step h call st) = (ls_replay_sequence st)(key := Suc (ls_replay_sequence st key))"
    using llm_step_slots [where h = h and call = call and st = st] by (simp add: same_slots_def)
next
  fix call st
  assume "llm_taken h call st = None"
  then show "ls_replay_sequence (llm_step h call st) = ls_replay_sequence st"
    using llm_step_slots [where h = h and call = call and st = st] by (simp add: same_slots_def)
qed

section \<open>The recorded order\<close>

lemma map_of_queue_record:
  "map_of (fold queue_record records qs) key =
     (let mine = filter (\<lambda>r. record_key r = key) records in
      if mine = [] then map_of qs key
      else Some ((case map_of qs key of None \<Rightarrow> [] | Some q \<Rightarrow> q) @ mine))"
proof (induction records arbitrary: qs)
  case Nil
  then show ?case by simp
next
  case (Cons r records)
  then show ?case by (auto simp: queue_record_def update_conv' Let_def split: option.splits)
qed

lemma map_of_sorted_queues:
  "map_of (map (\<lambda>(key, q). (key, sort_key sequence_of q)) qs) key = map_option (sort_key sequence_of) (map_of qs key)"
  by (induction qs) auto

lemma loaded_queue:
  assumes "new_llm_store mode rm dir ups (Some (manifest, records)) sec ha ns = Inr st"
  shows "llm_queue st key = sort_key sequence_of (filter (\<lambda>r. record_key r = key) records)"
    and "ls_replay_sequence st key = 0" and "ls_replaying st \<longleftrightarrow> mode = ''replay''"
proof -
  have st: "ls_queues st = load_queues records" "ls_replay_sequence st = (\<lambda>_. 0)" "ls_replaying st \<longleftrightarrow> mode = ''replay''"
    using assms by (auto simp: new_llm_store_def bindR_eq_Inr Let_def)
  show "llm_queue st key = sort_key sequence_of (filter (\<lambda>r. record_key r = key) records)"
    by (auto simp: llm_queue_def st load_queues_def map_of_sorted_queues map_of_queue_record Let_def)
  show "ls_replay_sequence st key = 0" "ls_replaying st \<longleftrightarrow> mode = ''replay''" using st by simp_all
qed

text \<open>
  C17: Whatever requests arrive and however they fail, the attempts that a replay takes for one agent,
  session and role are the first ones recorded for it, in the order of their sequence numbers.
\<close>

theorem llm_replay_follows_recording:
  assumes "new_llm_store ''replay'' rm dir ups (Some (manifest, records)) sec ha ns = Inr st"
  shows "taken_under (llm_step h) (llm_taken h) key calls st =
    take (ls_replay_sequence (fold (llm_step h) calls st) key)
      (sort_key sequence_of (filter (\<lambda>r. record_key r = key) records))"
  unfolding loaded_queue(1) [OF assms, symmetric]
  using loaded_queue(2) [OF assms] by (rule lq.taken_prefix)

definition sample_attempt :: "int \<Rightarrow> string \<Rightarrow> pyval" where
  "sample_attempt n attempt = PDict
     [(''attempt_id'', PStr attempt), (''actor_id'', PStr ''a1''), (''session_id'', PStr ''s1''), (''role'', PStr ''agent''),
      (''sequence'', PInt n), (''api'', PStr ''chat.completions''), (''span_id'', PStr ''span-1''),
      (''request'', PDict []), (''request_shape_sha256'', PStr (sha256_json plain_host (request_shape (PDict [])))),
      (''response'', PDict [(''ok'', PInt n)]), (''stream'', PBool False), (''status_code'', PInt 200)]"

definition sample_identity :: request_identity where
  "sample_identity = \<lparr>id_actor = ''a1'', id_session = ''s1'', id_role = ''agent'', id_target = ''default'', id_parent_span = None\<rparr>"

definition sample_env :: llm_env where
  "sample_env = \<lparr>le_progress = \<lparr>rp_run_complete = False, rp_actor_complete = (\<lambda>_. False)\<rparr>,
     le_ids = \<lparr>ci_attempt = ''x'', ci_span = ''y'', ci_started = 10\<rparr>, le_span = ''z'', le_ended = 20, le_status = 200,
     le_payload = PDict [], le_stream = [], le_accepts = None, le_audit = Inr PNone\<rparr>"

definition sample_llm_store :: llm_store where
  "sample_llm_store = projr (new_llm_store ''replay'' ''tool-only'' ''/run'' []
     (Some (PDict [], [sample_attempt 1 ''second'', sample_attempt 0 ''first''])) None False None)"

lemma sample_llm_store_is_new:
  "new_llm_store ''replay'' ''tool-only'' ''/run'' []
     (Some (PDict [], [sample_attempt 1 ''second'', sample_attempt 0 ''first''])) None False None = Inr sample_llm_store"
  by (simp add: sample_llm_store_def new_llm_store_def REPLAY_MODES_def Let_def)

text \<open>A malformed request is refused; the next one takes the attempt with the lowest number.\<close>

theorem llm_replay_follows_recording_witness:
  "taken_under (llm_step plain_host) (llm_taken plain_host) (''a1'', ''s1'', ''agent'')
     [(sample_env, sample_identity, ''x'', ''chat.completions''), (sample_env, sample_identity, ''{}'', ''chat.completions'')]
     sample_llm_store = [sample_attempt 0 ''first'']"
proof -
  let ?calls = "[(sample_env, sample_identity, ''x'', ''chat.completions''), (sample_env, sample_identity, ''{}'', ''chat.completions'')]"
  have pos: "ls_replay_sequence (fold (llm_step plain_host) ?calls sample_llm_store) (''a1'', ''s1'', ''agent'') = 1"
    by code_simp
  have "sort_key sequence_of (filter (\<lambda>r. record_key r = (''a1'', ''s1'', ''agent''))
      [sample_attempt 1 ''second'', sample_attempt 0 ''first'']) = [sample_attempt 0 ''first'', sample_attempt 1 ''second'']"
    by (simp add: sample_attempt_def record_key_def sequence_of_def)
  then show ?thesis
    unfolding llm_replay_follows_recording [OF sample_llm_store_is_new] pos by simp
qed

end
