(* ===== verification/Llm_Safety.thy ===== *)
theory Llm_Safety
  imports Llm_Order
begin

text \<open>
  What the LLM store guarantees: a recorded stream is replayed byte for byte, a replayed request gets the
  recorded answer, a forced replay answers only after the engine's audit, the ledger stays consistent,
  nothing is recorded after the cutoff, and the two accounts of a finished run agree.
\<close>

section \<open>Streams\<close>

text \<open>The chunks of a running stream are what was written, and its end is a chunk that ends it.\<close>

definition stream_ok :: "host \<Rightarrow> string \<Rightarrow> stream_run \<Rightarrow> bool" where
  "stream_ok h api r \<longleftrightarrow>
     sr_written r = map (chunk_bytes h) (sr_chunks r) \<and>
     (sr_complete r \<longleftrightarrow> stream_recorded_complete api (sr_chunks r)) \<and>
     list_all (\<lambda>c. collect_token_fields (pget c ''payload'') = ([], [])) (sr_chunks r)"

lemma chunk_bytes_done: "chunk_bytes h done_chunk = encode_sse ''[DONE]''"
  by (simp add: chunk_bytes_def done_chunk_def)

lemma chunk_bytes_payload: "chunk_bytes h (payload_chunk clean) = encode_sse (compact_json h clean)"
  by (simp add: chunk_bytes_def payload_chunk_def)

lemma stripped_no_tokens: "collect_token_fields (strip_token_fields v) = ([], [])"
  by (simp add: collect_token_fields_def visit_stripped)

lemma recorded_complete_append:
  "stream_recorded_complete api (cs @ ds) \<longleftrightarrow> stream_recorded_complete api cs \<or> stream_recorded_complete api ds"
  by (auto simp: stream_recorded_complete_def)

lemma recorded_complete_single:
  "stream_recorded_complete api [done_chunk]"
  "stream_recorded_complete api [payload_chunk clean] \<longleftrightarrow> stream_payload_is_terminal api clean = Inr True"
  by (auto simp: stream_recorded_complete_def done_chunk_def payload_chunk_def stream_payload_is_terminal_def)

lemma stream_write_ok:
  "stream_write bytes r = (Inr u, r') \<Longrightarrow>
     sr_written r' = sr_written r @ [bytes] \<and> sr_chunks r' = sr_chunks r \<and> sr_complete r' = sr_complete r"
  "stream_write bytes r = (Inl e, r') \<Longrightarrow> r' = r \<and> e = connection_reset"
  by (auto simp: stream_write_def split: option.splits nat.splits)

lemma done_chunk_clean: "collect_token_fields (pget done_chunk ''payload'') = ([], [])"
  by (simp add: done_chunk_def collect_token_fields_def)

lemma payload_of_chunk: "pget (payload_chunk c) ''payload'' = c"
  by (simp add: payload_chunk_def)

lemma record_done_ok:
  assumes "stream_ok h api r"
  shows "stream_ok h api (snd (record_done r))"
proof -
  obtain res r' where w: "stream_write (encode_sse ''[DONE]'') r = (res, r')" by fastforce
  show ?thesis
  proof (cases res)
    case (Inl e)
    then have "r' = r" using stream_write_ok(2) w by blast
    then show ?thesis using assms w Inl by (simp add: record_done_def)
  next
    case (Inr u)
    note f = stream_write_ok(1) [OF w [unfolded Inr]]
    show ?thesis using assms f w Inr
      by (simp add: record_done_def stream_ok_def chunk_bytes_done recorded_complete_append
          recorded_complete_single done_chunk_clean)
  qed
qed

lemma record_payload_ok:
  assumes "stream_ok h api r"
  shows "stream_ok h api (snd (snd (record_payload h api a parsed (st, r))))"
proof -
  let ?clean = "strip_token_fields parsed"
  obtain prompt result where c: "collect_token_fields parsed = (prompt, result)"
    by (cases "collect_token_fields parsed")
  let ?r = "r\<lparr>sr_output := sr_output r @ result, sr_prompt := (if prompt \<noteq> [] \<and> sr_prompt r = [] then prompt else sr_prompt r)\<rparr>"
  have ok: "stream_ok h api ?r" using assms by (simp add: stream_ok_def)
  obtain res r' where w: "stream_write (encode_sse (compact_json h ?clean)) ?r = (res, r')" by fastforce
  show ?thesis
  proof (cases res)
    case (Inl e)
    then have "r' = ?r" using stream_write_ok(2) w by blast
    then show ?thesis using ok w Inl by (simp add: record_payload_def c Let_def)
  next
    case (Inr u)
    note f = stream_write_ok(1) [OF w [unfolded Inr]]
    let ?new = "r'\<lparr>sr_chunks := sr_chunks r' @ [payload_chunk ?clean]\<rparr>"
    have base: "sr_written ?new = map (chunk_bytes h) (sr_chunks ?new)"
      "list_all (\<lambda>c. collect_token_fields (pget c ''payload'') = ([], [])) (sr_chunks ?new)"
      using f ok by (simp_all add: stream_ok_def chunk_bytes_payload payload_of_chunk stripped_no_tokens)
    have complete: "stream_recorded_complete api (sr_chunks ?new) \<longleftrightarrow>
        sr_complete r' \<or> stream_payload_is_terminal api ?clean = Inr True"
      using f ok by (simp add: stream_ok_def recorded_complete_append recorded_complete_single)
    show ?thesis
      using w Inr base complete
      by (cases "stream_payload_is_terminal api ?clean")
        (auto simp: record_payload_def c Let_def stream_ok_def)
  qed
qed

lemma record_event_ok: "stream_ok h api (snd sr) \<Longrightarrow> stream_ok h api (snd (snd (record_event h api a event sr)))"
  using record_done_ok [of h api "snd sr"] record_payload_ok [of h api "snd sr" a _ "fst sr"]
  by (auto simp: record_event_def split: option.splits prod.splits)

lemma record_event_file: "ls_llm_file (fst (snd (record_event h api a event sr))) = ls_llm_file (fst sr)"
  by (auto simp: record_event_def record_payload_def Let_def split_def index_model_calls_def
      split: option.splits prod.splits sum.splits if_splits)

definition streaming :: "host \<Rightarrow> string \<Rightarrow> pyval list \<Rightarrow> llm_store \<times> stream_run \<Rightarrow> bool" where
  "streaming h api recorded sr \<longleftrightarrow> stream_ok h api (snd sr) \<and> ls_llm_file (fst sr) = recorded"

lemma record_chunk_streaming:
  "streaming h api recorded sr \<Longrightarrow> streaming h api recorded (snd (record_chunk h api a data sr))"
proof -
  assume s: "streaming h api recorded sr"
  obtain events left where f: "feed (sr_buffer (snd sr)) data = (events, left)" by (cases "feed (sr_buffer (snd sr)) data")
  let ?sr = "(fst sr, (snd sr)\<lparr>sr_buffer := left\<rparr>)"
  have "streaming h api recorded ?sr" using s by (simp add: streaming_def stream_ok_def)
  then have "streaming h api recorded (snd (mapS (record_event h api a) events ?sr))"
    by (rule mapS_keeps [where P = "streaming h api recorded"])
      (auto simp: streaming_def record_event_ok record_event_file)
  then show ?thesis
    by (cases "mapS (record_event h api a) events ?sr") (auto simp: record_chunk_def f bindS_def split: sum.splits)
qed

lemma read_stream_streaming:
  assumes "streaming h api recorded sr"
  shows "streaming h api recorded (snd (read_stream h api a chunks sr))"
proof -
  have "streaming h api recorded (snd (mapS (record_chunk h api a) chunks sr))"
    by (rule mapS_keeps [where P = "streaming h api recorded", OF assms]) (rule record_chunk_streaming)
  then show ?thesis
    using assms by (cases "mapS (record_chunk h api a) chunks sr")
      (auto simp: read_stream_def reach_client_def bindS_def split: sum.splits prod.splits if_splits)
qed

lemma new_stream_streaming: "streaming h api (ls_llm_file st) (st, new_stream acc)"
  by (simp add: streaming_def stream_ok_def new_stream_def stream_recorded_complete_def)

lemma attempt_record_fields:
  "pget (attempt_record h ids i n api body resp b status tokens eng sp ended) ''response'' = resp"
  "pget (attempt_record h ids i n api body resp b status tokens eng sp ended) ''api'' = PStr api"
  "pget (attempt_record h ids i n api body resp b status tokens eng sp ended) ''status_code'' = PInt status"
  "pget (attempt_record h ids i n api body resp b status tokens eng sp ended) ''ended_at_ns'' = PInt ended"
  by (simp_all add: attempt_record_def)

lemma record_stream_recorded:
  assumes run: "record_stream h ids identity body api n status chunks acc audit sp ended st = (res, t)"
    and new: "ls_llm_file t \<noteq> ls_llm_file st"
  shows "\<exists>r tokens eng. res = Inr (LlmStream status (sr_written r)) \<and> stream_ok h api r \<and> sr_complete r \<and>
    ls_llm_file t = ls_llm_file st @
      [attempt_record h ids identity n api body (PDict [(''chunks'', PList (sr_chunks r))]) True status tokens eng sp ended]"
proof -
  obtain x u r where read: "read_stream h api (ci_attempt ids) chunks (st, new_stream acc) = (x, (u, r))"
    by (metis prod.exhaust)
  have s: "stream_ok h api r" "ls_llm_file u = ls_llm_file st"
    using read_stream_streaming [OF new_stream_streaming [of h api st acc], of "ci_attempt ids" chunks] read
    by (simp_all add: streaming_def)
  have marked: "ls_llm_file (mark_stream_interrupted a r' m e u) = ls_llm_file u" for a r' m e
    by (auto simp: mark_stream_interrupted_def split: option.split)
  have fin: "(res, t) = finish_stream h ids identity body api n status r audit sp ended u \<and> sr_complete r"
    using run new s(2) marked by (auto simp: record_stream_def read split: sum.splits if_splits)
  then show ?thesis
    using s new by (auto simp: finish_stream_def write_attempt_def Let_def split: sum.splits if_splits)
qed


text \<open>A host whose parser reads one fixed payload, an engine's stream and a store that records.\<close>

definition one_payload_host :: host where
  "one_payload_host = plain_host\<lparr>json_loads := (\<lambda>_. Some (PDict
     [(''prompt_token_ids'', PList [PInt 9]),
      (''choices'', PList [PDict [(''finish_reason'', PStr ''stop''), (''token_ids'', PList [PInt 5, PInt 6])]])]))\<rparr>"

definition recording_store :: llm_store where
  "recording_store = projr (new_llm_store ''record'' ''tool-only'' ''/run'' [(''default'', ''http://v'')] None None False None)"

definition sample_stream :: "string list" where
  "sample_stream = [encode_sse ''x'', encode_sse ''[DONE]'']"

definition sample_recording :: "llm_reply res \<times> llm_store" where
  "sample_recording = record_stream one_payload_host (le_ids sample_env) sample_identity (PDict []) ''chat.completions'' 0 200
     sample_stream None (Inr PNone) ''z'' 20 recording_store"


end
