(* ===== verification/Llm_Ledger.thy ===== *)
theory Llm_Ledger
  imports Llm_Order Forced_Replay
begin

text \<open>
  What the LLM store promises over a run: a replayed answer is the recorded one and, under a forced mode,
  the engine proved that it did the work; the ledger stays consistent; the two accounts of a finished run
  agree; and an engine that keeps its side of the protocol is never refused.
\<close>

section \<open>A replayed answer\<close>

text \<open>The reply that hands a framework an answer, with what it hands out.\<close>

fun answered :: "llm_reply \<Rightarrow> bool" where
  "answered (LlmJson code v) \<longleftrightarrow> True"
| "answered (LlmStream code bytes) \<longleftrightarrow> True"
| "answered _ \<longleftrightarrow> False"

definition recorded_answer :: "host \<Rightarrow> pyval \<Rightarrow> llm_reply" where
  "recorded_answer h want =
     (if truthy (pget want ''stream'')
      then LlmStream (int_of (pget want ''status_code''))
             (map (chunk_bytes h) (items_of (pget (pget want ''response'') ''chunks'')))
      else LlmJson (int_of (pget want ''status_code'')) (pget want ''response''))"

text \<open>
  What the audit of a forced attempt has to say: the engine ended the forced run, it committed the recorded
  tokens after the recorded prompt, and its sampling agrees with the evidence of the recording.
\<close>

definition engine_proved :: "pyval \<Rightarrow> pyval res \<Rightarrow> bool" where
  "engine_proved want waited \<longleftrightarrow>
     (case (waited, bindR (pidx want ''response_token_ids'') py_iter, bindR (pidx want ''prompt_token_ids'') py_iter) of
        (Inr audit, Inr committed, Inr prompt) \<Rightarrow>
          py_eq (pget audit ''mode'') (PStr ''force'') \<and>
          py_eq (pget audit ''status'') (PStr ''complete'') \<and>
          py_eq (pget audit ''forced_token_ids'') (PList committed) \<and>
          py_eq (pget audit ''prompt_token_ids'') (PList prompt) \<and>
          (case engine_evidence audit committed of Inr e \<Rightarrow> py_eq e (pget want ''engine'') | _ \<Rightarrow> False)
      | _ \<Rightarrow> False)"

lemma any_of_False: "any_of bs = Inr False \<longleftrightarrow> list_all (\<lambda>b. b = Inr False) bs"
  by (induction bs) (auto simp: bindR_eq_Inr)

lemma forced_audit_says:
  assumes "check_forced_audit h audit toks (Some prompt) start n = Inr x"
  shows "py_eq (pget audit ''mode'') (PStr ''force'') \<and> py_eq (pget audit ''status'') (PStr ''complete'') \<and>
    py_eq (pget audit ''forced_token_ids'') (PList toks) \<and> py_eq (pget audit ''prompt_token_ids'') (PList prompt)"
proof -
  show ?thesis
    using assms by (auto simp: check_forced_audit_def Let_def bindR_eq_Inr any_of_False simp del: any_of.simps split: if_splits)
qed

lemma run_upstream_proves: "run_upstream h st identity api want engine = Inr () \<Longrightarrow> engine_proved want (er_audit engine)"
  by (auto simp: run_upstream_def engine_proved_def bindR_eq_Inr dest!: forced_audit_says split: option.splits if_splits)

lemma deliver_answer:
  assumes "replay_attempt h identity api want clock engine acc st = (Inr reply, t)"
  shows "reply = recorded_answer h want \<and> attempt_of h want \<in> ls_delivered t \<and>
    (ls_replay_mode st \<in> set FORCED_REPLAY_MODES \<longrightarrow> engine_proved want (er_audit engine))"
  using assms
  by (auto simp: replay_attempt_def Let_def recorded_answer_def replay_stream_def deliver_def
      intro: run_upstream_proves split: sum.splits if_splits option.splits)

text \<open>
  C18: A replay that answers a request answers it with the status and the bytes of the next recorded attempt
  of its agent, session and role, which the request matches, and marks that attempt delivered; under a
  forced mode it does so only when the audit shows that the engine committed the recorded tokens.
\<close>

theorem replayed_answer_is_recorded:
  assumes "ls_replaying st" and "handle_llm h env identity raw api st = (reply, t)" and "answered reply"
  shows "ls_replay_sequence st (identity_key identity) < length (llm_queue st (identity_key identity)) \<and>
    (let want = llm_queue st (identity_key identity) ! ls_replay_sequence st (identity_key identity) in
     reply = recorded_answer h want \<and>
     py_eq (pget want ''api'') (PStr api) \<and>
     (case json_loads h raw of None \<Rightarrow> False | Some body \<Rightarrow> request_matches h identity want body) \<and>
     attempt_of h want \<in> ls_delivered t \<and>
     (ls_replay_mode st \<in> set FORCED_REPLAY_MODES \<longrightarrow> engine_proved want (le_audit env)))"
proof -
  have no_error: "answer_error e s \<noteq> (reply, t)" for e s
    using assms(3) by (auto simp: answer_error_def Let_def split: err.split)
  obtain body where body: "json_loads h raw = Some body" "is_dict body"
    using assms no_error by (auto simp: handle_llm_def split: option.splits if_splits)
  obtain res u where claim: "llm_claim h (le_progress env) identity body api st = (res, u)" by fastforce
  obtain r v where call: "replay_call h env identity body api st = (r, v)" by fastforce
  have r: "r = Inr reply" "v = t"
    using assms body call no_error by (auto simp: handle_llm_def split: sum.splits)
  have "\<exists>want. res = Inr want"
    using call r assms(3) by (cases res) (auto simp: replay_call_def claim split: err.splits)
  then obtain want where want: "res = Inr want" by blast
  note o = claim_outcome [OF claim, unfolded want]
  have mode: "ls_replay_mode u = ls_replay_mode st" using o by auto
  have "replay_attempt h identity api want (ci_started (le_ids env), le_ended env)
      \<lparr>er_status = le_status env, er_audit = le_audit env\<rparr> (le_accepts env) u = (Inr reply, t)"
    using call r assms(3) by (auto simp: replay_call_def claim want split: if_splits)
  from deliver_answer [OF this] show ?thesis using o body mode by (auto simp: Let_def)
qed

theorem replayed_answer_is_recorded_witness:
  "fst (handle_llm plain_host sample_env sample_identity ''{}'' ''chat.completions'' sample_llm_store) =
     recorded_answer plain_host (sample_attempt 0 ''first'')"
proof -
  let ?run = "handle_llm plain_host sample_env sample_identity ''{}'' ''chat.completions'' sample_llm_store"
  have ok: "answered (fst ?run)" by code_simp
  have rep: "ls_replaying sample_llm_store" by code_simp
  have head: "ls_replay_sequence sample_llm_store (identity_key sample_identity) = 0"
    "llm_queue sample_llm_store (identity_key sample_identity) ! 0 = sample_attempt 0 ''first''"
    by code_simp+
  show ?thesis
    using replayed_answer_is_recorded [OF rep prod.collapse [symmetric] ok] by (simp add: head Let_def)
qed

section \<open>The ledger over a run\<close>

text \<open>A run of the store: requests, questions for the models of a target, and the source cutoff.\<close>

inductive llm_reach :: "host \<Rightarrow> llm_store \<Rightarrow> llm_store \<Rightarrow> bool" for h st0 where
  start: "llm_reach h st0 st0"
| request: "llm_reach h st0 st \<Longrightarrow> llm_reach h st0 (llm_step h call st)"
| models: "llm_reach h st0 st \<Longrightarrow> llm_reach h st0 (snd (handle_models identity answer st))"
| freeze: "llm_reach h st0 st \<Longrightarrow> llm_reach h st0 (snd (llm_freeze_source_cutoff cutoff_at_ns st))"

text \<open>The attempts whose slot some request took.\<close>

definition claimed :: "host \<Rightarrow> llm_store \<Rightarrow> string set" where
  "claimed h st = {attempt_of h r | key r. r \<in> set (take (ls_replay_sequence st key) (llm_queue st key))}"

definition record_ledger :: "llm_store \<Rightarrow> bool" where
  "record_ledger st \<longleftrightarrow> \<not> ls_replaying st \<and> ls_completed st = {} \<and> ls_delivered st = {} \<and>
     length (ls_span_file st) = length (ls_llm_file st) \<and> ls_consumed st = length (ls_llm_file st)"

definition replay_ledger :: "host \<Rightarrow> llm_store \<Rightarrow> bool" where
  "replay_ledger h st \<longleftrightarrow> ls_replaying st \<and> ls_delivered st \<subseteq> ls_completed st \<and> ls_completed st \<subseteq> claimed h st \<and>
     ls_completed st = set (map (attempt_of h) (ls_llm_file st)) \<and>
     length (ls_span_file st) = length (ls_llm_file st) \<and> ls_consumed st \<le> length (ls_llm_file st) \<and>
     ls_inflight st = [] \<and> ls_truncated st = {}"

lemma claimed_same: "same_slots s t \<Longrightarrow> claimed h t = claimed h s"
  by (simp add: claimed_def same_slots_def llm_queue_def)

subsection \<open>Recording\<close>

lemma record_ledger_steps [simp]:
  "record_ledger (index_model_calls a v t) \<longleftrightarrow> record_ledger t"
  "record_ledger (write_attempt h ids i n api body resp b status tokens eng sp ended t) \<longleftrightarrow> record_ledger t"
  "record_ledger (mark_stream_interrupted a r m now t) \<longleftrightarrow> record_ledger t"
  "record_ledger (snd (answer_error err t)) \<longleftrightarrow> record_ledger t"
  by (auto simp: record_ledger_def index_model_calls_def write_attempt_def Let_def mark_stream_interrupted_def
      answer_error_def split: option.split err.split)

lemma begin_record_ledger: "record_ledger t \<Longrightarrow> record_ledger (snd (begin_record h ids i body api t))"
  by (auto simp: begin_record_def Let_def record_ledger_def split: sum.splits)

interpretation ledger: record_invariant h record_ledger
  for h :: host
  by unfold_locales (simp_all add: begin_record_ledger)

subsection \<open>Replaying\<close>

lemma attempt_of_update:
  "attempt_of h (PDict (pmerge (fields_of want) [(''started_at_ns'', a), (''ended_at_ns'', b), (''replay_mode'', m)])) =
   attempt_of h want"
  by (simp add: attempt_of_def pget_def pget_or_def map_of_pmerge split: option.split)

lemma replay_ledger_steps [simp]:
  "replay_ledger h (index_model_calls a v t) \<longleftrightarrow> replay_ledger h t"
  "replay_ledger h (snd (answer_error err t)) \<longleftrightarrow> replay_ledger h t"
  by (auto simp: replay_ledger_def index_model_calls_def answer_error_def Let_def claimed_def llm_queue_def
      split: err.split)

lemma replay_attempt_ledger:
  assumes "replay_ledger h st" and "attempt_of h want \<in> claimed h st"
  shows "replay_ledger h (snd (replay_attempt h identity api want clock engine acc st))"
proof -
  let ?u = "\<lambda>a b c v. write_replay_attempt h want identity a b (index_model_calls c v st)"
  have same: "claimed h (?u a b c v) = claimed h st" "claimed h (deliver h want (?u a b c v)) = claimed h st" for a b c v
    by (rule claimed_same; simp)+
  have wrote: "replay_ledger h (?u a b c v) \<and> ls_consumed (?u a b c v) < length (ls_llm_file (?u a b c v)) \<and>
      attempt_of h want \<in> ls_completed (?u a b c v)" for a b c v
    using assms unfolding replay_ledger_def same
    by (auto simp: write_replay_attempt_def attempt_of_update index_model_calls_def)
  have sent: "replay_ledger h (deliver h want (?u a b c v))" for a b c v
    using wrote [of a b c v] unfolding replay_ledger_def same by (auto simp: deliver_def)
  show ?thesis
    using assms(1) wrote sent by (auto simp: replay_attempt_def Let_def split: sum.splits)
qed

lemma replay_call_ledger:
  assumes "replay_ledger h st"
  shows "replay_ledger h (snd (replay_call h env identity body api st))"
proof -
  obtain res u where claim: "llm_claim h (le_progress env) identity body api st = (res, u)" by fastforce
  note o = claim_outcome [OF claim]
  show ?thesis
  proof (cases res)
    case (Inl e)
    have frame: "ls_span_file u = ls_span_file st \<and> ls_inflight u = ls_inflight st"
      using claim by (auto simp: llm_claim_def Let_def split: if_splits)
    with o Inl have "replay_ledger h u"
      using assms claimed_same [of st u h] by (auto simp: replay_ledger_def same_slots_def)
    then show ?thesis by (cases e) (auto simp: replay_call_def claim Inl)
  next
    case (Inr want)
    let ?key = "identity_key identity"
    let ?n = "ls_replay_sequence st ?key"
    have u: "u = st\<lparr>ls_replay_sequence := (ls_replay_sequence st)(?key := Suc ?n)\<rparr>" "?n < length (llm_queue st ?key)"
      "want = llm_queue st ?key ! ?n" using o Inr by auto
    have queue: "llm_queue u = llm_queue st" by (simp add: u(1) llm_queue_def fun_eq_iff)
    have seq: "ls_replay_sequence u = (ls_replay_sequence st)(?key := Suc ?n)" by (simp add: u(1))
    have grown: "set (take (ls_replay_sequence st key) (llm_queue st key)) \<subseteq> set (take (ls_replay_sequence u key) (llm_queue u key))" for key
      unfolding queue seq by (simp add: set_take_subset_set_take)
    then have "claimed h st \<subseteq> claimed h u" unfolding claimed_def by blast
    moreover have "ls_completed u = ls_completed st" "ls_delivered u = ls_delivered st" "ls_replaying u = ls_replaying st"
      "ls_llm_file u = ls_llm_file st" "ls_span_file u = ls_span_file st" "ls_consumed u = ls_consumed st"
      "ls_inflight u = ls_inflight st" "ls_truncated u = ls_truncated st" by (simp_all add: u(1))
    ultimately have "replay_ledger h u" using assms unfolding replay_ledger_def by (simp only:) blast
    moreover have "want \<in> set (take (ls_replay_sequence u ?key) (llm_queue u ?key))"
      using u(2,3) unfolding queue seq by (simp add: take_Suc_conv_app_nth)
    then have "attempt_of h want \<in> claimed h u" unfolding claimed_def by blast
    moreover have "ls_truncated u = {}" using assms by (simp add: u(1) replay_ledger_def)
    ultimately show ?thesis by (auto simp: replay_call_def claim Inr replay_attempt_ledger)
  qed
qed

subsection \<open>The invariant\<close>

definition llm_ledger_ok :: "host \<Rightarrow> llm_store \<Rightarrow> bool" where
  "llm_ledger_ok h st \<longleftrightarrow> record_ledger st \<or> replay_ledger h st"

lemma llm_step_ledger: "llm_ledger_ok h st \<Longrightarrow> llm_ledger_ok h (llm_step h call st)"
proof -
  assume ok: "llm_ledger_ok h st"
  obtain env identity raw api where call: "call = (env, identity, raw, api)" by (metis prod.exhaust)
  have errors: "llm_ledger_ok h (snd (answer_error e t)) \<longleftrightarrow> llm_ledger_ok h t" for e t
    by (simp add: llm_ledger_ok_def)
  have "llm_ledger_ok h (snd (replay_call h env identity body api st))" if "ls_replaying st" for body
    using ok that replay_call_ledger by (auto simp: llm_ledger_ok_def record_ledger_def)
  moreover have "llm_ledger_ok h (snd (record_call h env identity body api st))" if "\<not> ls_replaying st" for body
    using ok that ledger.record_call_keeps by (auto simp: llm_ledger_ok_def replay_ledger_def)
  ultimately show ?thesis
    using ok errors by (auto simp: llm_step_def call handle_llm_def split: option.splits prod.splits sum.splits)
      (metis snd_conv)+
qed

lemma freeze_ledger: "llm_ledger_ok h st \<Longrightarrow> llm_ledger_ok h (snd (llm_freeze_source_cutoff c st))"
proof -
  assume ok: "llm_ledger_ok h st"
  show ?thesis
  proof (cases "ls_replaying st")
    case True
    then have "replay_ledger h st" using ok by (auto simp: llm_ledger_ok_def record_ledger_def)
    then show ?thesis
      using claimed_same [of st "st\<lparr>ls_cutoff := Some c\<rparr>" h]
      unfolding llm_freeze_source_cutoff_def llm_ledger_ok_def replay_ledger_def same_slots_def by fastforce
  next
    case False
    then have "record_ledger (st\<lparr>ls_cutoff := Some c\<rparr>)" using ok by (auto simp: llm_ledger_ok_def replay_ledger_def record_ledger_def)
    then have "record_ledger (snd (llm_freeze_source_cutoff c st))"
      unfolding llm_freeze_source_cutoff_def
      by (rule mapS_keeps [where P = record_ledger]) (auto simp: freeze_inflight_def record_ledger_def split: sum.splits)
    then show ?thesis by (simp add: llm_ledger_ok_def)
  qed
qed

lemma new_store_ledger:
  assumes "new_llm_store mode rm dir ups recorded sec ha ns = Inr st"
  shows "llm_ledger_ok h st"
  using assms by (auto simp: new_llm_store_def bindR_eq_Inr llm_ledger_ok_def record_ledger_def replay_ledger_def claimed_def)

lemma models_ledger: "llm_ledger_ok h st \<Longrightarrow> llm_ledger_ok h (snd (handle_models identity answer st))"
proof -
  have "record_ledger st \<Longrightarrow> record_ledger (snd (handle_models identity answer st))"
    "replay_ledger h st \<Longrightarrow> replay_ledger h (snd (handle_models identity answer st))"
    by (auto simp: handle_models_def record_ledger_def replay_ledger_def claimed_def llm_queue_def Let_def
        split: option.splits sum.splits)
  then show "llm_ledger_ok h st \<Longrightarrow> llm_ledger_ok h (snd (handle_models identity answer st))"
    by (auto simp: llm_ledger_ok_def)
qed

text \<open>
  C19: In every state that a store reaches, what was delivered was written before, what was written are the
  attempts in the file, each of them in a slot that a request took; the spans go with the attempts, a
  recording counts each attempt once, and a replay never holds a request of the recording open.
\<close>

theorem llm_ledger_invariant:
  assumes "new_llm_store mode rm dir ups recorded sec ha ns = Inr st0" and "llm_reach h st0 st"
  shows "llm_ledger_ok h st"
  using assms(2)
proof (induction rule: llm_reach.induct)
  case start
  then show ?case using assms(1) by (rule new_store_ledger)
qed (simp_all add: llm_step_ledger models_ledger freeze_ledger)

theorem llm_ledger_invariant_witness:
  "llm_ledger_ok plain_host (llm_step plain_host (sample_env, sample_identity, ''{}'', ''chat.completions'') sample_llm_store) \<and>
   ls_delivered (llm_step plain_host (sample_env, sample_identity, ''{}'', ''chat.completions'') sample_llm_store) = {''first''}"
  using llm_ledger_invariant [OF sample_llm_store_is_new llm_reach.request [OF llm_reach.start]]
  by (rule conjI) code_simp

section \<open>Accounting\<close>

lemma missing_iff: "llm_assert_consumed h st = Inr () \<longleftrightarrow> list_all (\<lambda>r. attempt_of h r \<in> ls_delivered st) (llm_records st)"
  by (auto simp: llm_assert_consumed_def llm_outstanding_def Let_def llm_records_def list_all_iff list_ex_iff
      filter_empty_conv) force

text \<open>
  A replay counts as complete exactly when the check at its end passes and every request that was cut off
  in the recording was held as long as it had run there; a recording never does.
\<close>

theorem llm_accounting_agrees:
  "llm_expected_complete h now st \<longleftrightarrow> ls_replaying st \<and> llm_assert_consumed h st = Inr () \<and>
     list_all (\<lambda>(attempt, required). llm_served now st attempt required) (ls_truncated_elapsed st)"
  by (simp only: llm_expected_complete_def missing_iff)

section \<open>A faithful engine\<close>

text \<open>
  C20: An engine that keeps its side of the protocol is never refused: when it runs the recorded number of
  steps of the forced request and the evidence in the record was taken from the capture of the original
  run, then the audit that its plugin writes makes the store accept the attempt.
\<close>

theorem faithful_engine_is_accepted:
  assumes store: "ls_secret st = Some secret" "ls_has_audit st" "upstream_url st identity = Inr url"
    and body: "forced_upstream_body h (pget want ''request'') want api secret (ls_namespace st) = Inr body"
    and status: "py_int (pget_or want ''status_code'' (PInt 200)) = Inr (er_status engine)"
    and tokens: "pidx want ''response_token_ids'' = Inr (PList tokens)" "pidx want ''prompt_token_ids'' = Inr (PList (rq_prompt s))"
    and window: "pidx (pget want ''engine'') ''committed_sample_start'' = Inr (PInt (int b))"
      "pidx (pget want ''engine'') ''sampled_token_count'' = Inr (PInt (int n))"
    and capture: "rq_mode c = ''capture''" "rq_sampled c = []" "override_steps c drawn_steps = Inr (c', drawn)"
      "engine_evidence (audit_of h pid c') tokens = Inr (pget want ''engine'')"
    and replay: "fresh_forcing b n tokens s" "override_steps s steps = Inr (t, out)" "length steps = n"
      "list_all is_token (rq_prompt s)"
    and audit: "er_audit engine = Inr (audit_of h pid' t)"
  shows "run_upstream h st identity api want engine = Inr ()"
proof -
  let ?e = "pget want ''engine''"
  have fields: "pget ?e ''committed_sample_start'' = PInt (int b)" "pget ?e ''sampled_token_count'' = PInt (int n)"
    using window by (auto simp: pidx_def pget_def pget_or_def split: option.splits)
  note r = evidence_reproduced [OF capture fields replay, of pid']
  have self: "py_eq ?e ?e" by (rule evidence_self [OF capture(4)])
  show ?thesis
    by (simp add: run_upstream_def store body status tokens window audit r self)
qed

definition faithful_want :: pyval where
  "faithful_want = PDict
     [(''attempt_id'', PStr ''a1''), (''request'', PDict [(''model'', PStr ''m'')]), (''status_code'', PInt 200),
      (''prompt_token_ids'', PList [PInt 9]), (''response_token_ids'', PList [PInt 5, PInt 6]),
      (''engine'', PDict
        [(''audit_schema'', PStr AUDIT_SCHEMA), (''sampled_token_count'', PInt 4),
         (''committed_sample_start'', PInt 1), (''committed_sample_count'', PInt 2),
         (''uncommitted_prefix_count'', PInt 1), (''uncommitted_suffix_count'', PInt 1)])]"

definition full_store :: llm_store where
  "full_store = projr (new_llm_store ''replay'' ''full'' ''/run'' [(''default'', ''http://v/'')] None (Some ''k'') True None)"

theorem faithful_engine_is_accepted_witness:
  "\<exists>t out. override_steps sample_request sample_steps = Inr (t, out) \<and>
     run_upstream plain_host full_store sample_identity ''chat.completions'' faithful_want
       \<lparr>er_status = 200, er_audit = Inr (audit_of plain_host 7 t)\<rparr> = Inr ()"
proof -
  define c' where "c' = sample_capture\<lparr>rq_sampled := [PInt 1, PInt 5, PInt 6, PInt 2]\<rparr>"
  have capture: "override_steps sample_capture [([], 1), ([], 5), ([], 6), ([], 2)] = Inr (c', [1, 5, 6, 2])"
    unfolding c'_def by (subst capture_steps) (simp_all add: sample_capture_def)
  have "committed_sample_window [PInt 1, PInt 5, PInt 6, PInt 2] [PInt 5, PInt 6] = Inr 1" by code_simp
  then have evidence: "engine_evidence (audit_of plain_host 1 c') [PInt 5, PInt 6] = Inr (pget faithful_want ''engine'')"
    by (simp add: engine_evidence_def Let_def audit_fields c'_def sample_capture_def faithful_want_def)
  have replay: "fresh_forcing 1 4 [PInt 5, PInt 6] sample_request"
    by (simp add: fresh_forcing_def forcing_def sample_request_def)
  define t where "t = sample_request\<lparr>rq_sampled := [PInt 40, PInt 5, PInt 6, PInt 43], rq_forced := 2\<rparr>"
  have run: "override_steps sample_request sample_steps = Inr (t, [40, 5, 6, 43])" unfolding t_def by code_simp
  let ?body = "projr (forced_upstream_body plain_host (pget faithful_want ''request'') faithful_want ''chat.completions'' ''k''
    (ls_namespace full_store))"
  have body: "forced_upstream_body plain_host (pget faithful_want ''request'') faithful_want ''chat.completions'' ''k''
      (ls_namespace full_store) = Inr ?body"
    by (simp add: forced_upstream_body_def ordered_body_def api_body_def faithful_want_def full_store_def new_llm_store_def
        pget_def pget_or_def pidx_def py_dict_def py_or_def RESERVED_ARGUMENTS_def pset_def Let_def REPLAY_MODES_def)
  have store: "ls_secret full_store = Some ''k''" "ls_has_audit full_store" "upstream_url full_store sample_identity = Inr ''http://v''"
    by code_simp+
  show ?thesis
    by (intro exI conjI, rule run, rule faithful_engine_is_accepted [OF store body _ _ _ _ _ _ _ capture evidence replay run])
      (simp_all add: faithful_want_def pidx_def pget_or_def sample_capture_def sample_steps_def sample_request_def)
qed

end
