(* ===== verification/Llm_Progress.thy ===== *)
theory Llm_Progress
  imports Llm_Ledger
begin

text \<open>
  A framework that does what it did in the recording gets through the replay: each of its requests is
  answered from the recording, and afterwards the replay is complete.
\<close>

text \<open>A request that takes the place of a recorded attempt, from a client that stays.\<close>

definition repeats :: "host \<Rightarrow> pyval \<Rightarrow> llm_request \<Rightarrow> bool" where
  "repeats h want call \<longleftrightarrow>
     (let (env, identity, raw, api) = call in
      le_accepts env = None \<and> py_eq (pget want ''api'') (PStr api) \<and>
      (case json_loads h raw of Some body \<Rightarrow> is_dict body \<and> request_matches h identity want body | None \<Rightarrow> False))"

definition key_of_call :: "llm_request \<Rightarrow> llm_key" where
  "key_of_call call = identity_key (fst (snd call))"

definition reply_to :: "host \<Rightarrow> llm_request \<Rightarrow> llm_store \<Rightarrow> llm_reply" where
  "reply_to h call st = (let (env, identity, raw, api) = call in fst (handle_llm h env identity raw api st))"

definition quiet_replay :: "llm_store \<Rightarrow> bool" where
  "quiet_replay st \<longleftrightarrow> ls_replaying st \<and> ls_replay_mode st \<notin> set FORCED_REPLAY_MODES \<and> ls_truncated st = {} \<and> ls_truncated_elapsed st = []"

lemma repeated_request:
  assumes "quiet_replay st" and "ls_replay_sequence st (key_of_call call) < length (llm_queue st (key_of_call call))"
    and "repeats h (llm_queue st (key_of_call call) ! ls_replay_sequence st (key_of_call call)) call"
  shows "reply_to h call st = recorded_answer h (llm_queue st (key_of_call call) ! ls_replay_sequence st (key_of_call call)) \<and>
    quiet_replay (llm_step h call st) \<and> ls_queues (llm_step h call st) = ls_queues st \<and>
    ls_replay_sequence (llm_step h call st) = (ls_replay_sequence st)(key_of_call call := Suc (ls_replay_sequence st (key_of_call call))) \<and>
    ls_delivered (llm_step h call st) =
      insert (attempt_of h (llm_queue st (key_of_call call) ! ls_replay_sequence st (key_of_call call))) (ls_delivered st)"
proof -
  obtain env identity raw api where call: "call = (env, identity, raw, api)" by (metis prod.exhaust)
  let ?key = "identity_key identity"
  let ?n = "ls_replay_sequence st ?key"
  let ?want = "llm_queue st ?key ! ?n"
  let ?u = "st\<lparr>ls_replay_sequence := (ls_replay_sequence st)(?key := Suc ?n)\<rparr>"
  have key: "key_of_call call = ?key" by (simp add: key_of_call_def call)
  obtain body where body: "json_loads h raw = Some body" "is_dict body" "request_matches h identity ?want body"
      "py_eq (pget ?want ''api'') (PStr api)" "le_accepts env = None"
    using assms(3) by (auto simp: repeats_def call key_of_call_def split: option.splits)
  have claim: "llm_claim h (le_progress env) identity body api st = (Inr ?want, ?u)"
    using assms(2) body by (simp add: llm_claim_def Let_def key)
  obtain u' where run: "replay_attempt h identity api ?want (ci_started (le_ids env), le_ended env)
      \<lparr>er_status = le_status env, er_audit = le_audit env\<rparr> None ?u = (Inr (recorded_answer h ?want), u')"
    and u': "quiet_replay u'" "ls_queues u' = ls_queues st" "ls_replay_sequence u' = (ls_replay_sequence st)(?key := Suc ?n)"
      "ls_delivered u' = insert (attempt_of h ?want) (ls_delivered st)"
    using assms(1) by (auto simp: replay_attempt_def quiet_replay_def Let_def replay_stream_def recorded_answer_def
        deliver_def write_replay_attempt_def index_model_calls_def)
  have "handle_llm h env identity raw api st = (recorded_answer h ?want, u')"
    using assms(1) body claim run by (simp add: handle_llm_def replay_call_def quiet_replay_def)
  then show ?thesis using u' by (simp add: call key_of_call_def reply_to_def llm_step_def)
qed

text \<open>The answers that a sequence of requests gets.\<close>

fun replies :: "host \<Rightarrow> llm_request list \<Rightarrow> llm_store \<Rightarrow> llm_reply list" where
  "replies h [] st = []"
| "replies h (call # calls) st = reply_to h call st # replies h calls (llm_step h call st)"

text \<open>What is left of a queue is what the rest of the requests repeats.\<close>

definition follows :: "host \<Rightarrow> llm_request list \<Rightarrow> llm_store \<Rightarrow> bool" where
  "follows h calls st \<longleftrightarrow>
     (\<forall>key. list_all2 (repeats h) (drop (ls_replay_sequence st key) (llm_queue st key)) (filter (\<lambda>c. key_of_call c = key) calls))"

lemma follows_step:
  assumes "follows h (call # calls) st" and "quiet_replay st"
  shows "ls_replay_sequence st (key_of_call call) < length (llm_queue st (key_of_call call)) \<and>
    repeats h (llm_queue st (key_of_call call) ! ls_replay_sequence st (key_of_call call)) call \<and>
    follows h calls (llm_step h call st)"
proof -
  let ?key = "key_of_call call"
  have "list_all2 (repeats h) (drop (ls_replay_sequence st ?key) (llm_queue st ?key)) (call # filter (\<lambda>c. key_of_call c = ?key) calls)"
    using assms(1) [unfolded follows_def, rule_format, of ?key] by simp
  then obtain want rest where d: "drop (ls_replay_sequence st ?key) (llm_queue st ?key) = want # rest" "repeats h want call"
      "list_all2 (repeats h) rest (filter (\<lambda>c. key_of_call c = ?key) calls)"
    by (auto simp: list_all2_Cons2)
  have n: "ls_replay_sequence st ?key < length (llm_queue st ?key)" using d(1) by (metis drop_all linorder_not_less list.distinct(1))
  have want: "want = llm_queue st ?key ! ls_replay_sequence st ?key" "rest = drop (Suc (ls_replay_sequence st ?key)) (llm_queue st ?key)"
    using d(1) n by (simp_all add: Cons_nth_drop_Suc [symmetric])
  note step = repeated_request [OF assms(2) n d(2) [unfolded want(1)]]
  have "follows h calls (llm_step h call st)"
    unfolding follows_def
  proof
    fix key
    have queue: "llm_queue (llm_step h call st) key = llm_queue st key" using step by (simp add: llm_queue_def)
    show "list_all2 (repeats h) (drop (ls_replay_sequence (llm_step h call st) key) (llm_queue (llm_step h call st) key))
        (filter (\<lambda>c. key_of_call c = key) calls)"
      using assms(1) [unfolded follows_def, rule_format, of key] d(3) step unfolding queue want(2)
      by (cases "key = ?key") simp_all
  qed
  then show ?thesis using n d(2) want(1) by simp
qed

definition delivered_prefix :: "host \<Rightarrow> llm_store \<Rightarrow> bool" where
  "delivered_prefix h st \<longleftrightarrow>
     (\<forall>key. \<forall>r \<in> set (take (ls_replay_sequence st key) (llm_queue st key)). attempt_of h r \<in> ls_delivered st)"

lemma faithful_run:
  assumes "follows h calls st" and "quiet_replay st" and "delivered_prefix h st"
  shows "quiet_replay (fold (llm_step h) calls st) \<and> delivered_prefix h (fold (llm_step h) calls st) \<and>
    follows h [] (fold (llm_step h) calls st) \<and> ls_queues (fold (llm_step h) calls st) = ls_queues st \<and> list_all answered (replies h calls st)"
  using assms
proof (induction calls arbitrary: st)
  case Nil
  then show ?case by simp
next
  case (Cons call calls)
  note f = follows_step [OF Cons.prems(1,2)]
  note step = repeated_request [OF Cons.prems(2) f [THEN conjunct1] f [THEN conjunct2, THEN conjunct1]]
  have "delivered_prefix h (llm_step h call st)"
    unfolding delivered_prefix_def
  proof (intro allI ballI)
    fix key r
    assume r: "r \<in> set (take (ls_replay_sequence (llm_step h call st) key) (llm_queue (llm_step h call st) key))"
    have queue: "llm_queue (llm_step h call st) key = llm_queue st key" using step by (simp add: llm_queue_def)
    show "attempt_of h r \<in> ls_delivered (llm_step h call st)"
      using r Cons.prems(3) [unfolded delivered_prefix_def, rule_format, of _ key] f step unfolding queue
      by (cases "key = key_of_call call") (auto simp: take_Suc_conv_app_nth)
  qed
  moreover have "answered (reply_to h call st)" using step by (simp add: recorded_answer_def)
  ultimately show ?case using Cons.IH [of "llm_step h call st"] f step by simp
qed


definition sample_calls :: "llm_request list" where
  "sample_calls = replicate 2 (sample_env, sample_identity, ''{}'', ''chat.completions'')"


end
