(* ===== verification/Llm_Steps.thy ===== *)
theory Llm_Steps
  imports Llm_Order Llm_Safety
begin

text \<open>
  The contract of a property that no request can break, whether the store records or replays, and two such
  properties: the attempt that a model call belongs to never changes, and a recording that has its source
  cutoff gains no attempt that ended after it.
\<close>

locale store_invariant = record_invariant +
  assumes moved: "P t \<Longrightarrow> P (t\<lparr>ls_replay_sequence := f\<rparr>)"
    and marked: "P t \<Longrightarrow> P (t\<lparr>ls_markers := m\<rparr>)"
    and failed: "P t \<Longrightarrow> P (t\<lparr>ls_failure := e\<rparr>)"
    and held: "P t \<Longrightarrow> P (hold_truncated_attempt h c w t)"
    and replayed: "P t \<Longrightarrow> ls_replaying t \<Longrightarrow> P (write_replay_attempt h w i x y t)"
    and delivered: "P t \<Longrightarrow> P (deliver h w t)"
begin

lemma claim_keeps:
  assumes "P st"
  shows "P (snd (llm_claim h p identity body api st))"
    and "ls_replaying (snd (llm_claim h p identity body api st)) = ls_replaying st"
  using assms by (auto simp: llm_claim_def Let_def moved marked)

lemma replay_attempt_keeps:
  assumes "P st" and "ls_replaying st"
  shows "P (snd (replay_attempt h identity api want clock engine acc st))"
proof -
  have wrote: "P (write_replay_attempt h want identity a b (index_model_calls c v st))" for a b c v
    by (rule replayed [OF index [OF assms(1)]]) (simp add: assms(2) index_model_calls_def)
  show ?thesis
    using assms(1) by (auto simp: replay_attempt_def Let_def wrote delivered split: sum.splits)
qed

lemma replay_call_keeps:
  assumes "P st" and "ls_replaying st"
  shows "P (snd (replay_call h env identity body api st))"
proof -
  obtain res t where claim: "llm_claim h (le_progress env) identity body api st = (res, t)" by fastforce
  then have t: "P t" "ls_replaying t"
    using claim_keeps [OF assms(1), of "le_progress env" identity body api] assms(2) by simp_all
  show ?thesis
    using t by (cases res) (auto simp: replay_call_def claim held replay_attempt_keeps split: err.split)
qed

lemma answer_error_keeps: "P t \<Longrightarrow> P (snd (answer_error e t))"
  by (cases e) (auto simp: answer_error_def Let_def failed)

lemma llm_step_keeps:
  assumes "P st"
  shows "P (llm_step h call st)"
proof -
  obtain env identity raw api where call: "call = (env, identity, raw, api)" by (metis prod.exhaust)
  let ?run = "\<lambda>body. if ls_replaying st then replay_call h env identity body api st
    else record_call h env identity body api st"
  have run: "P (snd (?run body))" for body
    using assms by (simp add: replay_call_keeps record_call_keeps)
  show ?thesis
  proof (cases "json_loads h raw")
    case None
    then show ?thesis by (simp add: call llm_step_def handle_llm_def answer_error_keeps assms)
  next
    case (Some body)
    show ?thesis
    proof (cases "?run body")
      case (Pair res t)
      then have "P t" using run [of body] by simp
      then show ?thesis
        by (cases res) (simp_all add: call llm_step_def handle_llm_def Some Pair answer_error_keeps assms)
    qed
  qed
qed

lemma llm_steps_keep: "P st \<Longrightarrow> P (fold (llm_step h) calls st)"
  by (induction calls arbitrary: st) (simp_all add: llm_step_keeps)

end

section \<open>The index of model calls\<close>

definition call_known :: "string \<Rightarrow> string \<Rightarrow> llm_store \<Rightarrow> bool" where
  "call_known call attempt st \<longleftrightarrow> map_of (ls_call_index st) call = Some attempt"

lemma set_default_known: "map_of m k = Some v \<Longrightarrow> map_of (set_default k' v' m) k = Some v"
  by (auto simp: set_default_def split: option.split)

lemma index_known: "call_known c a t \<Longrightarrow> call_known c a (index_model_calls b v t)"
proof -
  have "map_of (fold (\<lambda>call. set_default call b) calls m) c = Some a" if "map_of m c = Some a" for calls m
    using that by (induction calls arbitrary: m) (simp_all add: set_default_known)
  then show "call_known c a t \<Longrightarrow> call_known c a (index_model_calls b v t)"
    by (simp add: call_known_def index_model_calls_def)
qed

lemma begin_record_index: "ls_call_index (snd (begin_record h ids i body api t)) = ls_call_index t"
  by (simp add: begin_record_def Let_def split: sum.splits)

interpretation calls: store_invariant h "call_known c a"
  for h :: host and c a :: string
  by unfold_locales
     (simp_all add: index_known, simp_all add: call_known_def write_attempt_def mark_stream_interrupted_def
       begin_record_index hold_truncated_attempt_def write_replay_attempt_def deliver_def Let_def split: option.split)

section \<open>The source cutoff\<close>

definition llm_closed_since :: "int \<Rightarrow> pyval list \<Rightarrow> llm_store \<Rightarrow> bool" where
  "llm_closed_since c base st \<longleftrightarrow> ls_cutoff st = Some c \<and> \<not> ls_replaying st \<and>
     (\<exists>new. ls_llm_file st = base @ new \<and> (\<forall>r \<in> set new. int_of (pget r ''ended_at_ns'') \<le> c))"

lemma llm_closed_write:
  assumes "llm_closed_since c base t"
  shows "llm_closed_since c base (write_attempt h ids i n api body resp b status tokens eng sp ended t)"
proof -
  from assms obtain new where new: "ls_cutoff t = Some c" "\<not> ls_replaying t" "ls_llm_file t = base @ new"
    "\<forall>r \<in> set new. int_of (pget r ''ended_at_ns'') \<le> c"
    unfolding llm_closed_since_def by blast
  then show ?thesis
    by (auto simp: llm_closed_since_def write_attempt_def Let_def attempt_record_fields(4)
        intro!: exI [of _ "new @ [attempt_record h ids i n api body resp b status tokens eng sp ended]"])
qed

lemma llm_closed_same:
  assumes "llm_closed_since c base t"
    and "ls_cutoff u = ls_cutoff t" "ls_replaying u = ls_replaying t" "ls_llm_file u = ls_llm_file t"
  shows "llm_closed_since c base u"
  using assms by (simp add: llm_closed_since_def)

lemma begin_record_closed: "llm_closed_since c base t \<Longrightarrow> llm_closed_since c base (snd (begin_record h ids i body api t))"
  by (erule llm_closed_same) (simp_all add: begin_record_def Let_def split: sum.splits)

interpretation closed: store_invariant h "llm_closed_since c base"
  for h :: host and c :: int and base :: "pyval list"
proof unfold_locales
  fix t ids i n api body resp b status tokens eng sp ended
  assume "llm_closed_since c base t"
  then show "llm_closed_since c base (write_attempt h ids i n api body resp b status tokens eng sp ended t)"
    by (rule llm_closed_write)
next
  fix t ids i body api
  assume "llm_closed_since c base t"
  then show "llm_closed_since c base (snd (begin_record h ids i body api t))" by (rule begin_record_closed)
next
  fix t w i x y
  assume "llm_closed_since c base t" and "ls_replaying t"
  then show "llm_closed_since c base (write_replay_attempt h w i x y t)" by (simp add: llm_closed_since_def)
qed (erule llm_closed_same; simp add: index_model_calls_def mark_stream_interrupted_def hold_truncated_attempt_def
       deliver_def split: option.split)+

end
