(* ===== verification/Services.thy ===== *)
theory Services
  imports Boundary_Safety Llm_Ledger Llm_Steps
begin

text \<open>
  services.py: the operation ledger and the LLM store of one run side by side.  Each sees only its own
  queues; the services install in both of them the predicates that speak of the whole run.

  The two event loops are the names of the services that run; binding a socket succeeds, or fails with a
  message.  A call is one step of the handler that serves it, so a predicate that reads the other service
  reads the state between two of its requests.
\<close>

section \<open>State\<close>

record services =
  sv_boundary :: ledger
  sv_llm :: llm_store
  sv_cutoff_actors :: "string list"
  sv_loops :: "string list"

record services_config =
  sc_ledger :: ledger_config
  sc_run_dir :: string
  sc_upstreams :: "(string \<times> string) list"
  sc_secret :: "string option"
  sc_has_audit :: bool
  sc_namespace :: "string option"

text \<open>The actors of the cutoff tails, and those that the manifest leaves open.\<close>

definition tail_actors :: "host \<Rightarrow> recording \<Rightarrow> string list res" where
  "tail_actors h b =
     mapR (\<lambda>entry. bindR (pidx entry ''actor_id'') (\<lambda>a. Inr (py_str h a)))
       (concat (map (\<lambda>section. items_of (pget_or (rec_cutoff_tails b) section (PList [])))
          [''operations'', ''llm_requests'']))"

definition service_cutoff_actors :: "host \<Rightarrow> recording option \<Rightarrow> string list res" where
  "service_cutoff_actors h loaded =
     (case loaded of
        None \<Rightarrow> Inr []
      | Some b \<Rightarrow> bindR (tail_actors h b) (\<lambda>tails. bindR (cutoff_actor_ids h b) (\<lambda>live. Inr (live @ tails))))"

definition new_services :: "host \<Rightarrow> services_config \<Rightarrow> recording option \<Rightarrow> services res" where
  "new_services h c loaded =
     bindR (new_llm_store (cfg_mode (sc_ledger c)) (cfg_replay_mode (sc_ledger c)) (sc_run_dir c) (sc_upstreams c)
              (map_option (\<lambda>b. (rec_manifest b, rec_llm b)) loaded) (sc_secret c) (sc_has_audit c) (sc_namespace c))
       (\<lambda>llm. bindR (boundary_ledger h (sc_ledger c) loaded)
       (\<lambda>ledger. bindR (service_cutoff_actors h loaded)
       (\<lambda>actors. Inr \<lparr>sv_boundary = ledger, sv_llm = llm, sv_cutoff_actors = actors, sv_loops = []\<rparr>)))"

section \<open>Lifecycle\<close>

text \<open>A service is registered before it has booted; a failed boot is reported to the caller.\<close>

definition start_service :: "string \<Rightarrow> string option \<Rightarrow> (services, unit) op" where
  "start_service name failure sv =
     (case failure of None \<Rightarrow> Inr () | Some _ \<Rightarrow> Inl (InfrastructureError ''could not start service''),
      sv\<lparr>sv_loops := sv_loops sv @ [name]\<rparr>)"

definition services_stop :: "services \<Rightarrow> services" where
  "services_stop sv = sv\<lparr>sv_loops := []\<rparr>"

definition services_start :: "string option \<Rightarrow> string option \<Rightarrow> (services, unit) op" where
  "services_start boundary_failure llm_failure =
     bindS (start_service ''boundary'' boundary_failure) (\<lambda>_ sv.
       case start_service ''llm'' llm_failure sv of
         (Inr u, sv) \<Rightarrow> (Inr u, sv)
       | (Inl e, sv) \<Rightarrow> (Inl e, services_stop sv))"

definition service_running :: "string \<Rightarrow> services \<Rightarrow> unit res" where
  "service_running name sv =
     (if name \<in> set (sv_loops sv) then Inr () else Inl (InfrastructureError ''replay service is not running''))"

section \<open>The state of the run\<close>

definition services_healthy :: "services \<Rightarrow> unit res" where
  "services_healthy sv =
     (case hard_failure (sv_boundary sv) of
        Some m \<Rightarrow> Inl (InfrastructureError ''boundary service failed'')
      | None \<Rightarrow>
          (case ls_failure (sv_llm sv) of
             Some m \<Rightarrow> Inl (InfrastructureError ''llm service failed'')
           | None \<Rightarrow> Inr ()))"

definition services_complete :: "host \<Rightarrow> int \<Rightarrow> services \<Rightarrow> bool" where
  "services_complete h now sv \<longleftrightarrow>
     expected_complete h now (sv_boundary sv) \<and> llm_expected_complete h now (sv_llm sv)"

definition cutoff_actor_complete :: "host \<Rightarrow> int \<Rightarrow> services \<Rightarrow> string \<Rightarrow> bool" where
  "cutoff_actor_complete h now sv actor_id \<longleftrightarrow>
     actor_id \<in> set (sv_cutoff_actors sv) \<and>
     actor_expected_complete h now (sv_boundary sv) actor_id \<and>
     llm_actor_expected_complete h now (sv_llm sv) actor_id"

definition cutoff_actor_prefix_consumed :: "host \<Rightarrow> services \<Rightarrow> string \<Rightarrow> bool" where
  "cutoff_actor_prefix_consumed h sv actor_id \<longleftrightarrow>
     actor_id \<in> set (sv_cutoff_actors sv) \<and>
     actor_expected_prefix_consumed h (sv_boundary sv) actor_id \<and>
     llm_actor_expected_prefix_consumed h (sv_llm sv) actor_id"

definition services_unexpected_active :: "services \<Rightarrow> bool" where
  "services_unexpected_active sv = has_unexpected_active (sv_boundary sv)"

definition services_assert_consumed :: "host \<Rightarrow> int \<Rightarrow> services \<Rightarrow> unit res" where
  "services_assert_consumed h now sv =
     bindR (assert_consumed h now (sv_boundary sv)) (\<lambda>_. llm_assert_consumed h (sv_llm sv))"

definition services_status :: "host \<Rightarrow> int \<Rightarrow> services \<Rightarrow> pyval" where
  "services_status h now sv =
     PDict [(''boundary'', outstanding h now (sv_boundary sv)), (''llm'', llm_outstanding h (sv_llm sv))]"

text \<open>What the services install in the two services.\<close>

definition peers_of :: "host \<Rightarrow> int \<Rightarrow> services \<Rightarrow> peers" where
  "peers_of h now sv =
     \<lparr>run_complete = services_complete h now sv,
      actor_complete = cutoff_actor_prefix_consumed h sv,
      attempt_for_model_call = Some (attempt_for_call (sv_llm sv))\<rparr>"

definition progress_of :: "host \<Rightarrow> int \<Rightarrow> services \<Rightarrow> run_progress" where
  "progress_of h now sv =
     \<lparr>rp_run_complete = services_complete h now sv, rp_actor_complete = cutoff_actor_prefix_consumed h sv\<rparr>"

section \<open>Steps\<close>

text \<open>The two snapshots of the source cutoff share its timestamp.\<close>

definition services_freeze :: "host \<Rightarrow> int \<Rightarrow> (services, pyval) op" where
  "services_freeze h cutoff_at_ns sv =
     (if sv_loops sv = [] then (Inl (InfrastructureError ''cannot freeze cutoff before replay services start''), sv)
      else case service_running ''boundary'' sv of
        Inl e \<Rightarrow> (Inl e, sv)
      | Inr _ \<Rightarrow>
          (case freeze_source_cutoff h cutoff_at_ns (sv_boundary sv) of
             (Inl e, b) \<Rightarrow> (Inl e, sv\<lparr>sv_boundary := b\<rparr>)
           | (Inr ops, b) \<Rightarrow>
               (case service_running ''llm'' sv of
                  Inl e \<Rightarrow> (Inl e, sv\<lparr>sv_boundary := b\<rparr>)
                | Inr _ \<Rightarrow>
                    (case llm_freeze_source_cutoff cutoff_at_ns (sv_llm sv) of
                       (res, l) \<Rightarrow>
                         (bindR res (\<lambda>reqs. Inr (PDict [(''operations'', PList ops), (''llm_requests'', PList reqs)])),
                          sv\<lparr>sv_boundary := b, sv_llm := l\<rparr>)))))"

text \<open>A call of a service; the first number is the clock where a predicate of the whole run reads it.\<close>

datatype service_call =
    Operation_Start int tick string pyval
  | Operation_Complete int string pyval
  | Llm_Call int llm_env request_identity string string
  | Models_Call request_identity "int \<times> pyval"
  | Source_Cutoff int

definition service_step :: "host \<Rightarrow> service_call \<Rightarrow> services \<Rightarrow> services" where
  "service_step h call sv =
     (case call of
        Operation_Start now t authorization payload \<Rightarrow>
          sv\<lparr>sv_boundary := snd (handle_start h (peers_of h now sv) t authorization payload (sv_boundary sv))\<rparr>
      | Operation_Complete now authorization payload \<Rightarrow>
          sv\<lparr>sv_boundary := snd (handle_complete h now authorization payload (sv_boundary sv))\<rparr>
      | Llm_Call now env identity raw api \<Rightarrow>
          sv\<lparr>sv_llm := snd (handle_llm h (env\<lparr>le_progress := progress_of h now sv\<rparr>) identity raw api (sv_llm sv))\<rparr>
      | Models_Call identity answer \<Rightarrow> sv\<lparr>sv_llm := snd (handle_models identity answer (sv_llm sv))\<rparr>
      | Source_Cutoff cutoff_at_ns \<Rightarrow> snd (services_freeze h cutoff_at_ns sv))"

text \<open>How a step looks from each of the two services: one of its own steps, or nothing.\<close>

definition ledger_moves :: "host \<Rightarrow> service_call \<Rightarrow> ledger \<Rightarrow> ledger \<Rightarrow> bool" where
  "ledger_moves h call b b' \<longleftrightarrow> b' = b \<or>
     (\<exists>bc. b' = boundary_step h bc b \<and> (\<forall>c. bc = Freeze_Call c \<longrightarrow> call = Source_Cutoff c))"

definition llm_moves :: "host \<Rightarrow> service_call \<Rightarrow> llm_store \<Rightarrow> llm_store \<Rightarrow> bool" where
  "llm_moves h call s s' \<longleftrightarrow> s' = s \<or> (\<exists>r. s' = llm_step h r s) \<or>
     (\<exists>identity answer. s' = snd (handle_models identity answer s)) \<or>
     (\<exists>c. call = Source_Cutoff c \<and> s' = snd (llm_freeze_source_cutoff c s))"

lemma service_step_moves:
  "ledger_moves h call (sv_boundary sv) (sv_boundary (service_step h call sv)) \<and>
   llm_moves h call (sv_llm sv) (sv_llm (service_step h call sv))"
proof (cases call)
  case (Operation_Start now t authorization payload)
  then have "sv_boundary (service_step h call sv) =
      boundary_step h (Start_Call (peers_of h now sv) t authorization payload) (sv_boundary sv)"
    by (simp add: service_step_def boundary_step_def)
  then show ?thesis using Operation_Start by (auto simp: ledger_moves_def llm_moves_def service_step_def)
next
  case (Operation_Complete now authorization payload)
  then have "sv_boundary (service_step h call sv) = boundary_step h (Complete_Call now authorization payload) (sv_boundary sv)"
    by (simp add: service_step_def boundary_step_def)
  then show ?thesis using Operation_Complete by (auto simp: ledger_moves_def llm_moves_def service_step_def)
next
  case (Llm_Call now env identity raw api)
  then have "sv_llm (service_step h call sv) =
      llm_step h (env\<lparr>le_progress := progress_of h now sv\<rparr>, identity, raw, api) (sv_llm sv)"
    by (simp add: service_step_def llm_step_def)
  then show ?thesis using Llm_Call by (auto simp: ledger_moves_def llm_moves_def service_step_def)
next
  case (Models_Call identity answer)
  have "llm_moves h call (sv_llm sv) (snd (handle_models identity answer (sv_llm sv)))"
    unfolding llm_moves_def by blast
  then show ?thesis using Models_Call by (simp add: ledger_moves_def service_step_def)
next
  case (Source_Cutoff c)
  have "snd (freeze_source_cutoff h c (sv_boundary sv)) = boundary_step h (Freeze_Call c) (sv_boundary sv)"
    by (simp add: boundary_step_def)
  then have "ledger_moves h call (sv_boundary sv) (snd (freeze_source_cutoff h c (sv_boundary sv)))"
    using Source_Cutoff by (auto simp: ledger_moves_def)
  moreover have "llm_moves h call (sv_llm sv) (snd (llm_freeze_source_cutoff c (sv_llm sv)))"
    using Source_Cutoff by (auto simp: llm_moves_def)
  moreover have "ledger_moves h call (sv_boundary sv) (sv_boundary sv)" "llm_moves h call (sv_llm sv) (sv_llm sv)"
    by (simp_all add: ledger_moves_def llm_moves_def)
  moreover obtain r b where b: "freeze_source_cutoff h c (sv_boundary sv) = (r, b)" by fastforce
  moreover obtain q l where l: "llm_freeze_source_cutoff c (sv_llm sv) = (q, l)" by fastforce
  ultimately show ?thesis
    by (simp add: service_step_def Source_Cutoff services_freeze_def split: sum.splits)
qed

section \<open>Both ledgers of a run\<close>

lemma service_steps_keep:
  assumes "P sv" and "\<And>call sv. call \<in> set calls \<Longrightarrow> P sv \<Longrightarrow> P (service_step h call sv)"
  shows "P (fold (service_step h) calls sv)"
  using assms by (induction calls arbitrary: sv) auto

text \<open>The parent of a model call, once known, stays.\<close>

lemma known_call_step:
  assumes "call_known c a (sv_llm sv)"
  shows "call_known c a (sv_llm (service_step h call sv))"
proof -
  have "call_known c a (snd (handle_models identity answer s))" if "call_known c a s" for identity answer s
    using that by (auto simp: handle_models_def call_known_def Let_def split: option.splits sum.splits)
  moreover have "call_known c a (snd (llm_freeze_source_cutoff n s))" if "call_known c a s" for n s
    unfolding llm_freeze_source_cutoff_def
    by (rule mapS_keeps [where P = "call_known c a"])
       (use that in \<open>auto simp: call_known_def freeze_inflight_def split: sum.splits\<close>)
  ultimately show ?thesis
    using service_step_moves [of h call sv] assms calls.llm_step_keeps unfolding llm_moves_def by metis
qed

text \<open>
  C30: A dispatch whose parent attempt the services can name once keeps it: whatever calls the two services
  serve in between, the origin of the dispatch is resolved to the same attempt, because the index of model
  calls only grows and keeps the attempt that emitted a call first.
\<close>

theorem causal_parent_is_stable:
  assumes "resolve_trigger (peers_of h now sv) payload = Inr payload2"
  shows "resolve_trigger (peers_of h later (fold (service_step h) calls sv)) payload = Inr payload2"
proof -
  let ?sv = "fold (service_step h) calls sv"
  have "attempt_for_call (sv_llm ?sv) v = Some a" if "attempt_for_call (sv_llm sv) v = Some a" for v a
  proof -
    from that have v: "is_str v" and known: "call_known (str_of v) a (sv_llm sv)"
      by (auto simp: attempt_for_call_def call_known_def split: if_splits)
    have "call_known (str_of v) a (sv_llm ?sv)"
      by (rule service_steps_keep [where P = "\<lambda>sv. call_known (str_of v) a (sv_llm sv)", OF known])
         (rule known_call_step)
    with v show ?thesis by (simp add: attempt_for_call_def call_known_def)
  qed
  with assms show ?thesis
    by (auto simp: resolve_trigger_def peers_of_def Let_def bindR_eq_Inr split: if_splits option.splits)
qed

text \<open>The source cutoff of the whole run.\<close>

lemma ledger_closed_step:
  assumes "closed_since c base (sv_boundary sv)" and "\<forall>n. call \<noteq> Source_Cutoff n"
  shows "closed_since c base (sv_boundary (service_step h call sv))"
proof -
  have "ledger_moves h call (sv_boundary sv) (sv_boundary (service_step h call sv))"
    using service_step_moves by blast
  then consider "sv_boundary (service_step h call sv) = sv_boundary sv"
    | bc where "sv_boundary (service_step h call sv) = boundary_step h bc (sv_boundary sv)" "\<And>n. bc \<noteq> Freeze_Call n"
    using assms(2) unfolding ledger_moves_def by metis
  then show ?thesis using assms(1) by cases (simp_all add: closed_since_step)
qed

lemma llm_closed_step:
  assumes "llm_closed_since c base (sv_llm sv)" and "\<forall>n. call \<noteq> Source_Cutoff n"
  shows "llm_closed_since c base (sv_llm (service_step h call sv))"
proof -
  have models: "llm_closed_since c base (snd (handle_models identity answer s))"
    if "llm_closed_since c base s" for identity answer s
    by (rule llm_closed_same [OF that]) (auto simp: handle_models_def Let_def split: option.splits sum.splits)
  show ?thesis
    using service_step_moves [of h call sv] assms closed.llm_step_keeps models unfolding llm_moves_def by metis
qed

lemma llm_freeze_fields:
  "ls_cutoff (snd (llm_freeze_source_cutoff c s)) = Some c \<and>
   ls_replaying (snd (llm_freeze_source_cutoff c s)) = ls_replaying s \<and>
   ls_llm_file (snd (llm_freeze_source_cutoff c s)) = ls_llm_file s"
  unfolding llm_freeze_source_cutoff_def
  by (rule mapS_keeps [where P = "\<lambda>t. ls_cutoff t = Some c \<and> ls_replaying t = ls_replaying s \<and> ls_llm_file t = ls_llm_file s"])
     (auto simp: freeze_inflight_def split: sum.splits)

lemma services_freeze_ok:
  assumes "services_freeze h c sv = (Inr tails, sv')"
  shows "sv_boundary sv' = snd (freeze_source_cutoff h c (sv_boundary sv))"
    and "sv_llm sv' = snd (llm_freeze_source_cutoff c (sv_llm sv))"
  using assms by (auto simp: services_freeze_def split: if_splits sum.splits prod.splits)

lemma freeze_closes:
  assumes "\<not> replaying b"
  shows "closed_since c (ledger_file b) (snd (freeze_source_cutoff h c b))"
  by (rule freeze_keeps) (use assms in \<open>auto simp: closed_since_def truncate_reservation_def Let_def\<close>)

text \<open>
  C28: Once the services have taken the source cutoff of a recording, no call to either of them adds an
  operation or a model request that ended after it, although the two freeze one after the other.
\<close>

theorem run_records_nothing_after_cutoff:
  assumes "\<not> replaying (sv_boundary sv)" and "\<not> ls_replaying (sv_llm sv)"
    and "services_freeze h c sv = (Inr tails, sv')"
    and "\<forall>call \<in> set calls. \<forall>n. call \<noteq> Source_Cutoff n"
  shows "\<exists>ops reqs.
    ledger_file (sv_boundary (fold (service_step h) calls sv')) = ledger_file (sv_boundary sv) @ ops \<and>
    (\<forall>(kind, r) \<in> set ops. int_of (pget r ''ended_at_ns'') \<le> c) \<and>
    ls_llm_file (sv_llm (fold (service_step h) calls sv')) = ls_llm_file (sv_llm sv) @ reqs \<and>
    (\<forall>r \<in> set reqs. int_of (pget r ''ended_at_ns'') \<le> c)"
proof -
  let ?P = "\<lambda>sv' :: services. closed_since c (ledger_file (sv_boundary sv)) (sv_boundary sv') \<and>
    llm_closed_since c (ls_llm_file (sv_llm sv)) (sv_llm sv')"
  have "?P sv'"
    unfolding services_freeze_ok [OF assms(3)]
    using freeze_closes [OF assms(1)] llm_freeze_fields assms(2) by (simp add: llm_closed_since_def)
  then have "?P (fold (service_step h) calls sv')"
  proof (rule service_steps_keep [where P = ?P])
    fix call and sv1 :: services
    assume "call \<in> set calls" and P: "?P sv1"
    then have "\<forall>n. call \<noteq> Source_Cutoff n" using assms(4) by simp
    with P show "?P (service_step h call sv1)" by (simp add: ledger_closed_step llm_closed_step)
  qed
  then obtain ops reqs where
    "ledger_file (sv_boundary (fold (service_step h) calls sv')) = ledger_file (sv_boundary sv) @ ops"
    "\<forall>(kind, r) \<in> set ops. int_of (pget r ''ended_at_ns'') \<le> c"
    "ls_llm_file (sv_llm (fold (service_step h) calls sv')) = ls_llm_file (sv_llm sv) @ reqs"
    "\<forall>r \<in> set reqs. int_of (pget r ''ended_at_ns'') \<le> c"
    unfolding closed_since_def llm_closed_since_def by (elim conjE exE) simp
  then show ?thesis by (intro exI conjI)
qed

section \<open>Reachable states\<close>

text \<open>The invariants of the two services hold in every state that the composition reaches.\<close>

lemma service_step_ok:
  assumes "ledger_inv (sv_boundary sv) \<and> llm_ledger_ok h (sv_llm sv)"
  shows "ledger_inv (sv_boundary (service_step h call sv)) \<and> llm_ledger_ok h (sv_llm (service_step h call sv))"
  using service_step_moves [of h call sv] assms ledger_inv_step llm_step_ledger models_ledger freeze_ledger
  unfolding ledger_moves_def llm_moves_def by metis

lemma reachable_services_ok:
  assumes "new_services h c loaded = Inr sv0"
  shows "ledger_inv (sv_boundary (fold (service_step h) calls sv0)) \<and> llm_ledger_ok h (sv_llm (fold (service_step h) calls sv0))"
proof (rule service_steps_keep [where P = "\<lambda>sv :: services. ledger_inv (sv_boundary sv) \<and> llm_ledger_ok h (sv_llm sv)"])
  show "ledger_inv (sv_boundary sv0) \<and> llm_ledger_ok h (sv_llm sv0)"
    using assms loaded_inv new_store_ledger by (auto simp: new_services_def bindR_eq_Inr)
qed (rule service_step_ok)

section \<open>Requests that are held\<close>

lemma llm_claim_withheld:
  assumes "llm_claim h p identity body api st = (Inl (WorkloadComplete m), t)"
  shows "length (llm_queue st (identity_key identity)) \<le> ls_replay_sequence st (identity_key identity) \<and>
    (rp_run_complete p \<or> rp_actor_complete p (id_actor identity) \<or> llm_lane_complete h st (identity_key identity)) \<and>
    ls_replay_sequence t = ls_replay_sequence st"
  using assms by (auto simp: llm_claim_def Let_def split: if_splits)


section \<open>The end of a run\<close>

lemma missing_none: "missing_ops h st = [] \<longleftrightarrow>
    list_all (\<lambda>i. i \<in> truncated st \<or> i \<in> delivered st) (expected_ids h st)"
  by (auto simp: missing_ops_def filter_empty_conv list_all_iff)

text \<open>
  The supervisor's two ways to see the end of a replay agree: the run is complete with nothing
  unexpected open exactly when the checks at teardown pass for both services and everything that was cut off
  in the recording was held as long as it had run there.
\<close>

theorem run_accounting_agrees:
  assumes "replaying (sv_boundary sv)" and "ls_replaying (sv_llm sv)"
  shows "services_complete h now sv \<and> \<not> services_unexpected_active sv \<longleftrightarrow>
    services_assert_consumed h now sv = Inr () \<and>
    (\<forall>(identity, required) \<in> set (truncated_elapsed (sv_boundary sv)). served now (sv_boundary sv) identity) \<and>
    (\<forall>(attempt, required) \<in> set (ls_truncated_elapsed (sv_llm sv)). llm_served now (sv_llm sv) attempt required)"
proof -
  have "services_assert_consumed h now sv = Inr () \<longleftrightarrow>
      missing_ops h (sv_boundary sv) = [] \<and> \<not> services_unexpected_active sv \<and> llm_assert_consumed h (sv_llm sv) = Inr ()"
    by (auto simp: services_assert_consumed_def bindR_eq_Inr assert_consumed_ok services_unexpected_active_def)
  then show ?thesis
    using assms
    by (auto simp: services_complete_def expected_complete_def llm_expected_complete_def missing_iff missing_none
        list_all_iff)
qed

section \<open>Concrete runs\<close>

text \<open>A recording with one model answer that makes a tool call, and a second answer that claims the same call.\<close>

definition recording_run :: services where
  "recording_run = snd (services_start None None (projr (new_services plain_host
     \<lparr>sc_ledger = record_config, sc_run_dir = ''/run'', sc_upstreams = [(''default'', ''http://up'')], sc_secret = None,
      sc_has_audit = False, sc_namespace = None\<rparr> None)))"

definition answering :: "string \<Rightarrow> int \<Rightarrow> service_call" where
  "answering attempt ended = Llm_Call 1
     (sample_env\<lparr>le_ids := \<lparr>ci_attempt = attempt, ci_span = ''y'', ci_started = 1\<rparr>, le_ended := ended,
        le_payload := PDict [(''tool_calls'', PList [PDict [(''id'', PStr ''c1'')]])]\<rparr>)
     sample_identity ''{}'' ''chat.completions''"

definition awaiting_parent :: pyval where
  "awaiting_parent = PDict [(''origin'', PDict [(''trigger_id'', PStr ''auto''), (''model_call_id'', PStr ''c1'')])]"

definition with_parent :: "string \<Rightarrow> pyval" where
  "with_parent attempt = PDict [(''origin'', PDict [(''trigger_id'', PStr attempt), (''model_call_id'', PStr ''c1'')])]"

theorem causal_parent_is_stable_witness:
  "resolve_trigger (peers_of plain_host 9 (fold (service_step plain_host) [answering ''late'' 4]
     (service_step plain_host (answering ''first'' 2) recording_run))) awaiting_parent = Inr (with_parent ''first'')"
  by (rule causal_parent_is_stable [where now = 0]) code_simp

theorem run_records_nothing_after_cutoff_witness:
  "\<exists>sv' ops reqs. services_freeze plain_host 3 (service_step plain_host (answering ''a'' 2) recording_run) =
       (Inr (PDict [(''operations'', PList []), (''llm_requests'', PList [])]), sv') \<and>
     length (ls_llm_file (sv_llm (service_step plain_host (answering ''a'' 2) recording_run))) = 1 \<and>
     ls_llm_file (sv_llm (service_step plain_host (answering ''b'' 4) sv')) =
       ls_llm_file (sv_llm (service_step plain_host (answering ''a'' 2) recording_run)) @ reqs \<and>
     (\<forall>r \<in> set reqs. int_of (pget r ''ended_at_ns'') \<le> 3)"
proof -
  let ?sv = "service_step plain_host (answering ''a'' 2) recording_run"
  have rec: "\<not> replaying (sv_boundary ?sv)" "\<not> ls_replaying (sv_llm ?sv)" by code_simp+
  have run: "fst (services_freeze plain_host 3 ?sv) = Inr (PDict [(''operations'', PList []), (''llm_requests'', PList [])])"
    by code_simp
  have one: "length (ls_llm_file (sv_llm ?sv)) = 1" by code_simp
  obtain sv' where f: "services_freeze plain_host 3 ?sv = (Inr (PDict [(''operations'', PList []), (''llm_requests'', PList [])]), sv')"
    using run by (metis prod.collapse)
  have late: "\<forall>call \<in> set [answering ''b'' 4]. \<forall>n. call \<noteq> Source_Cutoff n" by (simp add: answering_def)
  from run_records_nothing_after_cutoff [OF rec f late] f one show ?thesis by auto
qed

text \<open>A replay of a recording in which nothing happened: it is complete at once and holds what arrives.\<close>

definition empty_recording :: recording where
  "empty_recording = \<lparr>rec_manifest = PDict [], rec_llm = [], rec_dispatches = [], rec_tools = [], rec_graders = [],
     rec_artifacts = [], rec_spans = [], rec_cutoff_tails = PDict [], rec_terminal = PDict []\<rparr>"

definition empty_run :: services where
  "empty_run = projr (new_services plain_host
     \<lparr>sc_ledger = sample_config, sc_run_dir = ''/run'', sc_upstreams = [], sc_secret = None,
      sc_has_audit = False, sc_namespace = None\<rparr> (Some empty_recording))"

lemma empty_run_new:
  "new_services plain_host \<lparr>sc_ledger = sample_config, sc_run_dir = ''/run'', sc_upstreams = [], sc_secret = None,
      sc_has_audit = False, sc_namespace = None\<rparr> (Some empty_recording) = Inr empty_run"
proof -
  have "\<not> isl (new_services plain_host \<lparr>sc_ledger = sample_config, sc_run_dir = ''/run'', sc_upstreams = [], sc_secret = None,
      sc_has_audit = False, sc_namespace = None\<rparr> (Some empty_recording))" by code_simp
  then show ?thesis by (simp add: empty_run_def)
qed


theorem run_accounting_agrees_witness: "services_assert_consumed plain_host 5 empty_run = Inr ()"
proof -
  have "replaying (sv_boundary empty_run)" "ls_replaying (sv_llm empty_run)" by code_simp+
  note agree = run_accounting_agrees [OF this, of plain_host 5]
  have "services_complete plain_host 5 empty_run" "\<not> services_unexpected_active empty_run" by code_simp+
  with agree show ?thesis by blast
qed

end
