(* ===== verification/Tool_Calls.thy ===== *)
theory Tool_Calls
  imports Schema
begin

text \<open>
  bundle.py: the tool calls that the recorded answers of the model emit, whether streamed in fragments or
  not, the markers for calls whose dispatch never began before the cutoff, and the check that every emitted
  call is accounted for.
\<close>

section \<open>The calls of a response\<close>

text \<open>One entry of \<open>by_slot\<close>; fragments of the same slot are appended.\<close>

record call_slot =
  cs_id :: string
  cs_name :: string
  cs_arguments :: string

type_synonym slots = "((int \<times> int) \<times> call_slot) list"

definition empty_slot :: call_slot where
  "empty_slot = \<lparr>cs_id = [], cs_name = [], cs_arguments = []\<rparr>"

text \<open>\<open>text\<close> as far as the value is a string.\<close>

definition text_part :: "pyval \<Rightarrow> string" where
  "text_part v = (if is_str v then str_of v else [])"

definition add_fragment :: "pyval \<Rightarrow> call_slot \<Rightarrow> call_slot" where
  "add_fragment call slot =
     (let function = pget call ''function'';
          slot = slot\<lparr>cs_id := cs_id slot @ text_part (pget call ''id'')\<rparr>
      in if \<not> is_dict function then slot
         else slot\<lparr>cs_name := cs_name slot @ text_part (pget function ''name''),
                   cs_arguments := cs_arguments slot @ text_part (pget function ''arguments'')\<rparr>)"

definition enumerate_list :: "'a list \<Rightarrow> (nat \<times> 'a) list" where
  "enumerate_list xs = zip [0..<length xs] xs"

definition consume_call :: "pyval \<Rightarrow> nat \<times> pyval \<Rightarrow> slots \<Rightarrow> slots res" where
  "consume_call choice_index item slots =
     (let (position, call) = item in
      if \<not> is_dict call then Inr slots
      else
        bindR (py_int choice_index) (\<lambda>i.
        bindR (py_int (pget_or call ''index'' (PInt (int position)))) (\<lambda>j.
          let current = (case map_of slots (i, j) of None \<Rightarrow> empty_slot | Some s \<Rightarrow> s)
          in Inr (AList.update (i, j) (add_fragment call current) slots))))"

definition consume_choice :: "nat \<times> pyval \<Rightarrow> slots \<Rightarrow> slots res" where
  "consume_choice item slots =
     (let (position, choice) = item in
      if \<not> is_dict choice then Inr slots
      else
        let choice_index = pget_or choice ''index'' (PInt (int position));
            container = (if is_dict (pget choice ''delta'') then pget choice ''delta'' else pget choice ''message'')
        in if \<not> is_dict container \<or> \<not> is_list (pget container ''tool_calls'') then Inr slots
           else foldR (consume_call choice_index) (enumerate_list (items_of (pget container ''tool_calls''))) slots)"

definition consume :: "pyval \<Rightarrow> slots \<Rightarrow> slots res" where
  "consume payload slots =
     (if \<not> is_dict payload \<or> \<not> is_list (pget payload ''choices'') then Inr slots
      else foldR consume_choice (enumerate_list (items_of (pget payload ''choices''))) slots)"

record tool_call =
  tc_slot :: call_slot
  tc_arguments :: pyval

definition finished_call :: "host \<Rightarrow> call_slot \<Rightarrow> tool_call res" where
  "finished_call h slot =
     (case json_loads h (if cs_arguments slot = [] then ''{}'' else cs_arguments slot) of
        None \<Rightarrow> Inl (ValidationError ''completed LLM tool call has invalid arguments'')
      | Some arguments \<Rightarrow>
          bindR (require (is_dict arguments) ''completed LLM tool call arguments are not an object'')
            (\<lambda>_. Inr \<lparr>tc_slot = slot, tc_arguments = arguments\<rparr>))"

definition response_tool_calls :: "host \<Rightarrow> pyval \<Rightarrow> tool_call list res" where
  "response_tool_calls h v =
     (let chunks = (if is_dict v then pget v ''chunks'' else PNone)
      in bindR (if is_list chunks
                then foldR (\<lambda>chunk slots. if is_dict chunk then consume (pget chunk ''payload'') slots else Inr slots)
                       (items_of chunks) []
                else consume v [])
           (\<lambda>slots. mapR (finished_call h) (filter (\<lambda>s. cs_id s \<noteq> []) (map snd slots))))"

section \<open>Calls that were never dispatched\<close>

text \<open>An actor with the identifier that the provider gave to a call.\<close>

type_synonym call_key = "string \<times> string"

definition observed_calls :: "host \<Rightarrow> pyval list \<Rightarrow> call_key list res" where
  "observed_calls h records =
     mapR (\<lambda>r. bindR (pidx r ''actor_id'') (\<lambda>a. Inr (py_str h a, str_of (pget r ''native_call_id''))))
       (filter (\<lambda>r. is_nonempty_str (pget r ''native_call_id'')) records)"

record tail_state =
  tl_operations :: "pyval list"
  tl_observed :: "call_key list"
  tl_claimed :: "string list"

text \<open>The child requests that can name the parent span of a call, before their times are looked at.\<close>

definition child_of :: "string \<Rightarrow> string \<Rightarrow> string list \<Rightarrow> pyval \<Rightarrow> bool" where
  "child_of actor_id parent_session claimed r \<longleftrightarrow>
     py_eq (pget r ''actor_id'') (PStr actor_id) \<and>
     is_str (pget r ''session_id'') \<and>
     starts_with (parent_session @ ''/child-'') (str_of (pget r ''session_id'')) \<and>
     is_nonempty_str (pget r ''parent_span_id'') \<and>
     str_of (pget r ''parent_span_id'') \<notin> set claimed"

text \<open>The earliest one; equal times are decided by the span.\<close>

definition child_parent_for ::
    "pyval list \<Rightarrow> string \<Rightarrow> string \<Rightarrow> int \<Rightarrow> string list \<Rightarrow> (string option \<times> string list) res" where
  "child_parent_for llm actor_id parent_session after_ns claimed =
     bindR (mapR (\<lambda>r. bindR (bindR (pidx r ''started_at_ns'') py_int)
                    (\<lambda>t. Inr (t, str_of (pget r ''parent_span_id''))))
              (filter (child_of actor_id parent_session claimed) llm)) (\<lambda>all_times.
       case sort_key fst (sort_key snd (filter (\<lambda>c. after_ns \<le> fst c) all_times)) of
         [] \<Rightarrow> Inr (None, claimed)
       | (_, parent) # _ \<Rightarrow> Inr (Some parent, parent # claimed))"

definition common_tail ::
    "host \<Rightarrow> pyval \<Rightarrow> string \<Rightarrow> tool_call \<Rightarrow> bool \<Rightarrow> pyval \<Rightarrow> pyval \<Rightarrow> dict" where
  "common_tail h attempt actor_id call descends attempt_id ended =
     (let native = cs_id (tc_slot call) in
      [(''cutoff_truncated'', PBool True),
       (''pre_dispatch'', PBool (\<not> descends)),
       (''replay_entry'', PStr (if descends then ''enter-and-preserve-descendants'' else ''block-before-entry'')),
       (''actor_id'', PStr actor_id),
       (''process_role'', pget_or attempt ''process_role'' (PStr ''agent'')),
       (''lane'', PStr (''model-call:'' @ native)),
       (''causal_lane'', PStr (''model-call:'' @ native)),
       (''session_id'', pget attempt ''session_id''),
       (''origin'', PDict [(''kind'', PStr ''llm_structured''), (''trigger_id'', attempt_id),
                           (''model_call_id'', PStr native)]),
       (''name'', PStr (cs_name (tc_slot call))),
       (''arguments'', tc_arguments call),
       (''native_arguments'', tc_arguments call),
       (''arguments_sha256'', PStr (sha256_json h (tc_arguments call))),
       (''source_started_at_ns'', ended),
       (''elapsed_ns'', PInt 0)])"

definition call_digest :: "host \<Rightarrow> string \<Rightarrow> string \<Rightarrow> string" where
  "call_digest h actor_id native = take 24 (sha256_hex h (actor_id @ CHR 0x00 # native))"

definition dispatch_tail :: "host \<Rightarrow> string \<Rightarrow> tool_call \<Rightarrow> dict \<Rightarrow> pyval" where
  "dispatch_tail h actor_id call common =
     (let native = cs_id (tc_slot call); digest = call_digest h actor_id native
      in PDict (common @
           [(''kind'', PStr ''dispatch''),
            (''dispatch_id'', PStr (''predispatch-'' @ digest)),
            (''record_id'', PStr (''predispatch-'' @ digest)),
            (''span_id'', PStr (''span-predispatch-'' @ digest)),
            (''parser_identity'', PStr ''opencode.message.part.tool''),
            (''dispatcher_identity'', PStr ''opencode.tool.execute.before''),
            (''native_call_id'', PStr native)]))"

definition optional_field :: "string \<Rightarrow> pyval" where
  "optional_field pointer = PDict [(''json_pointer'', PStr pointer), (''optional'', PBool True)]"

definition tool_tail :: "host \<Rightarrow> string \<Rightarrow> tool_call \<Rightarrow> dict \<Rightarrow> string \<Rightarrow> pyval" where
  "tool_tail h actor_id call common parent =
     (let digest = call_digest h actor_id (cs_id (tc_slot call))
      in PDict (AList.update ''pre_dispatch'' (PBool False) common @
           [(''kind'', PStr ''tool''),
            (''call_id'', PStr (''pretool-'' @ digest)),
            (''record_id'', PStr (''pretool-'' @ digest)),
            (''span_id'', PStr parent),
            (''parent_span_id'', PStr (''span-predispatch-'' @ digest)),
            (''dispatch_id'', PStr (''predispatch-'' @ digest)),
            (''implementation'', PStr ''opencode-native-replay-plugin''),
            (''result_contract'', PDict
              [(''schema_version'', PStr ''native-agent-replay.result-contract/v2''),
               (''kind'', PStr ''recorded-observation''),
               (''fields'', PList (map optional_field
                  [''/output'', ''/error'', ''/metadata/parentSessionId'', ''/metadata/sessionId'']))])]))"

definition add_call_tail ::
    "host \<Rightarrow> string \<Rightarrow> pyval list \<Rightarrow> pyval \<Rightarrow> string \<Rightarrow> tool_call \<Rightarrow> tail_state \<Rightarrow> tail_state res" where
  "add_call_tail h adapter llm attempt actor_id call st =
     (let native = cs_id (tc_slot call); parent_session = py_str h (py_or (pget attempt ''session_id'') (PStr [])) in
      if (actor_id, native) \<in> set (tl_observed st) then Inr st
      else
        bindR (if adapter = ''coral'' \<and> cs_name (tc_slot call) = ''task'' \<and> parent_session \<noteq> []
               then bindR (bindR (pidx attempt ''ended_at_ns'') py_int) (\<lambda>after_ns.
                      child_parent_for llm actor_id parent_session after_ns (tl_claimed st))
               else Inr (None, tl_claimed st)) (\<lambda>(parent, claimed).
        bindR (pidx attempt ''attempt_id'') (\<lambda>attempt_id.
        bindR (pidx attempt ''ended_at_ns'') (\<lambda>ended.
          let common = common_tail h attempt actor_id call (parent \<noteq> None) attempt_id ended
          in Inr \<lparr>tl_operations = tl_operations st @ [dispatch_tail h actor_id call common] @
                    (case parent of None \<Rightarrow> [] | Some s \<Rightarrow> [tool_tail h actor_id call common s]),
                  tl_observed = tl_observed st @ [(actor_id, native)],
                  tl_claimed = claimed\<rparr>))))"

definition add_attempt_tails ::
    "host \<Rightarrow> string \<Rightarrow> pyval list \<Rightarrow> pyval \<Rightarrow> tail_state \<Rightarrow> tail_state res" where
  "add_attempt_tails h adapter llm attempt st =
     bindR (pidx attempt ''actor_id'') (\<lambda>actor.
     bindR (bindR (pidx attempt ''response'') (response_tool_calls h)) (\<lambda>calls.
       foldR (add_call_tail h adapter llm attempt (py_str h actor)) calls st))"

text \<open>The cutoff tails as the code passes them on: the operations and the requests.\<close>

record cutoff_tails =
  ct_operations :: "pyval list"
  ct_requests :: "pyval list"

definition materialize_pre_dispatch_tails ::
    "host \<Rightarrow> string \<Rightarrow> pyval list \<Rightarrow> pyval list \<Rightarrow> cutoff_tails \<Rightarrow> cutoff_tails res" where
  "materialize_pre_dispatch_tails h adapter llm dispatches tails =
     bindR (observed_calls h (dispatches @ ct_operations tails)) (\<lambda>observed.
     bindR (foldR (add_attempt_tails h adapter llm) llm
              \<lparr>tl_operations = ct_operations tails, tl_observed = observed, tl_claimed = []\<rparr>) (\<lambda>st.
       Inr \<lparr>ct_operations = tl_operations st, ct_requests = ct_requests tails\<rparr>))"

section \<open>The coverage check\<close>

definition emitted_calls :: "host \<Rightarrow> pyval list \<Rightarrow> call_key list res" where
  "emitted_calls h llm =
     bindR (mapR (\<lambda>r. bindR (pidx r ''actor_id'') (\<lambda>a.
              bindR (bindR (pidx r ''response'') (response_tool_calls h)) (\<lambda>calls.
                Inr (map (\<lambda>c. (py_str h a, cs_id (tc_slot c))) calls)))) llm) (\<lambda>ks. Inr (concat ks))"

definition require_coral_dispatch_coverage ::
    "host \<Rightarrow> string \<Rightarrow> pyval list \<Rightarrow> pyval list \<Rightarrow> cutoff_tails \<Rightarrow> unit res" where
  "require_coral_dispatch_coverage h adapter llm dispatches tails =
     (if adapter \<noteq> ''coral'' then Inr ()
      else
        bindR (emitted_calls h llm) (\<lambda>emitted.
        bindR (observed_calls h dispatches) (\<lambda>dispatched.
        bindR (observed_calls h (ct_operations tails)) (\<lambda>cut.
          if set emitted \<subseteq> set dispatched \<union> set cut then Inr ()
          else Inl (ValidationError ''CORAL LLM tool calls have no dispatch or cutoff evidence'')))))"

section \<open>Coverage\<close>

lemma observed_append:
  "observed_calls h (xs @ ys) = bindR (observed_calls h xs) (\<lambda>us. bindR (observed_calls h ys) (\<lambda>vs. Inr (us @ vs)))"
  by (simp add: observed_calls_def mapR_append)

lemma pidx_Cons [simp]: "pidx (PDict ((k', x) # kvs)) k = (if k' = k then Inr x else pidx (PDict kvs) k)"
  by (simp add: pidx_def)

lemma dispatch_tail_key:
  "cs_id (tc_slot call) \<noteq> [] \<Longrightarrow>
   observed_calls h [dispatch_tail h a call (common_tail h attempt a call d v w)] = Inr [(a, cs_id (tc_slot call))]"
  by (simp add: observed_calls_def dispatch_tail_def common_tail_def Let_def)

lemma tool_tail_key: "observed_calls h [tool_tail h a call (common_tail h attempt a call d v w) s] = Inr []"
  by (simp add: observed_calls_def tool_tail_def common_tail_def Let_def)

lemma response_calls_named: "response_tool_calls h v = Inr calls \<Longrightarrow> c \<in> set calls \<Longrightarrow> cs_id (tc_slot c) \<noteq> []"
proof -
  assume r: "response_tool_calls h v = Inr calls" and c: "c \<in> set calls"
  from r obtain slots where "mapR (finished_call h) (filter (\<lambda>s. cs_id s \<noteq> []) slots) = Inr calls"
    unfolding response_tool_calls_def Let_def by (auto simp: bindR_eq_Inr)
  then have each: "list_all2 (\<lambda>s c. finished_call h s = Inr c) (filter (\<lambda>s. cs_id s \<noteq> []) slots) calls"
    by (simp add: mapR_eq_Inr)
  from c obtain i where i: "i < length calls" "c = calls ! i" by (auto simp: in_set_conv_nth)
  let ?s = "filter (\<lambda>s. cs_id s \<noteq> []) slots ! i"
  have finished: "finished_call h ?s = Inr c" and len: "i < length (filter (\<lambda>s. cs_id s \<noteq> []) slots)"
    using each i by (auto simp: list_all2_conv_all_nth)
  from nth_mem [OF len] have "cs_id ?s \<noteq> []" by auto
  with finished show ?thesis by (auto simp: finished_call_def bindR_eq_Inr split: option.splits)
qed

text \<open>The calls that are known are those that the records show.\<close>

definition tail_inv :: "host \<Rightarrow> pyval list \<Rightarrow> tail_state \<Rightarrow> bool" where
  "tail_inv h dispatches st \<longleftrightarrow>
     (case observed_calls h (dispatches @ tl_operations st) of Inr obs \<Rightarrow> set obs = set (tl_observed st) | Inl _ \<Rightarrow> False)"

text \<open>What is added is evidence of the boundary: marked as cut off, and of no duration.\<close>

definition marker :: "pyval \<Rightarrow> bool" where
  "marker r \<longleftrightarrow> pget r ''cutoff_truncated'' = PBool True \<and> pget r ''elapsed_ns'' = PInt 0"

definition grows :: "tail_state \<Rightarrow> tail_state \<Rightarrow> bool" where
  "grows st t \<longleftrightarrow> set (tl_observed st) \<subseteq> set (tl_observed t) \<and>
     (\<exists>added. tl_operations t = tl_operations st @ added \<and> list_all marker added)"

lemma grows_refl [simp]: "grows st st"
  by (simp add: grows_def)

lemma grows_trans: "grows s t \<Longrightarrow> grows t u \<Longrightarrow> grows s u"
  unfolding grows_def by (auto simp: list_all_append)

lemma add_call_tail_ok:
  assumes "add_call_tail h adapter llm attempt a call st = Inr t" and "tail_inv h dispatches st" and "cs_id (tc_slot call) \<noteq> []"
  shows "tail_inv h dispatches t \<and> grows st t \<and> (a, cs_id (tc_slot call)) \<in> set (tl_observed t)"
proof (cases "(a, cs_id (tc_slot call)) \<in> set (tl_observed st)")
  case True
  then show ?thesis using assms by (simp add: add_call_tail_def)
next
  case False
  then obtain s cl d v w where t: "t = \<lparr>tl_operations = tl_operations st @ [dispatch_tail h a call (common_tail h attempt a call d v w)] @
        (case s of None \<Rightarrow> [] | Some p \<Rightarrow> [tool_tail h a call (common_tail h attempt a call d v w) p]),
      tl_observed = tl_observed st @ [(a, cs_id (tc_slot call))], tl_claimed = cl\<rparr>"
    using assms(1) by (auto simp: add_call_tail_def Let_def bindR_eq_Inr)
  have new: "observed_calls h ([dispatch_tail h a call (common_tail h attempt a call d v w)] @
      (case s of None \<Rightarrow> [] | Some p \<Rightarrow> [tool_tail h a call (common_tail h attempt a call d v w) p])) =
      Inr [(a, cs_id (tc_slot call))]"
    by (subst observed_append)
      (simp add: dispatch_tail_key [OF assms(3)] tool_tail_key observed_calls_def [of h "[]"] split: option.split)
  have marks: "marker (dispatch_tail h a call (common_tail h attempt a call d v w))"
    "marker (tool_tail h a call (common_tail h attempt a call d v w) p)" for p
    by (simp_all add: marker_def dispatch_tail_def tool_tail_def common_tail_def Let_def)
  have "tail_inv h dispatches t"
    using assms(2) unfolding tail_inv_def t tail_state.simps
    by (subst append_assoc [symmetric], subst observed_append, subst new)
      (cases "observed_calls h (dispatches @ tl_operations st)"; simp)
  moreover have "grows st t" using marks by (auto simp: grows_def t split: option.split)
  ultimately show ?thesis by (simp add: t)
qed

lemma add_calls_ok:
  assumes "foldR (add_call_tail h adapter llm attempt a) calls st = Inr t" and "tail_inv h dispatches st"
    and "\<And>c. c \<in> set calls \<Longrightarrow> cs_id (tc_slot c) \<noteq> []"
  shows "tail_inv h dispatches t \<and> grows st t \<and> (\<lambda>c. (a, cs_id (tc_slot c))) ` set calls \<subseteq> set (tl_observed t)"
  using assms
proof (induction calls arbitrary: st)
  case Nil
  then show ?case by simp
next
  case (Cons c calls)
  from Cons.prems(1) obtain u where u: "add_call_tail h adapter llm attempt a c st = Inr u"
    and rest: "foldR (add_call_tail h adapter llm attempt a) calls u = Inr t" by (auto simp: bindR_eq_Inr)
  have first: "tail_inv h dispatches u \<and> grows st u \<and> (a, cs_id (tc_slot c)) \<in> set (tl_observed u)"
    by (rule add_call_tail_ok [OF u Cons.prems(2)]) (simp add: Cons.prems(3))
  have "tail_inv h dispatches t \<and> grows u t \<and> (\<lambda>c. (a, cs_id (tc_slot c))) ` set calls \<subseteq> set (tl_observed t)"
    by (rule Cons.IH [OF rest]) (use first Cons.prems(3) in auto)
  then show ?case using first grows_trans [of st u t] by (auto simp: grows_def)
qed

lemma emitted_Cons:
  "emitted_calls h (r # rs) = bindR (pidx r ''actor_id'') (\<lambda>a. bindR (bindR (pidx r ''response'') (response_tool_calls h)) (\<lambda>calls.
     bindR (emitted_calls h rs) (\<lambda>more. Inr (map (\<lambda>c. (py_str h a, cs_id (tc_slot c))) calls @ more))))"
  by (cases "pidx r ''actor_id''"; cases "bindR (pidx r ''response'') (response_tool_calls h)") (auto simp: emitted_calls_def bindR_def split: sum.splits)

lemma add_attempts_ok:
  assumes "foldR (add_attempt_tails h adapter llm) rs st = Inr t" and "tail_inv h dispatches st"
  shows "\<exists>emitted. emitted_calls h rs = Inr emitted \<and> tail_inv h dispatches t \<and> grows st t \<and> set emitted \<subseteq> set (tl_observed t)"
  using assms
proof (induction rs arbitrary: st)
  case Nil
  then show ?case by (simp add: emitted_calls_def)
next
  case (Cons r rs)
  from Cons.prems(1) obtain u where "add_attempt_tails h adapter llm r st = Inr u"
    and rest: "foldR (add_attempt_tails h adapter llm) rs u = Inr t" by (auto simp: bindR_eq_Inr)
  then obtain a v calls where r: "pidx r ''actor_id'' = Inr a" "pidx r ''response'' = Inr v" "response_tool_calls h v = Inr calls"
    and calls: "foldR (add_call_tail h adapter llm r (py_str h a)) calls st = Inr u"
    by (auto simp: add_attempt_tails_def bindR_eq_Inr)
  note first = add_calls_ok [OF calls Cons.prems(2) response_calls_named [OF r(3)]]
  from Cons.IH [OF rest] first obtain emitted where "emitted_calls h rs = Inr emitted" "tail_inv h dispatches t"
    "grows u t" "set emitted \<subseteq> set (tl_observed t)" by auto
  then show ?case using first r grows_trans [of st u t] by (auto simp: emitted_Cons grows_def)
qed

lemma known_calls_add_nothing:
  "emitted_calls h rs = Inr emitted \<Longrightarrow> set emitted \<subseteq> set (tl_observed st) \<Longrightarrow> foldR (add_attempt_tails h adapter llm) rs st = Inr st"
proof (induction rs arbitrary: emitted)
  case Nil
  then show ?case by simp
next
  case (Cons r rs)
  from Cons.prems(1) obtain a v calls more where r: "pidx r ''actor_id'' = Inr a" "pidx r ''response'' = Inr v"
      "response_tool_calls h v = Inr calls" "emitted_calls h rs = Inr more"
      "emitted = map (\<lambda>c. (py_str h a, cs_id (tc_slot c))) calls @ more"
    by (auto simp: emitted_Cons bindR_eq_Inr)
  have "foldR (add_call_tail h adapter llm r (py_str h a)) cs st = Inr st" if "set cs \<subseteq> set calls" for cs
    using that Cons.prems(2) r(5) by (induction cs) (auto simp: add_call_tail_def)
  then have "add_attempt_tails h adapter llm r st = Inr st" by (simp add: add_attempt_tails_def r)
  then show ?case using Cons.IH [OF r(4)] Cons.prems(2) r(5) by simp
qed


text \<open>A model call of a task whose dispatch was cut off while its child was at work.\<close>

definition sample_parent_attempt :: pyval where
  "sample_parent_attempt = PDict
     [(''attempt_id'', PStr ''p1''), (''actor_id'', PStr ''a1''), (''session_id'', PStr ''s''),
      (''started_at_ns'', PInt 10), (''ended_at_ns'', PInt 20),
      (''response'', PDict [(''choices'', PList [PDict [(''message'', PDict [(''tool_calls'', PList
         [PDict [(''id'', PStr ''c1''), (''function'', PDict [(''name'', PStr ''task''), (''arguments'', PStr [])])]])])]])])]"

definition sample_child_attempt :: pyval where
  "sample_child_attempt = PDict
     [(''attempt_id'', PStr ''p2''), (''actor_id'', PStr ''a1''), (''session_id'', PStr ''s/child-1''),
      (''parent_span_id'', PStr ''sp9''), (''started_at_ns'', PInt 30), (''ended_at_ns'', PInt 40),
      (''response'', PDict [])]"

definition sample_tails :: "cutoff_tails res" where
  "sample_tails = materialize_pre_dispatch_tails plain_host ''coral'' [sample_parent_attempt, sample_child_attempt] []
     \<lparr>ct_operations = [], ct_requests = []\<rparr>"


end
