(* ===== verification/Bundle_Files.thy ===== *)
theory Bundle_Files
  imports Recording Tool_Calls "HOL-Library.Product_Lexorder"
begin

text \<open>
  bundle.py: how a recording is written as a directory of lanes, and how such a directory is validated and
  loaded.

  A file is known by its two readings, as one JSON document and as JSON lines; \<open>None\<close> is a text that does
  not parse.  Writing a value sorts the keys of its dictionaries.  The staged ledgers of a run are given by
  the lists of their records.
\<close>

section \<open>Files\<close>

record document =
  doc_value :: "pyval option"
  doc_lines :: "pyval option list"

type_synonym disk = "(string \<times> document) list"

text \<open>\<open>atomic_write_json\<close>, and \<open>touch\<close> with one \<open>append_jsonl\<close> per value.\<close>

definition json_document :: "pyval \<Rightarrow> document" where
  "json_document v = \<lparr>doc_value = Some (canon v), doc_lines = [Some (canon v)]\<rparr>"

definition jsonl_document :: "pyval list \<Rightarrow> document" where
  "jsonl_document vs =
     \<lparr>doc_value = (case vs of [v] \<Rightarrow> Some (canon v) | _ \<Rightarrow> None), doc_lines = map (Some \<circ> canon) vs\<rparr>"

definition read_json :: "disk \<Rightarrow> string \<Rightarrow> pyval res" where
  "read_json disk path =
     (case map_of disk path of
        None \<Rightarrow> Inl (ValidationError ''cannot read JSON'')
      | Some d \<Rightarrow>
          (case doc_value d of
             None \<Rightarrow> Inl (ValidationError ''cannot read JSON'')
           | Some v \<Rightarrow> bindR (require (is_dict v) ''expected a JSON object'') (\<lambda>_. Inr v)))"

definition line_object :: "pyval option \<Rightarrow> pyval res" where
  "line_object line =
     (case line of
        None \<Rightarrow> Inl (ValidationError ''malformed JSON'')
      | Some v \<Rightarrow> bindR (require (is_dict v) ''expected a JSON object'') (\<lambda>_. Inr v))"

section \<open>Lanes\<close>

definition LANE_BUNDLE_EVENT_SCHEMA :: string where
  "LANE_BUNDLE_EVENT_SCHEMA = ''minireplay.lane-bundle-event/v1''"

definition BUNDLE_FILES :: "string list" where
  "BUNDLE_FILES = [''manifest.json'', ''terminal.json'']"

definition LANE_KINDS :: "string list" where
  "LANE_KINDS = [''llm'', ''dispatch'', ''tool'', ''grader'', ''artifact'', ''span'', ''cutoff-operation'', ''cutoff-llm'']"

text \<open>A record with the kind of its ledger.\<close>

type_synonym event = "string \<times> pyval"

definition lane_issue_order :: "event \<Rightarrow> (int \<times> nat) res" where
  "lane_issue_order event =
     (let (kind, r) = event;
          started = (if is_int (pget r ''started_at_ns'') then pget r ''started_at_ns''
                     else if is_int (pget r ''source_started_at_ns'') then pget r ''source_started_at_ns''
                     else pget_or r ''completed_at_ns'' (PInt 0))
      in bindR (py_int started) (\<lambda>t. Inr (t, if kind = ''span'' then 1 else 0)))"

definition of_kind :: "string \<Rightarrow> event list \<Rightarrow> pyval list" where
  "of_kind kind events = map snd (filter (\<lambda>e. fst e = kind) events)"

definition lane_counts :: "event list \<Rightarrow> pyval" where
  "lane_counts events = PDict (map (\<lambda>kind. (kind, PInt (int (length (of_kind kind events))))) LANE_KINDS)"

section \<open>Loading the lanes\<close>

definition lane_event :: "string \<Rightarrow> nat \<times> pyval \<Rightarrow> event res" where
  "lane_event actor_id item =
     (let (sequence, event) = item; kind = pget event ''kind''; r = pget event ''record'' in
      bindR (checks
        [require (py_eq (pget event ''schema_version'') (PStr LANE_BUNDLE_EVENT_SCHEMA)) ''bundle lane: unsupported event schema'',
         require (py_eq (pget event ''actor_id'') (PStr actor_id)) ''bundle lane: event names another actor'',
         require (py_eq (pget event ''sequence'') (PInt (int sequence))) ''bundle lane: non-contiguous sequence'',
         require_in kind LANE_KINDS ''bundle lane: unknown kind'',
         require (is_dict r) ''bundle lane: record is not an object'',
         require (py_eq (pget r ''actor_id'') (PStr actor_id)) ''bundle lane: record names another actor''])
        (\<lambda>_. Inr (str_of kind, r)))"

definition safe_path :: "string \<Rightarrow> bool" where
  "safe_path path \<longleftrightarrow> path_root path = [] \<and> ''..'' \<notin> set (split_on (CHR ''/'') path)"

definition load_lane :: "host \<Rightarrow> disk \<Rightarrow> pyval \<Rightarrow> event list res" where
  "load_lane h disk lane =
     bindR (pidx lane ''actor_id'') (\<lambda>actor.
     bindR (pidx lane ''path'') (\<lambda>path.
     bindR (require (safe_path (py_str h path)) ''bundle lane has an unsafe path'') (\<lambda>_.
       case map_of disk (path_text (py_str h path)) of
         None \<Rightarrow> Inl (ValidationError ''bundle lane is missing'')
       | Some d \<Rightarrow>
           bindR (mapR (\<lambda>(i, line). bindR (line_object line) (\<lambda>event. lane_event (py_str h actor) (i, event)))
                    (enumerate_list (doc_lines d))) (\<lambda>events.
           bindR (pidx lane ''counts'') (\<lambda>counts.
           bindR (require (py_eq counts (lane_counts events)) ''bundle lane: manifest counts disagree with its events'')
             (\<lambda>_. Inr events))))))"

definition load_lane_records :: "host \<Rightarrow> disk \<Rightarrow> pyval \<Rightarrow> event list res" where
  "load_lane_records h disk manifest =
     bindR (mapR (load_lane h disk) (items_of (pget manifest ''lanes''))) (\<lambda>lanes. Inr (concat lanes))"

section \<open>Validating a bundle\<close>

definition check_tail :: "string \<Rightarrow> pyval \<Rightarrow> unit res" where
  "check_tail section entry =
     checks
       ([require (is_dict entry) ''cutoff tails: entry must be an object'',
         require (pget entry ''cutoff_truncated'' = PBool True) ''cutoff tails: entry is not marked truncated'',
         require (is_int_not_bool (pget entry ''elapsed_ns'') \<and> 0 \<le> int_of (pget entry ''elapsed_ns''))
           ''cutoff tails: entry has an invalid elapsed_ns'',
         require (is_nonempty_str (pget entry ''actor_id'')) ''cutoff tails: entry has no actor'',
         require (is_none_or_nonempty_str (pget entry ''causal_lane'')) ''cutoff tails: entry has an invalid causal_lane''] @
        (if section = ''operations''
         then [require_in (pget_or entry ''replay_entry'' (PStr ''block-before-entry''))
                 [''block-before-entry'', ''enter-and-preserve-descendants'']
                 ''cutoff tails: operation entry has an invalid replay_entry'']
         else []))"

definition validate_cutoff_tails :: "cutoff_tails \<Rightarrow> unit res" where
  "validate_cutoff_tails tails =
     checks (map (check_tail ''operations'') (ct_operations tails) @ map (check_tail ''llm_requests'') (ct_requests tails))"

definition record_ids :: "host \<Rightarrow> string \<Rightarrow> pyval list \<Rightarrow> string list res" where
  "record_ids h field rs = mapR (\<lambda>r. bindR (pidx r field) (\<lambda>v. Inr (py_str h v))) rs"

definition disjoint_operation :: "(string \<times> string list) list \<Rightarrow> pyval \<Rightarrow> unit res" where
  "disjoint_operation closed_ids entry =
     checks
       [require_in (pget entry ''kind'') KINDS ''cutoff tails: unknown operation kind'',
        require (is_nonempty_str (pget entry ''record_id'')) ''cutoff tails: operation entry has no record_id'',
        require (case map_of closed_ids (str_of (pget entry ''kind'')) of
                   None \<Rightarrow> True | Some ids \<Rightarrow> str_of (pget entry ''record_id'') \<notin> set ids)
          ''cutoff tails: both closed and cutoff-truncated'']"

definition disjoint_request :: "string list \<Rightarrow> pyval \<Rightarrow> unit res" where
  "disjoint_request closed_ids entry =
     checks
       [require (is_nonempty_str (pget entry ''attempt_id'')) ''cutoff tails: LLM entry has no attempt_id'',
        require (str_of (pget entry ''attempt_id'') \<notin> set closed_ids) ''cutoff tails: both closed and cutoff-truncated'']"

definition require_cutoff_tails_disjoint :: "host \<Rightarrow> cutoff_tails \<Rightarrow> event list \<Rightarrow> unit res" where
  "require_cutoff_tails_disjoint h tails events =
     bindR (mapR (\<lambda>kind. bindR (record_ids h (id_field kind) (of_kind kind events)) (\<lambda>ids. Inr (kind, ids))) KINDS) (\<lambda>closed_ids.
     bindR (record_ids h ''attempt_id'' (of_kind ''llm'' events)) (\<lambda>attempts.
       checks (map (disjoint_operation closed_ids) (ct_operations tails) @ map (disjoint_request attempts) (ct_requests tails))))"

definition require_actor_coverage :: "host \<Rightarrow> pyval \<Rightarrow> event list \<Rightarrow> unit res" where
  "require_actor_coverage h manifest events =
     bindR (record_ids h ''actor_id'' (items_of (pget manifest ''actors''))) (\<lambda>declared.
     bindR (record_ids h ''actor_id'' (concat (map (\<lambda>kind. of_kind kind events) (''llm'' # KINDS)))) (\<lambda>seen.
       if set seen \<subseteq> set declared then Inr ()
       else Inl (ValidationError ''bundle records name undeclared actors'')))"

definition counts_of :: "event list \<Rightarrow> pyval" where
  "counts_of events =
     PDict (map (\<lambda>kind. (kind, PInt (int (length (of_kind kind events))))) (''llm'' # KINDS))"

text \<open>The parent spans that an operation still open at the cutoff provides.\<close>

definition open_parent_spans :: "cutoff_tails \<Rightarrow> string list" where
  "open_parent_spans tails =
     map (\<lambda>r. str_of (pget r ''span_id''))
       (filter (\<lambda>r. py_eq (pget r ''replay_entry'') (PStr ''enter-and-preserve-descendants'') \<and> is_nonempty_str (pget r ''span_id''))
         (ct_operations tails))"

definition record_validator :: "host \<Rightarrow> string \<Rightarrow> pyval \<Rightarrow> unit res" where
  "record_validator h kind =
     (if kind = ''dispatch'' then validate_dispatch h else if kind = ''tool'' then validate_tool h
      else if kind = ''grader'' then validate_grader else validate_artifact)"

definition check_ledger :: "(pyval \<Rightarrow> unit res) \<Rightarrow> string \<Rightarrow> string \<Rightarrow> pyval list \<Rightarrow> unit res" where
  "check_ledger validate field ctx rs =
     bindR (checks (map validate rs)) (\<lambda>_.
     bindR (mapR (\<lambda>r. pidx r field) rs) (\<lambda>ids.
     bindR (unique_strings ids ctx) (\<lambda>_. Inr ())))"

definition validate_ledgers :: "host \<Rightarrow> event list \<Rightarrow> unit res" where
  "validate_ledgers h events =
     checks
       ([check_ledger (validate_llm h) ''attempt_id'' ''llm attempts'' (of_kind ''llm'' events)] @
        map (\<lambda>kind. check_ledger (record_validator h kind) (id_field kind) (kind @ '' records'') (of_kind kind events)) KINDS @
        [check_ledger validate_span ''span_id'' ''spans'' (of_kind ''span'' events)])"

definition tails_of :: "event list \<Rightarrow> cutoff_tails" where
  "tails_of events = \<lparr>ct_operations = of_kind ''cutoff-operation'' events, ct_requests = of_kind ''cutoff-llm'' events\<rparr>"

definition tails_value :: "cutoff_tails \<Rightarrow> pyval" where
  "tails_value tails = PDict [(''operations'', PList (ct_operations tails)), (''llm_requests'', PList (ct_requests tails))]"

definition load_bundle :: "host \<Rightarrow> disk option \<Rightarrow> recording res" where
  "load_bundle h root_dir =
     (case root_dir of
        None \<Rightarrow> Inl (ValidationError ''bundle does not exist'')
      | Some disk \<Rightarrow>
          bindR (checks (map (\<lambda>path. require (map_of disk path \<noteq> None) ''bundle is missing a required file'') BUNDLE_FILES)) (\<lambda>_.
          bindR (read_json disk ''manifest.json'') (\<lambda>manifest.
          bindR (validate_manifest manifest) (\<lambda>_.
          bindR (load_lane_records h disk manifest) (\<lambda>events.
          bindR (validate_ledgers h events) (\<lambda>_.
          let tails = tails_of events; dispatches = of_kind ''dispatch'' events in
          bindR (checks
            [validate_cutoff_tails tails,
             require_cutoff_tails_disjoint h tails events,
             validate_causal_graph (of_kind ''span'' events) dispatches (of_kind ''tool'' events) (open_parent_spans tails),
             validate_artifact_graph (of_kind ''artifact'' events)]) (\<lambda>_.
          bindR (read_json disk ''terminal.json'') (\<lambda>terminal.
          bindR (checks
            [validate_terminal terminal,
             require_coral_dispatch_coverage h (py_str h (pget manifest ''adapter'')) (of_kind ''llm'' events) dispatches tails,
             require (py_eq (pget manifest ''counts'') (counts_of events)) ''bundle counts disagree with its records'',
             require_actor_coverage h manifest events]) (\<lambda>_.
          Inr \<lparr>rec_manifest = manifest, rec_llm = of_kind ''llm'' events, rec_dispatches = dispatches,
               rec_tools = of_kind ''tool'' events, rec_graders = of_kind ''grader'' events,
               rec_artifacts = of_kind ''artifact'' events, rec_spans = of_kind ''span'' events,
               rec_cutoff_tails = tails_value tails, rec_terminal = terminal\<rparr>)))))))))"

section \<open>What a loaded bundle is\<close>

text \<open>The ledgers of a recording with the field that identifies a record, and its validator.\<close>

definition ledgers_of :: "host \<Rightarrow> recording \<Rightarrow> (string \<times> (pyval \<Rightarrow> unit res) \<times> pyval list) list" where
  "ledgers_of h b =
     [(''attempt_id'', validate_llm h, rec_llm b), (''dispatch_id'', validate_dispatch h, rec_dispatches b),
      (''call_id'', validate_tool h, rec_tools b), (''attempt_id'', validate_grader, rec_graders b),
      (''event_id'', validate_artifact, rec_artifacts b), (''span_id'', validate_span, rec_spans b)]"

definition ledger_ok :: "string \<times> (pyval \<Rightarrow> unit res) \<times> pyval list \<Rightarrow> bool" where
  "ledger_ok ledger \<longleftrightarrow>
     (let (field, validate, rs) = ledger in
      list_all (\<lambda>r. validate r = Inr () \<and> is_nonempty_str (pget r field)) rs \<and> distinct (map (\<lambda>r. pget r field) rs))"

text \<open>No call is both closed and cut off.\<close>

definition tails_apart :: "recording \<Rightarrow> bool" where
  "tails_apart b \<longleftrightarrow>
     list_all (\<lambda>t. list_all (\<lambda>kind. pget t ''kind'' \<noteq> PStr kind \<or>
         pget t ''record_id'' \<notin> set (map (\<lambda>r. pget r (id_field kind)) (records b kind))) KINDS)
       (items_of (pget (rec_cutoff_tails b) ''operations'')) \<and>
     list_all (\<lambda>t. pget t ''attempt_id'' \<notin> set (map (\<lambda>r. pget r ''attempt_id'') (rec_llm b)))
       (items_of (pget (rec_cutoff_tails b) ''llm_requests''))"

lemma mapR_pidx: "mapR (\<lambda>r. pidx r field) rs = Inr ids \<Longrightarrow> ids = map (\<lambda>r. pget r field) rs"
  unfolding mapR_eq_Inr by (induction rule: list_all2_induct) (auto dest: pidx_pget)

lemma check_ledger_ok: "check_ledger validate field ctx rs = Inr () \<Longrightarrow> ledger_ok (field, validate, rs)"
proof -
  assume "check_ledger validate field ctx rs = Inr ()"
  then obtain r where v: "\<forall>c \<in> set (map validate rs). c = Inr ()"
    and u: "unique_strings (map (\<lambda>r. pget r field) rs) ctx = Inr r"
    by (auto simp: check_ledger_def bindR_eq_Inr checks_eq_Inr simp del: checks.simps dest!: mapR_pidx)
  from u have ids: "list_all (\<lambda>r. is_nonempty_str (pget r field)) rs" "distinct (map str_of (map (\<lambda>r. pget r field) rs))"
    unfolding unique_strings_ok by (auto simp: list_all_iff)
  from ids(2) have "distinct (map (\<lambda>r. pget r field) rs)" unfolding distinct_map [of str_of] by blast
  then show ?thesis using v ids(1) by (auto simp: ledger_ok_def list_all_iff)
qed

lemma record_ids_mem: "record_ids h field rs = Inr ids \<Longrightarrow> set ids = (\<lambda>r. py_str h (pget r field)) ` set rs"
  unfolding record_ids_def mapR_eq_Inr
  by (induction rule: list_all2_induct) (auto simp: bindR_eq_Inr dest: pidx_pget)

lemma records_kinds:
  "kind \<in> set KINDS \<Longrightarrow> rec_dispatches b = of_kind ''dispatch'' events \<Longrightarrow> rec_tools b = of_kind ''tool'' events \<Longrightarrow>
   rec_graders b = of_kind ''grader'' events \<Longrightarrow> rec_artifacts b = of_kind ''artifact'' events \<Longrightarrow> records b kind = of_kind kind events"
  by (auto simp: KINDS_def records_def)

lemma closed_ids_of:
  "mapR (\<lambda>kind. bindR (record_ids h (id_field kind) (of_kind kind events)) (\<lambda>ids. Inr (kind, ids))) ks = Inr closed_ids \<Longrightarrow>
   kind \<in> set ks \<Longrightarrow> \<exists>ids. map_of closed_ids kind = Some ids \<and> record_ids h (id_field kind) (of_kind kind events) = Inr ids"
  by (induction ks arbitrary: closed_ids) (auto simp: bindR_eq_Inr)

lemma tails_disjoint:
  assumes "require_cutoff_tails_disjoint h tails events = Inr ()"
  shows "list_all (\<lambda>t. list_all (\<lambda>kind. pget t ''kind'' \<noteq> PStr kind \<or>
      pget t ''record_id'' \<notin> set (map (\<lambda>r. pget r (id_field kind)) (of_kind kind events))) KINDS) (ct_operations tails)"
    and "list_all (\<lambda>t. pget t ''attempt_id'' \<notin> set (map (\<lambda>r. pget r ''attempt_id'') (of_kind ''llm'' events))) (ct_requests tails)"
proof -
  from assms obtain closed_ids attempts where c: "mapR (\<lambda>kind. bindR (record_ids h (id_field kind) (of_kind kind events))
        (\<lambda>ids. Inr (kind, ids))) KINDS = Inr closed_ids"
    and a: "record_ids h ''attempt_id'' (of_kind ''llm'' events) = Inr attempts"
    and both: "checks (map (disjoint_operation closed_ids) (ct_operations tails) @ map (disjoint_request attempts) (ct_requests tails)) = Inr ()"
    unfolding require_cutoff_tails_disjoint_def bindR_eq_Inr by blast
  from both have ops: "\<forall>t \<in> set (ct_operations tails). disjoint_operation closed_ids t = Inr ()"
    and reqs: "\<forall>t \<in> set (ct_requests tails). disjoint_request attempts t = Inr ()"
    unfolding checks_eq_Inr by auto
  show "list_all (\<lambda>t. list_all (\<lambda>kind. pget t ''kind'' \<noteq> PStr kind \<or>
      pget t ''record_id'' \<notin> set (map (\<lambda>r. pget r (id_field kind)) (of_kind kind events))) KINDS) (ct_operations tails)"
    unfolding list_all_iff
  proof (intro ballI)
    fix t kind assume t: "t \<in> set (ct_operations tails)" and k: "kind \<in> set KINDS"
    from closed_ids_of [OF c k] obtain ids where ids: "map_of closed_ids kind = Some ids"
      "record_ids h (id_field kind) (of_kind kind events) = Inr ids" by blast
    from ops t have ok: "disjoint_operation closed_ids t = Inr ()" by blast
    then obtain s where s: "pget t ''record_id'' = PStr s"
      by (auto simp: disjoint_operation_def checks_eq_Inr require_eq_Inr is_nonempty_str_iff simp del: checks.simps)
    have "s \<notin> set ids" if "pget t ''kind'' = PStr kind"
      using ok ids(1) that s by (auto simp: disjoint_operation_def checks_eq_Inr require_eq_Inr simp del: checks.simps)
    moreover have "s \<in> set ids" if "r \<in> set (of_kind kind events)" "PStr s = pget r (id_field kind)" for r
      unfolding record_ids_mem [OF ids(2)] by (rule image_eqI [OF _ that(1)]) (simp flip: that(2))
    ultimately show "pget t ''kind'' \<noteq> PStr kind \<or> pget t ''record_id'' \<notin> set (map (\<lambda>r. pget r (id_field kind)) (of_kind kind events))"
      unfolding s set_map by blast
  qed
  show "list_all (\<lambda>t. pget t ''attempt_id'' \<notin> set (map (\<lambda>r. pget r ''attempt_id'') (of_kind ''llm'' events))) (ct_requests tails)"
    unfolding list_all_iff
  proof
    fix t assume "t \<in> set (ct_requests tails)"
    with reqs have ok: "disjoint_request attempts t = Inr ()" by blast
    then obtain s where s: "pget t ''attempt_id'' = PStr s"
      by (auto simp: disjoint_request_def checks_eq_Inr require_eq_Inr is_nonempty_str_iff simp del: checks.simps)
    have "s \<notin> set attempts"
      using ok s by (auto simp: disjoint_request_def checks_eq_Inr require_eq_Inr simp del: checks.simps)
    moreover have "s \<in> set attempts" if "r \<in> set (of_kind ''llm'' events)" "PStr s = pget r ''attempt_id''" for r
      unfolding record_ids_mem [OF a] by (rule image_eqI [OF _ that(1)]) (simp flip: that(2))
    ultimately show "pget t ''attempt_id'' \<notin> set (map (\<lambda>r. pget r ''attempt_id'') (of_kind ''llm'' events))"
      unfolding s set_map by blast
  qed
qed

text \<open>
  C26: Every record of a loaded bundle has passed the validator of its ledger, the identifiers of each ledger
  are non-empty and distinct, every record belongs to an actor that the manifest declares, no call is both
  closed and cut off, and the references between spans, dispatches and tools resolve.
\<close>

theorem loaded_bundle_is_well_formed:
  assumes "load_bundle h dir = Inr b"
  shows "list_all ledger_ok (ledgers_of h b) \<and>
    list_all (\<lambda>r. py_str h (pget r ''actor_id'') \<in> set (actor_ids h b))
      (rec_llm b @ rec_dispatches b @ rec_tools b @ rec_graders b @ rec_artifacts b) \<and>
    tails_apart b \<and>
    validate_causal_graph (rec_spans b) (rec_dispatches b) (rec_tools b)
      (open_parent_spans \<lparr>ct_operations = items_of (pget (rec_cutoff_tails b) ''operations''),
                           ct_requests = items_of (pget (rec_cutoff_tails b) ''llm_requests'')\<rparr>) = Inr ()"
proof -
  from assms obtain manifest events terminal where ledgers: "validate_ledgers h events = Inr ()"
    and apart: "require_cutoff_tails_disjoint h (tails_of events) events = Inr ()"
    and graph: "validate_causal_graph (of_kind ''span'' events) (of_kind ''dispatch'' events) (of_kind ''tool'' events)
      (open_parent_spans (tails_of events)) = Inr ()"
    and cover: "require_actor_coverage h manifest events = Inr ()"
    and b: "b = \<lparr>rec_manifest = manifest, rec_llm = of_kind ''llm'' events, rec_dispatches = of_kind ''dispatch'' events,
               rec_tools = of_kind ''tool'' events, rec_graders = of_kind ''grader'' events,
               rec_artifacts = of_kind ''artifact'' events, rec_spans = of_kind ''span'' events,
               rec_cutoff_tails = tails_value (tails_of events), rec_terminal = terminal\<rparr>"
    by (auto simp: load_bundle_def bindR_eq_Inr checks_eq_Inr Let_def simp del: checks.simps split: option.splits)
  have one: "list_all ledger_ok (ledgers_of h b)"
    using ledgers by (auto simp: validate_ledgers_def checks_eq_Inr ledgers_of_def b KINDS_def record_validator_def id_field_def
        simp del: checks.simps intro: check_ledger_ok)
  from cover obtain declared seen where "record_ids h ''actor_id'' (items_of (pget manifest ''actors'')) = Inr declared"
      "record_ids h ''actor_id'' (concat (map (\<lambda>kind. of_kind kind events) (''llm'' # KINDS))) = Inr seen" "set seen \<subseteq> set declared"
    by (auto simp: require_actor_coverage_def bindR_eq_Inr split: if_splits)
  then have two: "list_all (\<lambda>r. py_str h (pget r ''actor_id'') \<in> set (actor_ids h b))
      (rec_llm b @ rec_dispatches b @ rec_tools b @ rec_graders b @ rec_artifacts b)"
    by (auto simp: list_all_iff b actor_ids_def KINDS_def record_ids_mem dest!: subsetD)
  have three: "tails_apart b"
    using tails_disjoint [OF apart] unfolding tails_apart_def
    by (auto simp: list_all_iff b tails_value_def tails_of_def KINDS_def records_def)
  show ?thesis using one two three graph by (simp add: b tails_value_def tails_of_def)
qed

definition tiny_disk :: disk where
  "tiny_disk =
     [(''lane'', jsonl_document []),
      (''terminal.json'', json_document (PDict [(''schema_version'', PStr TERMINAL_SCHEMA), (''status'', PStr ''success''),
         (''task_terminals'', PList [])])),
      (''manifest.json'', json_document (PDict
        [(''schema_version'', PStr MANIFEST_SCHEMA), (''bundle_id'', PStr ''b''), (''adapter'', PStr ''trae''),
         (''workload'', PDict []), (''actors'', PList [PDict [(''actor_id'', PStr ''a1'')]]),
         (''lanes'', PList [PDict [(''actor_id'', PStr ''a1''), (''path'', PStr ''./lane''), (''counts'', lane_counts [])]]),
         (''window'', PDict [(''gate_at_ns'', PInt 0), (''terminal_at_ns'', PInt 9)]), (''counts'', counts_of [])]))]"

theorem loaded_bundle_is_well_formed_witness:
  "\<exists>b. load_bundle plain_host (Some tiny_disk) = Inr b \<and> list_all ledger_ok (ledgers_of plain_host b) \<and> tails_apart b"
proof -
  have "(case load_bundle plain_host (Some tiny_disk) of Inr b \<Rightarrow> True | _ \<Rightarrow> False)" by code_simp
  then obtain b where b: "load_bundle plain_host (Some tiny_disk) = Inr b" by (auto split: sum.splits)
  from loaded_bundle_is_well_formed [OF b] b show ?thesis by blast
qed

end
