(* ===== verification/Bundle_Window.thy ===== *)
theory Bundle_Window
  imports Tool_Calls "HOL-Library.Multiset"
begin

text \<open>
  bundle.py: the concurrency window of a hierarchical workload.  The lanes that the actors declare are
  gathered into team attempts, one per slot, generation and run, and each slot is checked to be occupied
  by complete teams without a gap.
\<close>

record team_attempt =
  ta_slot :: int
  ta_generation :: int
  ta_run :: int
  ta_source :: pyval
  ta_team :: "string option"
  ta_members :: "(int \<times> string) list"
  ta_parents :: "string list"

type_synonym attempt_key = "int \<times> int \<times> int"

definition new_attempt :: "attempt_key \<Rightarrow> pyval \<Rightarrow> team_attempt" where
  "new_attempt key source =
     (let (slot, generation, run) = key
      in \<lparr>ta_slot = slot, ta_generation = generation, ta_run = run, ta_source = source, ta_team = None,
          ta_members = [], ta_parents = []\<rparr>)"

text \<open>\<open>int(lane.get(key, -1))\<close>.\<close>

definition lane_int :: "pyval \<Rightarrow> string \<Rightarrow> int res" where
  "lane_int lane key = py_int (pget_or lane key (PInt (-1)))"

text \<open>What an actor of either kind does to its attempt.\<close>

definition join_team :: "host \<Rightarrow> int \<Rightarrow> string \<Rightarrow> pyval \<Rightarrow> team_attempt \<Rightarrow> team_attempt res" where
  "join_team h team_size actor_id lane attempt =
     (let kind = pget lane ''lane_kind'' in
      if py_eq kind (PStr ''team'') then
        bindR (require (ta_team attempt = None) ''CORAL team slot has two parent lanes'') (\<lambda>_.
          Inr (attempt\<lparr>ta_team := Some actor_id\<rparr>))
      else
        bindR (require (py_eq kind (PStr ''agent'')) ''CORAL actor has an invalid lane kind'') (\<lambda>_.
        bindR (lane_int lane ''agent_index'') (\<lambda>index.
        bindR (checks
          [require (1 \<le> index \<and> index \<le> team_size) ''CORAL actor is outside its team'',
           require (pget lane ''parent_actor_id'' \<noteq> PNone) ''CORAL actor has no parent team lane'',
           require (map_of (ta_members attempt) index = None) ''CORAL team slot duplicates an agent'']) (\<lambda>_.
          Inr (attempt\<lparr>ta_parents := List.insert (py_str h (pget lane ''parent_actor_id'')) (ta_parents attempt),
                       ta_members := ta_members attempt @ [(index, actor_id)]\<rparr>)))))"

definition place_actor ::
    "host \<Rightarrow> int \<Rightarrow> int \<Rightarrow> pyval \<Rightarrow> (attempt_key \<times> team_attempt) list \<Rightarrow> (attempt_key \<times> team_attempt) list res" where
  "place_actor h slots team_size actor attempts =
     bindR (pidx actor ''actor_id'') (\<lambda>actor_value.
     bindR (pidx actor ''lane'') (\<lambda>lane.
     bindR (require (py_eq (pget lane ''concurrency_unit'') (PStr ''coral-team'')) ''CORAL actor has the wrong concurrency unit'') (\<lambda>_.
     bindR (lane_int lane ''team_slot'') (\<lambda>slot.
     bindR (lane_int lane ''slot_generation'') (\<lambda>generation.
     bindR (lane_int lane ''run_index'') (\<lambda>run.
     bindR (require (0 \<le> slot \<and> slot < slots \<and> 0 \<le> generation \<and> 0 \<le> run) ''CORAL actor has an invalid team slot'') (\<lambda>_.
     bindR (lane_int lane ''team_size'') (\<lambda>declared_size.
     bindR (require (declared_size = team_size) ''CORAL actor changed team size'') (\<lambda>_.
       let key = (slot, generation, run);
           attempt = (case map_of attempts key of None \<Rightarrow> new_attempt key (pget lane ''source_task_id'') | Some a \<Rightarrow> a)
       in bindR (require (py_eq (ta_source attempt) (pget lane ''source_task_id'')) ''CORAL team slot mixes source tasks'') (\<lambda>_.
          bindR (join_team h team_size (py_str h actor_value) lane attempt) (\<lambda>joined.
            Inr (AList.update key joined attempts))))))))))))"

text \<open>One complete attempt, as the manifest has it.\<close>

definition render_attempt :: "int \<Rightarrow> team_attempt \<Rightarrow> pyval res" where
  "render_attempt team_size attempt =
     (case ta_team attempt of
        None \<Rightarrow> Inl (ValidationError ''CORAL team slot has no parent'')
      | Some team \<Rightarrow>
          bindR (checks
            [require (set (ta_parents attempt) = {team}) ''CORAL team slot has detached agent lanes'',
             require (sort (map fst (ta_members attempt)) = [1..team_size]) ''CORAL team slot is not one complete four-agent group'']) (\<lambda>_.
            Inr (PDict
              [(''team_slot'', PInt (ta_slot attempt)),
               (''slot_generation'', PInt (ta_generation attempt)),
               (''run_index'', PInt (ta_run attempt)),
               (''source_task_id'', ta_source attempt),
               (''team_actor_id'', PStr team),
               (''agent_actor_ids'', PList (map (\<lambda>index. PStr (the (map_of (ta_members attempt) index))) [1..team_size]))])))"

definition slot_attempts :: "(attempt_key \<times> team_attempt) list \<Rightarrow> int \<Rightarrow> team_attempt list" where
  "slot_attempts attempts slot = sort_key ta_generation (map snd (filter (\<lambda>(key, _). fst key = slot) attempts))"

definition render_slot :: "int \<Rightarrow> (attempt_key \<times> team_attempt) list \<Rightarrow> int \<Rightarrow> pyval res" where
  "render_slot team_size attempts slot =
     (let mine = slot_attempts attempts slot in
      bindR (checks
        [require (mine \<noteq> []) ''CORAL concurrency window never occupied a team slot'',
         require (map ta_generation mine = [0..int (length mine) - 1]) ''CORAL team slot has a non-contiguous refill history'']) (\<lambda>_.
      bindR (mapR (render_attempt team_size) mine) (\<lambda>rendered.
        Inr (PDict [(''team_slot'', PInt slot), (''attempts'', PList rendered)]))))"

definition concurrency_window :: "host \<Rightarrow> string \<Rightarrow> pyval \<Rightarrow> pyval list \<Rightarrow> pyval option res" where
  "concurrency_window h adapter workload actors =
     (let declared = filter (\<lambda>a. is_dict (pget a ''lane'')) actors in
      if adapter \<noteq> ''coral'' \<or> declared = [] then Inr None
      else
        bindR (require (length declared = length actors) ''CORAL actor inventory mixes hierarchical and flat lanes'') (\<lambda>_.
        bindR (py_int (pget_or workload ''concurrency'' (PInt 0))) (\<lambda>slots.
        bindR (py_int (pget_or workload ''coral_team_size'' (PInt 0))) (\<lambda>team_size.
        bindR (checks
          [require (0 < slots) ''CORAL concurrency window has no team slots'',
           require (team_size = 4) ''CORAL concurrency window must use four-agent teams'']) (\<lambda>_.
        bindR (foldR (place_actor h slots team_size) actors []) (\<lambda>attempts.
        bindR (mapR (render_slot team_size attempts) [0..slots - 1]) (\<lambda>rendered.
          Inr (Some (PDict
            [(''unit'', PStr ''coral-team''),
             (''size'', PInt slots),
             (''team_size'', PInt team_size),
             (''target_agent_lanes'', PInt (slots * team_size)),
             (''refill_unit'', PStr ''whole-team''),
             (''slots'', PList rendered)])))))))))"

section \<open>Every actor in one place\<close>

text \<open>The actors of an attempt, and of all attempts.\<close>

definition team_group :: "team_attempt \<Rightarrow> string list" where
  "team_group a = (case ta_team a of None \<Rightarrow> [] | Some t \<Rightarrow> [t]) @ map snd (ta_members a)"

definition placed :: "(attempt_key \<times> team_attempt) list \<Rightarrow> string list" where
  "placed attempts = concat (map (\<lambda>ka. team_group (snd ka)) attempts)"

lemma placed_update:
  "distinct (map fst al) \<Longrightarrow>
   mset (placed (AList.update k v al)) + mset (case map_of al k of None \<Rightarrow> [] | Some a \<Rightarrow> team_group a) =
   mset (placed al) + mset (team_group v)"
proof (induction al)
  case Nil
  then show ?case by (simp add: placed_def)
next
  case (Cons ka al)
  show ?case
  proof (cases "fst ka = k")
    case True
    then have "AList.update k v (ka # al) = (k, v) # al" by (cases ka) simp
    then show ?thesis using True by (cases ka) (simp add: placed_def)
  next
    case False
    then have "AList.update k v (ka # al) = ka # AList.update k v al" by (cases ka) simp
    then show ?thesis using False Cons by (cases ka) (simp add: placed_def)
  qed
qed

lemma update_cases: "x \<in> set (AList.update k v al) \<Longrightarrow> x = (k, v) \<or> x \<in> set al"
  by (induction al) (auto split: if_splits)

definition attempts_ok :: "int \<Rightarrow> (attempt_key \<times> team_attempt) list \<Rightarrow> bool" where
  "attempts_ok slots attempts \<longleftrightarrow> distinct (map fst attempts) \<and>
     (\<forall>(key, a) \<in> set attempts. fst key = ta_slot a \<and> 0 \<le> ta_slot a \<and> ta_slot a < slots \<and> distinct (map fst (ta_members a)))"

lemma new_attempt_simps [simp]:
  "ta_slot (new_attempt key src) = fst key" "ta_team (new_attempt key src) = None"
  "ta_members (new_attempt key src) = []" "team_group (new_attempt key src) = []"
  by (simp_all add: new_attempt_def team_group_def split: prod.split)

lemma join_team_ok:
  assumes "join_team h n who lane a = Inr b"
  shows "ta_slot b = ta_slot a \<and> mset (team_group b) = add_mset who (mset (team_group a)) \<and>
    (distinct (map fst (ta_members a)) \<longrightarrow> distinct (map fst (ta_members b)))"
  using assms
  by (auto simp: join_team_def Let_def bindR_eq_Inr require_eq_Inr team_group_def map_of_eq_None_iff checks_eq_Inr
      simp del: checks.simps split: if_splits)

lemma place_actor_ok:
  assumes "place_actor h slots n actor attempts = Inr later" and "attempts_ok slots attempts" and "is_str (pget actor ''actor_id'')"
  shows "attempts_ok slots later \<and> mset (placed later) = add_mset (actor_id_of actor) (mset (placed attempts))"
proof -
  from assms(1) obtain v lane key a b where v: "pidx actor ''actor_id'' = Inr v" and range: "0 \<le> fst key" "fst key < slots"
    and a: "a = (case map_of attempts key of None \<Rightarrow> new_attempt key (pget lane ''source_task_id'') | Some a \<Rightarrow> a)"
    and b: "join_team h n (py_str h v) lane a = Inr b" and later: "later = AList.update key b attempts"
    by (auto simp: place_actor_def Let_def bindR_eq_Inr require_eq_Inr)
  have id: "py_str h v = actor_id_of actor"
    using v assms(3) by (auto simp: pidx_def actor_id_of_def pget_def pget_or_def is_str_iff split: option.splits)
  note j = join_team_ok [OF b]
  have old: "fst key = ta_slot a \<and> distinct (map fst (ta_members a))"
    using assms(2) by (auto simp: a attempts_ok_def split: option.splits dest: map_of_SomeD)
  have "attempts_ok slots later"
    using assms(2) old j range
    by (auto simp: attempts_ok_def later distinct_update dest!: update_cases)
  moreover have "mset (placed later) = add_mset (actor_id_of actor) (mset (placed attempts))"
    using placed_update [of attempts key b] assms(2) j
    by (auto simp: attempts_ok_def later a id split: option.splits)
  ultimately show ?thesis ..
qed

lemma place_actors_ok:
  assumes "foldR (place_actor h slots n) actors attempts = Inr later" and "attempts_ok slots attempts"
    and "list_all (\<lambda>a. is_str (pget a ''actor_id'')) actors"
  shows "attempts_ok slots later \<and> mset (placed later) = mset (map actor_id_of actors) + mset (placed attempts)"
  using assms
proof (induction actors arbitrary: attempts)
  case Nil
  then show ?case by simp
next
  case (Cons actor actors)
  then obtain u where "place_actor h slots n actor attempts = Inr u" "foldR (place_actor h slots n) actors u = Inr later"
    by (auto simp: bindR_eq_Inr)
  with Cons place_actor_ok [of h slots n actor attempts u] show ?case by simp
qed

section \<open>The manifest accepts the window\<close>

lemma sorted_members:
  assumes "sort (map fst ms) = [1..n]" and "distinct (map fst ms)"
  shows "set (map (\<lambda>i. the (map_of ms i)) [1..n]) = set (map snd ms)"
proof -
  have keys: "set [1..n] = fst ` set ms" using assms(1) by (metis set_map set_sort)
  have "the (map_of ms i) = x" if "(i, x) \<in> set ms" for i x using that assms(2) by simp
  then show ?thesis unfolding set_map keys image_image by (intro image_cong) auto
qed

lemma rendered_attempt:
  assumes "render_attempt 4 a = Inr v" and "distinct (map fst (ta_members a))"
  shows "\<exists>team. ta_team a = Some team \<and> is_dict v \<and> pget v ''team_slot'' = PInt (ta_slot a) \<and>
    pget v ''slot_generation'' = PInt (ta_generation a) \<and> pget v ''team_actor_id'' = PStr team \<and>
    is_list (pget v ''agent_actor_ids'') \<and> length (items_of (pget v ''agent_actor_ids'')) = 4 \<and>
    list_all is_str (attempt_group v) \<and> set (map str_of (attempt_group v)) = set (team_group a)"
proof -
  obtain team where team: "ta_team a = Some team" "sort (map fst (ta_members a)) = [1..4]"
    and v: "v = PDict
      [(''team_slot'', PInt (ta_slot a)), (''slot_generation'', PInt (ta_generation a)), (''run_index'', PInt (ta_run a)),
       (''source_task_id'', ta_source a), (''team_actor_id'', PStr team),
       (''agent_actor_ids'', PList (map (\<lambda>i. PStr (the (map_of (ta_members a) i))) [1..4]))]"
    using assms(1) by (auto simp: render_attempt_def bindR_eq_Inr require_eq_Inr checks_eq_Inr simp del: checks.simps split: option.splits)
  show ?thesis
    using sorted_members [OF team(2) assms(2)]
    by (simp add: v team attempt_group_def team_group_def list_all_iff o_def)
qed

lemma attempts_accepted:
  assumes "list_all2 (\<lambda>a v. render_attempt 4 a = Inr v) as vs" and "map ta_generation as = [g..g + int (length as) - 1]"
    and "list_all (\<lambda>a. ta_slot a = slot \<and> distinct (map fst (ta_members a))) as"
    and "distinct (concat (map team_group as))" and "set (concat (map team_group as)) \<subseteq> set ids"
    and "set topology \<inter> set (concat (map team_group as)) = {}" and "[] \<notin> set ids"
  shows "\<exists>t. check_attempts ids slot g vs topology = Inr t \<and> set t = set topology \<union> set (concat (map team_group as))"
  using assms
proof (induction as arbitrary: vs g topology)
  case Nil
  then show ?case by simp
next
  case (Cons a as)
  from Cons.prems(1) obtain v ws where vs: "vs = v # ws" "render_attempt 4 a = Inr v"
      "list_all2 (\<lambda>a v. render_attempt 4 a = Inr v) as ws"
    by (auto simp: list_all2_Cons1)
  from rendered_attempt [OF vs(2)] Cons.prems(3) obtain team where v:
      "ta_team a = Some team" "is_dict v" "pget v ''team_slot'' = PInt slot"
      "pget v ''slot_generation'' = PInt (ta_generation a)" "pget v ''team_actor_id'' = PStr team"
      "is_list (pget v ''agent_actor_ids'')" "length (items_of (pget v ''agent_actor_ids'')) = 4"
      "list_all is_str (attempt_group v)" "set (map str_of (attempt_group v)) = set (team_group a)"
    by auto
  have gens: "ta_generation a = g" "map ta_generation as = [g + 1..g + 1 + int (length as) - 1]"
    using Cons.prems(2) by (simp_all add: upto_rec1 algebra_simps)
  have team: "team \<noteq> []" "team \<in> set ids" using Cons.prems(5,7) v(1) by (auto simp: team_group_def)
  have members: "list_all (\<lambda>x. is_str x \<and> str_of x \<in> set ids) (attempt_group v)"
    using v(8,9) Cons.prems(5) by (auto simp: list_all_iff)
  have fresh: "set topology \<inter> set (map str_of (attempt_group v)) = {}"
    using Cons.prems(6) unfolding v(9) by auto
  obtain t where t: "check_attempts ids slot (g + 1) ws (map str_of (attempt_group v) @ topology) = Inr t"
      "set t = set (map str_of (attempt_group v) @ topology) \<union> set (concat (map team_group as))"
  proof -
    have "set (map str_of (attempt_group v) @ topology) \<inter> set (concat (map team_group as)) = {}"
      unfolding set_append v(9) using Cons.prems(4,6) by auto
    from Cons.IH [OF vs(3) gens(2) _ _ _ this Cons.prems(7)] Cons.prems(3,4,5) that show ?thesis by auto
  qed
  have "check_attempts ids slot g vs topology = Inr t"
    unfolding vs(1) check_attempts.simps Let_def
    using v(2-8) gens(1) team members fresh t(1) by (simp add: check_object_def check_string_def)
  then show ?case using t(2) v(9) by auto
qed

lemma slots_accepted:
  assumes "list_all2 (\<lambda>slot v. render_slot 4 attempts slot = Inr v) [g..g + int k - 1] vs"
    and "attempts_ok slots attempts"
    and "distinct (concat (map (\<lambda>slot. concat (map team_group (slot_attempts attempts slot))) [g..g + int k - 1]))"
    and "set (concat (map (\<lambda>slot. concat (map team_group (slot_attempts attempts slot))) [g..g + int k - 1])) \<subseteq> set ids"
    and "set topology \<inter> set (concat (map (\<lambda>slot. concat (map team_group (slot_attempts attempts slot))) [g..g + int k - 1])) = {}"
    and "[] \<notin> set ids"
  shows "\<exists>t. check_slots ids g vs topology = Inr t \<and>
    set t = set topology \<union> set (concat (map (\<lambda>slot. concat (map team_group (slot_attempts attempts slot))) [g..g + int k - 1]))"
  using assms
proof (induction k arbitrary: g vs topology)
  case 0
  then show ?case by simp
next
  case (Suc k)
  let ?groups = "\<lambda>slot. concat (map team_group (slot_attempts attempts slot))"
  have span: "[g..g + int (Suc k) - 1] = g # [g + 1..g + 1 + int k - 1]" by (simp add: upto_rec1)
  from Suc.prems(1) obtain v ws where vs: "vs = v # ws" "render_slot 4 attempts g = Inr v"
      "list_all2 (\<lambda>slot v. render_slot 4 attempts slot = Inr v) [g + 1..g + 1 + int k - 1] ws"
    unfolding span by (auto simp: list_all2_Cons1)
  from vs(2) obtain rendered where mine: "slot_attempts attempts g \<noteq> []"
      "map ta_generation (slot_attempts attempts g) = [0..int (length (slot_attempts attempts g)) - 1]"
      "mapR (render_attempt 4) (slot_attempts attempts g) = Inr rendered"
    and v: "v = PDict [(''team_slot'', PInt g), (''attempts'', PList rendered)]"
    by (auto simp: render_slot_def Let_def bindR_eq_Inr require_eq_Inr checks_eq_Inr simp del: checks.simps)
  have each: "list_all (\<lambda>a. ta_slot a = g \<and> distinct (map fst (ta_members a))) (slot_attempts attempts g)"
    using Suc.prems(2) by (auto simp: list_all_iff slot_attempts_def attempts_ok_def)
  have some: "rendered \<noteq> []" using mine(1,3) by (auto dest: mapR_length)
  obtain t where t: "check_attempts ids g 0 rendered topology = Inr t" "set t = set topology \<union> set (?groups g)"
    using attempts_accepted [OF mine(3) [unfolded mapR_eq_Inr] _ each, of 0 ids topology] mine(2) Suc.prems(3-6)
    unfolding span by auto
  have "set t \<inter> set (concat (map ?groups [g + 1..g + 1 + int k - 1])) = {}"
    using Suc.prems(3,5) unfolding span t(2) by auto
  from Suc.IH [OF vs(3) Suc.prems(2) _ _ this Suc.prems(6)] Suc.prems(3,4) obtain u where
    u: "check_slots ids (g + 1) ws t = Inr u" "set u = set t \<union> set (concat (map ?groups [g + 1..g + 1 + int k - 1]))"
    unfolding span by auto
  have "check_slots ids g vs topology = Inr u"
    unfolding vs(1) check_slots.simps Let_def using t(1) u(1) some by (simp add: v check_object_def)
  then show ?case using u(2) t(2) unfolding span by auto
qed

text \<open>Gathering a list by a key loses nothing.\<close>

lemma mset_gathered:
  "distinct ks \<Longrightarrow> f ` set xs \<subseteq> set ks \<Longrightarrow> mset (concat (map (\<lambda>k. filter (\<lambda>x. f x = k) xs) ks)) = mset xs"
proof (induction ks arbitrary: xs)
  case Nil
  then show ?case by simp
next
  case (Cons k ks)
  have "filter (\<lambda>x. f x = j) (filter (\<lambda>x. f x \<noteq> k) xs) = filter (\<lambda>x. f x = j) xs" if "j \<in> set ks" for j
    using that Cons.prems(1) by (auto intro: filter_cong)
  then have "concat (map (\<lambda>j. filter (\<lambda>x. f x = j) xs) ks) =
      concat (map (\<lambda>j. filter (\<lambda>x. f x = j) (filter (\<lambda>x. f x \<noteq> k) xs)) ks)"
    by (auto intro: arg_cong [of _ _ concat] map_cong)
  moreover have "mset (concat (map (\<lambda>j. filter (\<lambda>x. f x = j) (filter (\<lambda>x. f x \<noteq> k) xs)) ks)) = mset (filter (\<lambda>x. f x \<noteq> k) xs)"
    by (rule Cons.IH) (use Cons.prems in auto)
  ultimately show ?case by (simp add: multiset_partition [symmetric] union_commute)
qed

lemma mset_concat_map: "mset (concat (map f xs)) = \<Sum>\<^sub># (image_mset (\<lambda>x. mset (f x)) (mset xs))"
  by (induction xs) auto

lemma concat_nested: "concat (map (\<lambda>x. concat (map f (g x))) xs) = concat (map f (concat (map g xs)))"
  by (induction xs) simp_all

lemma groups_of_slots:
  assumes "attempts_ok slots attempts"
  shows "mset (concat (map (\<lambda>slot. concat (map team_group (slot_attempts attempts slot))) [0..slots - 1])) = mset (placed attempts)"
proof -
  let ?mine = "\<lambda>slot. filter (\<lambda>ka. fst (fst ka) = slot) attempts"
  have one: "mset (slot_attempts attempts slot) = mset (map snd (?mine slot))" for slot
    by (simp add: slot_attempts_def case_prod_beta)
  have "mset (concat (map (slot_attempts attempts) [0..slots - 1])) = mset (concat (map (\<lambda>slot. map snd (?mine slot)) [0..slots - 1]))"
    unfolding mset_concat_map one ..
  also have "\<dots> = mset (map snd (concat (map ?mine [0..slots - 1])))" by (simp add: map_concat o_def)
  also have "\<dots> = mset (map snd attempts)"
  proof -
    have "mset (concat (map ?mine [0..slots - 1])) = mset attempts"
      by (rule mset_gathered) (use assms in \<open>auto simp: attempts_ok_def\<close>)
    then show ?thesis unfolding mset_map by simp
  qed
  finally have all: "mset (concat (map (slot_attempts attempts) [0..slots - 1])) = mset (map snd attempts)" .
  have "concat (map (\<lambda>slot. concat (map team_group (slot_attempts attempts slot))) [0..slots - 1]) =
      concat (map team_group (concat (map (slot_attempts attempts) [0..slots - 1])))"
    by (rule concat_nested)
  then have "mset (concat (map (\<lambda>slot. concat (map team_group (slot_attempts attempts slot))) [0..slots - 1])) =
      \<Sum>\<^sub># (image_mset (\<lambda>a. mset (team_group a)) (mset (map snd attempts)))"
    using all by (simp only: mset_concat_map)
  also have "\<dots> = mset (placed attempts)" by (simp add: placed_def mset_concat_map image_mset.compositionality o_def)
  finally show ?thesis .
qed

text \<open>
  C25: The concurrency window that is computed for a bundle passes the check of the manifest, whatever the
  actors declare: slots and generations are in order, every team is complete, and every actor is in
  exactly one attempt.
\<close>

theorem built_window_is_valid:
  assumes "concurrency_window h adapter workload actors = Inr (Some w)"
    and "list_all (\<lambda>a. is_nonempty_str (pget a ''actor_id'')) actors" and "distinct (map actor_id_of actors)"
    and "check_controls (map actor_id_of actors) [] controls = Inr ()"
  shows "check_concurrency_window (map actor_id_of actors) w (PList controls) = Inr ()"
proof -
  let ?ids = "map actor_id_of actors"
  from assms(1) obtain slots attempts rendered where pos: "0 < slots"
    and place: "foldR (place_actor h slots 4) actors [] = Inr attempts"
    and slot_values: "mapR (render_slot 4 attempts) [0..slots - 1] = Inr rendered"
    and w: "w = PDict
      [(''unit'', PStr ''coral-team''), (''size'', PInt slots), (''team_size'', PInt 4), (''target_agent_lanes'', PInt (slots * 4)),
       (''refill_unit'', PStr ''whole-team''), (''slots'', PList rendered)]"
    by (auto simp: concurrency_window_def Let_def bindR_eq_Inr require_eq_Inr checks_eq_Inr simp del: checks.simps split: if_splits)
  have strs: "list_all (\<lambda>a. is_str (pget a ''actor_id'')) actors" and named: "[] \<notin> set ?ids"
    using assms(2) by (auto simp: list_all_iff is_nonempty_str_iff actor_id_of_def)
  have ok: "attempts_ok slots attempts" "mset (placed attempts) = mset ?ids"
    using place_actors_ok [OF place _ strs] by (simp_all add: attempts_ok_def placed_def)
  let ?all = "concat (map (\<lambda>slot. concat (map team_group (slot_attempts attempts slot))) [0..0 + int (nat slots) - 1])"
  have all: "mset ?all = mset ?ids" using groups_of_slots [OF ok(1)] ok(2) pos by simp
  have "set ?all = set ?ids" "distinct ?all" using all assms(3) by (metis mset_eq_setD, metis mset_eq_imp_distinct_iff)
  then obtain t where t: "check_slots ?ids 0 rendered [] = Inr t" "set t = set ?ids"
    using slots_accepted [of attempts 0 "nat slots" rendered slots ?ids "[]"] slot_values ok(1) named pos
    by (auto simp: mapR_eq_Inr)
  have "length rendered = nat slots" using mapR_length [OF slot_values] by simp
  then show ?thesis
    using t assms(4) pos by (simp add: check_concurrency_window_def w check_object_def is_int_not_bool_def)
qed

definition team_lane :: "string \<Rightarrow> dict \<Rightarrow> pyval" where
  "team_lane who rest = PDict
     [(''actor_id'', PStr who),
      (''lane'', PDict ([(''concurrency_unit'', PStr ''coral-team''), (''team_slot'', PInt 0), (''slot_generation'', PInt 0),
         (''run_index'', PInt 7), (''team_size'', PInt 4), (''source_task_id'', PStr ''t'')] @ rest))]"

definition agent_lane :: "string \<Rightarrow> int \<Rightarrow> pyval" where
  "agent_lane who index = team_lane who
     [(''lane_kind'', PStr ''agent''), (''agent_index'', PInt index), (''parent_actor_id'', PStr ''team'')]"

definition sample_team :: "pyval list" where
  "sample_team = [agent_lane ''a2'' 2, team_lane ''team'' [(''lane_kind'', PStr ''team'')], agent_lane ''a1'' 1,
     agent_lane ''a4'' 4, agent_lane ''a3'' 3]"

definition sample_workload :: pyval where
  "sample_workload = PDict [(''concurrency'', PInt 1), (''coral_team_size'', PStr ''4'')]"

theorem built_window_is_valid_witness:
  "\<exists>w. concurrency_window plain_host ''coral'' sample_workload sample_team = Inr (Some w) \<and>
     check_concurrency_window (map actor_id_of sample_team) w (PList []) = Inr ()"
proof -
  let ?w = "the (projr (concurrency_window plain_host ''coral'' sample_workload sample_team))"
  have run: "concurrency_window plain_host ''coral'' sample_workload sample_team = Inr (Some ?w)" by code_simp
  have team: "list_all (\<lambda>a. is_nonempty_str (pget a ''actor_id'')) sample_team" "distinct (map actor_id_of sample_team)"
    by code_simp+
  show ?thesis
    by (intro exI conjI, rule run, rule built_window_is_valid [OF run team]) simp
qed

end
