(* ===== verification/Bundle_Build.thy ===== *)
theory Bundle_Build
  imports Bundle_Files Bundle_Window Cutoff
begin

text \<open>
  bundle.py, \<open>build_bundle\<close>: the staged records of a run are sorted into one lane per actor, in the order
  in which the actor issued them, and written with a manifest; the result is loaded again.  What is shown
  is that nothing is lost or changed on the way.
\<close>

section \<open>Building\<close>

record bundle_plan =
  bp_bundle_id :: pyval
  bp_adapter :: string
  bp_workload :: pyval
  bp_actors :: "pyval list"
  bp_window :: pyval
  bp_terminal :: pyval
  bp_models :: pyval
  bp_bindings :: pyval
  bp_controls :: pyval

text \<open>The staged records with their kinds, in the order in which they are handed out to the actors.\<close>

definition staged_events :: "stage \<Rightarrow> cutoff_tails \<Rightarrow> event list" where
  "staged_events st tails =
     map (Pair ''llm'') (kept_llm st) @ map (Pair ''dispatch'') (kept_dispatch st) @ map (Pair ''tool'') (kept_tool st) @
     map (Pair ''grader'') (kept_grader st) @ map (Pair ''artifact'') (kept_artifact st) @ map (Pair ''span'') (kept_span st) @
     map (Pair ''cutoff-operation'') (ct_operations tails) @ map (Pair ''cutoff-llm'') (ct_requests tails)"

definition event_actor :: "host \<Rightarrow> event \<Rightarrow> string" where
  "event_actor h event = py_str h (pget_or (snd event) ''actor_id'' (PStr []))"

definition lane_directory :: "host \<Rightarrow> nat \<Rightarrow> string \<Rightarrow> string" where
  "lane_directory h index actor_id = pad6 index @ CHR ''-'' # take 12 (sha256_hex h actor_id)"

definition lane_path :: "host \<Rightarrow> nat \<Rightarrow> string \<Rightarrow> string" where
  "lane_path h index actor_id = ''lanes/'' @ lane_directory h index actor_id @ ''/events.jsonl''"

definition issue_sorted :: "event list \<Rightarrow> event list res" where
  "issue_sorted events =
     bindR (mapR (\<lambda>e. bindR (lane_issue_order e) (\<lambda>k. Inr (k, e))) events) (\<lambda>keyed. Inr (map snd (sort_key fst keyed)))"

definition lane_line :: "string \<Rightarrow> nat \<times> event \<Rightarrow> pyval" where
  "lane_line actor_id item =
     (let (sequence, kind, r) = item
      in PDict [(''schema_version'', PStr LANE_BUNDLE_EVENT_SCHEMA), (''actor_id'', PStr actor_id),
                (''sequence'', PInt (int sequence)), (''kind'', PStr kind), (''record'', r)])"

definition write_lane :: "host \<Rightarrow> event list \<Rightarrow> nat \<times> string \<Rightarrow> ((string \<times> document) \<times> pyval) res" where
  "write_lane h events item =
     (let (index, actor_id) = item; path = path_text (lane_path h index actor_id) in
      bindR (issue_sorted (filter (\<lambda>e. event_actor h e = actor_id) events)) (\<lambda>mine.
        Inr ((path, jsonl_document (map (lane_line actor_id) (enumerate_list mine))),
             PDict [(''actor_id'', PStr actor_id), (''path'', PStr path), (''counts'', lane_counts mine)])))"

definition bundle_manifest ::
    "bundle_plan \<Rightarrow> pyval list \<Rightarrow> event list \<Rightarrow> dict \<Rightarrow> dict \<Rightarrow> (pyval \<times> pyval list) option \<Rightarrow> pyval" where
  "bundle_manifest plan lanes events models bindings window =
     PDict
       ([(''schema_version'', PStr MANIFEST_SCHEMA),
         (''bundle_id'', bp_bundle_id plan),
         (''adapter'', PStr (bp_adapter plan)),
         (''workload'', bp_workload plan),
         (''cutoff_policy'', PStr ''evidence-only''),
         (''actors'', PList (bp_actors plan)),
         (''lanes'', PList lanes),
         (''window'', bp_window plan),
         (''counts'', counts_of events),
         (''llm_models'', PDict models),
         (''identity_bindings'', PDict bindings)] @
        (case window of
           None \<Rightarrow> []
         | Some (w, controls) \<Rightarrow> [(''concurrency_window'', w), (''coral_controls'', PList controls)]))"

definition controls_of :: "bundle_plan \<Rightarrow> pyval option \<Rightarrow> (pyval \<times> pyval list) option res" where
  "controls_of plan window =
     (case window of
        None \<Rightarrow> Inr None
      | Some w \<Rightarrow> bindR (py_iter (py_or (bp_controls plan) (PList []))) (\<lambda>controls. Inr (Some (w, controls))))"

text \<open>The directory that was there before, if any, must be empty; the result is the directory and the recording.\<close>

definition build_bundle ::
    "host \<Rightarrow> bundle_plan \<Rightarrow> stage \<Rightarrow> cutoff_tails \<Rightarrow> disk option \<Rightarrow> (disk \<times> recording) res" where
  "build_bundle h plan st cutoff_tails output =
     bindR (require (output = None \<or> output = Some []) ''output directory is not empty'') (\<lambda>_.
     bindR (materialize_pre_dispatch_tails h (bp_adapter plan) (kept_llm st) (kept_dispatch st) cutoff_tails) (\<lambda>tails.
     bindR (record_ids h ''actor_id'' (bp_actors plan)) (\<lambda>who.
     let events = staged_events st tails in
     bindR (checks (map (\<lambda>e. require (event_actor h e \<in> set who) ''bundle records name undeclared actors'') events)) (\<lambda>_.
     bindR (mapR (write_lane h events) (enumerate_list who)) (\<lambda>lanes.
     bindR (bindR (concurrency_window h (bp_adapter plan) (bp_workload plan) (bp_actors plan)) (controls_of plan)) (\<lambda>window.
     bindR (py_dict (py_or (bp_models plan) (PDict []))) (\<lambda>models.
     bindR (py_dict (py_or (bp_bindings plan) (PDict []))) (\<lambda>bindings.
       let manifest = bundle_manifest plan (map snd lanes) events models bindings window;
           disk = map fst lanes @ [(''terminal.json'', json_document (bp_terminal plan)), (''manifest.json'', json_document manifest)]
       in bindR (load_bundle h (Some disk)) (\<lambda>b. Inr (disk, b))))))))))"

section \<open>Nothing is lost\<close>

lemma map_of_canon:
  assumes "distinct (map fst kvs)"
  shows "map_of (fields_of (canon (PDict kvs))) k = map_option canon (map_of kvs k)"
proof -
  have "set (sort_key fst kvs) = set kvs" by simp
  moreover have "distinct (map fst (sort_key fst kvs))"
    using assms by (simp add: distinct_map)
  ultimately have same: "map_of (sort_key fst kvs) = map_of kvs"
    using assms by (simp add: map_of_inject_set)
  have "map_of (map (\<lambda>kv. (fst kv, canon (snd kv))) xs) k = map_option canon (map_of xs k)" for xs :: dict
    by (induction xs) auto
  then show ?thesis by (simp add: same)
qed

lemma pget_canon: "distinct (map fst kvs) \<Longrightarrow> pget (canon (PDict kvs)) k = canon (pget (PDict kvs) k)"
  by (simp add: pget_def pget_or_def map_of_canon del: canon.simps(2) split: option.split)

lemma pidx_canon: "distinct (map fst kvs) \<Longrightarrow> pidx (canon (PDict kvs)) k = map_sum (\<lambda>e. e) canon (pidx (PDict kvs) k)"
  by (simp add: pidx_def map_of_canon del: canon.simps split: option.split)

text \<open>Reading a written line gives the record back, with its keys sorted.\<close>

lemma read_line:
  assumes "lane_event actor (i, canon (lane_line actor (i, kind, r))) = Inr e"
  shows "e = (kind, canon r)"
proof -
  have "distinct (map fst (fields_of (lane_line actor (i, kind, r))))" by (simp add: lane_line_def)
  then have f: "pget (canon (lane_line actor (i, kind, r))) k = canon (pget (lane_line actor (i, kind, r)) k)" for k
    using pget_canon [of "fields_of (lane_line actor (i, kind, r))" k] by (simp add: lane_line_def del: canon.simps)
  show ?thesis
    using assms by (auto simp: lane_event_def Let_def f bindR_eq_Inr lane_line_def simp del: checks.simps)
qed

lemma length_enumerate [simp]: "length (enumerate_list xs) = length xs"
  by (simp add: enumerate_list_def)

lemma nth_enumerate [simp]: "i < length xs \<Longrightarrow> enumerate_list xs ! i = (i, xs ! i)"
  by (simp add: enumerate_list_def)

lemma read_lines:
  assumes "mapR (\<lambda>(i, line). bindR (line_object line) (\<lambda>event. lane_event actor (i, event)))
      (enumerate_list (doc_lines (jsonl_document (map (lane_line actor) (enumerate_list mine))))) = Inr events"
  shows "events = map (\<lambda>e. (fst e, canon (snd e))) mine"
proof (rule nth_equalityI)
  show len: "length events = length (map (\<lambda>e. (fst e, canon (snd e))) mine)"
    using mapR_length [OF assms] by (simp add: jsonl_document_def)
  fix i assume "i < length events"
  then have i: "i < length mine" using len by simp
  have "(\<lambda>(i, line). bindR (line_object line) (\<lambda>event. lane_event actor (i, event)))
      (enumerate_list (doc_lines (jsonl_document (map (lane_line actor) (enumerate_list mine)))) ! i) = Inr (events ! i)"
    using assms i by (auto simp: mapR_eq_Inr list_all2_conv_all_nth jsonl_document_def)
  then have "lane_event actor (i, canon (lane_line actor (i, fst (mine ! i), snd (mine ! i)))) = Inr (events ! i)"
    using i by (simp add: jsonl_document_def line_object_def bindR_eq_Inr)
  from read_line [OF this] show "events ! i = map (\<lambda>e. (fst e, canon (snd e))) mine ! i" using i by simp
qed

subsection \<open>The files of the lanes\<close>

lemma split_on_no: "c \<notin> set s \<Longrightarrow> split_on c s = [s]"
  by (induction s) auto

lemma split_on_at: "c \<notin> set a \<Longrightarrow> split_on c (a @ c # b) = a # split_on c b"
  by (induction a) auto

lemma path_text_lane:
  assumes "CHR ''/'' \<notin> set d" and "d \<noteq> []" and "d \<noteq> ''.''"
  shows "path_text (''lanes/'' @ d @ ''/events.jsonl'') = ''lanes/'' @ d @ ''/events.jsonl''"
proof -
  have "split_on (CHR ''/'') (''lanes/'' @ d @ ''/events.jsonl'') = [''lanes'', d, ''events.jsonl'']"
    using split_on_at [of "CHR ''/''" "''lanes''" "d @ ''/events.jsonl''"]
      split_on_at [OF assms(1), of "''events.jsonl''"] by simp
  then show ?thesis using assms(2,3) by (simp add: path_text_def path_root_def starts_with_def)
qed

text \<open>A digest is a text of hexadecimal digits.\<close>

definition hex_sha256 :: "host \<Rightarrow> bool" where
  "hex_sha256 h \<longleftrightarrow> (\<forall>s. list_all is_hex_char (sha256_hex h s))"

lemma lane_path_text:
  assumes "hex_sha256 h"
  shows "path_text (lane_path h i a) = lane_path h i a"
proof -
  have "is_hex_char c" if "c \<in> set (take 12 (sha256_hex h a))" for c
    using assms that by (auto simp: hex_sha256_def list_all_iff dest: in_set_takeD)
  moreover have "\<not> is_hex_char (CHR ''/'')" "\<not> is_digit (CHR ''/'')" by (simp_all add: is_hex_char_def is_digit_def)
  ultimately have "CHR ''/'' \<notin> set (lane_directory h i a)"
    using pad6_digits by (auto simp: lane_directory_def)
  moreover have "CHR ''-'' \<in> set (lane_directory h i a)" by (simp add: lane_directory_def)
  then have "lane_directory h i a \<noteq> []" "lane_directory h i a \<noteq> ''.''" by auto
  ultimately show ?thesis unfolding lane_path_def by (rule path_text_lane)
qed

lemma lane_path_inject: "lane_path h i a = lane_path h j b \<Longrightarrow> i = j"
proof -
  assume "lane_path h i a = lane_path h j b"
  then have "lane_directory h i a = lane_directory h j b" by (simp add: lane_path_def)
  then have "takeWhile (\<lambda>c. c \<noteq> CHR ''-'') (lane_directory h i a) = takeWhile (\<lambda>c. c \<noteq> CHR ''-'') (lane_directory h j b)" by simp
  moreover have "takeWhile (\<lambda>c. c \<noteq> CHR ''-'') (lane_directory h k x) = pad6 k" for k x
  proof -
    have "\<not> is_digit (CHR ''-'')" by (simp add: is_digit_def)
    then have "\<forall>c \<in> set (pad6 k). c \<noteq> CHR ''-''" using pad6_digits by metis
    then show ?thesis by (simp add: lane_directory_def takeWhile_append2)
  qed
  ultimately have "pad6 i = pad6 j" by simp
  then show "i = j" by (metis digits_val_pad)
qed

subsection \<open>All lanes together\<close>

lemma check_lanes_distinct: "check_lanes ids seen lanes = Inr () \<Longrightarrow> distinct (map actor_id_of lanes) \<and> set (map actor_id_of lanes) \<inter> set seen = {}"
  by (induction ids seen lanes rule: check_lanes.induct) (auto simp: bindR_eq_Inr checks_eq_Inr require_eq_Inr simp del: checks.simps)

lemma issue_sorted_mset: "issue_sorted events = Inr mine \<Longrightarrow> mset mine = mset events"
proof -
  assume "issue_sorted events = Inr mine"
  then obtain keyed where k: "mapR (\<lambda>e. bindR (lane_issue_order e) (\<lambda>k. Inr (k, e))) events = Inr keyed"
    and mine: "mine = map snd (sort_key fst keyed)" by (auto simp: issue_sorted_def bindR_eq_Inr)
  have "map snd keyed = events"
    using k unfolding mapR_eq_Inr by (induction rule: list_all2_induct) (auto simp: bindR_eq_Inr)
  moreover have "mset (map snd (sort_key fst keyed)) = mset (map snd keyed)" by simp
  ultimately show ?thesis by (simp only: mine)
qed

definition written_event :: "event \<Rightarrow> event" where
  "written_event e = (fst e, canon (snd e))"

lemma load_written_lane:
  assumes "write_lane h events (i, a) = Inr ((path, d), entry)" and "map_of disk path = Some d" and "hex_sha256 h"
    and "load_lane h disk (canon entry) = Inr loaded"
  shows "mset loaded = mset (map written_event (filter (\<lambda>e. event_actor h e = a) events)) \<and> actor_id_of (canon entry) = a"
proof -
  from assms(1) obtain mine where mine: "issue_sorted (filter (\<lambda>e. event_actor h e = a) events) = Inr mine"
    and path: "path = lane_path h i a" and d: "d = jsonl_document (map (lane_line a) (enumerate_list mine))"
    and entry: "entry = PDict [(''actor_id'', PStr a), (''path'', PStr path), (''counts'', lane_counts mine)]"
    by (auto simp: write_lane_def Let_def bindR_eq_Inr lane_path_text [OF assms(3)])
  have fields: "pidx (canon entry) ''actor_id'' = Inr (PStr a)" "pidx (canon entry) ''path'' = Inr (PStr path)"
    unfolding entry by (subst pidx_canon; simp)+
  have "loaded = map (\<lambda>e. (fst e, canon (snd e))) mine"
    using assms(2,4) read_lines [of a mine]
    by (auto simp: load_lane_def bindR_eq_Inr fields path lane_path_text [OF assms(3)] d)
  moreover have "actor_id_of (canon entry) = a"
    unfolding actor_id_of_def entry by (subst pget_canon) simp_all
  ultimately show ?thesis
    using issue_sorted_mset [OF mine] by (simp add: written_event_def [abs_def])
qed

lemma load_written_lanes:
  assumes "list_all2 (\<lambda>ia x. write_lane h events ia = Inr x) ias lanes" and "hex_sha256 h"
    and "list_all (\<lambda>x. map_of disk (fst (fst x)) = Some (snd (fst x))) lanes"
    and "list_all2 (\<lambda>x e. load_lane h disk (canon (snd x)) = Inr e) lanes loaded"
  shows "map (\<lambda>x. actor_id_of (canon (snd x))) lanes = map snd ias \<and>
    mset (concat loaded) = mset (map written_event (concat (map (\<lambda>a. filter (\<lambda>e. event_actor h e = a) events) (map snd ias))))"
  using assms
proof (induction arbitrary: loaded rule: list_all2_induct)
  case Nil
  then show ?case by simp
next
  case (Cons ia ias x lanes)
  obtain i a path d entry where x: "ia = (i, a)" "x = ((path, d), entry)" by (metis prod.exhaust)
  from Cons.prems(3) obtain l ls where l: "loaded = l # ls" "load_lane h disk (canon entry) = Inr l"
      "list_all2 (\<lambda>x e. load_lane h disk (canon (snd x)) = Inr e) lanes ls"
    by (auto simp: x list_all2_Cons1)
  have "mset l = mset (map written_event (filter (\<lambda>e. event_actor h e = a) events)) \<and> actor_id_of (canon entry) = a"
    by (rule load_written_lane [OF _ _ assms(2) l(2)]) (use Cons.hyps(1) Cons.prems(2) in \<open>auto simp: x\<close>)
  with Cons.IH [OF assms(2) _ l(3)] Cons.prems(2) show ?case by (simp add: l(1) x)
qed

lemma lanes_on_disk:
  assumes "list_all2 (\<lambda>ia x. write_lane h events ia = Inr x) (enumerate_list who) lanes" and "hex_sha256 h"
  shows "distinct (map fst (map fst lanes)) \<and> list_all (\<lambda>x. starts_with ''lanes/'' (fst (fst x))) lanes"
proof -
  have len: "length lanes = length who" using list_all2_lengthD [OF assms(1)] by simp
  have path: "fst (fst (lanes ! i)) = lane_path h i (who ! i)" if "i < length lanes" for i
  proof -
    have w: "write_lane h events (i, who ! i) = Inr (lanes ! i)"
      using list_all2_nthD2 [OF assms(1) that] that len by simp
    then obtain mine where "issue_sorted (filter (\<lambda>e. event_actor h e = who ! i) events) = Inr mine"
      by (auto simp: write_lane_def Let_def bindR_eq_Inr)
    then show ?thesis
      using arg_cong [OF w, of "\<lambda>x. fst (fst (projr x))"]
      by (simp add: write_lane_def Let_def lane_path_text [OF assms(2)])
  qed
  have "distinct (map fst (map fst lanes))"
    unfolding distinct_conv_nth using path lane_path_inject by (auto simp: o_def)
  moreover have "list_all (\<lambda>x. starts_with ''lanes/'' (fst (fst x))) lanes"
    unfolding list_all_length using path by (simp add: lane_path_def starts_with_def)
  ultimately show ?thesis ..
qed

text \<open>The records of a bundle with their kinds.\<close>

definition bundle_events :: "recording \<Rightarrow> event list" where
  "bundle_events b =
     map (Pair ''llm'') (rec_llm b) @ map (Pair ''dispatch'') (rec_dispatches b) @ map (Pair ''tool'') (rec_tools b) @
     map (Pair ''grader'') (rec_graders b) @ map (Pair ''artifact'') (rec_artifacts b) @ map (Pair ''span'') (rec_spans b) @
     map (Pair ''cutoff-operation'') (items_of (pget (rec_cutoff_tails b) ''operations'')) @
     map (Pair ''cutoff-llm'') (items_of (pget (rec_cutoff_tails b) ''llm_requests''))"

lemma lane_event_kind: "lane_event actor item = Inr e \<Longrightarrow> fst e \<in> set LANE_KINDS"
  by (cases item) (auto simp: lane_event_def Let_def bindR_eq_Inr checks_eq_Inr require_in_eq_Inr simp del: checks.simps)

lemma loaded_kinds:
  assumes "load_lane h disk lane = Inr events"
  shows "fst ` set events \<subseteq> set LANE_KINDS"
proof -
  from assms obtain actor and d :: document where "mapR (\<lambda>(i, line). bindR (line_object line) (\<lambda>event. lane_event actor (i, event))) (enumerate_list (doc_lines d)) = Inr events"
    by (auto simp: load_lane_def bindR_eq_Inr split: option.splits)
  note each = list_all2_mem [OF this [unfolded mapR_eq_Inr]]
  show ?thesis
  proof (clarify)
    fix k r assume "(k, r) \<in> set events"
    from each [OF this] obtain i line event where "lane_event actor (i, event) = Inr (k, r)"
      by (auto simp: bindR_eq_Inr)
    from lane_event_kind [OF this] show "fst (k, r) \<in> set LANE_KINDS" .
  qed
qed

lemma kinds_regroup:
  assumes "fst ` set events \<subseteq> set LANE_KINDS"
  shows "mset (concat (map (\<lambda>k. map (Pair k) (of_kind k events)) LANE_KINDS)) = mset events"
proof -
  have "map (Pair k) (of_kind k events) = filter (\<lambda>e. fst e = k) events" for k
    unfolding of_kind_def map_map by (rule map_idI) auto
  then show ?thesis using mset_gathered [of LANE_KINDS fst events] assms by (simp add: LANE_KINDS_def)
qed

lemma manifest_fields:
  "pget (canon (bundle_manifest plan lanes events models bindings window)) ''lanes'' = PList (map canon lanes)"
  "pget (canon (bundle_manifest plan lanes events models bindings window)) ''actors'' = PList (map canon (bp_actors plan))"
  "pget (canon (bundle_manifest plan lanes events models bindings window)) ''workload'' = canon (bp_workload plan)"
  by (cases window; subst bundle_manifest_def; auto simp: pget_canon simp del: canon.simps(2); simp)+

lemma built_parts:
  assumes "build_bundle h plan st cutoff_tails output = Inr (disk, b)" and "hex_sha256 h"
  obtains tails who lanes window models bindings where
      "materialize_pre_dispatch_tails h (bp_adapter plan) (kept_llm st) (kept_dispatch st) cutoff_tails = Inr tails"
    and "list_all (\<lambda>e. event_actor h e \<in> set who) (staged_events st tails)"
    and "mapR (write_lane h (staged_events st tails)) (enumerate_list who) = Inr lanes"
    and "disk = map fst lanes @ [(''terminal.json'', json_document (bp_terminal plan)),
      (''manifest.json'', json_document (bundle_manifest plan (map snd lanes) (staged_events st tails) models bindings window))]"
    and "load_bundle h (Some disk) = Inr b"
    and "bindR (concurrency_window h (bp_adapter plan) (bp_workload plan) (bp_actors plan)) (controls_of plan) = Inr window"
    and "\<forall>v. read_json disk ''manifest.json'' = Inr v \<longrightarrow>
      v = canon (bundle_manifest plan (map snd lanes) (staged_events st tails) models bindings window)"
proof -
  from assms(1) obtain tails who lanes window models bindings where
      tails: "materialize_pre_dispatch_tails h (bp_adapter plan) (kept_llm st) (kept_dispatch st) cutoff_tails = Inr tails"
    and declared: "list_all (\<lambda>e. event_actor h e \<in> set who) (staged_events st tails)"
    and lanes: "mapR (write_lane h (staged_events st tails)) (enumerate_list who) = Inr lanes"
    and disk: "disk = map fst lanes @ [(''terminal.json'', json_document (bp_terminal plan)),
      (''manifest.json'', json_document (bundle_manifest plan (map snd lanes) (staged_events st tails) models bindings window))]"
    and loaded: "load_bundle h (Some disk) = Inr b"
    and window: "bindR (concurrency_window h (bp_adapter plan) (bp_workload plan) (bp_actors plan)) (controls_of plan) = Inr window"
    by (auto simp: build_bundle_def Let_def bindR_eq_Inr checks_eq_Inr require_eq_Inr list_all_iff simp del: checks.simps)
  note place = lanes_on_disk [OF lanes [unfolded mapR_eq_Inr] assms(2)]
  have "map_of (map fst lanes) ''manifest.json'' = None"
    using place by (auto simp: map_of_eq_None_iff list_all_iff starts_with_def dest!: bspec)
  then have "read_json disk ''manifest.json'' = Inr v \<longrightarrow>
      v = canon (bundle_manifest plan (map snd lanes) (staged_events st tails) models bindings window)" for v
    by (auto simp: read_json_def disk map_add_def json_document_def bindR_eq_Inr)
  then show ?thesis using that [OF tails declared lanes disk loaded window] by blast
qed

text \<open>The bundle that is returned is the one on disk, with the manifest of the plan.\<close>

lemma built_manifest:
  assumes "build_bundle h plan st cutoff_tails output = Inr (disk, b)" and "hex_sha256 h"
  shows "load_bundle h (Some disk) = Inr b \<and>
    (\<exists>lanes events models bindings window. rec_manifest b = canon (bundle_manifest plan lanes events models bindings window) \<and>
       bindR (concurrency_window h (bp_adapter plan) (bp_workload plan) (bp_actors plan)) (controls_of plan) = Inr window)"
proof (rule built_parts [OF assms])
  fix tails who window models bindings and lanes :: "((string \<times> document) \<times> pyval) list"
  assume loaded: "load_bundle h (Some disk) = Inr b"
    and window: "bindR (concurrency_window h (bp_adapter plan) (bp_workload plan) (bp_actors plan)) (controls_of plan) = Inr window"
    and read: "\<forall>v. read_json disk ''manifest.json'' = Inr v \<longrightarrow>
      v = canon (bundle_manifest plan (map snd lanes) (staged_events st tails) models bindings window)"
  from loaded have "read_json disk ''manifest.json'' = Inr (rec_manifest b)"
    by (auto simp: load_bundle_def bindR_eq_Inr Let_def simp del: checks.simps)
  with loaded window read show ?thesis by blast
qed

lemma built_bundle_events:
  assumes "build_bundle h plan st cutoff_tails output = Inr (disk, b)" and "hex_sha256 h"
  shows "case materialize_pre_dispatch_tails h (bp_adapter plan) (kept_llm st) (kept_dispatch st) cutoff_tails of
      Inl _ \<Rightarrow> False
    | Inr tails \<Rightarrow> mset (bundle_events b) = mset (map written_event (staged_events st tails))"
proof (rule built_parts [OF assms])
  fix tails who window models bindings and lanes :: "((string \<times> document) \<times> pyval) list"
  let ?manifest = "canon (bundle_manifest plan (map snd lanes) (staged_events st tails) models bindings window)"
  assume tails: "materialize_pre_dispatch_tails h (bp_adapter plan) (kept_llm st) (kept_dispatch st) cutoff_tails = Inr tails"
    and declared: "list_all (\<lambda>e. event_actor h e \<in> set who) (staged_events st tails)"
    and lanes: "mapR (write_lane h (staged_events st tails)) (enumerate_list who) = Inr lanes"
    and disk: "disk = map fst lanes @ [(''terminal.json'', json_document (bp_terminal plan)),
      (''manifest.json'', json_document (bundle_manifest plan (map snd lanes) (staged_events st tails) models bindings window))]"
    and loaded: "load_bundle h (Some disk) = Inr b"
    and read: "\<forall>v. read_json disk ''manifest.json'' = Inr v \<longrightarrow> v = ?manifest"
  note written = lanes [unfolded mapR_eq_Inr]
  note place = lanes_on_disk [OF written assms(2)]
  from loaded read obtain events where valid: "validate_manifest ?manifest = Inr ()"
    and ev: "load_lane_records h disk ?manifest = Inr events"
    and b: "bundle_events b = concat (map (\<lambda>k. map (Pair k) (of_kind k events)) LANE_KINDS)"
    by (auto simp: load_bundle_def bindR_eq_Inr Let_def LANE_KINDS_def bundle_events_def tails_of_def tails_value_def
        simp del: checks.simps)
  from ev obtain per_lane where per: "list_all2 (\<lambda>x e. load_lane h disk (canon (snd x)) = Inr e) lanes per_lane" "events = concat per_lane"
    by (auto simp: load_lane_records_def manifest_fields bindR_eq_Inr mapR_eq_Inr list_all2_map1)
  have "list_all (\<lambda>x. map_of disk (fst (fst x)) = Some (snd (fst x))) lanes"
    unfolding list_all_iff
  proof
    fix x assume "x \<in> set lanes"
    then have "fst x \<in> set (map fst lanes)" by simp
    then have "map_of (map fst lanes) (fst (fst x)) = Some (snd (fst x))"
      using place by (auto intro!: map_of_is_SomeI)
    then show "map_of disk (fst (fst x)) = Some (snd (fst x))" by (simp add: disk map_add_def)
  qed
  from load_written_lanes [OF written assms(2) this per(1)]
  have who: "map (\<lambda>x. actor_id_of (canon (snd x))) lanes = who"
    and all: "mset events = mset (map written_event (concat (map (\<lambda>a. filter (\<lambda>e. event_actor h e = a) (staged_events st tails)) who)))"
    by (simp_all add: per(2) enumerate_list_def)
  have "check_lanes (map actor_id_of (map canon (bp_actors plan))) [] (map canon (map snd lanes)) = Inr ()"
    using valid by (simp add: validate_manifest_def Let_def manifest_fields checks_eq_Inr del: checks.simps)
  then have "distinct who" using check_lanes_distinct who by (fastforce simp: o_def)
  then have parts: "mset (concat (map (\<lambda>a. filter (\<lambda>e. event_actor h e = a) (staged_events st tails)) who)) = mset (staged_events st tails)"
    by (rule mset_gathered) (use declared in \<open>auto simp: list_all_iff\<close>)
  have "fst ` set events \<subseteq> set LANE_KINDS"
    using loaded_kinds list_all2_mem [OF per(1)] unfolding per(2) by fastforce
  from kinds_regroup [OF this] have "mset (bundle_events b) = mset events" by (simp only: b)
  also have "\<dots> = mset (map written_event (staged_events st tails))" unfolding all mset_map parts ..
  finally show ?thesis by (simp add: tails)
qed

text \<open>
  C27: A bundle that was built holds, per kind, exactly the records of the stage and of the materialized
  cutoff tails, each once and unchanged up to the order of its keys: sorting them into lanes, writing
  the lanes and loading them again loses, doubles and mixes up nothing.
\<close>

theorem bundle_holds_the_stage:
  assumes "build_bundle h plan st cutoff_tails output = Inr (disk, b)" and "hex_sha256 h"
  shows "case materialize_pre_dispatch_tails h (bp_adapter plan) (kept_llm st) (kept_dispatch st) cutoff_tails of
      Inl _ \<Rightarrow> False
    | Inr tails \<Rightarrow> mset (bundle_events b) = mset (map written_event (staged_events st tails))"
  by (rule built_bundle_events [OF assms])

text \<open>A stage with one span, and a host whose digests are hexadecimal texts.\<close>

definition digest_host :: host where
  "digest_host = plain_host\<lparr>sha256_hex := (\<lambda>s. ''0a'')\<rparr>"

lemma digest_host_hex: "hex_sha256 digest_host"
  by (simp add: hex_sha256_def digest_host_def is_hex_char_def)

definition staged_span :: "string \<Rightarrow> string \<Rightarrow> int \<Rightarrow> pyval" where
  "staged_span span_id actor_id time = PDict
     [(''schema_version'', PStr SPAN_SCHEMA), (''span_id'', PStr span_id), (''actor_id'', PStr actor_id),
      (''kind'', PStr ''llm''), (''parent_span_id'', PNone), (''started_at_ns'', PInt time), (''ended_at_ns'', PInt (time + 1))]"

definition small_plan :: bundle_plan where
  "small_plan = \<lparr>bp_bundle_id = PStr ''b'', bp_adapter = ''trae'', bp_workload = PDict [],
     bp_actors = [PDict [(''actor_id'', PStr ''a1'')]],
     bp_window = PDict [(''gate_at_ns'', PInt 0), (''terminal_at_ns'', PInt 9)],
     bp_terminal = PDict [(''schema_version'', PStr TERMINAL_SCHEMA), (''status'', PStr ''success''), (''task_terminals'', PList [])],
     bp_models = PNone, bp_bindings = PNone, bp_controls = PNone\<rparr>"

definition small_stage :: stage where
  "small_stage = \<lparr>kept_dispatch = [], kept_tool = [], kept_grader = [], kept_artifact = [], kept_llm = [],
     kept_span = [staged_span ''s1'' ''a1'' 5]\<rparr>"

definition small_tails :: cutoff_tails where
  "small_tails = \<lparr>ct_operations = [], ct_requests = []\<rparr>"

definition small_build :: "(disk \<times> recording) res" where
  "small_build = build_bundle digest_host small_plan small_stage small_tails None"

definition small_disk :: disk where
  "small_disk =
     (let event = (''span'', staged_span ''s1'' ''a1'' 5); path = ''lanes/000000-0a/events.jsonl'';
          lane = PDict [(''actor_id'', PStr ''a1''), (''path'', PStr path), (''counts'', lane_counts [event])]
      in [(path, jsonl_document [lane_line ''a1'' (0, event)]), (''terminal.json'', json_document (bp_terminal small_plan)),
          (''manifest.json'', json_document (bundle_manifest small_plan [lane] [event] [] [] None))])"

lemma small_tails_complete: "materialize_pre_dispatch_tails digest_host (bp_adapter small_plan) (kept_llm small_stage)
    (kept_dispatch small_stage) small_tails = Inr small_tails"
  by (simp add: materialize_pre_dispatch_tails_def small_stage_def small_tails_def observed_calls_def)

lemma small_events: "staged_events small_stage small_tails = [(''span'', staged_span ''s1'' ''a1'' 5)]"
  by (simp add: staged_events_def small_stage_def small_tails_def)

lemma small_path: "path_text (lane_path digest_host 0 ''a1'') = ''lanes/000000-0a/events.jsonl''"
  by code_simp

lemma small_build_steps: "small_build = bindR (load_bundle digest_host (Some small_disk)) (\<lambda>b. Inr (small_disk, b))"
proof -
  have actors: "record_ids digest_host ''actor_id'' (bp_actors small_plan) = Inr [''a1'']"
    by (simp add: record_ids_def small_plan_def)
  have owner: "event_actor digest_host (''span'', staged_span ''s1'' ''a1'' 5) = ''a1''"
    by (simp add: event_actor_def staged_span_def pget_or_def)
  have order: "lane_issue_order (''span'', staged_span ''s1'' ''a1'' 5) = Inr (5, 1)"
    by (simp add: lane_issue_order_def staged_span_def)
  show ?thesis
    unfolding small_build_def build_bundle_def small_tails_complete bindR_simps small_events actors Let_def
    by (simp add: owner order enumerate_list_def write_lane_def issue_sorted_def small_path Let_def small_disk_def
        concurrency_window_def controls_of_def py_or_def py_dict_def)
      (simp add: small_plan_def concurrency_window_def controls_of_def py_or_def py_dict_def)
qed

theorem bundle_holds_the_stage_witness:
  "\<exists>disk b. small_build = Inr (disk, b) \<and> map (\<lambda>r. pget r ''span_id'') (rec_spans b) = [PStr ''s1''] \<and>
     mset (bundle_events b) = mset (map written_event (staged_events small_stage small_tails))"
proof -
  have "(case load_bundle digest_host (Some small_disk) of Inr b \<Rightarrow>
      map (\<lambda>r. pget r ''span_id'') (rec_spans b) = [PStr ''s1''] | _ \<Rightarrow> False)"
    by code_simp
  then obtain b where b: "small_build = Inr (small_disk, b)" "map (\<lambda>r. pget r ''span_id'') (rec_spans b) = [PStr ''s1'']"
    by (auto simp: small_build_steps split: sum.splits)
  have held: "mset (bundle_events b) = mset (map written_event (staged_events small_stage small_tails))"
    using bundle_holds_the_stage [OF trans [OF small_build_def [symmetric] b(1)] digest_host_hex]
    by (simp add: small_tails_complete)
  show ?thesis by (intro exI conjI) (rule b(1), rule b(2), rule held)
qed

end
