(* ===== verification/Lane_Record.thy ===== *)
theory Lane_Record
  imports Boundary_Safety
begin

text \<open>
  lane_record.py: while a recording runs, every process appends the start and the end of its operations to
  a log per lane; after the run the logs are turned into the ledger files and the cutoff tails, through the
  operation ledger itself.

  The directory of logs is an association list from the path of a log to the values appended to it.  What a
  call draws at random, and what the ledger reads from the clock while the logs are turned into records, are
  arguments.
\<close>

section \<open>Appending events\<close>

type_synonym lane_dir = "(string \<times> pyval list) list"

definition LANE_RECORD_EVENT_SCHEMA :: string where
  "LANE_RECORD_EVENT_SCHEMA = ''minireplay.lane-record-event/v1''"

definition lane_file_name :: "host \<Rightarrow> string \<Rightarrow> string \<Rightarrow> string" where
  "lane_file_name h actor_id session_id =
     ''lane-'' @ take 20 (sha256_hex h (actor_id @ [CHR 0x00] @ session_id)) @ ''.jsonl''"

definition lane_log :: "lane_dir \<Rightarrow> string \<Rightarrow> pyval list" where
  "lane_log dir path = (case map_of dir path of None \<Rightarrow> [] | Some events \<Rightarrow> events)"

definition append_lane_event :: "host \<Rightarrow> pyval \<Rightarrow> (lane_dir, unit) op" where
  "append_lane_event h event dir =
     (case pidx event ''actor_id'' of
        Inl e \<Rightarrow> (Inl e, dir)
      | Inr a \<Rightarrow>
          let actor_id = py_str h a;
              session_id = py_str h (py_or (pget event ''session_id'') (PStr actor_id));
              path = lane_file_name h actor_id session_id
          in (Inr (), AList.update path (lane_log dir path @ [event]) dir))"

record lane_draw =
  ld_record :: string
  ld_span :: string
  ld_reservation :: string

definition local_start :: "host \<Rightarrow> lane_draw \<Rightarrow> pyval \<Rightarrow> (lane_dir, pyval) op" where
  "local_start h d payload =
     (let kind = py_str h (pget payload ''kind''); actor_id = pget payload ''actor_id'' in
      bindS (liftS (checks
        [require (kind \<in> set KINDS) ''invalid local boundary kind'',
         require (is_nonempty_str actor_id) ''local boundary actor is required''])) (\<lambda>_.
      let session_id = py_str h (py_or (pget payload ''session_id'') actor_id);
          hint = pget payload ''record_id_hint'';
          record_id = (if is_nonempty_str hint then str_of hint else kind @ ''-'' @ ld_record d);
          span_id = ''span-'' @ ld_span d
      in bindS (liftS (pidx payload ''started_at_ns'')) (\<lambda>stamp.
         bindS (append_lane_event h (PDict
           [(''schema_version'', PStr LANE_RECORD_EVENT_SCHEMA), (''event'', PStr ''start''),
            (''actor_id'', actor_id), (''session_id'', PStr session_id),
            (''reservation_id'', PStr (ld_reservation d)), (''record_id'', PStr record_id),
            (''span_id'', PStr span_id), (''at_ns'', stamp), (''payload'', payload)])) (\<lambda>_.
         liftS (Inr (PDict
           [(''reservation_id'', PStr (ld_reservation d)), (''record_id'', PStr record_id),
            (''span_id'', PStr span_id)]))))))"

text \<open>\<open>payload.pop("_lane_session_id", actor_id)\<close>\<close>

definition without_lane_session :: "pyval \<Rightarrow> pyval" where
  "without_lane_session payload = PDict (AList.delete ''_lane_session_id'' (fields_of payload))"

definition local_complete ::
    "host \<Rightarrow> string \<times> string \<times> string \<Rightarrow> pyval \<Rightarrow> (lane_dir, pyval) op" where
  "local_complete h r payload0 =
     (let (kind, record_id, actor_id) = r;
          session_id = py_str h (pget_or payload0 ''_lane_session_id'' (PStr actor_id));
          payload = without_lane_session payload0
      in bindS (liftS (pidx payload ''reservation_id'')) (\<lambda>rid.
         bindS (liftS (pidx payload ''ended_at_ns'')) (\<lambda>stamp.
         bindS (append_lane_event h (PDict
           [(''schema_version'', PStr LANE_RECORD_EVENT_SCHEMA), (''event'', PStr ''complete''),
            (''actor_id'', PStr actor_id), (''session_id'', PStr session_id),
            (''reservation_id'', rid), (''record_id'', PStr record_id), (''kind'', PStr kind),
            (''at_ns'', stamp), (''payload'', payload)])) (\<lambda>_.
         liftS (Inr (PDict ([(''valid'', PBool True)] @
           (if kind = ''tool'' then [(''result_replay_required'', PBool False)] else []))))))))"

section \<open>Composite scopes\<close>

definition local_composite_scope_start ::
    "host \<Rightarrow> string \<Rightarrow> string \<Rightarrow> string \<Rightarrow> string \<Rightarrow> string \<Rightarrow> int \<Rightarrow> (lane_dir, string) op" where
  "local_composite_scope_start h draw actor_id session_id name causal_lane started_at_ns =
     (let scope_id = ''scope-'' @ draw in
      bindS (append_lane_event h (PDict
        [(''schema_version'', PStr LANE_RECORD_EVENT_SCHEMA), (''event'', PStr ''scope-start''),
         (''actor_id'', PStr actor_id), (''session_id'', PStr session_id), (''scope_id'', PStr scope_id),
         (''name'', PStr name), (''causal_lane'', PStr causal_lane), (''at_ns'', PInt started_at_ns)]))
        (\<lambda>_. liftS (Inr scope_id)))"

definition local_composite_scope_complete ::
    "host \<Rightarrow> string \<Rightarrow> string \<Rightarrow> string \<Rightarrow> int \<Rightarrow> string \<Rightarrow> (lane_dir, unit) op" where
  "local_composite_scope_complete h actor_id session_id scope_id ended_at_ns status =
     append_lane_event h (PDict
       [(''schema_version'', PStr LANE_RECORD_EVENT_SCHEMA), (''event'', PStr ''scope-complete''),
        (''actor_id'', PStr actor_id), (''session_id'', PStr session_id), (''scope_id'', PStr scope_id),
        (''status'', PStr status), (''at_ns'', PInt ended_at_ns)])"

section \<open>Reading the logs\<close>

definition check_lane_event :: "pyval \<Rightarrow> unit res" where
  "check_lane_event v =
     checks
       [require (pget v ''schema_version'' = PStr LANE_RECORD_EVENT_SCHEMA) ''lane record: unsupported event schema'',
        require_in (pget v ''event'') [''start'', ''complete'', ''scope-start'', ''scope-complete'']
          ''lane record: invalid event'',
        require (is_int (pget v ''at_ns'')) ''lane record: invalid event time'']"

definition at_ns :: "pyval \<Rightarrow> int" where
  "at_ns v = int_of (pget v ''at_ns'')"

text \<open>By time; at the same time a start comes before an end.\<close>

definition lane_event_key :: "pyval \<Rightarrow> int \<times> bool" where
  "lane_event_key v = (at_ns v, pget v ''event'' \<notin> {PStr ''start'', PStr ''scope-start''})"

text \<open>A value that is read back from its canonical text has its keys sorted.\<close>

definition lane_events :: "lane_dir \<Rightarrow> pyval list res" where
  "lane_events dir =
     (let values = map canon (concat (map snd (sort_key fst dir))) in
      bindR (checks (map check_lane_event values)) (\<lambda>_. Inr (sort_key lane_event_key values)))"

record scopes =
  sc_starts :: "(string \<times> pyval) list"
  sc_completions :: "(string \<times> pyval) list"

definition scope_event :: "host \<Rightarrow> pyval \<Rightarrow> scopes \<Rightarrow> scopes res" where
  "scope_event h event s =
     (let scope_id = py_str h (pget event ''scope_id'') in
      if pget event ''event'' = PStr ''scope-start'' then
        bindR (require (map_of (sc_starts s) scope_id = None) ''lane record: duplicate composite scope'')
          (\<lambda>_. Inr (s\<lparr>sc_starts := sc_starts s @ [(scope_id, event)]\<rparr>))
      else if pget event ''event'' = PStr ''scope-complete'' then
        bindR (checks
          [require (map_of (sc_starts s) scope_id \<noteq> None) ''lane record: composite completion before start'',
           require (map_of (sc_completions s) scope_id = None) ''lane record: duplicate composite completion''])
          (\<lambda>_. Inr (s\<lparr>sc_completions := sc_completions s @ [(scope_id, event)]\<rparr>))
      else Inr s)"

definition scope_row :: "host \<Rightarrow> int \<Rightarrow> scopes \<Rightarrow> string \<times> pyval \<Rightarrow> pyval res" where
  "scope_row h cutoff_at_ns s item =
     (let (scope_id, opened) = item; started = at_ns opened in
      bindR (pidx opened ''actor_id'') (\<lambda>actor_id.
        let completion = map_of (sc_completions s) scope_id;
            completed_at = map_option at_ns completion;
            cut = (case completed_at of None \<Rightarrow> True | Some t \<Rightarrow> cutoff_at_ns < t)
        in Inr (PDict
          [(''scope_id'', PStr scope_id),
           (''actor_id'', PStr (py_str h actor_id)),
           (''session_id'', PStr (py_str h (py_or (pget opened ''session_id'') actor_id))),
           (''name'', PStr (py_str h (py_or (pget opened ''name'') (PStr ''composite'')))),
           (''causal_lane'', PStr (py_str h (py_or (pget opened ''causal_lane'') (PStr [])))),
           (''started_at_ns'', PInt started),
           (''ended_at_ns'', PInt (if cut then cutoff_at_ns else the completed_at)),
           (''status'', PStr (if cut then ''truncated''
              else py_str h (py_or (pget (the completion) ''status'') (PStr ''ok'')))),
           (''cutoff_truncated'', PBool cut)])))"

definition scope_row_key :: "pyval \<Rightarrow> int \<times> string" where
  "scope_row_key row = (int_of (pget row ''started_at_ns''), str_of (pget row ''scope_id''))"

definition composite_scope_rows :: "host \<Rightarrow> lane_dir \<Rightarrow> int \<Rightarrow> pyval list res" where
  "composite_scope_rows h dir cutoff_at_ns =
     bindR (lane_events dir) (\<lambda>events.
     bindR (foldR (scope_event h) events \<lparr>sc_starts = [], sc_completions = []\<rparr>) (\<lambda>s.
     bindR (mapR (scope_row h cutoff_at_ns s) (filter (\<lambda>(_, opened). at_ns opened \<le> cutoff_at_ns) (sc_starts s)))
       (\<lambda>rows. Inr (sort_key scope_row_key rows))))"

section \<open>From the logs to the ledger\<close>

record lane_run =
  lr_ledger :: ledger
  lr_reservations :: "(string \<times> string) list"
  lr_started :: "string set"
  lr_completed :: "string set"

definition on_ledger :: "(ledger, 'a) op \<Rightarrow> (lane_run, 'a) op" where
  "on_ledger m run = (case m (lr_ledger run) of (r, l) \<Rightarrow> (r, run\<lparr>lr_ledger := l\<rparr>))"

text \<open>The ledger has no services around it: \<open>run_complete\<close>, \<open>actor_complete\<close> and \<open>llm_index\<close> are \<open>None\<close>.\<close>

definition lone_peers :: peers where
  "lone_peers = \<lparr>run_complete = False, actor_complete = (\<lambda>_. False), attempt_for_model_call = None\<rparr>"

text \<open>\<open>str(event["reservation_id"])\<close>, where the key is there.\<close>

definition event_local_id :: "host \<Rightarrow> pyval \<Rightarrow> string" where
  "event_local_id h event = py_str h (pget event ''reservation_id'')"

text \<open>\<open>payload.setdefault("record_id_hint", record_id)\<close>, and the span identifier.\<close>

definition hinted_payload :: "host \<Rightarrow> pyval \<Rightarrow> pyval res" where
  "hinted_payload h event =
     bindR (bindR (pidx event ''payload'') py_dict) (\<lambda>fields.
     bindR (pidx event ''record_id'') (\<lambda>record_id.
     bindR (pidx event ''span_id'') (\<lambda>span_id.
       let payload = (if phas (PDict fields) ''record_id_hint'' then PDict fields
                      else pset ''record_id_hint'' (PStr (py_str h record_id)) (PDict fields))
       in Inr (pset ''span_id_hint'' (PStr (py_str h span_id)) payload))))"

definition materialize_start :: "host \<Rightarrow> (string \<Rightarrow> tick) \<Rightarrow> int \<Rightarrow> pyval \<Rightarrow> (lane_run, unit) op" where
  "materialize_start h draw cutoff_at_ns event run0 =
     (let local_id = event_local_id h event in
      if local_id \<in> lr_started run0 then (Inl (ValidationError ''lane record: duplicate start''), run0)
      else
        let run1 = run0\<lparr>lr_started := insert local_id (lr_started run0)\<rparr> in
        if cutoff_at_ns < at_ns event then (Inr (), run1)
        else
          bindS (liftS (hinted_payload h event)) (\<lambda>payload.
          bindS (on_ledger (start h lone_peers (draw local_id) payload)) (\<lambda>opened.
          bindS (liftS (pidx opened ''reservation_id'')) (\<lambda>rid.
            updateS (\<lambda>run. run\<lparr>lr_reservations :=
              AList.update local_id (py_str h rid) (lr_reservations run)\<rparr>)))) run1)"

definition materialize_complete :: "host \<Rightarrow> (string \<Rightarrow> tick) \<Rightarrow> int \<Rightarrow> pyval \<Rightarrow> (lane_run, unit) op" where
  "materialize_complete h draw cutoff_at_ns event run0 =
     (let local_id = event_local_id h event in
      if local_id \<notin> lr_started run0 then (Inl (ValidationError ''lane record: completion before start''), run0)
      else if local_id \<in> lr_completed run0 then (Inl (ValidationError ''lane record: duplicate completion''), run0)
      else
        let run1 = run0\<lparr>lr_completed := insert local_id (lr_completed run0)\<rparr> in
        case map_of (lr_reservations run1) local_id of
          None \<Rightarrow> (Inr (), run1)
        | Some rid \<Rightarrow>
            if cutoff_at_ns < at_ns event then (Inr (), run1)
            else
              bindS (liftS (bindR (pidx event ''payload'') py_dict)) (\<lambda>fields.
              bindS (on_ledger (complete_op h (tick_now (draw local_id)) False
                       (pset ''reservation_id'' (PStr rid) (PDict fields)))) (\<lambda>_. liftS (Inr ()))) run1)"

definition materialize_event :: "host \<Rightarrow> (string \<Rightarrow> tick) \<Rightarrow> int \<Rightarrow> pyval \<Rightarrow> (lane_run, unit) op" where
  "materialize_event h draw cutoff_at_ns event =
     (if pget event ''event'' \<in> {PStr ''scope-start'', PStr ''scope-complete''} then liftS (Inr ())
      else bindS (liftS (pidx event ''reservation_id'')) (\<lambda>_.
        if pget event ''event'' = PStr ''start'' then materialize_start h draw cutoff_at_ns event
        else materialize_complete h draw cutoff_at_ns event))"

text \<open>The result, and the ledger whose files it leaves.\<close>

definition materialize_lane_recording ::
    "host \<Rightarrow> ledger_config \<Rightarrow> (string \<Rightarrow> tick) \<Rightarrow> int \<Rightarrow> lane_dir \<Rightarrow> pyval list res \<times> ledger" where
  "materialize_lane_recording h c draw cutoff_at_ns dir =
     (let l = empty_ledger h (c\<lparr>cfg_mode := ''record''\<rparr>) None in
      case lane_events dir of
        Inl e \<Rightarrow> (Inl e, l)
      | Inr events \<Rightarrow>
          (case bindS (mapS (materialize_event h draw cutoff_at_ns) events)
                  (\<lambda>_. on_ledger (freeze_source_cutoff h cutoff_at_ns))
                  \<lparr>lr_ledger = l, lr_reservations = [], lr_started = {}, lr_completed = {}\<rparr> of
             (r, run) \<Rightarrow> (r, lr_ledger run)))"

end
