(* ===== verification/Lane_Closure.thy ===== *)
theory Lane_Closure
  imports Lane_Record
begin

text \<open>
  What the logs of a recording become: the operations that ended by the cutoff are the records of the
  ledger files, in the order of their ends, and those that were still running are the cutoff tails.
\<close>

section \<open>Reading the events\<close>

definition is_start :: "pyval \<Rightarrow> bool" where
  "is_start e \<longleftrightarrow> pget e ''event'' = PStr ''start''"

definition is_complete :: "pyval \<Rightarrow> bool" where
  "is_complete e \<longleftrightarrow> pget e ''event'' \<notin> {PStr ''start'', PStr ''scope-start'', PStr ''scope-complete''}"

definition opened_by :: "int \<Rightarrow> pyval list \<Rightarrow> pyval list" where
  "opened_by c events = filter (\<lambda>e. is_start e \<and> at_ns e \<le> c) events"

definition closed_by :: "host \<Rightarrow> int \<Rightarrow> pyval list \<Rightarrow> pyval list" where
  "closed_by h c events =
     filter (\<lambda>e. is_complete e \<and> at_ns e \<le> c \<and> event_local_id h e \<in> event_local_id h ` set (opened_by c events)) events"

text \<open>The operation that a start event names: its kind, and the identifier the framework was given.\<close>

definition started_op :: "host \<Rightarrow> pyval \<Rightarrow> op_id" where
  "started_op h e = (str_of (pget (pget e ''payload'') ''kind''), py_str h (pget e ''record_id''))"

definition op_of_local :: "host \<Rightarrow> pyval list \<Rightarrow> string \<Rightarrow> op_id" where
  "op_of_local h events i = started_op h (hd (filter (\<lambda>e. is_start e \<and> event_local_id h e = i) events))"

text \<open>
  The payload names its identifier as the event does, or not at all.  A payload that carries an empty or null
  hint is not of this kind.
\<close>

definition hint_agrees :: "host \<Rightarrow> pyval \<Rightarrow> bool" where
  "hint_agrees h e \<longleftrightarrow> py_str h (pget e ''record_id'') \<noteq> [] \<and>
     (let payload = pget e ''payload'' in
      phas payload ''record_id_hint'' \<longrightarrow> pget payload ''record_id_hint'' = PStr (py_str h (pget e ''record_id'')))"

section \<open>One start, one end\<close>

lemma start_recording:
  assumes "\<not> replaying l" and "start h p t payload l = (Inr response, l')"
  obtains kind actor_id started payload2 rid sid r where
    "start_request p t payload = Inr (kind, actor_id, started, payload2)" "open_ids h t kind payload2 None = Inr (rid, sid)"
    "res_kind r = kind" "res_record_id r = rid" "l' = open_reservation t r l"
    "pget response ''reservation_id'' = PStr (tick_reservation t)" "is_dict response"
proof -
  from assms obtain kind actor_id started payload2 where req: "start_request p t payload = Inr (kind, actor_id, started, payload2)"
    by (auto simp: start_def op_simps split: sum.splits)
  moreover obtain rid sid where ids: "open_ids h t kind payload2 None = Inr (rid, sid)"
    by (simp add: open_ids_def Let_def)
  moreover let ?r = "\<lparr>res_kind = kind, res_record_id = rid, res_span_id = sid, res_actor_id = actor_id,
                res_lane = payload_lane h l kind payload2, res_started_at_ns = started,
                res_request = payload2, res_expected = None\<rparr>"
  have "l' = open_reservation t ?r l \<and> start_response h t ?r (open_reservation t ?r l) = Inr response"
    using assms req ids by (auto simp: start_def op_simps claim_expected_def Let_def)
  ultimately show ?thesis
    by (intro that [of kind actor_id started payload2 rid sid ?r])
       (auto simp: start_response_def Let_def)
qed

lemma start_request_hints:
  assumes "start_request lone_peers t payload = Inr (kind, actor_id, started, payload2)"
  shows "pget payload ''kind'' = PStr kind \<and> pget payload2 ''record_id_hint'' = pget payload ''record_id_hint''"
  using assms
  by (auto simp: start_request_def resolve_trigger_def lone_peers_def Let_def bindR_eq_Inr checks_eq_Inr pget_pset
      require_in_eq_Inr simp del: checks.simps split: if_splits)

lemma py_dict_Inr: "py_dict v = Inr kvs \<longleftrightarrow> v = PDict kvs"
  by (cases v) (auto simp: py_dict_def)

lemma hinted_payload_fields:
  assumes "hinted_payload h event = Inr payload" and "hint_agrees h event"
  shows "pget payload ''kind'' = pget (pget event ''payload'') ''kind'' \<and>
    pget payload ''record_id_hint'' = PStr (py_str h (pget event ''record_id''))"
proof -
  from assms(1) obtain fields rid sid where f: "pidx event ''payload'' = Inr (PDict fields)"
    and rid: "pidx event ''record_id'' = Inr rid"
    and p: "payload = pset ''span_id_hint'' (PStr (py_str h sid))
      (if phas (PDict fields) ''record_id_hint'' then PDict fields
       else pset ''record_id_hint'' (PStr (py_str h rid)) (PDict fields))"
    by (auto simp: hinted_payload_def bindR_eq_Inr py_dict_Inr Let_def)
  from f rid have "pget event ''payload'' = PDict fields" "pget event ''record_id'' = rid"
    by (simp_all add: pidx_pget)
  with assms(2) p show ?thesis by (auto simp: hint_agrees_def pget_pset Let_def)
qed

lemma materialized_op:
  assumes "\<not> replaying l" and "hinted_payload h event = Inr payload" and "hint_agrees h event"
    and "start h lone_peers t payload l = (Inr response, l')"
  obtains r where "l' = open_reservation t r l" "identity_of_reservation r = started_op h event"
    "pget response ''reservation_id'' = PStr (tick_reservation t)"
proof -
  from assms(1,4) obtain kind actor_id started payload2 rid sid r where
    s: "start_request lone_peers t payload = Inr (kind, actor_id, started, payload2)"
    "open_ids h t kind payload2 None = Inr (rid, sid)" "res_kind r = kind" "res_record_id r = rid"
    "l' = open_reservation t r l" "pget response ''reservation_id'' = PStr (tick_reservation t)" "is_dict response"
    by (rule start_recording)
  note f = start_request_hints [OF s(1)] hinted_payload_fields [OF assms(2,3)]
  have "rid = py_str h (pget event ''record_id'')"
    using s(2) f assms(3) by (auto simp: open_ids_def Let_def hint_agrees_def)
  moreover have "kind = str_of (pget (pget event ''payload'') ''kind'')" using f by auto
  ultimately have "identity_of_reservation r = started_op h event"
    by (simp add: identity_of_reservation_def started_op_def s(3,4))
  with s(5,6) show ?thesis using that by blast
qed

text \<open>While the logs are read nothing is truncated and no cutoff is set, so a completion writes its record.\<close>

lemma completed_record:
  assumes "truncated l = {}" and "source_cutoff_at_ns l = None"
    and "complete_op h now False (pset ''reservation_id'' (PStr rid) payload) l = (Inr response, l')"
  obtains r rec ended where "map_of (active l) rid = Some r" "pget rec (id_field (res_kind r)) = PStr (res_record_id r)"
    "l' = write_record False r rec ended (l\<lparr>active := AList.delete rid (active l)\<rparr>)"
proof (cases rule: complete_cases [of h now False "pset ''reservation_id'' (PStr rid) payload" l])
  case (written rid' r ended rec)
  then have "rid' = rid" by (simp add: pget_pset)
  with written assms(3) build_record_id [OF written(5)] show ?thesis by (intro that) auto
next
  case (held rid' r ended)
  then show ?thesis using assms(1) by simp
qed (use assms in \<open>simp_all add: past_cutoff_def\<close>)

section \<open>What the events processed so far have become\<close>

definition local_ids :: "host \<Rightarrow> pyval list \<Rightarrow> string set" where
  "local_ids h events = event_local_id h ` set events"

definition still_open :: "host \<Rightarrow> int \<Rightarrow> pyval list \<Rightarrow> pyval list" where
  "still_open h c events = filter (\<lambda>e. event_local_id h e \<notin> local_ids h (closed_by h c events)) (opened_by c events)"

definition files_inv :: "host \<Rightarrow> (string \<Rightarrow> tick) \<Rightarrow> int \<Rightarrow> pyval list \<Rightarrow> ledger \<Rightarrow> bool" where
  "files_inv h draw c events l \<longleftrightarrow>
     \<not> replaying l \<and> truncated l = {} \<and> source_cutoff_at_ns l = None \<and>
     list_all2 (\<lambda>e p. fst p = tick_reservation (draw (event_local_id h e)) \<and> identity_of_reservation (snd p) = started_op h e)
       (still_open h c events) (active l) \<and>
     list_all2 (\<lambda>e p. (fst p, pget (snd p) (id_field (fst p))) =
         (let i = op_of_local h events (event_local_id h e) in (fst i, PStr (snd i))))
       (closed_by h c events) (ledger_file l)"

definition seen_inv :: "host \<Rightarrow> (string \<Rightarrow> tick) \<Rightarrow> int \<Rightarrow> pyval list \<Rightarrow> lane_run \<Rightarrow> bool" where
  "seen_inv h draw c events run \<longleftrightarrow>
     lr_started run = local_ids h (filter is_start events) \<and>
     lr_completed run = local_ids h (filter is_complete events) \<and>
     local_ids h (filter is_complete events) \<subseteq> local_ids h (filter is_start events) \<and>
     distinct (map (event_local_id h) (filter is_start events)) \<and>
     (\<forall>i. map_of (lr_reservations run) i =
       (if i \<in> local_ids h (opened_by c events) then Some (tick_reservation (draw i)) else None))"

definition lane_inv :: "host \<Rightarrow> (string \<Rightarrow> tick) \<Rightarrow> int \<Rightarrow> pyval list \<Rightarrow> lane_run \<Rightarrow> bool" where
  "lane_inv h draw c events run \<longleftrightarrow> seen_inv h draw c events run \<and> files_inv h draw c events (lr_ledger run)"

lemma op_of_start:
  assumes "distinct (map (event_local_id h) (filter is_start events))" and "e \<in> set events" "is_start e"
  shows "op_of_local h events (event_local_id h e) = started_op h e"
proof -
  let ?i = "event_local_id h e"
  have one: "x = e" if "x \<in> set events" "is_start x" "event_local_id h x = ?i" for x
    using assms that by (auto simp: distinct_map inj_on_def)
  have "e \<in> set (filter (\<lambda>x. is_start x \<and> event_local_id h x = ?i) events)" using assms by simp
  then have "hd (filter (\<lambda>x. is_start x \<and> event_local_id h x = ?i) events) \<in>
      set (filter (\<lambda>x. is_start x \<and> event_local_id h x = ?i) events)"
    by (metis empty_iff hd_in_set list.set(1))
  then have "hd (filter (\<lambda>x. is_start x \<and> event_local_id h x = ?i) events) = e" using one by auto
  then show ?thesis by (simp add: op_of_local_def)
qed

lemma op_of_local_append:
  assumes "i \<in> local_ids h (filter is_start events)"
  shows "op_of_local h (events @ rest) i = op_of_local h events i"
proof -
  have "filter (\<lambda>e. is_start e \<and> event_local_id h e = i) events \<noteq> []"
    using assms by (auto simp: local_ids_def filter_empty_conv)
  then show ?thesis by (simp add: op_of_local_def)
qed

lemma start_not_complete [simp]: "is_start e \<Longrightarrow> \<not> is_complete e"
  by (simp add: is_start_def is_complete_def)

lemma closed_append:
  assumes "local_ids h (filter is_complete events) \<subseteq> local_ids h (filter is_start events)"
    and "is_start e \<Longrightarrow> event_local_id h e \<notin> local_ids h (filter is_start events)"
  shows "closed_by h c (events @ [e]) =
    closed_by h c events @
      (if is_complete e \<and> at_ns e \<le> c \<and> event_local_id h e \<in> local_ids h (opened_by c events) then [e] else [])"
proof -
  have old: "event_local_id h x \<in> event_local_id h ` set (opened_by c (events @ [e])) \<longleftrightarrow>
      event_local_id h x \<in> event_local_id h ` set (opened_by c events)"
    if "x \<in> set events" "is_complete x" for x
  proof -
    have "event_local_id h x \<in> local_ids h (filter is_start events)"
      using assms(1) that by (auto simp: local_ids_def)
    then have "is_start e \<Longrightarrow> event_local_id h x \<noteq> event_local_id h e" using assms(2) by auto
    then show ?thesis by (auto simp: opened_by_def)
  qed
  have "filter (\<lambda>x. is_complete x \<and> at_ns x \<le> c \<and> event_local_id h x \<in> event_local_id h ` set (opened_by c (events @ [e]))) events =
      closed_by h c events"
    unfolding closed_by_def by (rule filter_cong [OF refl]) (use old in blast)
  then show ?thesis
    by (auto simp: closed_by_def opened_by_def local_ids_def)
qed

lemma opened_are_started: "local_ids h (opened_by c events) \<subseteq> local_ids h (filter is_start events)"
  by (auto simp: local_ids_def opened_by_def)

lemma closed_are_opened: "local_ids h (closed_by h c events) \<subseteq> local_ids h (opened_by c events)"
  by (auto simp: local_ids_def closed_by_def)

lemma closed_are_complete: "local_ids h (closed_by h c events) \<subseteq> local_ids h (filter is_complete events)"
  by (auto simp: local_ids_def closed_by_def)

text \<open>The records written so far name their operations, whatever follows.\<close>

lemma named_records_append:
  assumes "list_all2 (\<lambda>e p. (fst p, pget (snd p) (id_field (fst p))) =
      (let i = op_of_local h events (event_local_id h e) in (fst i, PStr (snd i)))) (closed_by h c events) ps"
  shows "list_all2 (\<lambda>e p. (fst p, pget (snd p) (id_field (fst p))) =
      (let i = op_of_local h (events @ rest) (event_local_id h e) in (fst i, PStr (snd i)))) (closed_by h c events) ps"
proof (rule list.rel_mono_strong [OF assms])
  fix e p
  assume "e \<in> set (closed_by h c events)"
  then have "event_local_id h e \<in> local_ids h (filter is_start events)"
    using opened_are_started closed_are_opened by (fastforce simp: local_ids_def)
  then show "(fst p, pget (snd p) (id_field (fst p))) =
      (let i = op_of_local h (events @ rest) (event_local_id h e) in (fst i, PStr (snd i)))"
    if "(fst p, pget (snd p) (id_field (fst p))) =
      (let i = op_of_local h events (event_local_id h e) in (fst i, PStr (snd i)))"
    using that by (simp add: op_of_local_append)
qed

section \<open>One event\<close>

lemma seen_complete:
  "seen_inv h draw c events run \<Longrightarrow> local_ids h (filter is_complete events) \<subseteq> local_ids h (filter is_start events)"
  unfolding seen_inv_def by (elim conjE) simp

lemma opened_append: "opened_by c (events @ [e]) = opened_by c events @ (if is_start e \<and> at_ns e \<le> c then [e] else [])"
  by (simp add: opened_by_def)

lemma local_ids_simps [simp]:
  "local_ids h [] = {}" "local_ids h (es @ [e]) = insert (event_local_id h e) (local_ids h es)"
  by (auto simp: local_ids_def)

text \<open>An event that the ledger does not see: a scope, a start after the cutoff, an end without effect.\<close>

lemma ignored_event:
  assumes "files_inv h draw c events l" and "closed_by h c (events @ [e]) = closed_by h c events"
    and "opened_by c (events @ [e]) = opened_by c events"
  shows "files_inv h draw c (events @ [e]) l"
  using assms named_records_append [of h events c "ledger_file l" "[e]"]
  by (simp add: files_inv_def still_open_def)

lemma on_ledger_Inr: "on_ledger m run = (Inr x, run') \<longleftrightarrow>
    (\<exists>l. m (lr_ledger run) = (Inr x, l) \<and> run' = run\<lparr>lr_ledger := l\<rparr>)"
  by (auto simp: on_ledger_def split: prod.splits)

lemma start_event:
  assumes inv: "lane_inv h draw c events run" and inj: "inj (\<lambda>i. tick_reservation (draw i))"
    and e: "is_start e" "hint_agrees h e"
    and step: "materialize_start h draw c e run = (Inr u, run')"
  shows "lane_inv h draw c (events @ [e]) run'"
proof -
  let ?i = "event_local_id h e"
  have seen: "seen_inv h draw c events run" and files: "files_inv h draw c events (lr_ledger run)"
    using inv by (simp_all add: lane_inv_def)
  have fresh: "?i \<notin> local_ids h (filter is_start events)"
    using step seen by (auto simp: materialize_start_def Let_def seen_inv_def split: if_splits)
  have complete_started: "local_ids h (filter is_complete events) \<subseteq> local_ids h (filter is_start events)"
    using seen by (rule seen_complete)
  have closed: "closed_by h c (events @ [e]) = closed_by h c events"
    using closed_append [OF complete_started, of e c] fresh e(1) by simp
  have starts: "distinct (map (event_local_id h) (filter is_start (events @ [e])))"
    using seen fresh e(1) by (auto simp: seen_inv_def local_ids_def)
  show ?thesis
  proof (cases "at_ns e \<le> c")
    case False
    then have run': "run' = run\<lparr>lr_started := insert ?i (lr_started run)\<rparr>"
      using step by (auto simp: materialize_start_def Let_def split: if_splits)
    have "opened_by c (events @ [e]) = opened_by c events" using False by (simp add: opened_append)
    then show ?thesis
      using seen ignored_event [OF files closed] starts e(1)
      by (auto simp: lane_inv_def seen_inv_def run' opened_append)
  next
    case True
    then obtain payload l' response rid where p: "hinted_payload h e = Inr payload"
      and st: "start h lone_peers (draw ?i) payload (lr_ledger run) = (Inr response, l')"
      and rid: "pidx response ''reservation_id'' = Inr rid"
      and run': "run' = run\<lparr>lr_started := insert ?i (lr_started run), lr_ledger := l',
        lr_reservations := AList.update ?i (py_str h rid) (lr_reservations run)\<rparr>"
      using step by (auto simp: materialize_start_def Let_def bindS_eq_Inr on_ledger_Inr split: if_splits)
    have rec: "\<not> replaying (lr_ledger run)" using files by (simp add: files_inv_def)
    obtain r where l': "l' = open_reservation (draw ?i) r (lr_ledger run)" and r: "identity_of_reservation r = started_op h e"
      and token: "pget response ''reservation_id'' = PStr (tick_reservation (draw ?i))"
      by (rule materialized_op [OF rec p e(2) st])
    have rid_text: "py_str h rid = tick_reservation (draw ?i)" using pidx_pget [OF rid] token by (metis py_str.simps(1))
    have opened: "opened_by c (events @ [e]) = opened_by c events @ [e]" using True e(1) by (simp add: opened_append)
    have not_closed: "?i \<notin> local_ids h (closed_by h c events)"
      using fresh opened_are_started closed_are_opened by blast
    then have still: "still_open h c (events @ [e]) = still_open h c events @ [e]"
      by (simp add: still_open_def opened closed)
    have "tick_reservation (draw ?i) \<notin> fst ` set (active (lr_ledger run))"
    proof
      assume "tick_reservation (draw ?i) \<in> fst ` set (active (lr_ledger run))"
      then obtain p where p_active: "p \<in> set (active (lr_ledger run))" and p_token: "fst p = tick_reservation (draw ?i)" by auto
      have pairs: "list_all2 (\<lambda>e p. fst p = tick_reservation (draw (event_local_id h e)) \<and>
          identity_of_reservation (snd p) = started_op h e) (still_open h c events) (active (lr_ledger run))"
        using files by (simp add: files_inv_def)
      obtain x where "x \<in> set (still_open h c events)" "tick_reservation (draw (event_local_id h x)) = tick_reservation (draw ?i)"
        using list_all2_mem [OF pairs p_active] p_token by auto
      then have "event_local_id h x = ?i" "x \<in> set (opened_by c events)"
        using inj_eq [OF inj] by (simp_all add: still_open_def)
      then have "?i \<in> local_ids h (opened_by c events)" by (metis imageI local_ids_def)
      then show False using fresh opened_are_started by blast
    qed
    then have active: "active l' = active (lr_ledger run) @ [(tick_reservation (draw ?i), r)]"
      by (simp add: l' open_reservation_def Let_def update_absent)
    have "list_all2 (\<lambda>e p. fst p = tick_reservation (draw (event_local_id h e)) \<and> identity_of_reservation (snd p) = started_op h e)
       (still_open h c (events @ [e])) (active l')"
      using files r by (simp add: still active files_inv_def list_all2_appendI)
    moreover have "ledger_file l' = ledger_file (lr_ledger run)" "truncated l' = truncated (lr_ledger run)"
      "replaying l' = replaying (lr_ledger run)" "source_cutoff_at_ns l' = source_cutoff_at_ns (lr_ledger run)"
      by (simp_all add: l' open_reservation_def Let_def)
    ultimately have "files_inv h draw c (events @ [e]) l'"
      using files named_records_append [of h events c "ledger_file l'" "[e]"] by (simp add: files_inv_def closed)
    then show ?thesis
      using seen starts e(1) by (auto simp: lane_inv_def seen_inv_def run' opened rid_text update_conv')
  qed
qed

lemma complete_event:
  assumes inv: "lane_inv h draw c events run" and inj: "inj (\<lambda>i. tick_reservation (draw i))"
    and e: "is_complete e"
    and step: "materialize_complete h draw c e run = (Inr u, run')"
  shows "lane_inv h draw c (events @ [e]) run'"
proof -
  let ?i = "event_local_id h e"
  let ?token = "\<lambda>e. tick_reservation (draw (event_local_id h e))"
  have seen: "seen_inv h draw c events run" and files: "files_inv h draw c events (lr_ledger run)"
    using inv by (simp_all add: lane_inv_def)
  have no_start: "\<not> is_start e" using e start_not_complete by blast
  have started: "?i \<in> local_ids h (filter is_start events)" and again: "?i \<notin> local_ids h (filter is_complete events)"
    using step seen by (auto simp: materialize_complete_def Let_def seen_inv_def split: if_splits)
  have opened: "opened_by c (events @ [e]) = opened_by c events" using no_start by (simp add: opened_append)
  have closed: "closed_by h c (events @ [e]) = closed_by h c events @
      (if at_ns e \<le> c \<and> ?i \<in> local_ids h (opened_by c events) then [e] else [])"
    using closed_append [OF seen_complete [OF seen], of e c] no_start e by simp
  have reserved: "map_of (lr_reservations run) ?i =
      (if ?i \<in> local_ids h (opened_by c events) then Some (?token e) else None)"
    using seen by (simp add: seen_inv_def)
  have seen': "seen_inv h draw c (events @ [e]) (run\<lparr>lr_completed := insert ?i (lr_completed run), lr_ledger := l\<rparr>)" for l
    using seen started no_start e by (auto simp: seen_inv_def opened)
  show ?thesis
  proof (cases "at_ns e \<le> c \<and> ?i \<in> local_ids h (opened_by c events)")
    case False
    then have "run' = run\<lparr>lr_completed := insert ?i (lr_completed run)\<rparr>"
      using step reserved by (auto simp: materialize_complete_def Let_def split: if_splits)
    moreover have "files_inv h draw c (events @ [e]) (lr_ledger run)"
      by (rule ignored_event [OF files _ opened]) (use False closed in simp)
    ultimately show ?thesis using seen' [of "lr_ledger run"] by (simp add: lane_inv_def)
  next
    case True
    then obtain fields response l' where
      completion: "complete_op h (tick_now (draw ?i)) False (pset ''reservation_id'' (PStr (?token e)) (PDict fields)) (lr_ledger run)
        = (Inr response, l')"
      and run': "run' = run\<lparr>lr_completed := insert ?i (lr_completed run), lr_ledger := l'\<rparr>"
      using step reserved
      by (auto simp: materialize_complete_def Let_def bindS_eq_Inr on_ledger_Inr split: if_splits)
    have "truncated (lr_ledger run) = {}" "source_cutoff_at_ns (lr_ledger run) = None"
      using files by (simp_all add: files_inv_def)
    from this completion obtain r rec ended where r: "map_of (active (lr_ledger run)) (?token e) = Some r"
      and named: "pget rec (id_field (res_kind r)) = PStr (res_record_id r)"
      and l': "l' = write_record False r rec ended ((lr_ledger run)\<lparr>active := AList.delete (?token e) (active (lr_ledger run))\<rparr>)"
      by (rule completed_record)
    have pairs: "list_all2 (\<lambda>e p. fst p = ?token e \<and> identity_of_reservation (snd p) = started_op h e)
       (still_open h c events) (active (lr_ledger run))"
      using files by (simp add: files_inv_def)
    obtain x where x: "x \<in> set (still_open h c events)" "?token x = ?token e" "identity_of_reservation r = started_op h x"
      using list_all2_mem [OF pairs map_of_SomeD [OF r]] by auto
    have same: "event_local_id h x = ?i" using x(2) inj_eq [OF inj] by simp
    have op: "op_of_local h events ?i = (res_kind r, res_record_id r)"
      using op_of_start [of h events x] x(1,3) same seen
      by (auto simp: seen_inv_def still_open_def opened_by_def identity_of_reservation_def)
    have still: "still_open h c (events @ [e]) = filter (\<lambda>y. event_local_id h y \<noteq> ?i) (still_open h c events)"
      using True closed by (auto simp: still_open_def opened intro: filter_cong)
    have active: "active l' = filter (\<lambda>p. fst p \<noteq> ?token e) (active (lr_ledger run))"
      by (simp add: l' write_record_def Let_def delete_as_filter)
    have "list_all2 (\<lambda>e p. fst p = ?token e \<and> identity_of_reservation (snd p) = started_op h e)
       (still_open h c (events @ [e])) (active l')"
      unfolding still active by (rule list_all2_filtered [OF pairs]) (simp add: inj_eq [OF inj])
    moreover have "ledger_file l' = ledger_file (lr_ledger run) @ [(res_kind r, rec)]"
      "truncated l' = truncated (lr_ledger run)" "replaying l' = replaying (lr_ledger run)"
      "source_cutoff_at_ns l' = source_cutoff_at_ns (lr_ledger run)"
      by (simp_all add: l' write_record_def Let_def)
    moreover have "op_of_local h (events @ [e]) ?i = (res_kind r, res_record_id r)"
      using op_of_local_append [OF started] op by simp
    ultimately have "files_inv h draw c (events @ [e]) l'"
      using files True named named_records_append [of h events c "ledger_file (lr_ledger run)" "[e]"]
      by (simp add: files_inv_def closed list_all2_appendI)
    then show ?thesis using seen' [of l'] by (simp add: lane_inv_def run')
  qed
qed

section \<open>All of them\<close>

lemma event_keeps:
  assumes "lane_inv h draw c events run" and "inj (\<lambda>i. tick_reservation (draw i))"
    and "is_start e \<Longrightarrow> hint_agrees h e" and "materialize_event h draw c e run = (Inr u, run')"
  shows "lane_inv h draw c (events @ [e]) run'"
proof (cases "is_start e \<or> is_complete e")
  case True
  then show ?thesis
  proof
    assume s: "is_start e"
    then have "materialize_start h draw c e run = (Inr u, run')"
      using assms(4) by (auto simp: materialize_event_def is_start_def bindS_eq_Inr)
    then show ?thesis by (rule start_event [OF assms(1,2) s assms(3) [OF s]])
  next
    assume e: "is_complete e"
    then have "materialize_complete h draw c e run = (Inr u, run')"
      using assms(4) by (auto simp: materialize_event_def is_complete_def bindS_eq_Inr)
    then show ?thesis by (rule complete_event [OF assms(1,2) e])
  qed
next
  case False
  then have run': "run' = run" using assms(4) by (auto simp: materialize_event_def is_start_def is_complete_def)
  have seen: "seen_inv h draw c events run" and files: "files_inv h draw c events (lr_ledger run)"
    using assms(1) by (simp_all add: lane_inv_def)
  have same: "closed_by h c (events @ [e]) = closed_by h c events" "opened_by c (events @ [e]) = opened_by c events"
    using False closed_append [OF seen_complete [OF seen], of e c] by (simp_all add: opened_append)
  have "seen_inv h draw c (events @ [e]) run" using seen False by (simp add: seen_inv_def same)
  with ignored_event [OF files same] show ?thesis by (simp add: lane_inv_def run')
qed

lemma frozen_tail: "freeze_reservation h c r l = (Inr t, l') \<Longrightarrow>
    pget t ''kind'' = PStr (res_kind r) \<and> pget t ''record_id'' = PStr (res_record_id r)"
  by (auto simp: freeze_reservation_def bindS_def bindR_eq_Inr tail_record_def Let_def id_field_def split: if_splits)


section \<open>A recording of three operations\<close>

definition draw_for :: "string \<Rightarrow> lane_draw" where
  "draw_for i = \<lparr>ld_record = ''r'' @ i, ld_span = ''s'' @ i, ld_reservation = i\<rparr>"

definition ledger_draw :: "string \<Rightarrow> tick" where
  "ledger_draw i = \<lparr>tick_now = 0, tick_entered = 0, tick_record = ''new'' @ i, tick_span = i, tick_reservation = i\<rparr>"

definition artifact_payload :: "int \<Rightarrow> dict \<Rightarrow> pyval" where
  "artifact_payload t hint =
     PDict ([(''kind'', PStr ''artifact''), (''actor_id'', PStr ''a1''), (''started_at_ns'', PInt t)] @ hint)"

definition artifact_end :: "string \<Rightarrow> int \<Rightarrow> pyval" where
  "artifact_end i t = PDict [(''reservation_id'', PStr i), (''ended_at_ns'', PInt t)]"

text \<open>The first operation ends before the cutoff, the second one runs across it, the third one starts after it.\<close>

definition three_logs :: lane_dir where
  "three_logs =
     snd (local_start plain_host (draw_for ''3'') (artifact_payload 9 [])
     (snd (local_complete plain_host (''artifact'', ''artifact-r1'', ''a1'') (artifact_end ''1'' 3)
     (snd (local_start plain_host (draw_for ''2'') (artifact_payload 2 [])
     (snd (local_start plain_host (draw_for ''1'') (artifact_payload 1 []) [])))))))"

definition three_tails :: "pyval list res \<times> ledger" where
  "three_tails = materialize_lane_recording plain_host record_config ledger_draw 5 three_logs"


text \<open>
  An artifact that is recorded without an identifier of its own sends a null hint.  The framework is told one
  identifier, and the record gets another one: a reference to the artifact by the first one dangles.
\<close>

definition null_hint_logs :: "pyval res \<times> lane_dir" where
  "null_hint_logs = local_start plain_host (draw_for ''1'') (artifact_payload 1 [(''record_id_hint'', PNone)]) []"

definition null_hint_ledger :: ledger where
  "null_hint_ledger = snd (materialize_lane_recording plain_host record_config ledger_draw 5
     (snd (local_complete plain_host (''artifact'', ''artifact-r1'', ''a1'') (artifact_end ''1'' 3) (snd null_hint_logs))))"

lemma null_hint_changes_the_identifier:
  "pget (projr (fst null_hint_logs)) ''record_id'' = PStr ''artifact-r1''"
  "map (\<lambda>(kind, r). pget r (id_field kind)) (ledger_file null_hint_ledger) = [PStr ''artifact-new1'']"
  by code_simp+

end
