(* ===== verification/Sdk.thy ===== *)
theory Sdk
  imports Boundary_Safety
begin

text \<open>
  sdk.py: what runs inside the framework's processes.  The context variables of one task, the client of the
  operation boundary, and the wrappers around a dispatch, a tool, a grader and an artifact.

  The service behind the client is given by the two calls the client makes of it, on a state of its own; a
  wrapped native function is an operation on the whole state, since what it does can open and complete
  operations itself.  A captured list is reset with the variable that holds it, so it is a value of the
  context.
\<close>

section \<open>The context\<close>

record sdk_context =
  cx_actor :: string
  cx_process_role :: string
  cx_parent_span :: "string option"
  cx_session :: string
  cx_llm_role :: string
  cx_target :: string
  cx_dispatch :: "string option"
  cx_tool_call :: "string option"
  cx_composite_lane :: "string option"
  cx_grader_call :: "string option"
  cx_last_llm :: "string option"
  cx_children :: "pyval list option"
  cx_llm_attempts :: "string list option"
  cx_tool_calls :: "string list option"
  cx_executions :: "string list option"
  cx_artifacts :: "string list option"

text \<open>What the client remembers of a reservation: kind, record, actor and session.\<close>

type_synonym known_reservation = "string \<times> string \<times> string \<times> string"

record 'b boundary_api =
  ba_start :: "pyval \<Rightarrow> ('b, pyval) op"
  ba_complete :: "known_reservation option \<Rightarrow> pyval \<Rightarrow> ('b, pyval) op"

record 'b sdk =
  sd_context :: sdk_context
  sd_reservations :: "(string \<times> known_reservation) list"
  sd_boundary :: 'b

definition in_context :: "(sdk_context \<Rightarrow> sdk_context) \<Rightarrow> 'b sdk \<Rightarrow> 'b sdk" where
  "in_context f s = s\<lparr>sd_context := f (sd_context s)\<rparr>"

text \<open>The tokens are the values that \<open>reset_context\<close> puts back.\<close>

type_synonym context_tokens = "string \<times> string \<times> string option \<times> string \<times> string \<times> string"

definition str_or :: "string option \<Rightarrow> string \<Rightarrow> string" where
  "str_or v d = (case v of None \<Rightarrow> d | Some s \<Rightarrow> if s = [] then d else s)"

definition set_context ::
    "string \<Rightarrow> string \<Rightarrow> string option \<Rightarrow> string option \<Rightarrow> string option \<Rightarrow> string \<Rightarrow> sdk_context \<Rightarrow>
     context_tokens \<times> sdk_context" where
  "set_context actor_id process_role parent session llm_role target cx =
     ((cx_actor cx, cx_process_role cx, cx_parent_span cx, cx_session cx, cx_llm_role cx, cx_target cx),
      cx\<lparr>cx_actor := actor_id, cx_process_role := process_role, cx_parent_span := parent,
         cx_session := str_or session actor_id, cx_llm_role := str_or llm_role process_role, cx_target := target\<rparr>)"

definition reset_context :: "context_tokens \<Rightarrow> sdk_context \<Rightarrow> sdk_context" where
  "reset_context tokens cx =
     (let (actor_id, role, parent, session, llm_role, target) = tokens
      in cx\<lparr>cx_actor := actor_id, cx_process_role := role, cx_parent_span := parent,
            cx_session := session, cx_llm_role := llm_role, cx_target := target\<rparr>)"

definition llm_identity_headers :: "sdk_context \<Rightarrow> (string \<times> string) list" where
  "llm_identity_headers cx =
     [(''X-Native-Replay-Actor'', cx_actor cx), (''X-Native-Replay-Session'', cx_session cx),
      (''X-Native-Replay-Role'', cx_llm_role cx), (''X-Native-Replay-Target'', cx_target cx)] @
     (case cx_parent_span cx of None \<Rightarrow> [] | Some p \<Rightarrow> [(''X-Native-Replay-Parent-Span'', p)])"

text \<open>A captured list takes a name once; without a list nothing is captured.\<close>

definition capture :: "string \<Rightarrow> string list option \<Rightarrow> string list option" where
  "capture x captured = map_option (\<lambda>xs. if x \<in> set xs then xs else xs @ [x]) captured"

definition remember_llm_attempt :: "string option \<Rightarrow> sdk_context \<Rightarrow> sdk_context" where
  "remember_llm_attempt attempt_id cx =
     (case attempt_id of
        None \<Rightarrow> cx
      | Some a \<Rightarrow> if a = [] then cx
                  else cx\<lparr>cx_last_llm := Some a, cx_llm_attempts := capture a (cx_llm_attempts cx)\<rparr>)"

definition unique_names :: "string list \<Rightarrow> string list" where
  "unique_names xs = rev (remdups (rev xs))"

text \<open>\<open>parent_span\<close>: for the time of the operation.\<close>

definition with_parent_span :: "string \<Rightarrow> ('b sdk, 'a) op \<Rightarrow> ('b sdk, 'a) op" where
  "with_parent_span span_id m s =
     (case m (in_context (\<lambda>cx. cx\<lparr>cx_parent_span := Some span_id\<rparr>) s) of
        (r, t) \<Rightarrow> (r, in_context (\<lambda>cx. cx\<lparr>cx_parent_span := cx_parent_span (sd_context s)\<rparr>) t))"

text \<open>\<open>llm_scope\<close>: the attempt of an inner scope stays the last one.\<close>

definition llm_scope :: "string \<Rightarrow> string option \<Rightarrow> ('b sdk, 'a) op \<Rightarrow> ('b sdk, 'a) op" where
  "llm_scope role target m s =
     (let cx = sd_context s;
          inner = cx\<lparr>cx_llm_role := role, cx_target := (case target of None \<Rightarrow> cx_target cx | Some t \<Rightarrow> t),
                     cx_last_llm := None\<rparr>
      in case m (s\<lparr>sd_context := inner\<rparr>) of
           (r, t) \<Rightarrow>
             (r, in_context (\<lambda>after. after
                \<lparr>cx_last_llm := (case cx_last_llm after of None \<Rightarrow> cx_last_llm cx | Some a \<Rightarrow> Some a),
                 cx_target := (case target of None \<Rightarrow> cx_target after | Some _ \<Rightarrow> cx_target cx),
                 cx_llm_role := cx_llm_role cx\<rparr>) t))"

section \<open>The boundary client\<close>

text \<open>The payload; an argument of the caller with the name of a default replaces it.\<close>

definition start_payload_of :: "sdk_context \<Rightarrow> string \<Rightarrow> int \<Rightarrow> dict \<Rightarrow> pyval" where
  "start_payload_of cx kind started extra = PDict (pmerge
     [(''kind'', PStr kind), (''actor_id'', PStr (cx_actor cx)), (''process_role'', PStr (cx_process_role cx)),
      (''parent_span_id'', opt_str (cx_parent_span cx)), (''started_at_ns'', PInt started)] extra)"

definition note_tool :: "pyval \<Rightarrow> string \<Rightarrow> sdk_context \<Rightarrow> sdk_context" where
  "note_tool payload record_id cx =
     cx\<lparr>cx_executions := (if pget payload ''dispatch_id'' \<noteq> PNone \<and> cx_tool_call cx = None
                           then capture record_id (cx_executions cx) else cx_executions cx),
        cx_tool_calls := capture record_id (cx_tool_calls cx)\<rparr>"

definition client_start :: "host \<Rightarrow> 'b boundary_api \<Rightarrow> string \<Rightarrow> int \<Rightarrow> dict \<Rightarrow> ('b sdk, pyval) op" where
  "client_start h api kind started extra s =
     (let payload = start_payload_of (sd_context s) kind started extra in
      case ba_start api payload (sd_boundary s) of
        (Inl e, b) \<Rightarrow> (Inl e, s\<lparr>sd_boundary := b\<rparr>)
      | (Inr response, b) \<Rightarrow>
          let s = s\<lparr>sd_boundary := b\<rparr>; rid = pget response ''reservation_id''; record_id = pget response ''record_id''
          in (Inr response,
              if is_str rid \<and> is_str record_id then
                let actor_id = py_str h (pget payload ''actor_id'');
                    session_id = py_str h (py_or (pget payload ''session_id'') (PStr actor_id));
                    s = s\<lparr>sd_reservations := AList.update (str_of rid) (kind, str_of record_id, actor_id, session_id)
                            (sd_reservations s)\<rparr>
                in if kind = ''tool'' then in_context (note_tool payload (str_of record_id)) s else s
              else s))"

text \<open>A completion; the reservation is forgotten before it is sent.\<close>

definition client_complete :: "'b boundary_api \<Rightarrow> string \<Rightarrow> int \<Rightarrow> dict \<Rightarrow> ('b sdk, pyval) op" where
  "client_complete api rid ended extra s =
     (let payload = PDict (pmerge [(''reservation_id'', PStr rid), (''ended_at_ns'', PInt ended)] extra);
          known = map_of (sd_reservations s) rid;
          s = s\<lparr>sd_reservations := AList.delete rid (sd_reservations s)\<rparr>
      in case ba_complete api known payload (sd_boundary s) of
           (Inl e, b) \<Rightarrow> (Inl e, s\<lparr>sd_boundary := b\<rparr>)
         | (Inr response, b) \<Rightarrow>
             (Inr response,
              case known of
                Some (kind, record_id, _) \<Rightarrow>
                  if kind = ''artifact''
                  then in_context (\<lambda>cx. cx\<lparr>cx_artifacts := capture record_id (cx_artifacts cx)\<rparr>) (s\<lparr>sd_boundary := b\<rparr>)
                  else s\<lparr>sd_boundary := b\<rparr>
              | None \<Rightarrow> s\<lparr>sd_boundary := b\<rparr>))"

text \<open>The three identifiers that a caller reads from a reservation; both services send strings.\<close>

definition reservation_ids :: "pyval \<Rightarrow> (string \<times> string \<times> string) res" where
  "reservation_ids response =
     bindR (pidx response ''reservation_id'') (\<lambda>rid.
     bindR (pidx response ''record_id'') (\<lambda>record_id.
     bindR (pidx response ''span_id'') (\<lambda>span_id.
       Inr (str_of rid, str_of record_id, str_of span_id))))"

section \<open>Exceptions\<close>

fun exception_name :: "err \<Rightarrow> string" where
  "exception_name (ValidationError m) = ''ValidationError''"
| "exception_name (MismatchError m) = ''MismatchError''"
| "exception_name (InfrastructureError m) = ''InfrastructureError''"
| "exception_name (WorkloadComplete m) = ''WorkloadComplete''"
| "exception_name (PyError c) = c"

fun exception_message :: "err \<Rightarrow> string" where
  "exception_message (ValidationError m) = m"
| "exception_message (MismatchError m) = m"
| "exception_message (InfrastructureError m) = m"
| "exception_message (WorkloadComplete m) = m"
| "exception_message (PyError c) = []"

definition exception_value :: "err \<Rightarrow> pyval" where
  "exception_value e = PDict [(''error_type'', PStr (exception_name e)), (''message'', PStr (exception_message e))]"

text \<open>\<open>builtin\<close> tells which names are exception classes of Python itself.\<close>

definition raise_framework_exception :: "(string \<Rightarrow> bool) \<Rightarrow> pyval \<Rightarrow> unit res" where
  "raise_framework_exception builtin completion =
     (let recorded = pget completion ''framework_exception'' in
      if recorded = PNone then Inr ()
      else if \<not> is_dict recorded then Inl (MismatchError ''recorded framework exception is not an object'')
      else
        let name = pget recorded ''error_type''; message = pget recorded ''message'' in
        if \<not> is_str name \<or> \<not> is_str message then Inl (MismatchError ''recorded framework exception is incomplete'')
        else if builtin (str_of name) then Inl (PyError (str_of name))
        else Inl (PyError ''RuntimeError''))"

section \<open>Dispatches\<close>

definition dispatch_resolution :: "string list \<Rightarrow> bool \<Rightarrow> (string \<times> string option) res" where
  "dispatch_resolution entered failed =
     (if 1 < length entered then Inl (MismatchError ''one framework dispatch entered multiple native tool executions'')
      else case entered of
        [] \<Rightarrow> Inr (if failed then ''failed-before-entry'' else ''rejected'', None)
      | e # _ \<Rightarrow> Inr (''executed'', Some e))"

record dispatch_call =
  dc_name :: string
  dc_arguments :: pyval
  dc_parser :: string
  dc_dispatcher :: string
  dc_native_call :: pyval
  dc_origin_kind :: string
  dc_trigger :: string
  dc_model_call :: pyval
  dc_started :: int
  dc_ended :: int

definition dispatch_fields :: "sdk_context \<Rightarrow> dispatch_call \<Rightarrow> dict" where
  "dispatch_fields cx c =
     [(''session_id'', PStr (cx_session cx)), (''parser_identity'', PStr (dc_parser c)),
      (''dispatcher_identity'', PStr (dc_dispatcher c)), (''native_call_id'', dc_native_call c),
      (''name'', PStr (dc_name c)), (''arguments'', dc_arguments c),
      (''origin'', PDict [(''kind'', PStr (dc_origin_kind c)), (''trigger_id'', PStr (dc_trigger c)),
                          (''model_call_id'', dc_model_call c)])]"

text \<open>
  What follows the native code, whether it returned or raised: the list of the executions is read and the
  variables are reset before the completion is sent, and the exception of the native code comes last.
\<close>

definition finish_dispatch ::
    "'b boundary_api \<Rightarrow> dispatch_call \<Rightarrow> sdk_context \<Rightarrow> string \<Rightarrow> 'a res \<Rightarrow> ('b sdk, 'a) op" where
  "finish_dispatch api c before rid outcome s =
     (let entered = (case cx_executions (sd_context s) of None \<Rightarrow> [] | Some xs \<Rightarrow> xs);
          s = in_context (\<lambda>cx. cx\<lparr>cx_executions := cx_executions before, cx_dispatch := cx_dispatch before\<rparr>) s
      in bindS (liftS (dispatch_resolution entered (isl outcome))) (\<lambda>(status, execution).
         bindS (client_complete api rid (dc_ended c)
           [(''status'', PStr status), (''execution_call_id'', opt_str execution)])
         (\<lambda>_. liftS outcome)) s)"

definition run_dispatch ::
    "host \<Rightarrow> 'b boundary_api \<Rightarrow> dispatch_call \<Rightarrow> ('b sdk, 'a) op \<Rightarrow> ('b sdk, 'a) op" where
  "run_dispatch h api c invoke s0 =
     bindS (client_start h api ''dispatch'' (dc_started c) (dispatch_fields (sd_context s0) c)) (\<lambda>response.
     bindS (liftS (reservation_ids response)) (\<lambda>(rid, record_id, span_id) s.
       let before = sd_context s;
           s = in_context (\<lambda>cx. cx\<lparr>cx_dispatch := Some record_id, cx_executions := Some []\<rparr>) s
       in case with_parent_span span_id invoke s of
            (outcome, t) \<Rightarrow> finish_dispatch api c before rid outcome t)) s0"

section \<open>Tools\<close>

text \<open>The functions that a caller passes are the values they give when the tool has ended.\<close>

record 'a tool_call =
  tc_name :: string
  tc_implementation :: string
  tc_arguments :: pyval
  tc_encode :: "'a \<Rightarrow> pyval"
  tc_effects :: pyval
  tc_frames :: "pyval list"
  tc_own_children :: "pyval list"
  tc_status :: "'a \<Rightarrow> string"
  tc_contract :: "pyval option"
  tc_replayer :: "('a \<Rightarrow> pyval \<Rightarrow> 'a res) option"
  tc_timeout :: pyval
  tc_started :: int
  tc_ended :: int
  tc_cpu :: rat

definition tool_fields_of :: "sdk_context \<Rightarrow> 'a tool_call \<Rightarrow> dict" where
  "tool_fields_of cx c =
     [(''dispatch_id'', if cx_composite_lane cx \<noteq> None then PNone else opt_str (cx_dispatch cx)),
      (''causal_lane'', opt_str (cx_composite_lane cx)),
      (''name'', PStr (tc_name c)), (''implementation'', PStr (tc_implementation c)),
      (''arguments'', tc_arguments c),
      (''result_contract'', case tc_contract c of None \<Rightarrow> exact_result_contract
         | Some v \<Rightarrow> if truthy v then v else exact_result_contract),
      (''semantic_timeout_s'', tc_timeout c)]"

definition completed_children :: "'a tool_call \<Rightarrow> 'b sdk \<Rightarrow> pyval" where
  "completed_children c s =
     PList (tc_own_children c @ (case cx_children (sd_context s) of None \<Rightarrow> [] | Some xs \<Rightarrow> xs))"

definition tool_evidence :: "'a tool_call \<Rightarrow> pyval \<Rightarrow> string \<Rightarrow> pyval \<Rightarrow> bool \<Rightarrow> dict" where
  "tool_evidence c children status result raised =
     [(''status'', PStr status), (''result'', result), (''logical_frames'', PList (tc_frames c)),
      (''side_effects'', tc_effects c), (''child_processes'', children), (''native_execution'', PBool True)] @
     (if raised then [(''exception_raised'', PBool True)] else []) @
     [(''cpu_seconds'', PFloat (max 0 (tc_cpu c)))]"

text \<open>The completion of a tool, and what the framework gets for the native value.\<close>

definition restore_result ::
    "(string \<Rightarrow> bool) \<Rightarrow> 'a tool_call \<Rightarrow> 'a \<Rightarrow> pyval \<Rightarrow> 'a res" where
  "restore_result builtin c native completion =
     bindR (raise_framework_exception builtin completion) (\<lambda>_.
       if pget completion ''result_replay_required'' = PBool True then
         (case tc_replayer c of
            None \<Rightarrow> Inl (MismatchError ''native tool requires an adapter-owned result replayer'')
          | Some replayer \<Rightarrow> replayer native (pget completion ''framework_result''))
       else Inr native)"

definition finish_tool ::
    "(string \<Rightarrow> bool) \<Rightarrow> 'b boundary_api \<Rightarrow> 'a tool_call \<Rightarrow> string \<Rightarrow> pyval \<Rightarrow> 'a res \<Rightarrow> ('b sdk, 'a) op" where
  "finish_tool builtin api c rid children outcome =
     (case outcome of
        Inl e \<Rightarrow>
          bindS (client_complete api rid (tc_ended c) (tool_evidence c children ''error'' (exception_value e) True))
            (\<lambda>completion. liftS (bindR (raise_framework_exception builtin completion) (\<lambda>_. Inl e)))
      | Inr native \<Rightarrow>
          if tc_status c native \<notin> {''ok'', ''error'', ''timeout''} then liftS (Inl (PyError ''ValueError''))
          else
            bindS (client_complete api rid (tc_ended c)
                (tool_evidence c children (tc_status c native) (tc_encode c native) False))
              (\<lambda>completion. liftS (restore_result builtin c native completion)))"

definition run_tool ::
    "host \<Rightarrow> (string \<Rightarrow> bool) \<Rightarrow> 'b boundary_api \<Rightarrow> 'a tool_call \<Rightarrow> ('b sdk, 'a) op \<Rightarrow> ('b sdk, 'a) op" where
  "run_tool h builtin api c invoke s0 =
     (let cx0 = sd_context s0 in
      if cx_composite_lane cx0 = None \<and> (cx_dispatch cx0 = None \<or> cx_dispatch cx0 = Some [])
      then (Inl (MismatchError ''native tool execution escaped the framework dispatch ledger''), s0)
      else
        bindS (client_start h api ''tool'' (tc_started c) (tool_fields_of cx0 c)) (\<lambda>response.
        bindS (liftS (reservation_ids response)) (\<lambda>(rid, record_id, span_id) s.
          let s = (if cx_composite_lane cx0 = None \<and> cx_tool_call cx0 = None
                   then in_context (\<lambda>cx. cx\<lparr>cx_executions := capture record_id (cx_executions cx)\<rparr>) s else s);
              before = sd_context s
          in case with_parent_span span_id invoke
                 (in_context (\<lambda>cx. cx\<lparr>cx_children := Some [], cx_tool_call := Some record_id\<rparr>) s) of
               (outcome, t) \<Rightarrow>
                 finish_tool builtin api c rid (completed_children c t) outcome
                   (in_context (\<lambda>cx. cx\<lparr>cx_children := cx_children before, cx_tool_call := cx_tool_call before\<rparr>) t))) s0)"

section \<open>Artifacts and graders\<close>

record artifact_call =
  ac_logical_path :: string
  ac_physical_path :: string
  ac_operation :: string
  ac_version :: int
  ac_sha256 :: string
  ac_size :: int
  ac_mode :: int
  ac_triggered_by :: "string list"
  ac_read_from :: "string option"
  ac_event_id :: "string option"
  ac_started :: int
  ac_ended :: int

definition record_artifact :: "host \<Rightarrow> 'b boundary_api \<Rightarrow> artifact_call \<Rightarrow> ('b sdk, string) op" where
  "record_artifact h api c s0 =
     bindS (client_start h api ''artifact'' (ac_started c)
       [(''logical_path'', PStr (ac_logical_path c)), (''operation'', PStr (ac_operation c)),
        (''version'', PInt (ac_version c)), (''record_id_hint'', opt_str (ac_event_id c))]) (\<lambda>response.
     bindS (liftS (reservation_ids response)) (\<lambda>(rid, record_id, span_id).
     bindS (client_complete api rid (ac_ended c)
       [(''status'', PStr ''ok''), (''physical_path'', PStr (ac_physical_path c)),
        (''process_role'', PStr (cx_process_role (sd_context s0))), (''bytes_sha256'', PStr (ac_sha256 c)),
        (''size'', PInt (ac_size c)), (''mode'', PInt (ac_mode c)),
        (''triggered_by'', PList (map PStr (ac_triggered_by c))), (''read_from'', opt_str (ac_read_from c)),
        (''native_execution'', PBool True)]) (\<lambda>_.
     liftS (Inr record_id)))) s0"

record 'a grader_call =
  gc_implementation :: string
  gc_kind :: string
  gc_trigger :: string
  gc_encode :: "'a \<Rightarrow> pyval"
  gc_own_children :: "pyval list"
  gc_llm :: "string list"
  gc_tools :: "string list"
  gc_artifacts :: "string list"
  gc_timeout :: pyval
  gc_started :: int
  gc_ended :: int
  gc_cpu :: rat

definition captured_names :: "string list option \<Rightarrow> string list" where
  "captured_names v = (case v of None \<Rightarrow> [] | Some xs \<Rightarrow> xs)"

definition grader_evidence :: "'a grader_call \<Rightarrow> sdk_context \<Rightarrow> string \<Rightarrow> pyval \<Rightarrow> dict" where
  "grader_evidence c cx status result =
     (let names = (\<lambda>own captured. PList (map PStr (unique_names (own @ captured_names captured)))) in
      [(''status'', PStr status), (''result'', result),
       (''child_processes'', PList (gc_own_children c @ (case cx_children cx of None \<Rightarrow> [] | Some xs \<Rightarrow> xs))),
       (''llm_attempt_ids'', names (gc_llm c) (cx_llm_attempts cx)),
       (''tool_call_ids'', names (gc_tools c) (cx_tool_calls cx)),
       (''artifact_versions'', names (gc_artifacts c) (cx_artifacts cx)),
       (''native_execution'', PBool True), (''cpu_seconds'', PFloat (max 0 (gc_cpu c)))])"

definition run_grader :: "host \<Rightarrow> 'b boundary_api \<Rightarrow> 'a grader_call \<Rightarrow> ('b sdk, 'a) op \<Rightarrow> ('b sdk, 'a) op" where
  "run_grader h api c invoke s0 =
     bindS (client_start h api ''grader'' (gc_started c)
       [(''implementation'', PStr (gc_implementation c)), (''grader_kind'', PStr (gc_kind c)),
        (''trigger_id'', PStr (gc_trigger c)), (''semantic_timeout_s'', gc_timeout c)]) (\<lambda>response.
     bindS (liftS (reservation_ids response)) (\<lambda>(rid, record_id, span_id) s.
       let before = sd_context s;
           s = in_context (\<lambda>cx. cx\<lparr>cx_children := Some [], cx_llm_attempts := Some [], cx_tool_calls := Some [],
                 cx_artifacts := Some [], cx_grader_call := Some record_id\<rparr>) s
       in case with_parent_span span_id invoke s of
            (outcome, t) \<Rightarrow>
              let evidence = (case outcome of Inl e \<Rightarrow> grader_evidence c (sd_context t) ''error'' (exception_value e)
                              | Inr native \<Rightarrow> grader_evidence c (sd_context t) ''ok'' (gc_encode c native));
                  t = in_context (\<lambda>cx. cx\<lparr>cx_children := cx_children before, cx_llm_attempts := cx_llm_attempts before,
                        cx_tool_calls := cx_tool_calls before, cx_artifacts := cx_artifacts before,
                        cx_grader_call := cx_grader_call before\<rparr>) t
              in bindS (client_complete api rid (gc_ended c) evidence) (\<lambda>_. liftS outcome) t)) s0"

end
