(* ===== verification/Sdk_Contract.thy ===== *)
theory Sdk_Contract
  imports Sdk
begin

text \<open>
  The contract between the wrappers and the service behind the boundary client: a start that succeeds opens
  a reservation under a new identifier, one that fails opens none, and a completion of an open reservation
  is answered, with no exception to raise in the framework, and closes it.  Under this contract every
  wrapper closes what it opened, however the native code inside it ends.
\<close>

definition entered_twice :: err where
  "entered_twice = MismatchError ''one framework dispatch entered multiple native tool executions''"

text \<open>What the two calls of the client ask of the service.\<close>

lemma client_start_answer:
  assumes "client_start h api kind started extra s = (Inr response, t)"
  shows "ba_start api (start_payload_of (sd_context s) kind started extra) (sd_boundary s) = (Inr response, sd_boundary t)"
  using assms by (auto simp: client_start_def Let_def in_context_def split: prod.splits sum.splits if_splits)

lemma in_context_simps [simp]:
  "sd_boundary (in_context f s) = sd_boundary s" "sd_reservations (in_context f s) = sd_reservations s"
  by (simp_all add: in_context_def)

lemma client_complete_state:
  "sd_boundary (snd (client_complete api rid ended extra s)) = snd (ba_complete api (map_of (sd_reservations s) rid)
      (PDict (pmerge [(''reservation_id'', PStr rid), (''ended_at_ns'', PInt ended)] extra)) (sd_boundary s)) \<and>
   sd_reservations (snd (client_complete api rid ended extra s)) = AList.delete rid (sd_reservations s) \<and>
   fst (client_complete api rid ended extra s) = fst (ba_complete api (map_of (sd_reservations s) rid)
      (PDict (pmerge [(''reservation_id'', PStr rid), (''ended_at_ns'', PInt ended)] extra)) (sd_boundary s))"
  unfolding client_complete_def Let_def by (simp split: prod.split sum.split option.split)

locale boundary_service =
  fixes api :: "'b boundary_api" and opened :: "'b \<Rightarrow> string set" and valid :: "'b \<Rightarrow> bool"
  assumes start_opens: "valid b \<Longrightarrow> ba_start api p b = (Inr response, b') \<Longrightarrow>
      \<exists>rid rec sp. pidx response ''reservation_id'' = Inr (PStr rid) \<and> pidx response ''record_id'' = Inr (PStr rec) \<and>
        pidx response ''span_id'' = Inr (PStr sp) \<and> rid \<notin> opened b \<and> opened b' = insert rid (opened b)"
    and start_fails: "valid b \<Longrightarrow> ba_start api p b = (Inl e, b') \<Longrightarrow> opened b' = opened b"
    and start_valid: "valid b \<Longrightarrow> valid (snd (ba_start api p b))"
    and complete_closes: "valid b \<Longrightarrow> rid \<in> opened b \<Longrightarrow> pidx p ''reservation_id'' = Inr (PStr rid) \<Longrightarrow> phas p ''ended_at_ns'' \<Longrightarrow>
      opened (snd (ba_complete api (Some known) p b)) = opened b - {rid} \<and> valid (snd (ba_complete api (Some known) p b))"
    and complete_answers: "valid b \<Longrightarrow> rid \<in> opened b \<Longrightarrow> pidx p ''reservation_id'' = Inr (PStr rid) \<Longrightarrow> phas p ''ended_at_ns'' \<Longrightarrow>
      \<exists>response. fst (ba_complete api (Some known) p b) = Inr response \<and> pget response ''framework_exception'' = PNone"
begin

text \<open>Code that keeps what it found open, and what the client knows of it.\<close>

definition keeps_open :: "'b sdk \<Rightarrow> 'b sdk \<Rightarrow> bool" where
  "keeps_open s t \<longleftrightarrow> valid (sd_boundary t) \<and> opened (sd_boundary s) \<subseteq> opened (sd_boundary t) \<and>
     (\<forall>rid \<in> opened (sd_boundary s). map_of (sd_reservations t) rid = map_of (sd_reservations s) rid)"

text \<open>Code that leaves nothing more open, unless it ends with the error of a dispatch entered twice.\<close>

definition closes :: "'b sdk \<Rightarrow> 'a res \<Rightarrow> 'b sdk \<Rightarrow> bool" where
  "closes s r t \<longleftrightarrow> keeps_open s t \<and> (r \<noteq> Inl entered_twice \<longrightarrow> opened (sd_boundary t) = opened (sd_boundary s))"

definition balanced :: "('b sdk, 'a) op \<Rightarrow> bool" where
  "balanced m \<longleftrightarrow> (\<forall>s. valid (sd_boundary s) \<longrightarrow> closes s (fst (m s)) (snd (m s)))"

lemma balancedI:
  assumes "\<And>s r t. valid (sd_boundary s) \<Longrightarrow> m s = (r, t) \<Longrightarrow> closes s r t"
  shows "balanced m"
  unfolding balanced_def using assms by (metis prod.collapse)

lemma balancedD:
  assumes "balanced m" and "m s = (r, t)" and "valid (sd_boundary s)"
  shows "closes s r t"
proof -
  have "closes s (fst (m s)) (snd (m s))" using assms(1,3) unfolding balanced_def by blast
  then show ?thesis using assms(2) by simp
qed

lemma closes_trans:
  assumes "closes s (Inr v :: 'c res) t" and "closes t r u"
  shows "closes s r u"
  using assms by (auto simp: closes_def keeps_open_def)

lemma balanced_bindS:
  assumes "balanced m" and "\<And>v. balanced (f v)"
  shows "balanced (bindS m f)"
proof (rule balancedI)
  fix s r u assume s: "valid (sd_boundary s)" and run: "bindS m f s = (r, u)"
  obtain q t where m: "m s = (q, t)" by fastforce
  have c: "closes s q t" by (rule balancedD [OF assms(1) m s])
  show "closes s r u"
  proof (cases q)
    case (Inl e)
    then show ?thesis using c run m by (auto simp: bindS_def closes_def)
  next
    case (Inr v)
    then have "f v t = (r, u)" using run m by (simp add: bindS_def)
    moreover have "valid (sd_boundary t)" using c by (simp add: closes_def keeps_open_def)
    ultimately have "closes t r u" by (rule balancedD [OF assms(2)])
    with c Inr show ?thesis by (auto intro: closes_trans)
  qed
qed

lemma balanced_liftS: "balanced (liftS r)"
  by (rule balancedI) (simp add: liftS_def closes_def keeps_open_def)

lemma parent_span_closes:
  assumes "balanced m" and "valid (sd_boundary s)" and "with_parent_span sp m s = (r, t)"
  shows "closes s r t"
proof -
  let ?s = "in_context (\<lambda>cx. cx\<lparr>cx_parent_span := Some sp\<rparr>) s"
  obtain u where u: "m ?s = (r, u)" "t = in_context (\<lambda>cx. cx\<lparr>cx_parent_span := cx_parent_span (sd_context s)\<rparr>) u"
    using assms(3) by (auto simp: with_parent_span_def split: prod.splits)
  have "closes ?s r u" by (rule balancedD [OF assms(1) u(1)]) (simp add: assms(2))
  then show ?thesis by (simp add: closes_def keeps_open_def u(2))
qed

lemma client_start_opens:
  assumes "valid (sd_boundary s)" and "client_start h api kind started extra s = (Inr response, t)"
  obtains rid rec sp known where "reservation_ids response = Inr (rid, rec, sp)" "rid \<notin> opened (sd_boundary s)"
    "opened (sd_boundary t) = insert rid (opened (sd_boundary s))" "valid (sd_boundary t)"
    "sd_reservations t = AList.update rid known (sd_reservations s)"
proof -
  let ?p = "start_payload_of (sd_context s) kind started extra"
  obtain b where b: "ba_start api ?p (sd_boundary s) = (Inr response, b)" and t: "sd_boundary t = b"
    using client_start_answer [OF assms(2)] by simp
  from start_opens [OF assms(1) b] obtain rid rec sp where ids: "pidx response ''reservation_id'' = Inr (PStr rid)"
    "pidx response ''record_id'' = Inr (PStr rec)" "pidx response ''span_id'' = Inr (PStr sp)"
    and o: "rid \<notin> opened (sd_boundary s)" "opened b = insert rid (opened (sd_boundary s))" by blast
  then have "pget response ''reservation_id'' = PStr rid" "pget response ''record_id'' = PStr rec"
    by (auto simp: pidx_def pget_def pget_or_def split: option.splits)
  with assms(2) b have "sd_reservations t = AList.update rid (kind, rec, py_str h (pget ?p ''actor_id''),
      py_str h (py_or (pget ?p ''session_id'') (PStr (py_str h (pget ?p ''actor_id''))))) (sd_reservations s)"
    by (auto simp: client_start_def Let_def split: if_splits)
  moreover have "reservation_ids response = Inr (rid, rec, sp)" using ids by (simp add: reservation_ids_def)
  moreover have "valid (sd_boundary t)" using start_valid [OF assms(1), of ?p] b t by simp
  ultimately show ?thesis using o t by (intro that) auto
qed

lemma client_start_fails:
  assumes "valid (sd_boundary s)" and "client_start h api kind started extra s = (Inl e, t)"
  shows "closes s r t"
proof -
  let ?p = "start_payload_of (sd_context s) kind started extra"
  obtain b where b: "ba_start api ?p (sd_boundary s) = (Inl e, b)" and t: "t = s\<lparr>sd_boundary := b\<rparr>"
    using assms(2) by (auto simp: client_start_def Let_def split: prod.splits sum.splits if_splits)
  from start_fails [OF assms(1) b] start_valid [OF assms(1), of ?p] b show ?thesis by (simp add: closes_def keeps_open_def t)
qed

lemma client_complete_closes:
  assumes "valid (sd_boundary s)" and "''reservation_id'' \<notin> fst ` set extra" and "map_of (sd_reservations s) rid = Some known"
    and "rid \<in> opened (sd_boundary s)"
  obtains completion t where "client_complete api rid ended extra s = (Inr completion, t)"
    "pget completion ''framework_exception'' = PNone" "valid (sd_boundary t)"
    "opened (sd_boundary t) = opened (sd_boundary s) - {rid}" "sd_reservations t = AList.delete rid (sd_reservations s)"
proof -
  let ?p = "PDict (pmerge [(''reservation_id'', PStr rid), (''ended_at_ns'', PInt ended)] extra)"
  have "map_of (rev extra) ''reservation_id'' = None" using assms(2) by (simp add: map_of_eq_None_iff)
  then have p: "pidx ?p ''reservation_id'' = Inr (PStr rid)" "phas ?p ''ended_at_ns''"
    by (simp_all add: pidx_def phas_def map_of_pmerge split: option.split)
  obtain completion where answer: "fst (ba_complete api (Some known) ?p (sd_boundary s)) = Inr completion"
    "pget completion ''framework_exception'' = PNone" using complete_answers [OF assms(1,4) p] by blast
  have first: "fst (client_complete api rid ended extra s) = Inr completion"
    using answer(1) client_complete_state [of api rid ended extra s] assms(3) by simp
  show ?thesis
  proof (rule that [OF _ answer(2)])
    show "client_complete api rid ended extra s = (Inr completion, snd (client_complete api rid ended extra s))"
      using first by (metis prod.collapse)
  qed (use client_complete_state [of api rid ended extra s] complete_closes [OF assms(1,4) p, of known] assms(3) in simp_all)
qed

text \<open>
  Native code between a start and its completion: whatever it does with the context, what is open after the
  completion is what was open before the start, if the code in between leaves nothing open.
\<close>

lemma bracket_closes:
  assumes "valid (sd_boundary s)" and "client_start h api kind started extra s = (Inr response, t)"
    and "reservation_ids response = Inr (rid, rec, sp)"
    and "balanced invoke" and "sd_boundary t' = sd_boundary t" "sd_reservations t' = sd_reservations t"
    and "with_parent_span sp invoke t' = (outcome, u)"
    and "sd_boundary u' = sd_boundary u" "sd_reservations u' = sd_reservations u"
    and "''reservation_id'' \<notin> fst ` set fs"
  obtains completion v where "client_complete api rid ended fs u' = (Inr completion, v)"
    "pget completion ''framework_exception'' = PNone" "closes s outcome v" "keeps_open s u'"
proof -
  from assms(1,2) obtain rid' rec' sp' known where "reservation_ids response = Inr (rid', rec', sp')"
    and o: "rid' \<notin> opened (sd_boundary s)" "opened (sd_boundary t) = insert rid' (opened (sd_boundary s))"
      "valid (sd_boundary t)" "sd_reservations t = AList.update rid' known (sd_reservations s)"
    by (rule client_start_opens)
  then have rid: "rid' = rid" using assms(3) by simp
  have "closes t' outcome u" by (rule parent_span_closes [OF assms(4) _ assms(7)]) (simp add: assms(5) o(3))
  then have u: "valid (sd_boundary u')" "insert rid (opened (sd_boundary s)) \<subseteq> opened (sd_boundary u')"
    "outcome \<noteq> Inl entered_twice \<longrightarrow> opened (sd_boundary u') = insert rid (opened (sd_boundary s))"
    "\<forall>i \<in> insert rid (opened (sd_boundary s)). map_of (sd_reservations u') i = map_of (AList.update rid known (sd_reservations s)) i"
    using o assms(5,6,8,9) by (simp_all add: closes_def keeps_open_def rid)
  then have known: "map_of (sd_reservations u') rid = Some known" "rid \<in> opened (sd_boundary u')"
    by (simp_all add: update_conv')
  from u(1) assms(10) known obtain completion v where run: "client_complete api rid ended fs u' = (Inr completion, v)"
    "pget completion ''framework_exception'' = PNone" "valid (sd_boundary v)"
    "opened (sd_boundary v) = opened (sd_boundary u') - {rid}" "sd_reservations v = AList.delete rid (sd_reservations u')"
    by (rule client_complete_closes)
  have "closes s outcome v" using run(3-5) u o(1) by (auto simp: closes_def keeps_open_def rid update_conv' delete_conv')
  moreover have "keeps_open s u'" using u o(1) by (auto simp: keeps_open_def rid update_conv')
  ultimately show ?thesis by (rule that [OF run(1,2)])
qed


lemma started_ids:
  assumes "valid (sd_boundary s)" and "client_start h api kind started extra s = (Inr response, t)"
  obtains rid rec sp where "reservation_ids response = Inr (rid, rec, sp)"
  using assms by (rule client_start_opens)

lemma run_dispatch_balanced:
  assumes "balanced invoke"
  shows "balanced (run_dispatch h api c invoke)"
proof (rule balancedI)
  fix s r s' assume s: "valid (sd_boundary s)" and run: "run_dispatch h api c invoke s = (r, s')"
  let ?fields = "dispatch_fields (sd_context s) c"
  obtain res t where begun: "client_start h api ''dispatch'' (dc_started c) ?fields s = (res, t)" by fastforce
  show "closes s r s'"
  proof (cases res)
    case (Inl e)
    then have "s' = t" using begun run by (simp add: run_dispatch_def)
    then show ?thesis using client_start_fails [OF s begun [unfolded Inl]] by simp
  next
    case (Inr response)
    note begun = begun [unfolded Inr]
    obtain rid rec sp where ids: "reservation_ids response = Inr (rid, rec, sp)" using s begun by (rule started_ids)
    let ?t = "in_context (\<lambda>cx. cx\<lparr>cx_dispatch := Some rec, cx_executions := Some []\<rparr>) t"
    obtain outcome u where native: "with_parent_span sp invoke ?t = (outcome, u)" by fastforce
    have out: "(r, s') = finish_dispatch api c (sd_context t) rid outcome u"
      using run begun ids native by (simp add: run_dispatch_def Let_def)
    let ?u = "in_context (\<lambda>cx. cx\<lparr>cx_executions := cx_executions (sd_context t), cx_dispatch := cx_dispatch (sd_context t)\<rparr>) u"
    note bracket = bracket_closes [OF s begun ids assms _ _ native, of ?u]
    let ?entered = "case cx_executions (sd_context u) of None \<Rightarrow> [] | Some xs \<Rightarrow> xs"
    show ?thesis
    proof (cases "dispatch_resolution ?entered (isl outcome)")
      case (Inl e)
      then have "e = entered_twice" by (auto simp: dispatch_resolution_def entered_twice_def split: if_splits list.splits)
      moreover have "r = Inl e" "s' = ?u" using out Inl by (simp_all add: finish_dispatch_def Let_def)
      moreover have "keeps_open s ?u" by (rule bracket [of "[]"]) simp_all
      ultimately show ?thesis by (simp add: closes_def)
    next
      case (Inr q)
      obtain status execution where q: "q = (status, execution)" by fastforce
      let ?fs = "[(''status'', PStr status), (''execution_call_id'', opt_str execution)]"
      obtain completion v where v: "client_complete api rid (dc_ended c) ?fs ?u = (Inr completion, v)" "closes s outcome v"
        by (rule bracket [of ?fs]) simp_all
      then have "r = outcome" "s' = v" using out Inr q by (simp_all add: finish_dispatch_def Let_def liftS_def)
      then show ?thesis using v(2) by simp
    qed
  qed
qed

lemma run_tool_balanced:
  assumes "balanced invoke" and "\<And>v. tc_status c v \<in> {''ok'', ''error'', ''timeout''}"
  shows "balanced (run_tool h builtin api c invoke)"
proof (rule balancedI)
  fix s r s' assume s: "valid (sd_boundary s)" and run: "run_tool h builtin api c invoke s = (r, s')"
  show "closes s r s'"
  proof (cases "cx_composite_lane (sd_context s) = None \<and> (cx_dispatch (sd_context s) = None \<or> cx_dispatch (sd_context s) = Some [])")
    case True
    then show ?thesis using run s by (auto simp: run_tool_def Let_def closes_def keeps_open_def)
  next
    case entered: False
    obtain res t where begun: "client_start h api ''tool'' (tc_started c) (tool_fields_of (sd_context s) c) s = (res, t)"
      by fastforce
    show ?thesis
    proof (cases res)
      case (Inl e)
      then have "s' = t" using begun run entered unfolding run_tool_def Let_def by (simp split: if_splits)
      then show ?thesis using client_start_fails [OF s begun [unfolded Inl]] by simp
    next
      case (Inr response)
      note begun = begun [unfolded Inr]
      obtain rid rec sp where ids: "reservation_ids response = Inr (rid, rec, sp)" using s begun by (rule started_ids)
      let ?t = "if cx_composite_lane (sd_context s) = None \<and> cx_tool_call (sd_context s) = None
        then in_context (\<lambda>cx. cx\<lparr>cx_executions := capture rec (cx_executions cx)\<rparr>) t else t"
      let ?i = "in_context (\<lambda>cx. cx\<lparr>cx_children := Some [], cx_tool_call := Some rec\<rparr>) ?t"
      obtain outcome u where native: "with_parent_span sp invoke ?i = (outcome, u)" by fastforce
      let ?u = "in_context (\<lambda>cx. cx\<lparr>cx_children := cx_children (sd_context ?t), cx_tool_call := cx_tool_call (sd_context ?t)\<rparr>) u"
      have out: "(r, s') = finish_tool builtin api c rid (completed_children c u) outcome ?u"
        using run begun ids native entered by (simp add: run_tool_def Let_def split: if_splits)
      let ?fs = "case outcome of Inl e \<Rightarrow> tool_evidence c (completed_children c u) ''error'' (exception_value e) True
        | Inr v \<Rightarrow> tool_evidence c (completed_children c u) (tc_status c v) (tc_encode c v) False"
      obtain completion v where v: "client_complete api rid (tc_ended c) ?fs ?u = (Inr completion, v)"
        "pget completion ''framework_exception'' = PNone" "closes s outcome v"
        by (rule bracket_closes [OF s begun ids assms(1) _ _ native, of ?u ?fs])
           (auto simp: tool_evidence_def split: sum.splits)
      show ?thesis
      proof (cases outcome)
        case (Inl e)
        then have "r = outcome" "s' = v" using out v by (simp_all add: finish_tool_def liftS_def raise_framework_exception_def)
        then show ?thesis using v(3) by simp
      next
        case (Inr native_value)
        then have "s' = v" using out v assms(2) [of native_value] by (auto simp: finish_tool_def liftS_def)
        then show ?thesis using v(3) Inr by (auto simp: closes_def)
      qed
    qed
  qed
qed

lemma run_grader_balanced:
  assumes "balanced invoke"
  shows "balanced (run_grader h api c invoke)"
proof (rule balancedI)
  fix s r s' assume s: "valid (sd_boundary s)" and run: "run_grader h api c invoke s = (r, s')"
  let ?fields = "[(''implementation'', PStr (gc_implementation c)), (''grader_kind'', PStr (gc_kind c)),
        (''trigger_id'', PStr (gc_trigger c)), (''semantic_timeout_s'', gc_timeout c)]"
  obtain res t where begun: "client_start h api ''grader'' (gc_started c) ?fields s = (res, t)" by fastforce
  show "closes s r s'"
  proof (cases res)
    case (Inl e)
    then have "s' = t" using begun run by (simp add: run_grader_def)
    then show ?thesis using client_start_fails [OF s begun [unfolded Inl]] by simp
  next
    case (Inr response)
    note begun = begun [unfolded Inr]
    obtain rid rec sp where ids: "reservation_ids response = Inr (rid, rec, sp)" using s begun by (rule started_ids)
    let ?t = "in_context (\<lambda>cx. cx\<lparr>cx_children := Some [], cx_llm_attempts := Some [], cx_tool_calls := Some [],
                 cx_artifacts := Some [], cx_grader_call := Some rec\<rparr>) t"
    obtain outcome u where native: "with_parent_span sp invoke ?t = (outcome, u)" by fastforce
    let ?before = "sd_context t"
    let ?u = "in_context (\<lambda>cx. cx\<lparr>cx_children := cx_children ?before, cx_llm_attempts := cx_llm_attempts ?before,
                        cx_tool_calls := cx_tool_calls ?before, cx_artifacts := cx_artifacts ?before,
                        cx_grader_call := cx_grader_call ?before\<rparr>) u"
    let ?evidence = "case outcome of Inl e \<Rightarrow> grader_evidence c (sd_context u) ''error'' (exception_value e)
                              | Inr native \<Rightarrow> grader_evidence c (sd_context u) ''ok'' (gc_encode c native)"
    obtain completion v where v: "client_complete api rid (gc_ended c) ?evidence ?u = (Inr completion, v)" "closes s outcome v"
      by (rule bracket_closes [OF s begun ids assms _ _ native, of ?u ?evidence])
         (auto simp: grader_evidence_def Let_def split: sum.splits)
    then have "r = outcome" "s' = v" using run begun ids native by (simp_all add: run_grader_def Let_def liftS_def)
    then show ?thesis using v(2) by simp
  qed
qed

lemma record_artifact_balanced: "balanced (record_artifact h api c)"
proof (rule balancedI)
  fix s r s' assume s: "valid (sd_boundary s)" and run: "record_artifact h api c s = (r, s')"
  let ?fields = "[(''logical_path'', PStr (ac_logical_path c)), (''operation'', PStr (ac_operation c)),
        (''version'', PInt (ac_version c)), (''record_id_hint'', opt_str (ac_event_id c))]"
  obtain res t where begun: "client_start h api ''artifact'' (ac_started c) ?fields s = (res, t)" by fastforce
  show "closes s r s'"
  proof (cases res)
    case (Inl e)
    then have "s' = t" using begun run by (simp add: record_artifact_def)
    then show ?thesis using client_start_fails [OF s begun [unfolded Inl]] by simp
  next
    case (Inr response)
    note begun = begun [unfolded Inr]
    obtain rid rec sp where ids: "reservation_ids response = Inr (rid, rec, sp)" using s begun by (rule started_ids)
    let ?fs = "[(''status'', PStr ''ok''), (''physical_path'', PStr (ac_physical_path c)),
        (''process_role'', PStr (cx_process_role (sd_context s))), (''bytes_sha256'', PStr (ac_sha256 c)),
        (''size'', PInt (ac_size c)), (''mode'', PInt (ac_mode c)),
        (''triggered_by'', PList (map PStr (ac_triggered_by c))), (''read_from'', opt_str (ac_read_from c)),
        (''native_execution'', PBool True)]"
    obtain u where native: "with_parent_span sp (liftS (Inr ())) t = (Inr (), u)"
      by (simp add: with_parent_span_def liftS_def)
    have same: "sd_boundary t = sd_boundary u" "sd_reservations t = sd_reservations u"
      using native by (auto simp: with_parent_span_def liftS_def)
    obtain completion v where v: "client_complete api rid (ac_ended c) ?fs t = (Inr completion, v)" "closes s (Inr () :: unit res) v"
      by (rule bracket_closes [OF s begun ids balanced_liftS refl refl native same, of ?fs]) simp_all
    then have "s' = v" using run begun ids by (simp add: record_artifact_def liftS_def)
    then show ?thesis using v(2) by (simp add: closes_def)
  qed
qed

end

section \<open>Framework code\<close>

text \<open>
  What a framework does between its own steps: any nesting and sequence of the wrapped operations.  An
  exception is not caught, so it ends the code and every wrapper around it.
\<close>

datatype framework_code =
    Returns pyval
  | Raises err
  | Sequence framework_code framework_code
  | Dispatched dispatch_call framework_code
  | Tooled "pyval tool_call" framework_code
  | Graded "pyval grader_call" framework_code
  | Published artifact_call

fun run_code :: "host \<Rightarrow> (string \<Rightarrow> bool) \<Rightarrow> 'b boundary_api \<Rightarrow> framework_code \<Rightarrow> ('b sdk, pyval) op" where
  "run_code h builtin api (Returns v) = liftS (Inr v)"
| "run_code h builtin api (Raises e) = liftS (Inl e)"
| "run_code h builtin api (Sequence c d) = bindS (run_code h builtin api c) (\<lambda>_. run_code h builtin api d)"
| "run_code h builtin api (Dispatched d c) = run_dispatch h api d (run_code h builtin api c)"
| "run_code h builtin api (Tooled t c) = run_tool h builtin api t (run_code h builtin api c)"
| "run_code h builtin api (Graded g c) = run_grader h api g (run_code h builtin api c)"
| "run_code h builtin api (Published a) = bindS (record_artifact h api a) (\<lambda>record_id. liftS (Inr (PStr record_id)))"

text \<open>The status that a caller computes for a tool is one of the three that the wrapper accepts.\<close>

fun accepted_statuses :: "framework_code \<Rightarrow> bool" where
  "accepted_statuses (Sequence c d) \<longleftrightarrow> accepted_statuses c \<and> accepted_statuses d"
| "accepted_statuses (Dispatched d c) \<longleftrightarrow> accepted_statuses c"
| "accepted_statuses (Tooled t c) \<longleftrightarrow> (\<forall>v. tc_status t v \<in> {''ok'', ''error'', ''timeout''}) \<and> accepted_statuses c"
| "accepted_statuses (Graded g c) \<longleftrightarrow> accepted_statuses c"
| "accepted_statuses _ \<longleftrightarrow> True"

context boundary_service
begin

lemma run_code_balanced: "accepted_statuses c \<Longrightarrow> balanced (run_code h builtin api c)"
proof (induction c)
  case (Tooled t c)
  then show ?case by (auto intro: run_tool_balanced)
qed (simp_all add: balanced_liftS balanced_bindS run_dispatch_balanced run_grader_balanced record_artifact_balanced)

end

end
