(* ===== verification/Sdk_Recording.thy ===== *)
theory Sdk_Recording
  imports Sdk_Contract Lane_Record
begin

text \<open>
  The wrappers in a recording: the client appends to the logs of the process instead of calling a service.

  What a start draws at random is the next element of a sequence; the state is the directory of logs with
  the number of starts that have drawn from it.
\<close>

section \<open>The client of a recording\<close>

type_synonym lane_store = "lane_dir \<times> nat"

definition recording_start :: "host \<Rightarrow> (nat \<Rightarrow> lane_draw) \<Rightarrow> pyval \<Rightarrow> (lane_store, pyval) op" where
  "recording_start h draws payload b =
     (case local_start h (draws (snd b)) payload (fst b) of (r, dir) \<Rightarrow> (r, (dir, Suc (snd b))))"

definition recording_complete :: "host \<Rightarrow> known_reservation option \<Rightarrow> pyval \<Rightarrow> (lane_store, pyval) op" where
  "recording_complete h known payload b =
     (case known of
        None \<Rightarrow> (Inl (PyError ''RuntimeError''), b)
      | Some (kind, record_id, actor_id, session_id) \<Rightarrow>
          (case local_complete h (kind, record_id, actor_id) (pset ''_lane_session_id'' (PStr session_id) payload)
                  (fst b) of
             (r, dir) \<Rightarrow> (r, (dir, snd b))))"

definition recording_api :: "host \<Rightarrow> (nat \<Rightarrow> lane_draw) \<Rightarrow> lane_store boundary_api" where
  "recording_api h draws = \<lparr>ba_start = recording_start h draws, ba_complete = recording_complete h\<rparr>"

section \<open>What the logs leave open\<close>

definition logged :: "lane_dir \<Rightarrow> pyval set" where
  "logged dir = (\<Union>path \<in> fst ` set dir. set (lane_log dir path))"

definition logged_ids :: "string \<Rightarrow> lane_dir \<Rightarrow> string set" where
  "logged_ids what dir = (\<lambda>v. str_of (pget v ''reservation_id'')) ` {v \<in> logged dir. pget v ''event'' = PStr what}"

definition unclosed :: "lane_dir \<Rightarrow> string set" where
  "unclosed dir = logged_ids ''start'' dir - logged_ids ''complete'' dir"

definition drawn :: "(nat \<Rightarrow> lane_draw) \<Rightarrow> lane_store \<Rightarrow> bool" where
  "drawn draws b \<longleftrightarrow>
     logged_ids ''complete'' (fst b) \<subseteq> logged_ids ''start'' (fst b) \<and>
     logged_ids ''start'' (fst b) \<subseteq> (\<lambda>k. ld_reservation (draws k)) ` {..< snd b}"

lemma logged_append [simp]: "logged (AList.update path (lane_log dir path @ [v]) dir) = insert v (logged dir)"
proof -
  have log: "lane_log (AList.update path xs dir) p = (if p = path then xs else lane_log dir p)" for xs p
    by (simp add: lane_log_def update_conv')
  have "set (lane_log dir path) \<subseteq> logged dir"
  proof (cases "map_of dir path")
    case (Some xs)
    then have "path \<in> fst ` set dir" by (metis domI dom_map_of_conv_image_fst)
    then show ?thesis by (auto simp: logged_def)
  qed (simp add: lane_log_def)
  then show ?thesis by (auto simp: logged_def log dom_update split: if_splits)
qed

lemma append_lane_event_logged:
  assumes "pidx v ''actor_id'' = Inr a"
  shows "append_lane_event h v dir = (Inr (), snd (append_lane_event h v dir)) \<and>
    logged (snd (append_lane_event h v dir)) = insert v (logged dir)"
  by (simp add: append_lane_event_def assms Let_def)

lemma logged_ids_insert:
  assumes "logged dir' = insert v (logged dir)"
  shows "logged_ids what dir' =
    (if pget v ''event'' = PStr what then insert (str_of (pget v ''reservation_id'')) (logged_ids what dir)
     else logged_ids what dir)"
  using assms by (auto simp: logged_ids_def)


section \<open>The client meets the contract\<close>

text \<open>The draws of a run are pairwise different.\<close>

locale lane_draws =
  fixes h :: host and draws :: "nat \<Rightarrow> lane_draw"
  assumes distinct_draws: "inj (\<lambda>k. ld_reservation (draws k))"
begin

lemma recording_start_opens:
  assumes "drawn draws b" and "recording_start h draws p b = (Inr response, b')"
  shows "\<exists>rec sp. response = PDict [(''reservation_id'', PStr (ld_reservation (draws (snd b)))),
      (''record_id'', PStr rec), (''span_id'', PStr sp)] \<and>
    ld_reservation (draws (snd b)) \<notin> logged_ids ''start'' (fst b) \<and>
    logged_ids ''start'' (fst b') = insert (ld_reservation (draws (snd b))) (logged_ids ''start'' (fst b)) \<and>
    logged_ids ''complete'' (fst b') = logged_ids ''complete'' (fst b) \<and> snd b' = Suc (snd b)"
proof -
  obtain dir where run: "local_start h (draws (snd b)) p (fst b) = (Inr response, dir)" "b' = (dir, Suc (snd b))"
    using assms(2) by (auto simp: recording_start_def split: prod.splits)
  then obtain v rec sp where v: "append_lane_event h v (fst b) = (Inr (), dir)"
    "pget v ''event'' = PStr ''start''" "pget v ''reservation_id'' = PStr (ld_reservation (draws (snd b)))"
    "pidx v ''actor_id'' = Inr (pget p ''actor_id'')"
    "response = PDict [(''reservation_id'', PStr (ld_reservation (draws (snd b)))), (''record_id'', PStr rec), (''span_id'', PStr sp)]"
    by (auto simp: local_start_def Let_def bindS_eq_Inr pget_def pget_or_def pidx_def)
  from append_lane_event_logged [OF v(4)] v(1) have "logged dir = insert v (logged (fst b))" by (metis snd_conv)
  then have "logged_ids what dir = (if what = ''start'' then insert (ld_reservation (draws (snd b))) (logged_ids what (fst b))
      else logged_ids what (fst b))" for what
    using v(2,3) by (simp add: logged_ids_insert)
  moreover have "ld_reservation (draws (snd b)) \<notin> logged_ids ''start'' (fst b)"
    using assms(1) inj_eq [OF distinct_draws] by (auto simp: drawn_def)
  ultimately show ?thesis using v(5) run(2) by simp
qed

lemma recording_start_fails:
  assumes "recording_start h draws p b = (Inl e, b')"
  shows "fst b' = fst b \<and> snd b' = Suc (snd b)"
  using assms
  by (auto simp: recording_start_def local_start_def append_lane_event_def Let_def bindS_def liftS_def pidx_def
      split: prod.splits sum.splits if_splits option.splits)

lemma recording_complete_closes:
  assumes "pidx p ''reservation_id'' = Inr (PStr rid)" and "phas p ''ended_at_ns''"
  shows "\<exists>response. fst (recording_complete h (Some known) p b) = Inr response \<and>
    pget response ''framework_exception'' = PNone \<and>
    logged_ids ''complete'' (fst (snd (recording_complete h (Some known) p b))) = insert rid (logged_ids ''complete'' (fst b)) \<and>
    logged_ids ''start'' (fst (snd (recording_complete h (Some known) p b))) = logged_ids ''start'' (fst b) \<and>
    snd (snd (recording_complete h (Some known) p b)) = snd b"
proof -
  obtain kind record_id actor_id session_id where known: "known = (kind, record_id, actor_id, session_id)"
    by (cases known)
  let ?p = "pset ''_lane_session_id'' (PStr session_id) p"
  have read: "pidx (without_lane_session ?p) k = pidx p k" if "k \<noteq> ''_lane_session_id''" for k
    using that by (simp add: without_lane_session_def pidx_def pset_def delete_conv' update_conv')
  obtain stamp where stamp: "pidx p ''ended_at_ns'' = Inr stamp" using assms(2) by (auto simp: phas_def pidx_def)
  let ?event = "PDict
           [(''schema_version'', PStr LANE_RECORD_EVENT_SCHEMA), (''event'', PStr ''complete''),
            (''actor_id'', PStr actor_id), (''session_id'', PStr (py_str h (pget_or ?p ''_lane_session_id'' (PStr actor_id)))),
            (''reservation_id'', PStr rid), (''record_id'', PStr record_id), (''kind'', PStr kind),
            (''at_ns'', stamp), (''payload'', without_lane_session ?p)]"
  have "pidx ?event ''actor_id'' = Inr (PStr actor_id)" by (simp add: pidx_def)
  from append_lane_event_logged [OF this, of h "fst b"]
  obtain dir where append: "append_lane_event h ?event (fst b) = (Inr (), dir)"
    and "logged dir = insert ?event (logged (fst b))" by metis
  then have ids: "logged_ids what dir =
      (if what = ''complete'' then insert rid (logged_ids what (fst b)) else logged_ids what (fst b))" for what
    by (simp add: logged_ids_insert)
  have "local_complete h (kind, record_id, actor_id) ?p (fst b) =
      (Inr (PDict ([(''valid'', PBool True)] @ (if kind = ''tool'' then [(''result_replay_required'', PBool False)] else []))),
       dir)"
    unfolding local_complete_def Let_def by (simp add: read assms(1) stamp append bindS_def liftS_def)
  then have "recording_complete h (Some known) p b =
      (Inr (PDict ([(''valid'', PBool True)] @ (if kind = ''tool'' then [(''result_replay_required'', PBool False)] else []))),
       (dir, snd b))"
    unfolding recording_complete_def known by simp
  then show ?thesis using ids by simp
qed

end

sublocale lane_draws \<subseteq> recording: boundary_service "recording_api h draws" "\<lambda>b. unclosed (fst b)" "drawn draws"
proof
  fix b b' :: lane_store and p response
  assume b: "drawn draws b" and "ba_start (recording_api h draws) p b = (Inr response, b')"
  then have run: "recording_start h draws p b = (Inr response, b')" by (simp add: recording_api_def)
  from recording_start_opens [OF b run] b
  show "\<exists>rid rec sp. pidx response ''reservation_id'' = Inr (PStr rid) \<and> pidx response ''record_id'' = Inr (PStr rec) \<and>
        pidx response ''span_id'' = Inr (PStr sp) \<and> rid \<notin> unclosed (fst b) \<and> unclosed (fst b') = insert rid (unclosed (fst b))"
    by (auto simp: unclosed_def pidx_def drawn_def)
next
  fix b b' :: lane_store and p e
  assume "ba_start (recording_api h draws) p b = (Inl e, b')"
  then show "unclosed (fst b') = unclosed (fst b)"
    using recording_start_fails [of p b e b'] by (simp add: recording_api_def)
next
  fix b :: lane_store and p
  assume b: "drawn draws b"
  obtain r b' where run: "recording_start h draws p b = (r, b')" by (rule prod.exhaust)
  have "drawn draws b'"
  proof (cases r)
    case (Inl e)
    then show ?thesis using recording_start_fails [of p b e b'] run b by (auto simp: drawn_def)
  next
    case (Inr response)
    then show ?thesis using recording_start_opens [OF b, of p response b'] run b by (auto simp: drawn_def)
  qed
  then show "drawn draws (snd (ba_start (recording_api h draws) p b))" by (simp add: recording_api_def run)
next
  fix b :: lane_store and p rid known
  assume b: "drawn draws b" and rid: "rid \<in> unclosed (fst b)"
    and p: "pidx p ''reservation_id'' = Inr (PStr rid)" "phas p ''ended_at_ns''"
  from recording_complete_closes [OF p, of known b]
  show "unclosed (fst (snd (ba_complete (recording_api h draws) (Some known) p b))) = unclosed (fst b) - {rid} \<and>
      drawn draws (snd (ba_complete (recording_api h draws) (Some known) p b))"
    using b rid by (auto simp: recording_api_def unclosed_def drawn_def)
next
  fix b :: lane_store and p rid known
  assume "pidx p ''reservation_id'' = Inr (PStr rid)" "phas p ''ended_at_ns''"
  from recording_complete_closes [OF this, of known b]
  show "\<exists>response. fst (ba_complete (recording_api h draws) (Some known) p b) = Inr response \<and>
      pget response ''framework_exception'' = PNone"
    by (auto simp: recording_api_def)
qed

context lane_draws
begin

lemma recorded_code_closes:
  assumes "drawn draws (sd_boundary s)" and "accepted_statuses c"
    and "run_code h builtin (recording_api h draws) c s = (r, t)" and "r \<noteq> Inl entered_twice"
  shows "unclosed (fst (sd_boundary t)) = unclosed (fst (sd_boundary s))"
  using recording.balancedD [OF recording.run_code_balanced [OF assms(2)] assms(3,1)] assms(4)
  by (simp add: recording.closes_def)

end

text \<open>A process can number its draws.\<close>

definition numbered_draw :: "nat \<Rightarrow> lane_draw" where
  "numbered_draw k = \<lparr>ld_record = nat_str k, ld_span = nat_str k, ld_reservation = nat_str k\<rparr>"

interpretation numbered: lane_draws h numbered_draw for h
  by unfold_locales (simp add: inj_def numbered_draw_def nat_str_inject)

section \<open>A recording leaves nothing open\<close>



text \<open>A dispatch whose tool raises.\<close>

definition idle_context :: sdk_context where
  "idle_context = \<lparr>cx_actor = ''a'', cx_process_role = ''worker'', cx_parent_span = None, cx_session = ''a'',
     cx_llm_role = ''agent'', cx_target = ''default'', cx_dispatch = None, cx_tool_call = None,
     cx_composite_lane = None, cx_grader_call = None, cx_last_llm = None, cx_children = None,
     cx_llm_attempts = None, cx_tool_calls = None, cx_executions = None, cx_artifacts = None\<rparr>"

definition sample_tool :: "pyval tool_call" where
  "sample_tool = \<lparr>tc_name = ''bash'', tc_implementation = ''m.bash'', tc_arguments = PDict [], tc_encode = (\<lambda>v. v),
     tc_effects = PDict [], tc_frames = [], tc_own_children = [], tc_status = (\<lambda>_. ''ok''), tc_contract = None,
     tc_replayer = None, tc_timeout = PNone, tc_started = 3, tc_ended = 4, tc_cpu = 0\<rparr>"

definition sample_dispatch :: dispatch_call where
  "sample_dispatch = \<lparr>dc_name = ''bash'', dc_arguments = PDict [], dc_parser = ''p'', dc_dispatcher = ''d'',
     dc_native_call = PStr ''c'', dc_origin_kind = ''framework'', dc_trigger = ''t'', dc_model_call = PNone,
     dc_started = 2, dc_ended = 5\<rparr>"

definition sample_code :: framework_code where
  "sample_code = Dispatched sample_dispatch (Tooled sample_tool (Raises (PyError ''OSError'')))"

definition recording_host :: host where
  "recording_host = \<lparr>sha256_hex = (\<lambda>s. s), hmac_sha256_hex = (\<lambda>k s. k @ s), float_repr = (\<lambda>_. ''0.0''),
     resolve_path = (\<lambda>p. p), json_loads = (\<lambda>_. None)\<rparr>"

definition idle_sdk :: "lane_store sdk" where
  "idle_sdk = \<lparr>sd_context = idle_context, sd_reservations = [], sd_boundary = ([], 0)\<rparr>"


end
