(* ===== verification/Sdk_Replay.thy ===== *)
theory Sdk_Replay
  imports Sdk_Contract
begin

text \<open>
  The wrappers in a replay: the service behind the client is the operation ledger over HTTP.

  What the ledger reads from the clock and draws at random is the next element of a sequence.  The client
  waits for an answer for 30 seconds, so an answer that the ledger withholds for ever is a timeout.
\<close>

section \<open>The client of a replay\<close>

type_synonym served = "ledger \<times> nat"

definition post_reply :: "reply res \<Rightarrow> pyval res" where
  "post_reply r =
     (case r of
        Inr (Reply v) \<Rightarrow> Inr v
      | Inr (Conflict m) \<Rightarrow> Inl (MismatchError m)
      | Inr Unauthorized \<Rightarrow> Inl (MismatchError ''HTTP Error 401: Unauthorized'')
      | Inr Withheld \<Rightarrow> Inl (PyError ''TimeoutError'')
      | Inl e \<Rightarrow> Inl (MismatchError ''HTTP Error 500: Internal Server Error''))"

definition post_start :: "host \<Rightarrow> peers \<Rightarrow> (nat \<Rightarrow> tick) \<Rightarrow> string \<Rightarrow> pyval \<Rightarrow> (served, pyval) op" where
  "post_start h p ticks token payload b =
     (case handle_start h p (ticks (snd b)) (bearer token) payload (fst b) of
        (r, l) \<Rightarrow> (post_reply r, (l, Suc (snd b))))"

definition post_complete :: "host \<Rightarrow> (nat \<Rightarrow> tick) \<Rightarrow> string \<Rightarrow> pyval \<Rightarrow> (served, pyval) op" where
  "post_complete h ticks token payload b =
     (case handle_complete h (tick_now (ticks (snd b))) (bearer token) payload (fst b) of
        (r, l) \<Rightarrow> (post_reply r, (l, Suc (snd b))))"

definition replay_api :: "host \<Rightarrow> peers \<Rightarrow> (nat \<Rightarrow> tick) \<Rightarrow> string \<Rightarrow> served boundary_api" where
  "replay_api h p ticks token = \<lparr>ba_start = post_start h p ticks token, ba_complete = (\<lambda>_. post_complete h ticks token)\<rparr>"

section \<open>A tool in a replay\<close>

text \<open>A start that answers has claimed a slot, and the ledger holds its reservation.\<close>

lemma post_start_claims:
  assumes "replaying (fst b)" and "post_start h p ticks token payload b = (Inr response, b')"
    and "pget payload ''kind'' = PStr ''tool''" and "pget payload ''actor_id'' = PStr a"
  obtains want l r where "claim h p ''tool'' a payload (fst b) = (Inr want, l)"
    "res_kind r = ''tool''" "res_expected r = Some want"
    "map_of (active (fst b')) (tick_reservation (ticks (snd b))) = Some r" "replaying (fst b')"
    "pget response ''reservation_id'' = PStr (tick_reservation (ticks (snd b)))"
    "pidx response ''reservation_id'' = Inr (PStr (tick_reservation (ticks (snd b))))"
proof -
  let ?t = "ticks (snd b)"
  from assms(2) obtain st' where "handle_start h p ?t (bearer token) payload (fst b) = (Inr (Reply response), st')"
    and b': "b' = (st', Suc (snd b))"
    by (auto simp: post_start_def post_reply_def split: prod.splits sum.splits reply.splits)
  then have run: "start h p ?t payload (fst b) = (Inr response, st')"
    by (auto simp: handle_start_def fail_with_def split: if_splits prod.splits sum.splits err.splits)
  show ?thesis
  proof (cases rule: start_cases [of h p ?t payload "fst b"])
    case (opened kind actor_id started payload' want st1 r)
    have request: "kind = ''tool''" "actor_id = a" "payload' = payload"
      using opened(1) assms(3,4) by (auto simp: start_request_def Let_def bindR_eq_Inr)
    from opened(2) assms(1) obtain w where w: "want = Some w" "claim h p ''tool'' a payload (fst b) = (Inr w, st1)"
      by (auto simp: claim_expected_def bindS_def liftS_def request split: prod.splits sum.splits)
    have "replaying st1" using claim_same [of "fst b" h p "''tool''" a payload] w(2) assms(1)
      by (auto elim!: same_but_cursorsE)
    moreover have "st' = open_reservation ?t r st1" "start_response h ?t r (open_reservation ?t r st1) = Inr response"
      using run opened(10) by auto
    ultimately show ?thesis
      using w opened(3,4) request
      by (intro that [of w st1 r])
         (auto simp: b' open_reservation_def start_response_def Let_def update_conv' pidx_def bindR_eq_Inr split: if_splits)
  qed (use run in auto)
qed

text \<open>
  A completion of that reservation that is answered restores the recorded result, and the recorded exception
  when the slot has one.
\<close>

lemma post_complete_restores:
  assumes "replaying (fst b)" and "map_of (active (fst b)) rid = Some r" and "res_kind r = ''tool''"
    and "res_expected r = Some want" and "pget payload ''reservation_id'' = PStr rid"
    and "post_complete h ticks token payload b = (Inr response, b')"
  shows "pget response ''framework_result'' = pget want ''result'' \<and>
    pget response ''result_replay_required'' = PBool True \<and>
    pget response ''framework_exception'' = (if pget want ''exception_raised'' = PBool True then pget want ''result'' else PNone)"
proof -
  let ?now = "tick_now (ticks (snd b))"
  from assms(6) obtain l where "handle_complete h ?now (bearer token) payload (fst b) = (Inr (Reply response), l)"
    by (auto simp: post_complete_def post_reply_def split: prod.splits sum.splits reply.splits)
  then obtain l' where run: "complete_op h ?now True payload (fst b) = (Inr response, l')"
    and answered: "pget response ''_hold_for_cutoff'' \<noteq> PBool True"
    by (auto simp: handle_complete_def fail_with_def Let_def split: if_splits prod.splits sum.splits err.splits)
  show ?thesis
  proof (cases rule: complete_cases [of h ?now True payload "fst b"])
    case (held rid' r' ended)
    then show ?thesis using run answered by (auto simp: hold_truncated_def held_response_def)
  next
    case (written rid' r' ended rec)
    then have "completion_response r False = Inr response" using run assms(2,5) by simp
    then show ?thesis
      using assms(3,4)
      by (auto simp: completion_response_def Let_def restores_exception_def bindR_eq_Inr pidx_def pget_def [of want]
          pget_or_def [of want] split: option.splits if_splits)
  qed (use run assms in auto)
qed

section \<open>The framework sees the recording\<close>

text \<open>What a tool that returns has gone through.\<close>

lemma run_tool_returns:
  assumes "run_tool h builtin api c invoke s = (Inr v, s')"
  obtains response t rid rec sp i outcome u u' where
    "client_start h api ''tool'' (tc_started c) (tool_fields_of (sd_context s) c) s = (Inr response, t)"
    "reservation_ids response = Inr (rid, rec, sp)" "sd_boundary i = sd_boundary t"
    "with_parent_span sp invoke i = (outcome, u)" "sd_boundary u' = sd_boundary u"
    "finish_tool builtin api c rid (completed_children c u) outcome u' = (Inr v, s')"
proof -
  let ?cx = "sd_context s"
  have entered: "\<not> (cx_composite_lane ?cx = None \<and> (cx_dispatch ?cx = None \<or> cx_dispatch ?cx = Some []))"
  proof
    assume "cx_composite_lane ?cx = None \<and> (cx_dispatch ?cx = None \<or> cx_dispatch ?cx = Some [])"
    then have "isl (fst (run_tool h builtin api c invoke s))" unfolding run_tool_def Let_def by simp
    then show False using assms by simp
  qed
  obtain r t where begun: "client_start h api ''tool'' (tc_started c) (tool_fields_of ?cx c) s = (r, t)"
    by (rule prod.exhaust)
  show ?thesis
  proof (cases r)
    case (Inl e)
    then have "run_tool h builtin api c invoke s = (Inl e, t)" using begun unfolding run_tool_def Let_def if_not_P [OF entered] by simp
    then show ?thesis using assms by simp
  next
    case (Inr response)
    note begun = begun [unfolded Inr]
    show ?thesis
    proof (cases "reservation_ids response")
      case (Inl e)
      then have "run_tool h builtin api c invoke s = (Inl e, t)" using begun unfolding run_tool_def Let_def if_not_P [OF entered] by simp
      then show ?thesis using assms by simp
    next
      case (Inr ids)
      obtain rid rec sp where ids: "reservation_ids response = Inr (rid, rec, sp)" using Inr by (cases ids) simp
      let ?t = "if cx_composite_lane ?cx = None \<and> cx_tool_call ?cx = None
        then in_context (\<lambda>cx. cx\<lparr>cx_executions := capture rec (cx_executions cx)\<rparr>) t else t"
      let ?i = "in_context (\<lambda>cx. cx\<lparr>cx_children := Some [], cx_tool_call := Some rec\<rparr>) ?t"
      obtain outcome u where native: "with_parent_span sp invoke ?i = (outcome, u)" by (rule prod.exhaust)
      let ?u = "in_context (\<lambda>cx. cx\<lparr>cx_children := cx_children (sd_context ?t), cx_tool_call := cx_tool_call (sd_context ?t)\<rparr>) u"
      have "finish_tool builtin api c rid (completed_children c u) outcome ?u = (Inr v, s')"
        using assms begun ids native unfolding run_tool_def Let_def if_not_P [OF entered] by (simp split: if_splits)
      then show ?thesis by (intro that [OF begun ids _ native]) (simp_all add: in_context_def)
    qed
  qed
qed


section \<open>A replayed tool\<close>

definition dispatched_sdk :: "served sdk" where
  "dispatched_sdk = \<lparr>sd_context = \<lparr>cx_actor = ''a0'', cx_process_role = ''worker'', cx_parent_span = None, cx_session = ''a0'',
     cx_llm_role = ''agent'', cx_target = ''default'', cx_dispatch = Some ''d1'', cx_tool_call = None,
     cx_composite_lane = None, cx_grader_call = None, cx_last_llm = None, cx_children = None,
     cx_llm_attempts = None, cx_tool_calls = None, cx_executions = Some [], cx_artifacts = None\<rparr>,
     sd_reservations = [], sd_boundary = (sample_ledger, 2)\<rparr>"

definition recorded_tool :: "pyval tool_call" where
  "recorded_tool = \<lparr>tc_name = ''bash'', tc_implementation = ''m.bash'', tc_arguments = PDict [], tc_encode = (\<lambda>v. v),
     tc_effects = PDict [], tc_frames = [], tc_own_children = [], tc_status = (\<lambda>_. ''ok''), tc_contract = None,
     tc_replayer = Some (\<lambda>native recorded. Inr recorded), tc_timeout = PNone, tc_started = 3, tc_ended = 40, tc_cpu = 0\<rparr>"

definition replayed_run :: "pyval res \<times> served sdk" where
  "replayed_run = run_tool plain_host (\<lambda>_. True) (replay_api plain_host no_peers (\<lambda>n. tick_at 5 (nat_str n)) ''k'') recorded_tool
     (liftS (Inr (PStr ''native''))) dispatched_sdk"


end
