(* ===== verification/Native_Values.thy ===== *)
theory Native_Values
  imports Util
begin

text \<open>
  serialization.py and instrumentation/result_replay.py: how a value of a framework becomes JSON, and how
  an adapter puts the recorded observation back into the native type.

  A native value is a tree; an object of a framework is the tree of what its own methods give for it.  A
  key of a dictionary is the text of the key with a flag that tells whether the key is that text itself.
  The digest of bytes is an argument, as is the rounding of an integer that no float can hold exactly.
\<close>

section \<open>Native values\<close>

type_synonym native_key = "bool \<times> string"

datatype native =
    NNone
  | NBool bool
  | NInt int
  | NStr string
  | NFloat rat
  | NNonFinite string
  | NBytes string
  | NPath string
  | NEnum native
  | NDataclass "(string \<times> native) list"
  | NModel native
  | NDict "(native_key \<times> native) list"
  | NList "native list"
  | NTuple "native list"
  | NSet "native list"
  | NConvertible native
  | NOpaque string

fun native_of :: "pyval \<Rightarrow> native" where
  "native_of PNone = NNone"
| "native_of (PBool b) = NBool b"
| "native_of (PInt i) = NInt i"
| "native_of (PFloat r) = NFloat r"
| "native_of (PStr s) = NStr s"
| "native_of (PList xs) = NList (map native_of xs)"
| "native_of (PDict kvs) = NDict (map (\<lambda>(k, v). ((True, k), native_of v)) kvs)"

section \<open>Encoding\<close>

definition b64_char :: "nat \<Rightarrow> char" where
  "b64_char n = ''ABCDEFGHIJKLMNOPQRSTUVWXYZabcdefghijklmnopqrstuvwxyz0123456789+/'' ! n"

text \<open>\<open>base64.b64encode(value).decode("ascii")\<close>\<close>

fun b64encode :: "string \<Rightarrow> string" where
  "b64encode [] = []"
| "b64encode [a] =
     (let n = of_char a :: nat in [b64_char (n div 4), b64_char (n mod 4 * 16), CHR ''='', CHR ''=''])"
| "b64encode [a, b] =
     (let n = of_char a :: nat; m = of_char b :: nat
      in [b64_char (n div 4), b64_char (n mod 4 * 16 + m div 16), b64_char (m mod 16 * 4), CHR ''=''])"
| "b64encode (a # b # c # rest) =
     (let n = of_char a :: nat; m = of_char b :: nat; k = of_char c :: nat
      in [b64_char (n div 4), b64_char (n mod 4 * 16 + m div 16), b64_char (m mod 16 * 4 + k div 64),
          b64_char (k mod 64)] @ b64encode rest)"

text \<open>Entries in the order they are evaluated; a later entry with the same text replaces the value.\<close>

fun jsonable :: "host \<Rightarrow> (string \<Rightarrow> string) \<Rightarrow> native \<Rightarrow> pyval res" where
  "jsonable h digest NNone = Inr PNone"
| "jsonable h digest (NBool b) = Inr (PBool b)"
| "jsonable h digest (NInt i) = Inr (PInt i)"
| "jsonable h digest (NStr s) = Inr (PStr s)"
| "jsonable h digest (NFloat r) = Inr (PFloat r)"
| "jsonable h digest (NNonFinite r) = Inr (PDict [(''$float'', PStr r)])"
| "jsonable h digest (NBytes b) = Inr (PDict
     [(''$bytes_base64'', PStr (b64encode b)), (''size'', PInt (int (length b))), (''sha256'', PStr (digest b))])"
| "jsonable h digest (NPath p) = Inr (PStr p)"
| "jsonable h digest (NEnum v) = jsonable h digest v"
| "jsonable h digest (NDataclass kvs) =
     bindR (mapR (\<lambda>(k, v). bindR (jsonable h digest v) (\<lambda>w. Inr (k, w))) kvs) (\<lambda>ws. Inr (PDict (pmerge [] ws)))"
| "jsonable h digest (NModel v) = jsonable h digest v"
| "jsonable h digest (NDict kvs) =
     bindR (mapR (\<lambda>(k, v). bindR (jsonable h digest v) (\<lambda>w. Inr (snd k, w))) kvs) (\<lambda>ws. Inr (PDict (pmerge [] ws)))"
| "jsonable h digest (NList vs) = bindR (mapR (jsonable h digest) vs) (\<lambda>ws. Inr (PList ws))"
| "jsonable h digest (NTuple vs) = bindR (mapR (jsonable h digest) vs) (\<lambda>ws. Inr (PList ws))"
| "jsonable h digest (NSet vs) =
     bindR (mapR (jsonable h digest) vs) (\<lambda>ws. Inr (PList (sort_key (py_repr h) ws)))"
| "jsonable h digest (NConvertible v) = jsonable h digest v"
| "jsonable h digest (NOpaque q) = Inl (PyError ''TypeError'')"

section \<open>Restoring a recorded result\<close>

text \<open>
  \<open>set_attribute\<close> is what \<open>hasattr\<close> and \<open>setattr\<close> do on a copy of an object of the framework:
  \<open>None\<close> when the object has no such attribute.
\<close>

definition restore_object_field ::
    "host \<Rightarrow> (string \<Rightarrow> string) \<Rightarrow> (native \<Rightarrow> string \<Rightarrow> pyval \<Rightarrow> native option) \<Rightarrow> native \<Rightarrow> pyval \<Rightarrow> string \<Rightarrow> native res" where
  "restore_object_field h digest set_attribute native recorded k =
     bindR (jsonable h digest native) (\<lambda>encoded.
       if \<not> is_dict encoded \<or> \<not> is_dict recorded then Inl (PyError ''RuntimeError'')
       else if \<not> phas encoded k \<or> \<not> phas recorded k then Inl (PyError ''RuntimeError'')
       else
         case native of
           NDict kvs \<Rightarrow> Inr (NDict (AList.update (True, k) (native_of (pget recorded k)) kvs))
         | _ \<Rightarrow>
             (case set_attribute native k (pget recorded k) of
                None \<Rightarrow> Inl (PyError ''RuntimeError'')
              | Some restored \<Rightarrow> Inr restored))"

definition encode_framework_output :: "host \<Rightarrow> (string \<Rightarrow> string) \<Rightarrow> native \<Rightarrow> pyval res" where
  "encode_framework_output h digest v = bindR (jsonable h digest v) (\<lambda>w. Inr (PDict [(''output'', w)]))"

text \<open>\<open>float(value)\<close> for a number\<close>

definition py_float :: "(int \<Rightarrow> rat) \<Rightarrow> pyval \<Rightarrow> rat" where
  "py_float rounded v =
     (case v of
        PBool b \<Rightarrow> (if b then 1 else 0)
      | PInt i \<Rightarrow> (if \<bar>i\<bar> \<le> 2 ^ 53 then of_int i else rounded i)
      | PFloat r \<Rightarrow> r
      | _ \<Rightarrow> 0)"

definition restore_framework_output ::
    "host \<Rightarrow> (string \<Rightarrow> string) \<Rightarrow> (int \<Rightarrow> rat) \<Rightarrow> native \<Rightarrow> pyval \<Rightarrow> native res" where
  "restore_framework_output h digest rounded native recorded =
     (if \<not> is_dict recorded \<or> \<not> key_set_is recorded [''output''] then Inl (PyError ''RuntimeError'')
      else
        let expected = pget recorded ''output'' in
        bindR (jsonable h digest native) (\<lambda>actual.
          if py_eq actual expected then Inr native
          else case native of
            NStr s \<Rightarrow> if is_str expected then Inr (native_of expected) else Inl (PyError ''RuntimeError'')
          | NBool b \<Rightarrow> if is_bool expected then Inr (native_of expected) else Inl (PyError ''RuntimeError'')
          | NInt i \<Rightarrow> if is_int expected then Inr (native_of expected) else Inl (PyError ''RuntimeError'')
          | NFloat r \<Rightarrow> if is_number expected then Inr (NFloat (py_float rounded expected)) else Inl (PyError ''RuntimeError'')
          | NNonFinite r \<Rightarrow> if is_number expected then Inr (NFloat (py_float rounded expected)) else Inl (PyError ''RuntimeError'')
          | NList vs \<Rightarrow> if is_list expected then Inr (native_of expected) else Inl (PyError ''RuntimeError'')
          | NTuple vs \<Rightarrow>
              if is_list expected then Inr (NTuple (map native_of (items_of expected))) else Inl (PyError ''RuntimeError'')
          | NDict kvs \<Rightarrow> if is_dict expected then Inr (native_of expected) else Inl (PyError ''RuntimeError'')
          | _ \<Rightarrow> Inl (PyError ''RuntimeError'')))"

section \<open>Encoded values\<close>

lemma pmerge_distinct: "distinct (map fst base) \<Longrightarrow> distinct (map fst (pmerge base new))"
proof (induction new arbitrary: base)
  case (Cons x new)
  obtain k v where x: "x = (k, v)" by fastforce
  show ?case using Cons.IH [of "AList.update k v base"] Cons.prems by (simp add: pmerge_def x distinct_update)
qed (simp add: pmerge_def)

lemma set_update: "set (AList.update k v xs) \<subseteq> insert (k, v) (set xs)"
  by (induction xs) auto

lemma pmerge_mem: "kv \<in> set (pmerge base new) \<Longrightarrow> kv \<in> set base \<or> kv \<in> set new"
proof (induction new arbitrary: base rule: rev_induct)
  case (snoc x new)
  obtain k v where x: "x = (k, v)" by fastforce
  have "kv = (k, v) \<or> kv \<in> set (pmerge base new)"
    using snoc.prems set_update [of k v "pmerge base new"] by (auto simp: pmerge_def x)
  then show ?case using snoc.IH x by auto
qed (simp add: pmerge_def)

lemma pmerge_fresh: "distinct (map fst (base @ new)) \<Longrightarrow> pmerge base new = base @ new"
proof (induction new arbitrary: base)
  case (Cons x new)
  obtain k v where x: "x = (k, v)" by fastforce
  have "AList.update k v base = base @ [(k, v)]" using Cons.prems x by (intro update_absent) auto
  then show ?case using Cons.IH [of "base @ [(k, v)]"] Cons.prems by (simp add: pmerge_def x)
qed (simp add: pmerge_def)

lemma encoded_list: "mapR f vs = Inr ws \<Longrightarrow> w \<in> set ws \<Longrightarrow> \<exists>v \<in> set vs. f v = Inr w"
  by (auto simp: mapR_eq_Inr list_all2_conv_all_nth in_set_conv_nth) (metis nth_mem)

lemma encoded_entry:
  assumes "mapR (\<lambda>(k, v). bindR (f v) (\<lambda>w. Inr (g k, w))) kvs = Inr ws" and "kw \<in> set (pmerge [] ws)"
  shows "\<exists>kv \<in> set kvs. f (snd kv) = Inr (snd kw)"
proof -
  have "kw \<in> set ws" using pmerge_mem [OF assms(2)] by simp
  from encoded_list [OF assms(1) this] show ?thesis by (force simp: bindR_eq_Inr case_prod_unfold)
qed

lemma jsonable_wf: "jsonable h digest v = Inr w \<Longrightarrow> wf_val w"
proof (induction h digest v arbitrary: w rule: jsonable.induct)
  case (10 h digest kvs)
  then show ?case
    by (fastforce simp: bindR_eq_Inr list_all_iff pmerge_distinct dest: encoded_entry [where g = "\<lambda>k. k"])
next
  case (12 h digest kvs)
  then show ?case
    by (fastforce simp: bindR_eq_Inr list_all_iff pmerge_distinct dest: encoded_entry [where g = snd])
qed (fastforce simp: bindR_eq_Inr list_all_iff dest: encoded_list)+

lemma jsonable_native_of: "wf_val w \<Longrightarrow> jsonable h digest (native_of w) = Inr w"
proof (induction w rule: wf_val.induct)
  case (1 xs)
  then have "mapR (jsonable h digest) (map native_of xs) = Inr xs"
    by (simp add: mapR_eq_Inr list_all2_map1 list.rel_refl_strong list_all_iff)
  then show ?case by simp
next
  case (2 kvs)
  then have "mapR (\<lambda>(k, v). bindR (jsonable h digest v) (\<lambda>w. Inr (snd k, w)))
      (map (\<lambda>(k, v). ((True, k), native_of v)) kvs) = Inr kvs"
    by (auto simp: mapR_eq_Inr list_all2_map1 list_all_iff intro!: list.rel_refl_strong)
  moreover have "pmerge [] kvs = kvs" using 2 pmerge_fresh [of "[]" kvs] by simp
  ultimately show ?case by simp
qed simp_all


section \<open>Restored values\<close>

text \<open>
  What an adapter hands to the framework in place of a native output encodes to the recorded output, up
  to Python's equality, with the native value kept when it already agrees; where no type allows that it
  raises.  An integer is put into a native float only as far as a float holds it exactly.
\<close>

theorem restored_output_is_recorded:
  assumes "restore_framework_output h digest rounded native recorded = Inr v" and "wf_val recorded"
    and "\<And>i. pget recorded ''output'' = PInt i \<Longrightarrow> \<bar>i\<bar> \<le> 2 ^ 53"
  shows "\<exists>w. jsonable h digest v = Inr w \<and> py_eq w (pget recorded ''output'') \<and>
    (\<forall>a. jsonable h digest native = Inr a \<and> py_eq a (pget recorded ''output'') \<longrightarrow> v = native)"
proof -
  let ?expected = "pget recorded ''output''"
  have shape: "is_dict recorded" "key_set_is recorded [''output'']"
    using assms(1) by (auto simp: restore_framework_output_def split: if_splits)
  then have "phas recorded ''output''"
    by (auto simp: key_set_is_def is_dict_iff phas_def map_of_eq_None_iff)
  then have wf: "wf_val ?expected"
    using shape(1) assms(2) by (force simp: is_dict_iff phas_def pget_PDict list_all_iff dest!: map_of_SomeD)
  obtain a where a: "jsonable h digest native = Inr a"
    using assms(1) by (auto simp: restore_framework_output_def Let_def bindR_eq_Inr split: if_splits)
  show ?thesis
  proof (cases "py_eq a ?expected")
    case True
    then show ?thesis using assms(1) a by (auto simp: restore_framework_output_def Let_def split: if_splits)
  next
    case False
    have same: "jsonable h digest (native_of ?expected) = Inr ?expected" "py_eq ?expected ?expected"
      using wf by (simp_all add: jsonable_native_of py_eq_refl)
    have float: "py_eq (PFloat (py_float rounded ?expected)) ?expected" if "is_number ?expected"
      using that assms(3) by (cases ?expected) (simp_all add: py_float_def)
    have tuple: "jsonable h digest (NTuple (map native_of (items_of ?expected))) = Inr ?expected" if "is_list ?expected"
      using that same(1) by (auto simp: is_list_iff)
    have "v = native_of ?expected \<or> (\<exists>r. is_number ?expected \<and> v = NFloat (py_float rounded ?expected)) \<or>
        (is_list ?expected \<and> v = NTuple (map native_of (items_of ?expected)))"
      using assms(1) a False
      by (cases native) (auto simp: restore_framework_output_def Let_def split: if_splits)
    then show ?thesis using a False same float tuple by auto
  qed
qed

section \<open>Concrete values\<close>

definition bare_host :: host where
  "bare_host = \<lparr>sha256_hex = (\<lambda>s. s), hmac_sha256_hex = (\<lambda>k s. k @ s), float_repr = (\<lambda>_. ''0.5''),
     resolve_path = (\<lambda>p. p), json_loads = (\<lambda>_. None)\<rparr>"

definition sample_native :: native where
  "sample_native = NDict
     [((True, ''1''), NSet [NInt 2, NInt 10, NBool True]), ((False, ''1''), NTuple [NBytes ''Man!'', NNonFinite ''inf'']),
      ((True, ''f''), NEnum (NFloat (1 / 2)))]"

definition sample_encoding :: pyval where
  "sample_encoding = PDict
     [(''1'', PList [PDict [(''$bytes_base64'', PStr ''TWFuIQ==''), (''size'', PInt 4), (''sha256'', PStr ''Man!'')],
                     PDict [(''$float'', PStr ''inf'')]]),
      (''f'', PFloat (1 / 2))]"


text \<open>A tuple of another length, and a float where the recording has an integer.\<close>

theorem restored_output_is_recorded_witness:
  "(\<exists>w. jsonable bare_host (\<lambda>b. b) (NTuple [NInt 7, NFloat (5 / 2)]) = Inr w \<and> py_eq w (PList [PInt 7, PFloat (5 / 2)])) \<and>
   (\<exists>w. jsonable bare_host (\<lambda>b. b) (NFloat 3) = Inr w \<and> py_eq w (PInt 3))"
proof
  have "restore_framework_output bare_host (\<lambda>b. b) (\<lambda>_. 0) (NTuple [NInt 1]) (PDict [(''output'', PList [PInt 7, PFloat (5 / 2)])]) =
      Inr (NTuple [NInt 7, NFloat (5 / 2)])" by code_simp
  from restored_output_is_recorded [OF this]
  show "\<exists>w. jsonable bare_host (\<lambda>b. b) (NTuple [NInt 7, NFloat (5 / 2)]) = Inr w \<and> py_eq w (PList [PInt 7, PFloat (5 / 2)])"
    by auto
next
  have "restore_framework_output bare_host (\<lambda>b. b) (\<lambda>_. 0) (NFloat (1 / 2)) (PDict [(''output'', PInt 3)]) = Inr (NFloat 3)"
    by code_simp
  from restored_output_is_recorded [OF this]
  show "\<exists>w. jsonable bare_host (\<lambda>b. b) (NFloat 3) = Inr w \<and> py_eq w (PInt 3)" by auto
qed

end
