(* ===== verification/Sdk_Scope.thy ===== *)
theory Sdk_Scope
  imports Sdk Native_Values
begin

text \<open>
  sdk.py, second part: the context as other modules read it, the receipts of child processes, composite
  scopes, the asynchronous wrappers and the report of a task's end.

  The environment of the process is an association list.
\<close>

section \<open>The context that other modules read\<close>

type_synonym env = "(string \<times> string) list"

definition env_or :: "env \<Rightarrow> string \<Rightarrow> string \<Rightarrow> string" where
  "env_or env k d = (case map_of env k of None \<Rightarrow> d | Some v \<Rightarrow> v)"

text \<open>A process whose task has set no actor takes what its environment says.\<close>

definition current_context :: "env \<Rightarrow> sdk_context \<Rightarrow> dict" where
  "current_context env cx =
     (let inherited = (cx_actor cx = ''unknown'');
          value_of = (\<lambda>k v. PStr (if inherited then env_or env k v else v))
      in [(''actor_id'', value_of ''NATIVE_REPLAY_ACTOR_ID'' (cx_actor cx)),
          (''process_role'', value_of ''NATIVE_REPLAY_PROCESS_ROLE'' (cx_process_role cx)),
          (''parent_span_id'',
             if inherited
             then (case map_of env ''NATIVE_REPLAY_PARENT_SPAN_ID'' of None \<Rightarrow> opt_str (cx_parent_span cx) | Some v \<Rightarrow> PStr v)
             else opt_str (cx_parent_span cx)),
          (''session_id'', value_of ''NATIVE_REPLAY_SESSION_ID'' (cx_session cx)),
          (''llm_role'', value_of ''NATIVE_REPLAY_LLM_ROLE'' (cx_llm_role cx)),
          (''target_id'', value_of ''NATIVE_REPLAY_TARGET_ID'' (cx_target cx)),
          (''dispatch_id'', opt_str (cx_dispatch cx)), (''tool_call_id'', opt_str (cx_tool_call cx)),
          (''composite_lane'', opt_str (cx_composite_lane cx)), (''grader_attempt_id'', opt_str (cx_grader_call cx))])"

section \<open>Receipts of child processes\<close>

text \<open>Without an active list nothing is kept, and nothing is checked.\<close>

definition add_child :: "pyval \<Rightarrow> sdk_context \<Rightarrow> sdk_context" where
  "add_child receipt cx = cx\<lparr>cx_children := map_option (\<lambda>xs. xs @ [receipt]) (cx_children cx)\<rparr>"

definition record_subprocess_launch ::
    "host \<Rightarrow> (string \<Rightarrow> string) \<Rightarrow> env \<Rightarrow> string \<Rightarrow> int option \<Rightarrow> native \<Rightarrow> native \<Rightarrow> bool \<Rightarrow> native \<Rightarrow> (sdk_context, unit) op" where
  "record_subprocess_launch h digest env launcher runtime_pid command cwd shell executable cx =
     (if cx_children cx = None then (Inr (), cx)
      else
        let container_role = env_or env ''NATIVE_REPLAY_CONTAINER_ROLE'' [] in
        bindS (liftS (jsonable h digest command)) (\<lambda>command.
        bindS (liftS (jsonable h digest cwd)) (\<lambda>cwd.
        bindS (liftS (jsonable h digest executable)) (\<lambda>executable.
        updateS (add_child (PDict (
          [(''kind'', PStr (if container_role \<noteq> [] then ''container-process'' else ''native-subprocess'')),
           (''owner_actor'', PStr (cx_actor cx)), (''launcher'', PStr launcher), (''command'', command),
           (''cwd'', cwd), (''shell'', PBool shell), (''executable'', executable)] @
          (if container_role \<noteq> [] then [(''container_role'', PStr container_role)]
           else case runtime_pid of None \<Rightarrow> [] | Some p \<Rightarrow> [(''runtime_pid'', PInt p)]))))))) cx)"

text \<open>\<open>capture_subprocess_launches\<close>: the receipts of the operation are what it returns.\<close>

definition capture_subprocess_launches :: "(sdk_context, 'a) op \<Rightarrow> sdk_context \<Rightarrow> 'a res \<times> pyval list \<times> sdk_context" where
  "capture_subprocess_launches m cx =
     (case m (cx\<lparr>cx_children := Some []\<rparr>) of
        (r, after) \<Rightarrow>
          (r, case cx_children after of None \<Rightarrow> [] | Some xs \<Rightarrow> xs, after\<lparr>cx_children := cx_children cx\<rparr>))"

definition record_container_shell_command ::
    "string \<Rightarrow> string \<Rightarrow> string \<Rightarrow> pyval \<Rightarrow> string \<Rightarrow> (sdk_context, unit) op" where
  "record_container_shell_command launcher container_role command exit_code shell_executable cx =
     (if cx_children cx = None then (Inr (), cx)
      else if [] \<in> {launcher, container_role, command, shell_executable} \<or> \<not> is_int_not_bool exit_code
        then (Inl (PyError ''ValueError''), cx)
      else (Inr (), add_child (PDict
        [(''kind'', PStr ''container-shell-command''), (''owner_actor'', PStr (cx_actor cx)),
         (''container_role'', PStr container_role), (''launcher'', PStr launcher), (''command'', PStr command),
         (''exit_code'', exit_code), (''shell_executable'', PStr shell_executable)]) cx))"

definition record_persistent_process_command ::
    "string \<Rightarrow> string \<Rightarrow> string \<Rightarrow> pyval \<Rightarrow> string \<Rightarrow> pyval \<Rightarrow> (sdk_context, unit) op" where
  "record_persistent_process_command launcher container_role command exit_code shell_executable runtime_pid cx =
     (if cx_children cx = None then (Inr (), cx)
      else if [] \<in> {launcher, container_role, command, shell_executable} \<or> \<not> is_int_not_bool exit_code \<or>
              \<not> is_int_not_bool runtime_pid \<or> int_of runtime_pid \<le> 0
        then (Inl (PyError ''ValueError''), cx)
      else (Inr (), add_child (PDict
        [(''kind'', PStr ''container-persistent-process-command''), (''owner_actor'', PStr (cx_actor cx)),
         (''container_role'', PStr container_role), (''launcher'', PStr launcher), (''command'', PStr command),
         (''exit_code'', exit_code), (''shell_executable'', PStr shell_executable), (''runtime_pid'', runtime_pid)]) cx))"

section \<open>Composite scopes\<close>

text \<open>
  A scope makes no reservation: it names the lane of the operations inside, and in a recording it leaves two
  diagnostic events, which \<open>recorder\<close> writes: the start with actor, session, name, lane and time, and
  the end with the actor and session of that moment.
\<close>

record 'b scope_recorder =
  sr_start :: "string \<Rightarrow> string \<Rightarrow> string \<Rightarrow> string \<Rightarrow> int \<Rightarrow> ('b, string) op"
  sr_complete :: "string \<Rightarrow> string \<Rightarrow> string \<Rightarrow> int \<Rightarrow> string \<Rightarrow> ('b, unit) op"

definition on_boundary :: "('b, 'a) op \<Rightarrow> ('b sdk, 'a) op" where
  "on_boundary m s = (case m (sd_boundary s) of (r, b) \<Rightarrow> (r, s\<lparr>sd_boundary := b\<rparr>))"

definition finish_scope ::
    "'b scope_recorder option \<Rightarrow> string option \<Rightarrow> string option \<Rightarrow> int \<Rightarrow> 'a res \<Rightarrow> ('b sdk, 'a) op" where
  "finish_scope recorder before scope_id ended outcome s =
     (let cx = sd_context s; status = (if isl outcome then ''error'' else ''ok'');
          reset = (\<lambda>u. in_context (\<lambda>cx. cx\<lparr>cx_composite_lane := before\<rparr>) u)
      in case (recorder, scope_id) of
           (Some rc, Some i) \<Rightarrow>
             (case on_boundary (sr_complete rc (cx_actor cx) (cx_session cx) i ended status) s of
                (Inl e, u) \<Rightarrow> (Inl e, u)
              | (Inr _, u) \<Rightarrow> (outcome, reset u))
         | _ \<Rightarrow> (outcome, reset s))"

definition composite_scope ::
    "'b scope_recorder option \<Rightarrow> string \<Rightarrow> string \<Rightarrow> int \<Rightarrow> int \<Rightarrow> ('b sdk, 'a) op \<Rightarrow> ('b sdk, 'a) op" where
  "composite_scope recorder name parent_call started ended m s =
     (if name = [] \<or> parent_call = [] then (Inl (PyError ''ValueError''), s)
      else
        let lane = ''model-call:'' @ parent_call; before = cx_composite_lane (sd_context s);
            inner = in_context (\<lambda>cx. cx\<lparr>cx_composite_lane := Some lane\<rparr>) s; cx = sd_context s
        in case recorder of
             None \<Rightarrow> (case m inner of (outcome, u) \<Rightarrow> finish_scope recorder before None ended outcome u)
           | Some rc \<Rightarrow>
               (case on_boundary (sr_start rc (cx_actor cx) (cx_session cx) name lane started) inner of
                  (Inl e, u) \<Rightarrow> (Inl e, u)
                | (Inr i, u) \<Rightarrow> (case m u of (outcome, v) \<Rightarrow> finish_scope recorder before (Some i) ended outcome v)))"

section \<open>The asynchronous wrappers\<close>

text \<open>
  The awaiting wrappers have the bodies of the others.  While the native code is awaited other tasks run:
  they have contexts of their own and share the client and the service, so what they do is a change of these
  two parts.
\<close>

definition awaited :: "('b sdk \<Rightarrow> 'b sdk) \<Rightarrow> ('b sdk, 'a) op \<Rightarrow> ('b sdk, 'a) op" where
  "awaited others invoke s =
     (case invoke s of
        (r, t) \<Rightarrow> (r, t\<lparr>sd_boundary := sd_boundary (others t), sd_reservations := sd_reservations (others t)\<rparr>))"

definition run_dispatch_async ::
    "host \<Rightarrow> 'b boundary_api \<Rightarrow> dispatch_call \<Rightarrow> ('b sdk \<Rightarrow> 'b sdk) \<Rightarrow> ('b sdk, 'a) op \<Rightarrow> ('b sdk, 'a) op" where
  "run_dispatch_async h api c others invoke = run_dispatch h api c (awaited others invoke)"

definition run_tool_async ::
    "host \<Rightarrow> (string \<Rightarrow> bool) \<Rightarrow> 'b boundary_api \<Rightarrow> 'a tool_call \<Rightarrow> ('b sdk \<Rightarrow> 'b sdk) \<Rightarrow> ('b sdk, 'a) op \<Rightarrow> ('b sdk, 'a) op" where
  "run_tool_async h builtin api c others invoke = run_tool h builtin api c (awaited others invoke)"

section \<open>The end of a task\<close>

text \<open>The files of the terminal directory by name; \<open>pid\<close> and \<open>now\<close> are what the process and the clock give.\<close>

definition terminal_task :: "host \<Rightarrow> env \<Rightarrow> string \<Rightarrow> native option \<Rightarrow> native res" where
  "terminal_task h env actor task =
     (case task of
        Some t \<Rightarrow> Inr t
      | None \<Rightarrow>
          (case map_of env ''NATIVE_REPLAY_TASK_MAP'' of
             None \<Rightarrow> Inl (PyError ''KeyError'')
           | Some raw \<Rightarrow>
               (case json_loads h raw of
                  None \<Rightarrow> Inl (PyError ''RuntimeError'')
                | Some tasks \<Rightarrow>
                    if is_dict tasks then Inr (native_of (pget_or tasks actor (PDict [(''dynamic_actor'', PStr actor)])))
                    else Inl (PyError ''AttributeError''))))"

definition report_task_terminal ::
    "host \<Rightarrow> (string \<Rightarrow> string) \<Rightarrow> env \<Rightarrow> int \<Rightarrow> int \<Rightarrow> sdk_context \<Rightarrow> native \<Rightarrow> string \<Rightarrow> string option \<Rightarrow> int option \<Rightarrow> native option \<Rightarrow>
     ((string \<times> pyval) list, unit) op" where
  "report_task_terminal h digest env pid now cx result status actor_id completed_at_ns task files =
     (let actor = str_or actor_id (cx_actor cx) in
      if status \<notin> {''success'', ''failure''} then (Inl (PyError ''ValueError''), files)
      else if (case completed_at_ns of None \<Rightarrow> False | Some n \<Rightarrow> n < 0) then (Inl (PyError ''ValueError''), files)
      else if env_or env ''NATIVE_REPLAY_TERMINAL_DIR'' [] = [] \<or> actor = ''unknown'' then (Inl (PyError ''RuntimeError''), files)
      else
        bindS (liftS (terminal_task h env actor task)) (\<lambda>task.
        bindS (liftS (case map_of env ''NATIVE_REPLAY_RUN_ID'' of None \<Rightarrow> Inl (PyError ''KeyError'') | Some r \<Rightarrow> Inr r)) (\<lambda>run_id.
        bindS (liftS (jsonable h digest task)) (\<lambda>task.
        bindS (liftS (jsonable h digest result)) (\<lambda>result.
        let completed = (case completed_at_ns of None \<Rightarrow> now | Some n \<Rightarrow> n);
            value = PDict [(''schema_version'', PStr ''native-agent-replay.task-terminal/v1''), (''run_id'', PStr run_id),
              (''actor_id'', PStr actor), (''task'', task), (''status'', PStr status), (''result'', result),
              (''pid'', PInt pid), (''completed_at_ns'', PInt completed)];
            plain = actor @ ''.json'';
            target = (if map_of files plain = None then plain
                      else actor @ ''.'' @ int_str pid @ ''.'' @ int_str completed @ ''.json'')
        in updateS (AList.update target value))))) files)"

end
