(* ===== verification/Gate.thy ===== *)
theory Gate
  imports Sdk_Scope
begin

text \<open>
  instrumentation/gate.py: how a native task gets its actor, how the tasks of one worker of a refill
  scheduler get one causal lane, and the gate that every actor waits at.

  The module keeps its tables per process under keys that hold the process identifier; here the tables of
  all processes of a run are one, as no process reads the entries of another.  The counter of binding files
  is per process, and a forked process starts with the count of its parent.  What a wait for the gate ends
  with is an argument.
\<close>

section \<open>Actors\<close>

definition safe_char :: "char \<Rightarrow> bool" where
  "safe_char c \<longleftrightarrow>
     (let n = (of_char c :: nat)
      in 65 \<le> n \<and> n \<le> 90 \<or> 97 \<le> n \<and> n \<le> 122 \<or> is_digit c \<or> c \<in> {CHR ''_'', CHR ''.'', CHR ''-''})"

text \<open>\<open>^[A-Za-z0-9_.-]+$\<close>\<close>

definition safe_name :: "string \<Rightarrow> bool" where
  "safe_name s \<longleftrightarrow> s \<noteq> [] \<and> list_all safe_char s"

text \<open>\<open>^refill-[0-9]{6}(?:--agent-[0-9]+)?$\<close>\<close>

definition dynamic_name :: "string \<Rightarrow> bool" where
  "dynamic_name s \<longleftrightarrow>
     take 7 s = ''refill-'' \<and> length (take 6 (drop 7 s)) = 6 \<and> list_all is_digit (take 6 (drop 7 s)) \<and>
     (let rest = drop 13 s
      in rest = [] \<or> take 8 rest = ''--agent-'' \<and> drop 8 rest \<noteq> [] \<and> list_all is_digit (drop 8 rest))"

definition env_mapping :: "host \<Rightarrow> env \<Rightarrow> string \<Rightarrow> pyval res" where
  "env_mapping h env name =
     (case json_loads h (env_or env name ''{}'') of
        None \<Rightarrow> Inl (InfrastructureError ''invalid JSON in the environment'')
      | Some v \<Rightarrow> if is_dict v then Inr v else Inl (InfrastructureError ''must be a JSON object''))"

definition derive_actor_id :: "host \<Rightarrow> string \<Rightarrow> string" where
  "derive_actor_id h source = (if safe_name source then source else ''task-'' @ take 12 (sha256_hex h source))"

text \<open>\<open>actor in inventory\<close> for a decoded value\<close>

definition json_contains :: "pyval \<Rightarrow> string \<Rightarrow> bool res" where
  "json_contains v s =
     (case v of
        PList xs \<Rightarrow> Inr (PStr s \<in> set xs)
      | PDict kvs \<Rightarrow> Inr (s \<in> fst ` set kvs)
      | PStr t \<Rightarrow> Inr (str_find s t \<noteq> None)
      | _ \<Rightarrow> Inl (PyError ''TypeError''))"

definition check_inventory :: "host \<Rightarrow> env \<Rightarrow> string \<Rightarrow> unit res" where
  "check_inventory h env actor =
     (let allowed = env_or env ''NATIVE_REPLAY_ACTORS'' [] in
      if allowed = [] then Inr ()
      else case json_loads h allowed of
          None \<Rightarrow> Inl (InfrastructureError ''invalid NATIVE_REPLAY_ACTORS'')
        | Some inventory \<Rightarrow>
            bindR (json_contains inventory actor) (\<lambda>known.
              if \<not> known \<and> \<not> dynamic_name actor
              then Inl (MismatchError ''native actor is outside the recording inventory'') else Inr ()))"

definition resolve_actor :: "host \<Rightarrow> env \<Rightarrow> string \<Rightarrow> string res" where
  "resolve_actor h env source =
     bindR (env_mapping h env ''NATIVE_REPLAY_ACTOR_MAP'') (\<lambda>mapping.
       let mapped = pget mapping source;
           actor = (if mapped = PNone then PStr (if source = [] then source else derive_actor_id h source) else mapped)
       in if \<not> is_str actor \<or> \<not> safe_name (str_of actor) then Inl (MismatchError ''unmapped or invalid native actor'')
          else bindR (check_inventory h env (str_of actor)) (\<lambda>_. Inr (str_of actor)))"

text \<open>\<open>float(value)\<close> of the recorded offset; an offset is small enough to be exact.\<close>

definition arrival_offset :: "host \<Rightarrow> env \<Rightarrow> string \<Rightarrow> rat res" where
  "arrival_offset h env actor =
     bindR (env_mapping h env ''NATIVE_REPLAY_ARRIVAL_OFFSETS'') (\<lambda>offsets.
       let v = pget_or offsets actor (PFloat 0)
       in if \<not> is_number v \<or> is_bool v \<or> the (num_of v) < 0 then Inl (InfrastructureError ''invalid arrival offset'')
          else Inr (the (num_of v)))"

definition target_for_actor :: "host \<Rightarrow> env \<Rightarrow> string \<Rightarrow> string res" where
  "target_for_actor h env actor =
     bindR (env_mapping h env ''NATIVE_REPLAY_TARGET_MAP'') (\<lambda>targets.
       let target = pget_or targets actor (PStr (env_or env ''NATIVE_REPLAY_TARGET_ID'' ''default''))
       in if is_nonempty_str target then Inr (str_of target) else Inl (InfrastructureError ''invalid LLM target''))"

section \<open>Lane bindings\<close>

record gate_state =
  gt_gated :: "(int \<times> string) list"
  gt_native_lanes :: "((int \<times> string) \<times> string) list"
  gt_task_lanes :: "((int \<times> string) \<times> string) list"
  gt_sequence :: "int \<Rightarrow> nat"
  gt_bindings :: "(string \<times> pyval) list"
  gt_ready :: "(string \<times> pyval) list"

record bind_request =
  bq_pid :: int
  bq_now :: int
  bq_source :: string
  bq_key :: pyval
  bq_metadata :: pyval

text \<open>\<open>table.setdefault(key, value)\<close>\<close>

definition lane_default :: "int \<times> string \<Rightarrow> string \<Rightarrow> ((int \<times> string) \<times> string) list \<Rightarrow> string \<times> ((int \<times> string) \<times> string) list" where
  "lane_default k v table = (case map_of table k of Some w \<Rightarrow> (w, table) | None \<Rightarrow> (v, table @ [(k, v)]))"

definition binding_name :: "int \<Rightarrow> nat \<Rightarrow> string" where
  "binding_name pid sequence = int_str pid @ ''-'' @ pad6 sequence @ ''.json''"

definition binding_value :: "bind_request \<Rightarrow> string \<Rightarrow> pyval" where
  "binding_value q actor_id = PDict (
     [(''schema_version'', PStr ''native-agent-replay.lane-binding/v1''), (''actor_id'', PStr actor_id),
      (''source_actor_id'', PStr (bq_source q)), (''native_lane_key'', bq_key q), (''pid'', PInt (bq_pid q)),
      (''bound_at_ns'', PInt (bq_now q))] @
     (if truthy (bq_metadata q) then [(''actor_metadata'', bq_metadata q)] else []))"

definition write_binding :: "bind_request \<Rightarrow> string \<Rightarrow> gate_state \<Rightarrow> gate_state" where
  "write_binding q actor_id g =
     (let n = gt_sequence g (bq_pid q)
      in g\<lparr>gt_sequence := (gt_sequence g)(bq_pid q := Suc n),
           gt_bindings := AList.update (binding_name (bq_pid q) n) (binding_value q actor_id) (gt_bindings g)\<rparr>)"

definition bind_task_lane :: "host \<Rightarrow> env \<Rightarrow> bind_request \<Rightarrow> (gate_state, string) op" where
  "bind_task_lane h env q =
     bindS (liftS (if bq_key q \<noteq> PNone \<and> \<not> is_nonempty_str (bq_key q)
                   then Inl (InfrastructureError ''native lane key must be a non-empty string'')
                   else if bq_metadata q \<noteq> PNone \<and> \<not> is_dict (bq_metadata q)
                   then Inl (InfrastructureError ''actor metadata must be an object'') else Inr ())) (\<lambda>_.
     bindS (liftS (resolve_actor h env (bq_source q))) (\<lambda>resolved g.
       let (actor_id, native) =
             (if bq_key q \<noteq> PNone \<and> map_of env ''NATIVE_REPLAY_MODE'' = Some ''record''
              then lane_default (bq_pid q, str_of (bq_key q)) resolved (gt_native_lanes g)
              else (resolved, gt_native_lanes g));
           task_key = (bq_pid q, bq_source q);
           first = (map_of (gt_task_lanes g) task_key = None);
           (previous, tasks) = lane_default task_key actor_id (gt_task_lanes g);
           g = g\<lparr>gt_native_lanes := native, gt_task_lanes := tasks\<rparr>
       in if previous \<noteq> actor_id then (Inl (MismatchError ''native task changed lanes''), g)
          else (Inr actor_id,
                if first \<and> (bq_key q \<noteq> PNone \<or> truthy (bq_metadata q)) \<and>
                   env_or env ''NATIVE_REPLAY_LANE_BINDING_DIR'' [] \<noteq> []
                then write_binding q actor_id g else g)))"

section \<open>The gate\<close>

record gate_request =
  gq_bind :: bind_request
  gq_role :: string
  gq_session :: "string option"
  gq_llm_role :: "string option"
  gq_target :: "string option"

definition required_env :: "env \<Rightarrow> string \<Rightarrow> string res" where
  "required_env env k = (case map_of env k of None \<Rightarrow> Inl (PyError ''KeyError'') | Some v \<Rightarrow> Inr v)"

definition enter_context :: "env \<Rightarrow> gate_request \<Rightarrow> string \<Rightarrow> string \<Rightarrow> sdk_context \<Rightarrow> context_tokens \<times> sdk_context" where
  "enter_context env q actor_id target =
     set_context actor_id (gq_role q) None (gq_session q) (gq_llm_role q) target"

definition ready_value :: "gate_request \<Rightarrow> string \<Rightarrow> string \<Rightarrow> pyval" where
  "ready_value q run_id actor_id = PDict (
     [(''schema_version'', PStr ''native-agent-replay.actor-ready/v1''), (''run_id'', PStr run_id),
      (''actor_id'', PStr actor_id), (''source_actor_id'', PStr (bq_source (gq_bind q))),
      (''process_role'', PStr (gq_role q)), (''pid'', PInt (bq_pid (gq_bind q))),
      (''ready_at_ns'', PInt (bq_now (gq_bind q)))] @
     (if truthy (bq_metadata (gq_bind q)) then [(''actor_metadata'', bq_metadata (gq_bind q))] else []))"

text \<open>The gate file as it is on arrival, and what the wait for it ends with: \<open>None\<close> is a timeout.\<close>

definition release_time :: "host \<Rightarrow> env \<Rightarrow> string \<Rightarrow> string \<Rightarrow> pyval option \<Rightarrow> int res" where
  "release_time h env run_id actor_id opened =
     (case opened of
        None \<Rightarrow> Inl (InfrastructureError ''timed out waiting for replay gate'')
      | Some payload \<Rightarrow>
          if pget payload ''run_id'' \<noteq> PStr run_id then Inl (InfrastructureError ''start gate belongs to another run'')
          else if \<not> is_int (pget payload ''opened_at_ns'') then Inl (InfrastructureError ''start gate has no monotonic timestamp'')
          else bindR (arrival_offset h env actor_id)
                 (\<lambda>offset. Inr (int_of (pget payload ''opened_at_ns'') + \<lfloor>offset * 1000000000\<rfloor>)))"

text \<open>
  The result is the context that the task enters, with its tokens, and the time before which it does not
  return when it waited.
\<close>

definition ready_and_wait ::
    "host \<Rightarrow> env \<Rightarrow> pyval option \<Rightarrow> pyval option \<Rightarrow> gate_request \<Rightarrow> sdk_context \<Rightarrow>
     (gate_state, (context_tokens \<times> sdk_context) \<times> int option) op" where
  "ready_and_wait h env present opened q cx =
     bindS (bind_task_lane h env (gq_bind q)) (\<lambda>actor_id.
     bindS (liftS (if str_or (gq_target q) [] \<noteq> [] then Inr (the (gq_target q)) else target_for_actor h env actor_id)) (\<lambda>target g.
       let key = (bq_pid (gq_bind q), actor_id); entered = enter_context env q actor_id target cx
       in if key \<in> set (gt_gated g) then (Inr (entered, None), g)
          else
            bindS (liftS (required_env env ''NATIVE_REPLAY_READY_DIR'')) (\<lambda>_.
            bindS (liftS (required_env env ''NATIVE_REPLAY_START_GATE'')) (\<lambda>_.
            bindS (liftS (required_env env ''NATIVE_REPLAY_RUN_ID'')) (\<lambda>run_id.
              case present of
                Some payload \<Rightarrow>
                  liftS (if pget payload ''run_id'' \<noteq> PStr run_id
                         then Inl (InfrastructureError ''start gate belongs to another run'') else Inr (entered, None))
              | None \<Rightarrow>
                  bindS (updateS (\<lambda>g. g\<lparr>gt_ready := AList.update (actor_id @ ''.json'') (ready_value q run_id actor_id) (gt_ready g)\<rparr>)) (\<lambda>_.
                  bindS (liftS (release_time h env run_id actor_id opened)) (\<lambda>release.
                    liftS (Inr (entered, Some release)))))))
            (g\<lparr>gt_gated := gt_gated g @ [key]\<rparr>)))"

section \<open>Gated calls\<close>

definition IDENTITY_ENV :: "(string \<times> string) list" where
  "IDENTITY_ENV =
     [(''actor_id'', ''NATIVE_REPLAY_ACTOR_ID''), (''process_role'', ''NATIVE_REPLAY_PROCESS_ROLE''),
      (''session_id'', ''NATIVE_REPLAY_SESSION_ID''), (''llm_role'', ''NATIVE_REPLAY_LLM_ROLE''),
      (''target_id'', ''NATIVE_REPLAY_TARGET_ID'')]"

text \<open>The context in the environment of child processes, and what was there before.\<close>

definition export_context :: "env \<Rightarrow> sdk_context \<Rightarrow> (string \<times> string option) list \<times> env" where
  "export_context env cx =
     (let context = PDict (current_context env cx) in
      (map (\<lambda>(k, name). (name, map_of env name)) IDENTITY_ENV,
       fold (\<lambda>(k, name) e. if is_nonempty_str (pget context k) then AList.update name (str_of (pget context k)) e else e)
         IDENTITY_ENV env))"

definition restore_environment :: "(string \<times> string option) list \<Rightarrow> env \<Rightarrow> env" where
  "restore_environment previous env =
     fold (\<lambda>(name, v) e. case v of None \<Rightarrow> AList.delete name e | Some x \<Rightarrow> AList.update name x e) previous env"

record worker =
  wk_env :: env
  wk_context :: sdk_context
  wk_gate :: gate_state
  wk_terminals :: "(string \<times> pyval) list"

definition gated_call ::
    "host \<Rightarrow> pyval option \<Rightarrow> pyval option \<Rightarrow> gate_request \<Rightarrow> (worker, 'a) op \<Rightarrow> (worker, 'a) op" where
  "gated_call h present opened q m w =
     (case ready_and_wait h (wk_env w) present opened q (wk_context w) (wk_gate w) of
        (Inl e, g) \<Rightarrow> (Inl e, w\<lparr>wk_gate := g\<rparr>)
      | (Inr ((tokens, cx), release), g) \<Rightarrow>
          let (previous, env) = export_context (wk_env w) cx in
          case m (w\<lparr>wk_env := env, wk_context := cx, wk_gate := g\<rparr>) of
            (r, t) \<Rightarrow> (r, t\<lparr>wk_env := restore_environment previous (wk_env t),
                           wk_context := reset_context tokens (wk_context t)\<rparr>))"

definition gated_callable ::
    "host \<Rightarrow> pyval option \<Rightarrow> pyval option \<Rightarrow> int \<Rightarrow> int \<Rightarrow> string \<Rightarrow> string \<Rightarrow> (worker, 'a) op \<Rightarrow> (worker, 'a) op" where
  "gated_callable h present opened pid now source role m =
     gated_call h present opened
       \<lparr>gq_bind = \<lparr>bq_pid = pid, bq_now = now, bq_source = source, bq_key = PNone, bq_metadata = PNone\<rparr>,
        gq_role = role, gq_session = None, gq_llm_role = None, gq_target = None\<rparr> m"

definition report_terminal :: "host \<Rightarrow> (string \<Rightarrow> string) \<Rightarrow> int \<Rightarrow> int \<Rightarrow> string \<Rightarrow> native \<Rightarrow> (worker, unit) op" where
  "report_terminal h digest pid now status result w =
     (case report_task_terminal h digest (wk_env w) pid now (wk_context w) result status None None None (wk_terminals w) of
        (r, files) \<Rightarrow> (r, w\<lparr>wk_terminals := files\<rparr>))"

text \<open>A tuple whose second element is not \<open>"ok"\<close> tells that the task failed.\<close>

definition native_success :: "native \<Rightarrow> bool" where
  "native_success v = (case v of NTuple vs \<Rightarrow> length vs < 2 \<or> vs ! 1 = NStr ''ok'' | _ \<Rightarrow> True)"

text \<open>The lock of the lane only delays the task; an error of the first report is reported as well.\<close>

definition terminal_body ::
    "host \<Rightarrow> (string \<Rightarrow> string) \<Rightarrow> int \<Rightarrow> int \<Rightarrow> (worker, native) op \<Rightarrow> (worker, native) op" where
  "terminal_body h digest pid now m w =
     (case bindS m (\<lambda>result. bindS (report_terminal h digest pid now (if native_success result then ''success'' else ''failure'') result)
               (\<lambda>_. liftS (Inr result))) w of
        (Inr result, t) \<Rightarrow> (Inr result, t)
      | (Inl e, t) \<Rightarrow>
          bindS (report_terminal h digest pid now ''failure'' (native_of (exception_value e))) (\<lambda>_. liftS (Inl e)) t)"

definition gated_terminal_callable ::
    "host \<Rightarrow> (string \<Rightarrow> string) \<Rightarrow> pyval option \<Rightarrow> pyval option \<Rightarrow> int \<Rightarrow> int \<Rightarrow> string \<Rightarrow> string \<Rightarrow> pyval \<Rightarrow>
     (worker, native) op \<Rightarrow> (worker, native) op" where
  "gated_terminal_callable h digest present opened pid now source role key m =
     gated_call h present opened
       \<lparr>gq_bind = \<lparr>bq_pid = pid, bq_now = now, bq_source = source, bq_key = key, bq_metadata = PNone\<rparr>,
        gq_role = role, gq_session = None, gq_llm_role = None, gq_target = None\<rparr>
       (terminal_body h digest pid now m)"

end
