(* ===== verification/Roster.thy ===== *)
theory Roster
  imports Recording Gate
begin

text \<open>
  supervisor.py: the actors that a recording has seen, the tasks whose failure ends a run, and the cutoff of
  the CORAL teams.

  A directory of JSON files is the list of their names and values; the ledger files of the stage are given
  as the list of their records, in the order the files are read.
\<close>

section \<open>The actors of a recording\<close>

record actor_entry =
  ae_source :: "string option"
  ae_sources :: "string list"
  ae_role :: pyval
  ae_task :: pyval
  ae_lane :: "pyval option"

type_synonym roster = "(string \<times> actor_entry) list"

definition new_actor :: "string \<Rightarrow> pyval \<Rightarrow> actor_entry" where
  "new_actor actor role =
     \<lparr>ae_source = None, ae_sources = [], ae_role = role, ae_task = PDict [(''dynamic_actor'', PStr actor)], ae_lane = None\<rparr>"

definition add_source :: "pyval \<Rightarrow> actor_entry \<Rightarrow> actor_entry" where
  "add_source source e =
     (if \<not> is_nonempty_str source then e
      else
        let s = str_of source; e = e\<lparr>ae_sources := (if s \<in> set (ae_sources e) then ae_sources e else ae_sources e @ [s])\<rparr>
        in if ae_source e = None then e\<lparr>ae_source := Some s, ae_task := PDict [(''source_actor_id'', PStr s)]\<rparr> else e)"

definition add_lane :: "pyval \<Rightarrow> actor_entry \<Rightarrow> actor_entry res" where
  "add_lane metadata e =
     (if metadata = PNone then Inr e
      else bindR (checks
        [require (is_dict metadata) ''metadata is not an object'',
         require (case ae_lane e of None \<Rightarrow> True | Some previous \<Rightarrow> py_eq previous metadata)
           ''actor declared conflicting lane metadata''])
        (\<lambda>_. Inr (e\<lparr>ae_lane := Some metadata\<rparr>)))"

definition declare_actor :: "string \<Rightarrow> pyval \<Rightarrow> pyval \<Rightarrow> pyval \<Rightarrow> roster \<Rightarrow> roster res" where
  "declare_actor actor source role metadata table =
     (let e = (case map_of table actor of None \<Rightarrow> new_actor actor role | Some e \<Rightarrow> e);
          e = add_source source e;
          e = (if ae_role e = PNone \<and> is_str role then e\<lparr>ae_role := role\<rparr> else e)
      in bindR (add_lane metadata e) (\<lambda>e. Inr (AList.update actor e table)))"

definition declare_ready :: "host \<Rightarrow> pyval \<Rightarrow> roster \<Rightarrow> roster res" where
  "declare_ready h ready table =
     bindR (require (is_dict ready) ''expected a JSON object'') (\<lambda>_.
     bindR (pidx ready ''actor_id'') (\<lambda>a.
       declare_actor (py_str h a) (pget ready ''source_actor_id'') (pget ready ''process_role'')
         (pget ready ''actor_metadata'') table))"

definition declare_binding :: "host \<Rightarrow> pyval \<Rightarrow> roster \<Rightarrow> roster res" where
  "declare_binding h binding table =
     bindR (require (is_dict binding) ''expected a JSON object'') (\<lambda>_.
     let actor = py_str h (pget_or binding ''actor_id'' (PStr [])) in
     bindR (require (actor \<noteq> []) ''native lane binding has no actor'') (\<lambda>_.
       declare_actor actor (pget binding ''source_actor_id'') (pget binding ''process_role'')
         (pget binding ''actor_metadata'') table))"

definition observe_record :: "host \<Rightarrow> pyval \<Rightarrow> roster \<Rightarrow> roster res" where
  "observe_record h record table =
     (let actor = py_str h (pget_or record ''actor_id'' (PStr []))
      in if actor = [] then Inr table else declare_actor actor PNone (pget record ''process_role'') PNone table)"

definition render_actor :: "string \<times> actor_entry \<Rightarrow> pyval" where
  "render_actor item =
     (let (actor, e) = item in PDict (
       [(''actor_id'', PStr actor), (''source_actor_id'', opt_str (ae_source e)),
        (''source_actor_ids'', PList (map PStr (ae_sources e))), (''process_role'', ae_role e), (''task'', ae_task e)] @
       (case ae_lane e of None \<Rightarrow> [] | Some lane \<Rightarrow> [(''lane'', lane)])))"

definition actors_from_stage ::
    "host \<Rightarrow> (string \<times> pyval) list \<Rightarrow> (string \<times> pyval) list \<Rightarrow> pyval list \<Rightarrow> pyval \<Rightarrow> pyval list res" where
  "actors_from_stage h ready bindings stage tails =
     bindR (foldR (declare_ready h) (map snd (sort_key fst ready)) []) (\<lambda>table.
     bindR (foldR (declare_binding h) (map snd (sort_key fst bindings)) table) (\<lambda>table.
     bindR (foldR (observe_record h) stage table) (\<lambda>table.
     bindR (foldR (observe_record h)
        (concat (map (\<lambda>k. items_of (pget_or tails k (PList []))) [''llm_requests'', ''operations''])) table) (\<lambda>table.
       Inr (map render_actor (sort_key fst table))))))"

section \<open>Failed tasks\<close>

text \<open>The one failure that is expected is the time-out of a task that the recording left open.\<close>

definition expected_cutoff :: "string list \<Rightarrow> (string \<times> string) list \<Rightarrow> string \<Rightarrow> pyval \<Rightarrow> bool" where
  "expected_cutoff cutoff_sources mapping actor_id terminal \<longleftrightarrow>
     (let task = pget terminal ''task''; source = (if is_dict task then pget task ''source_actor_id'' else PNone);
          result = pget terminal ''result'';
          error_type = (if is_dict result then pget result ''error_type'' else PNone)
      in is_str source \<and> str_of source \<in> set cutoff_sources \<and> map_of mapping (str_of source) = Some actor_id \<and>
         error_type = PStr ''TimeoutError'')"

definition unexpected_failed_tasks ::
    "host \<Rightarrow> string \<Rightarrow> string \<Rightarrow> recording option \<Rightarrow> pyval list \<Rightarrow> string list res" where
  "unexpected_failed_tasks h mode reason b terminals =
     bindR (case b of
              Some r \<Rightarrow> if mode = ''replay'' \<and> reason = ''fixed-work-complete'' then cutoff_source_actor_ids h r else Inr []
            | None \<Rightarrow> Inr []) (\<lambda>cutoff_sources.
     bindR (case b of Some r \<Rightarrow> actor_map h r | None \<Rightarrow> Inr []) (\<lambda>mapping.
       Inr (List.map_filter (\<lambda>terminal.
         let actor_id = py_str h (pget_or terminal ''actor_id'' (PStr ''unknown''))
         in if pget terminal ''status'' = PStr ''failure'' \<and> \<not> expected_cutoff cutoff_sources mapping actor_id terminal
            then Some actor_id else None) terminals)))"

section \<open>The cutoff of a CORAL team\<close>

type_synonym team_cutoff = "int \<times> int \<times> string"

definition team_children :: "pyval list \<Rightarrow> (string \<times> string) list" where
  "team_children actors = List.map_filter (\<lambda>actor.
     let actor_id = pget actor ''actor_id''; lane = pget actor ''lane''; parent = pget lane ''parent_actor_id''
     in if is_str actor_id \<and> is_dict lane \<and> pget lane ''lane_kind'' = PStr ''agent'' \<and> is_str parent
        then Some (str_of parent, str_of actor_id) else None) actors"

text \<open>The cutoff of a team in the monotonic clock of the run, for each of its agents.\<close>

definition add_team_cutoff ::
    "(string \<times> string) list \<Rightarrow> int \<Rightarrow> int \<Rightarrow> pyval \<Rightarrow> (string \<times> team_cutoff) list \<Rightarrow> (string \<times> team_cutoff) list" where
  "add_team_cutoff children gate_at_ns gate_at_epoch_ns terminal cutoffs =
     (let team = pget terminal ''actor_id''; result = pget terminal ''result'';
          epoch = pget result ''replay_cutoff_at_epoch_ns''; why = pget result ''termination_reason''
      in if \<not> is_str team \<or> \<not> is_dict result \<or> \<not> is_int epoch \<or> \<not> is_str why then cutoffs
         else
           let cutoff = (gate_at_ns + (int_of epoch - gate_at_epoch_ns), int_of epoch, str_of why)
           in fold (\<lambda>(parent, child). if parent = str_of team then AList.update child cutoff else (\<lambda>cs. cs)) children cutoffs)"

definition team_cutoffs :: "pyval list \<Rightarrow> pyval list \<Rightarrow> int \<Rightarrow> int \<Rightarrow> (string \<times> team_cutoff) list" where
  "team_cutoffs actors terminals gate_at_ns gate_at_epoch_ns =
     fold (add_team_cutoff (team_children actors) gate_at_ns gate_at_epoch_ns) (filter is_dict terminals) []"

text \<open>A task boundary that stands for its child sessions runs until the cutoff.\<close>

definition clamped_elapsed :: "pyval \<Rightarrow> int \<Rightarrow> int \<Rightarrow> int \<Rightarrow> int" where
  "clamped_elapsed record s elapsed cutoff =
     (let task_boundary = (pget record ''replay_entry'' = PStr ''enter-and-preserve-descendants'' \<and>
                           pget record ''name'' = PStr ''task'');
          current_end = (if task_boundary then cutoff else s + elapsed);
          observed = pget record ''interrupted_at_ns'';
          current_end = (if is_int observed then min current_end (int_of observed) else current_end)
      in max s (min current_end cutoff) - s)"

definition clamp_tail :: "host \<Rightarrow> (string \<times> team_cutoff) list \<Rightarrow> pyval \<Rightarrow> pyval res" where
  "clamp_tail h cutoffs record =
     (case map_of cutoffs (py_str h (pget record ''actor_id'')) of
        None \<Rightarrow> Inr record
      | Some (cutoff_monotonic, cutoff_epoch, why) \<Rightarrow>
          let started = pget_or record ''started_at_ns'' (pget record ''source_started_at_ns'') in
          if \<not> is_int started then Inr record
          else bindR (py_int (pget_or record ''elapsed_ns'' (PInt 0))) (\<lambda>elapsed.
            Inr (pset ''lane_termination_reason'' (PStr why)
                  (pset ''lane_terminated_at_epoch_ns'' (PInt cutoff_epoch)
                  (pset ''lane_terminated_at_ns'' (PInt cutoff_monotonic)
                  (pset ''elapsed_ns'' (PInt (clamped_elapsed record (int_of started) elapsed cutoff_monotonic)) record))))))"

definition apply_coral_task_cutoffs ::
    "host \<Rightarrow> string \<Rightarrow> pyval \<Rightarrow> pyval list \<Rightarrow> pyval list \<Rightarrow> int \<Rightarrow> int \<Rightarrow> pyval res" where
  "apply_coral_task_cutoffs h adapter_name tails terminals actors gate_at_ns gate_at_epoch_ns =
     (let operations = items_of (pget_or tails ''operations'' (PList []));
          requests = items_of (pget_or tails ''llm_requests'' (PList []))
      in if adapter_name \<noteq> ''coral'' then Inr (PDict [(''operations'', PList operations), (''llm_requests'', PList requests)])
         else
           let cutoffs = team_cutoffs actors terminals gate_at_ns gate_at_epoch_ns
           in bindR (mapR (clamp_tail h cutoffs) requests) (\<lambda>requests.
              bindR (mapR (\<lambda>r. if pget r ''process_role'' = PStr ''coral-opencode'' then clamp_tail h cutoffs r else Inr r) operations)
                (\<lambda>operations. Inr (PDict [(''operations'', PList operations), (''llm_requests'', PList requests)]))))"

text \<open>A clamped record: what the cutoff of its team leaves of it.\<close>

definition within_cutoff :: "host \<Rightarrow> (string \<times> team_cutoff) list \<Rightarrow> pyval \<Rightarrow> pyval \<Rightarrow> bool" where
  "within_cutoff h cutoffs r r' \<longleftrightarrow>
     (case map_of cutoffs (py_str h (pget r ''actor_id'')) of
        None \<Rightarrow> r' = r
      | Some (cutoff, epoch, why) \<Rightarrow>
          let s = int_of (pget_or r ''started_at_ns'' (pget r ''source_started_at_ns'')); e = int_of (pget r' ''elapsed_ns'')
          in r' = r \<and> \<not> is_int (pget_or r ''started_at_ns'' (pget r ''source_started_at_ns'')) \<or>
             0 \<le> e \<and> s + e \<le> max s cutoff \<and>
             (pget r ''replay_entry'' \<noteq> PStr ''enter-and-preserve-descendants'' \<longrightarrow>
                (\<exists>elapsed. py_int (pget_or r ''elapsed_ns'' (PInt 0)) = Inr elapsed \<and> e \<le> max 0 elapsed)) \<and>
             (\<forall>k. k \<notin> {''elapsed_ns'', ''lane_terminated_at_ns'', ''lane_terminated_at_epoch_ns'', ''lane_termination_reason''} \<longrightarrow>
                pget r' k = pget r k))"

lemma clamped_elapsed_bounds:
  "0 \<le> clamped_elapsed v s elapsed cutoff"
  "s + clamped_elapsed v s elapsed cutoff \<le> max s cutoff"
  "pget v ''replay_entry'' \<noteq> PStr ''enter-and-preserve-descendants'' \<longrightarrow> clamped_elapsed v s elapsed cutoff \<le> max 0 elapsed"
  by (auto simp: clamped_elapsed_def Let_def)

lemma clamp_within:
  assumes "clamp_tail h cutoffs r = Inr r'"
  shows "within_cutoff h cutoffs r r'"
proof (cases "map_of cutoffs (py_str h (pget r ''actor_id''))")
  case None
  then show ?thesis using assms by (simp add: clamp_tail_def within_cutoff_def)
next
  case (Some c)
  obtain cutoff epoch why where c: "c = (cutoff, epoch, why)" by (cases c)
  let ?started = "pget_or r ''started_at_ns'' (pget r ''source_started_at_ns'')"
  show ?thesis
  proof (cases "is_int ?started")
    case False
    then have "r' = r" using assms by (simp add: clamp_tail_def Some c Let_def)
    then show ?thesis using False Some c by (simp add: within_cutoff_def Let_def)
  next
    case True
    then obtain elapsed where elapsed: "py_int (pget_or r ''elapsed_ns'' (PInt 0)) = Inr elapsed"
      and r': "r' = pset ''lane_termination_reason'' (PStr why) (pset ''lane_terminated_at_epoch_ns'' (PInt epoch)
        (pset ''lane_terminated_at_ns'' (PInt cutoff)
        (pset ''elapsed_ns'' (PInt (clamped_elapsed r (int_of ?started) elapsed cutoff)) r)))"
      using assms by (auto simp: clamp_tail_def Some c Let_def bindR_eq_Inr)
    have e: "pget r' ''elapsed_ns'' = PInt (clamped_elapsed r (int_of ?started) elapsed cutoff)" by (simp add: r' pget_pset)
    show ?thesis
      unfolding within_cutoff_def Some c using clamped_elapsed_bounds [where v = r and s = "int_of ?started" and elapsed = elapsed and cutoff = cutoff] elapsed
      by (simp add: e Let_def) (simp add: r' pget_pset)
  qed
qed

text \<open>
  C36: The tails of the agents of a CORAL team end at the cutoff of the team: the time that a request or a
  tool of an agent is said to have run is never negative, does not reach past the cutoff unless it started
  there, and is no longer than what was observed, except for the task boundaries that stand for their child
  sessions; nothing else of a tail changes, and a tail without a team cutoff is kept as it is.
\<close>

theorem coral_tails_end_at_team_cutoff:
  assumes "apply_coral_task_cutoffs h ''coral'' tails terminals actors gate_at_ns gate_at_epoch_ns = Inr tails'"
  shows "list_all2 (within_cutoff h (team_cutoffs actors terminals gate_at_ns gate_at_epoch_ns))
      (items_of (pget_or tails ''llm_requests'' (PList []))) (items_of (pget tails' ''llm_requests'')) \<and>
    list_all2 (\<lambda>r r'. if pget r ''process_role'' = PStr ''coral-opencode''
        then within_cutoff h (team_cutoffs actors terminals gate_at_ns gate_at_epoch_ns) r r' else r' = r)
      (items_of (pget_or tails ''operations'' (PList []))) (items_of (pget tails' ''operations''))"
proof -
  let ?cutoffs = "team_cutoffs actors terminals gate_at_ns gate_at_epoch_ns"
  from assms obtain requests operations where
    requests: "mapR (clamp_tail h ?cutoffs) (items_of (pget_or tails ''llm_requests'' (PList []))) = Inr requests" and
    operations: "mapR (\<lambda>r. if pget r ''process_role'' = PStr ''coral-opencode'' then clamp_tail h ?cutoffs r else Inr r)
      (items_of (pget_or tails ''operations'' (PList []))) = Inr operations" and
    tails': "tails' = PDict [(''operations'', PList operations), (''llm_requests'', PList requests)]"
    by (auto simp: apply_coral_task_cutoffs_def Let_def bindR_eq_Inr)
  have "list_all2 (within_cutoff h ?cutoffs) (items_of (pget_or tails ''llm_requests'' (PList []))) requests"
    using requests [unfolded mapR_eq_Inr] by (rule list_all2_mono) (rule clamp_within)
  moreover have "list_all2 (\<lambda>r r'. if pget r ''process_role'' = PStr ''coral-opencode'' then within_cutoff h ?cutoffs r r' else r' = r)
      (items_of (pget_or tails ''operations'' (PList []))) operations"
    using operations [unfolded mapR_eq_Inr] by (rule list_all2_mono) (auto split: if_splits intro: clamp_within)
  ultimately show ?thesis by (simp add: tails')
qed

text \<open>A request of 50 nanoseconds whose team was stopped 30 nanoseconds after it began.\<close>

definition team_actors :: "pyval list" where
  "team_actors = [PDict [(''actor_id'', PStr ''a1''), (''lane'', PDict [(''lane_kind'', PStr ''agent''), (''parent_actor_id'', PStr ''team'')])]]"

definition team_terminals :: "pyval list" where
  "team_terminals = [PDict [(''actor_id'', PStr ''team''), (''result'', PDict
     [(''replay_cutoff_at_epoch_ns'', PInt 1040), (''termination_reason'', PStr ''max_total_turns'')])]]"

definition team_tails :: pyval where
  "team_tails = PDict [(''llm_requests'', PList
     [PDict [(''actor_id'', PStr ''a1''), (''started_at_ns'', PInt 110), (''elapsed_ns'', PInt 50)]])]"

theorem coral_tails_end_at_team_cutoff_witness:
  "\<exists>tails'. apply_coral_task_cutoffs plain_host ''coral'' team_tails team_terminals team_actors 100 1000 = Inr tails' \<and>
     list_all2 (within_cutoff plain_host [(''a1'', 140, 1040, ''max_total_turns'')])
       (items_of (pget team_tails ''llm_requests'')) (items_of (pget tails' ''llm_requests''))"
proof -
  have "\<not> isl (apply_coral_task_cutoffs plain_host ''coral'' team_tails team_terminals team_actors 100 1000)" by code_simp
  then obtain tails' where run: "apply_coral_task_cutoffs plain_host ''coral'' team_tails team_terminals team_actors 100 1000 = Inr tails'"
    by (cases "apply_coral_task_cutoffs plain_host ''coral'' team_tails team_terminals team_actors 100 1000") simp_all
  have "team_cutoffs team_actors team_terminals 100 1000 = [(''a1'', 140, 1040, ''max_total_turns'')]" by code_simp
  with coral_tails_end_at_team_cutoff [OF run] run show ?thesis by (auto simp: team_tails_def pget_or_def pget_def)
qed

end
