(* ===== verification/Lane_Identity.thy ===== *)
theory Lane_Identity
  imports Roster
begin

text \<open>
  The lanes of a recording come back in its replay: what the gate binds while a recording runs goes through
  the binding files, the roster of the actors and the identity map of the bundle to the gate of a replay.
\<close>

section \<open>Runs of the gate\<close>

definition bind_run :: "host \<Rightarrow> env \<Rightarrow> bind_request list \<Rightarrow> gate_state \<Rightarrow> gate_state" where
  "bind_run h env qs g = fold (\<lambda>q g. snd (bind_task_lane h env q g)) qs g"

definition fresh_gate :: "gate_state \<Rightarrow> bool" where
  "fresh_gate g \<longleftrightarrow> gt_native_lanes g = [] \<and> gt_task_lanes g = [] \<and> gt_bindings g = []"

text \<open>A recording names its actors itself.\<close>

definition recording_env :: "host \<Rightarrow> env \<Rightarrow> bool" where
  "recording_env h env \<longleftrightarrow>
     map_of env ''NATIVE_REPLAY_MODE'' = Some ''record'' \<and>
     env_mapping h env ''NATIVE_REPLAY_ACTOR_MAP'' = Inr (PDict []) \<and>
     env_or env ''NATIVE_REPLAY_ACTORS'' [] = [] \<and> env_or env ''NATIVE_REPLAY_LANE_BINDING_DIR'' [] \<noteq> []"

text \<open>A replay has the identity map and the actors of its bundle.\<close>

definition replay_env :: "host \<Rightarrow> recording \<Rightarrow> (string \<times> string) list \<Rightarrow> env \<Rightarrow> bool" where
  "replay_env h b mapping env \<longleftrightarrow>
     map_of env ''NATIVE_REPLAY_MODE'' \<noteq> Some ''record'' \<and>
     (\<exists>m. env_mapping h env ''NATIVE_REPLAY_ACTOR_MAP'' = Inr m \<and> (\<forall>s. pget m s = opt_str (map_of mapping s))) \<and>
     json_loads h (env_or env ''NATIVE_REPLAY_ACTORS'' []) = Some (PList (map PStr (actor_ids h b)))"

text \<open>Requests as an adapter with a refill scheduler makes them.\<close>

definition keyed_request :: "bind_request \<Rightarrow> bool" where
  "keyed_request q \<longleftrightarrow> 0 \<le> bq_pid q \<and> is_nonempty_str (bq_key q) \<and> (bq_metadata q = PNone \<or> is_dict (bq_metadata q))"

section \<open>The names of binding files\<close>

lemma binding_name_inject:
  assumes "0 \<le> p" "0 \<le> q" "binding_name p m = binding_name q n"
  shows "p = q \<and> m = n"
proof -
  have plain: "CHR ''-'' \<notin> set (nat_str k)" for k
    using nat_str_digits [of "CHR ''-''" k] by (auto simp: is_digit_def)
  have part: "takeWhile (\<lambda>c. c \<noteq> CHR ''-'') (nat_str k @ CHR ''-'' # t) = nat_str k" for k t
    using plain [of k] by (subst takeWhile_append2) auto
  have eq: "nat_str (nat p) @ CHR ''-'' # pad6 m @ ''.json'' = nat_str (nat q) @ CHR ''-'' # pad6 n @ ''.json''"
    using assms by (simp add: binding_name_def int_str_def)
  then have "nat_str (nat p) = nat_str (nat q)" using part by metis
  with eq have p: "nat p = nat q" and n: "pad6 m = pad6 n" by (simp_all add: nat_str_inject)
  from n have "m = n" using digits_val_pad by metis
  then show ?thesis using assms(1,2) p by simp
qed

section \<open>A recording\<close>

text \<open>The file that tells of a task which lane it runs in.\<close>

definition bound_by :: "pyval \<Rightarrow> string \<Rightarrow> string \<Rightarrow> bool" where
  "bound_by v source a \<longleftrightarrow> is_dict v \<and> pget v ''actor_id'' = PStr a \<and> pget v ''source_actor_id'' = PStr source"

definition lanes_written :: "gate_state \<Rightarrow> bool" where
  "lanes_written g \<longleftrightarrow>
     (\<forall>a \<in> ran (map_of (gt_native_lanes g)). safe_name a) \<and>
     (\<forall>pid source a. map_of (gt_task_lanes g) (pid, source) = Some a \<longrightarrow>
        safe_name a \<and> source \<noteq> [] \<and> (\<exists>name v. map_of (gt_bindings g) name = Some v \<and> bound_by v source a)) \<and>
     (\<forall>name \<in> dom (map_of (gt_bindings g)). \<exists>pid n. 0 \<le> pid \<and> name = binding_name pid n \<and> n < gt_sequence g pid)"

lemma lane_default_map:
  "map_of (snd (lane_default k v table)) k' =
     (if k' = k then Some (case map_of table k of None \<Rightarrow> v | Some u \<Rightarrow> u) else map_of table k')"
  by (simp add: lane_default_def map_add_def split: option.split)

lemma lane_default_lookup:
  assumes "lane_default k v table = (w, table')"
  shows "map_of table' k' = (if k' = k then Some w else map_of table k')"
    "w = (case map_of table k of None \<Rightarrow> v | Some u \<Rightarrow> u)"
  using assms by (auto simp: lane_default_def map_add_def split: option.splits)

lemma resolve_actor_safe:
  assumes "resolve_actor h env source = Inr a"
  shows "safe_name a"
  using assms by (auto simp: resolve_actor_def Let_def bindR_eq_Inr split: if_splits)

lemma resolve_actor_source:
  assumes "resolve_actor h env source = Inr a" and "env_mapping h env ''NATIVE_REPLAY_ACTOR_MAP'' = Inr (PDict [])"
  shows "source \<noteq> []"
  using assms by (auto simp: resolve_actor_def Let_def bindR_eq_Inr safe_name_def split: if_splits)

text \<open>A request of a recording leaves the tables and the files in step.\<close>

lemma bind_writes_lane:
  assumes "recording_env h env" and "keyed_request q" and "lanes_written g"
    and "bind_task_lane h env q g = (r, g')"
  shows "lanes_written g' \<and> (\<forall>a. r = Inr a \<longrightarrow> map_of (gt_task_lanes g') (bq_pid q, bq_source q) = Some a)"
proof (cases "resolve_actor h env (bq_source q)")
  case (Inl e)
  then have "g' = g" "r = Inl e" using assms(2,4) by (auto simp: bind_task_lane_def keyed_request_def)
  then show ?thesis using assms(3) by simp
next
  case (Inr resolved)
  let ?pid = "bq_pid q" and ?s = "bq_source q"
  obtain a native where native: "lane_default (?pid, str_of (bq_key q)) resolved (gt_native_lanes g) = (a, native)"
    by (rule prod.exhaust)
  obtain previous tasks where tasks: "lane_default (?pid, ?s) a (gt_task_lanes g) = (previous, tasks)"
    by (rule prod.exhaust)
  let ?g = "g\<lparr>gt_native_lanes := native, gt_task_lanes := tasks\<rparr>"
  have key: "bq_key q \<noteq> PNone" "is_nonempty_str (bq_key q)" "0 \<le> ?pid" using assms(2) by (auto simp: keyed_request_def)
  have run: "(r, g') = (if previous \<noteq> a then (Inl (MismatchError ''native task changed lanes''), ?g)
      else (Inr a, if map_of (gt_task_lanes g) (?pid, ?s) = None then write_binding q a ?g else ?g))"
    using assms(1,2,4) Inr native tasks key by (auto simp: bind_task_lane_def keyed_request_def recording_env_def)
  note native = lane_default_lookup [OF native]
  have old: "safe_name x" if "map_of (gt_native_lanes g) k = Some x" for k x
    using assms(3) ranI [of "map_of (gt_native_lanes g)" k x] that by (simp add: lanes_written_def)
  have a: "safe_name a"
    using native(2) resolve_actor_safe [OF Inr] old [of "(?pid, str_of (bq_key q))" a] by (simp split: option.splits)
  have safe: "safe_name a" "\<forall>x \<in> ran (map_of native). safe_name x"
  proof -
    have "safe_name x" if "map_of native k = Some x" for k x
      using that native(1) [of k] a old [of k x] by (simp split: if_splits)
    then show "\<forall>x \<in> ran (map_of native). safe_name x" by (auto simp: ran_def)
  qed (rule a)
  have source: "?s \<noteq> []" using resolve_actor_source [OF Inr] assms(1) by (simp add: recording_env_def)
  note written = assms(3) [unfolded lanes_written_def]
  show ?thesis
  proof (cases "map_of (gt_task_lanes g) (?pid, ?s)")
    case (Some b)
    then have "tasks = gt_task_lanes g" "previous = b" using tasks by (auto simp: lane_default_def)
    moreover from this have "lanes_written ?g" using written safe by (simp add: lanes_written_def)
    ultimately show ?thesis using run Some by (auto split: if_splits)
  next
    case None
    then have new: "previous = a" "\<And>k. map_of tasks k = (if k = (?pid, ?s) then Some a else map_of (gt_task_lanes g) k)"
      using lane_default_lookup [OF tasks] by simp_all
    let ?name = "binding_name ?pid (gt_sequence g ?pid)" and ?v = "binding_value q a"
    have fresh: "map_of (gt_bindings g) ?name = None"
    proof (rule ccontr)
      assume "map_of (gt_bindings g) ?name \<noteq> None"
      then obtain p n where "0 \<le> p" "?name = binding_name p n" "n < gt_sequence g p" using written by blast
      then show False using binding_name_inject [OF key(3)] by auto
    qed
    have v: "bound_by ?v ?s a" by (simp add: bound_by_def binding_value_def)
    have g': "g' = write_binding q a ?g" "r = Inr a" using run new(1) None by auto
    have "\<exists>name w. map_of (gt_bindings g') name = Some w \<and> bound_by w source b"
      if "map_of tasks (pid, source) = Some b" for pid source b
    proof (cases "(pid, source) = (?pid, ?s)")
      case True
      then show ?thesis using that new v by (intro exI [of _ ?name]) (auto simp: g' write_binding_def Let_def update_conv')
    next
      case False
      then have "map_of (gt_task_lanes g) (pid, source) = Some b" using that new(2) [of "(pid, source)"] by (simp split: if_splits)
      then obtain name w where "map_of (gt_bindings g) name = Some w" "bound_by w source b"
        using written by blast
      then show ?thesis using fresh
        by (intro exI [of _ name]) (auto simp: g' write_binding_def Let_def update_conv')
    qed
    moreover have "\<forall>name \<in> dom (map_of (gt_bindings g')). \<exists>p n. 0 \<le> p \<and> name = binding_name p n \<and> n < gt_sequence g' p"
    proof
      fix name assume "name \<in> dom (map_of (gt_bindings g'))"
      then consider "name = ?name" | "name \<in> dom (map_of (gt_bindings g))"
        by (auto simp: g' write_binding_def Let_def)
      then show "\<exists>p n. 0 \<le> p \<and> name = binding_name p n \<and> n < gt_sequence g' p"
      proof cases
        case 1
        then show ?thesis using key(3)
          by (intro exI [of _ ?pid] exI [of _ "gt_sequence g ?pid"]) (simp add: g' write_binding_def Let_def)
      next
        case 2
        then obtain p n where "0 \<le> p" "name = binding_name p n" "n < gt_sequence g p" using written by blast
        then show ?thesis by (intro exI [of _ p] exI [of _ n]) (auto simp: g' write_binding_def Let_def)
      qed
    qed
    moreover have "gt_native_lanes g' = native" "gt_task_lanes g' = tasks" by (simp_all add: g' write_binding_def Let_def)
    moreover have "safe_name b \<and> source \<noteq> []" if "map_of tasks (pid, source) = Some b" for pid source b
    proof (cases "(pid, source) = (?pid, ?s)")
      case True
      then show ?thesis using that new(2) [of "(pid, source)"] safe(1) source by simp
    next
      case False
      then have "map_of (gt_task_lanes g) (pid, source) = Some b" using that new(2) [of "(pid, source)"] by (simp split: if_splits)
      then show ?thesis using written by blast
    qed
    ultimately show ?thesis using safe(2) new(2) g'(2) by (simp add: lanes_written_def)
  qed
qed

lemma bind_run_writes_lanes:
  assumes "recording_env h env" and "fresh_gate g" and "\<forall>q \<in> set qs. keyed_request q"
  shows "lanes_written (bind_run h env qs g)"
  using assms(3)
proof (induction qs rule: rev_induct)
  case Nil
  then show ?case using assms(2) by (simp add: bind_run_def fresh_gate_def lanes_written_def)
next
  case (snoc q qs)
  then have "lanes_written (bind_run h env qs g)" "keyed_request q" by simp_all
  with bind_writes_lane [OF assms(1), of q "bind_run h env qs g"] show ?case
    by (cases "bind_task_lane h env q (bind_run h env qs g)") (simp add: bind_run_def)
qed

lemma bind_task_lanes:
  "gt_task_lanes (snd (bind_task_lane h env q g)) \<in>
     insert (gt_task_lanes g) (range (\<lambda>a. snd (lane_default (bq_pid q, bq_source q) a (gt_task_lanes g))))"
  unfolding bind_task_lane_def Let_def bindS_liftS
  by (simp add: case_prod_unfold write_binding_def Let_def split: sum.split)

lemma task_lane_stays:
  assumes "map_of (gt_task_lanes g) k = Some a"
  shows "map_of (gt_task_lanes (bind_run h env qs g)) k = Some a"
  using assms
proof (induction qs rule: rev_induct)
  case (snoc q qs)
  let ?g = "bind_run h env qs g"
  have "map_of (snd (lane_default j x (gt_task_lanes ?g))) k = Some a" for j x
    using snoc by (simp add: lane_default_def map_add_def split: option.split)
  then show ?case using bind_task_lanes [of h env q ?g] snoc by (auto simp: bind_run_def)
qed (simp add: bind_run_def)

section \<open>The roster\<close>

definition listed :: "string \<Rightarrow> string \<Rightarrow> roster \<Rightarrow> bool" where
  "listed source a table \<longleftrightarrow> (\<exists>e. map_of table a = Some e \<and> source \<in> set (ae_sources e))"

lemma add_source_listed: "source \<in> set (ae_sources e) \<Longrightarrow> source \<in> set (ae_sources (add_source v e))"
  by (simp add: add_source_def Let_def)

lemma declare_actor_lists:
  assumes "declare_actor actor v role metadata table = Inr table'"
  shows "listed source a table \<Longrightarrow> listed source a table'"
    and "v = PStr source \<Longrightarrow> source \<noteq> [] \<Longrightarrow> listed source actor table'"
proof -
  obtain e where e: "table' = AList.update actor e table"
    "ae_sources e = ae_sources (add_source v (case map_of table actor of None \<Rightarrow> new_actor actor role | Some e \<Rightarrow> e))"
    using assms by (auto simp: declare_actor_def add_lane_def Let_def bindR_eq_Inr split: if_splits)
  show "listed source a table'" if "listed source a table"
    using that e by (auto simp: listed_def update_conv' add_source_listed)
  show "listed source actor table'" if "v = PStr source" "source \<noteq> []"
    using that e by (auto simp: listed_def update_conv' add_source_def Let_def)
qed

lemma declared_stay:
  assumes "foldR f vs table = Inr table'" and "listed source a table"
    and "\<And>v t t'. f v t = Inr t' \<Longrightarrow> listed source a t \<Longrightarrow> listed source a t'"
  shows "listed source a table'"
  using assms(1,2)
proof (induction vs arbitrary: table)
  case (Cons v vs)
  then show ?case using assms(3) by (fastforce simp: bindR_eq_Inr)
qed simp

lemma pget_or_present: "pget v k = x \<Longrightarrow> x \<noteq> PNone \<Longrightarrow> pget_or v k d = x"
  by (auto simp: pget_def pget_or_def split: option.splits)

lemma declare_binding_lists:
  assumes "declare_binding h v table = Inr table'"
  shows "listed source a table \<Longrightarrow> listed source a table'"
    and "bound_by v source a \<Longrightarrow> source \<noteq> [] \<Longrightarrow> listed source a table'"
proof -
  have declared: "declare_actor (py_str h (pget_or v ''actor_id'' (PStr []))) (pget v ''source_actor_id'')
      (pget v ''process_role'') (pget v ''actor_metadata'') table = Inr table'"
    using assms unfolding declare_binding_def Let_def by (simp add: bindR_eq_Inr)
  show "listed source a table \<Longrightarrow> listed source a table'" by (rule declare_actor_lists(1) [OF declared])
  assume "bound_by v source a" "source \<noteq> []"
  then show "listed source a table'"
    using declare_actor_lists(2) [OF declared, of source] pget_or_present [of v "''actor_id''" "PStr a"]
    by (simp add: bound_by_def)
qed

lemma observed_stay: "observe_record h v table = Inr table' \<Longrightarrow> listed source a table \<Longrightarrow> listed source a table'"
  unfolding observe_record_def Let_def by (auto split: if_splits dest: declare_actor_lists(1))

lemma bindings_listed:
  assumes "foldR (declare_binding h) vs table = Inr table'" and "v \<in> set vs" and "bound_by v source a" "source \<noteq> []"
  shows "listed source a table'"
  using assms(1,2)
proof (induction vs arbitrary: table)
  case (Cons w vs)
  then obtain t where t: "declare_binding h w table = Inr t" "foldR (declare_binding h) vs t = Inr table'"
    by (auto simp: bindR_eq_Inr)
  show ?case
  proof (cases "w = v")
    case True
    then have "listed source a t" using declare_binding_lists(2) [OF t(1)] assms(3,4) by simp
    then show ?thesis by (rule declared_stay [OF t(2)]) (rule declare_binding_lists(1))
  next
    case False
    then show ?thesis using Cons.IH [OF t(2)] Cons.prems(2) by simp
  qed
qed simp

text \<open>A task that has a binding file is a source of its lane in the manifest.\<close>

lemma roster_names_source:
  assumes "actors_from_stage h ready bindings stage tails = Inr actors"
    and "map_of bindings name = Some v" and "bound_by v source a" "source \<noteq> []"
  shows "\<exists>actor \<in> set actors. pget actor ''actor_id'' = PStr a \<and> source_of source actor"
proof -
  from assms(1) obtain t0 t1 t2 t3 where t1: "foldR (declare_binding h) (map snd (sort_key fst bindings)) t0 = Inr t1"
    and t2: "foldR (observe_record h) stage t1 = Inr t2"
    and t3: "foldR (observe_record h)
        (concat (map (\<lambda>k. items_of (pget_or tails k (PList []))) [''llm_requests'', ''operations''])) t2 = Inr t3"
    and actors: "actors = map render_actor (sort_key fst t3)"
    unfolding actors_from_stage_def by (auto simp only: bindR_eq_Inr sum.inject)
  have "v \<in> set (map snd (sort_key fst bindings))" using map_of_SomeD [OF assms(2)] by force
  then have "listed source a t1" using bindings_listed [OF t1 _ assms(3,4)] by simp
  then have "listed source a t2" by (rule declared_stay [OF t2]) (rule observed_stay)
  then have "listed source a t3" by (rule declared_stay [OF t3]) (rule observed_stay)
  then obtain e where e: "map_of t3 a = Some e" "source \<in> set (ae_sources e)" by (auto simp: listed_def)
  have "pget (render_actor (a, e)) ''actor_id'' = PStr a" by (simp add: render_actor_def)
  moreover have "source_of source (render_actor (a, e))"
    using e(2) assms(4) by (force simp: source_of_def actor_sources_def render_actor_def pget_or_def)
  moreover have "render_actor (a, e) \<in> set actors" using map_of_SomeD [OF e(1)] by (simp add: actors)
  ultimately show ?thesis by blast
qed

section \<open>A replay\<close>

definition typed_request :: "bind_request \<Rightarrow> bool" where
  "typed_request q \<longleftrightarrow> (bq_key q = PNone \<or> is_nonempty_str (bq_key q)) \<and> (bq_metadata q = PNone \<or> is_dict (bq_metadata q))"

lemma resolve_mapped:
  assumes "replay_env h b mapping env" and "map_of mapping source = Some a" and "safe_name a" and "a \<in> set (actor_ids h b)"
  shows "resolve_actor h env source = Inr a"
proof -
  obtain m where m: "env_mapping h env ''NATIVE_REPLAY_ACTOR_MAP'' = Inr m" "pget m source = PStr a"
    using assms(1,2) by (auto simp: replay_env_def opt_str_def)
  have "check_inventory h env a = Inr ()"
    using assms(1,4) by (auto simp: check_inventory_def replay_env_def json_contains_def Let_def)
  then show ?thesis using m assms(3) by (simp add: resolve_actor_def Let_def)
qed

lemma replay_lanes_resolved:
  assumes "map_of env ''NATIVE_REPLAY_MODE'' \<noteq> Some ''record''" and "fresh_gate g"
  shows "\<forall>pid source a. map_of (gt_task_lanes (bind_run h env qs g)) (pid, source) = Some a \<longrightarrow> resolve_actor h env source = Inr a"
proof (induction qs rule: rev_induct)
  case Nil
  then show ?case using assms(2) by (simp add: bind_run_def fresh_gate_def)
next
  case (snoc q qs)
  let ?g = "bind_run h env qs g"
  have "gt_task_lanes (snd (bind_task_lane h env q ?g)) = gt_task_lanes ?g \<or>
      (\<exists>a. resolve_actor h env (bq_source q) = Inr a \<and>
         gt_task_lanes (snd (bind_task_lane h env q ?g)) = snd (lane_default (bq_pid q, bq_source q) a (gt_task_lanes ?g)))"
    unfolding bind_task_lane_def Let_def bindS_liftS using assms(1)
    by (simp add: case_prod_unfold write_binding_def Let_def split: sum.split)
  then show ?case
  proof
    assume "\<exists>a. resolve_actor h env (bq_source q) = Inr a \<and>
         gt_task_lanes (snd (bind_task_lane h env q ?g)) = snd (lane_default (bq_pid q, bq_source q) a (gt_task_lanes ?g))"
    then obtain a where a: "resolve_actor h env (bq_source q) = Inr a"
      "gt_task_lanes (snd (bind_task_lane h env q ?g)) = snd (lane_default (bq_pid q, bq_source q) a (gt_task_lanes ?g))" by blast
    then have "map_of (gt_task_lanes (snd (bind_task_lane h env q ?g))) k =
        (if k = (bq_pid q, bq_source q) then Some (case map_of (gt_task_lanes ?g) k of None \<Rightarrow> a | Some u \<Rightarrow> u)
         else map_of (gt_task_lanes ?g) k)" for k
      by (simp add: lane_default_map)
    then show ?case using snoc a(1) by (auto simp: bind_run_def split: option.splits if_splits)
  qed (use snoc in \<open>simp add: bind_run_def\<close>)
qed

lemma replay_binds:
  assumes "map_of env ''NATIVE_REPLAY_MODE'' \<noteq> Some ''record''" and "fresh_gate g" and "typed_request q"
    and "resolve_actor h env (bq_source q) = Inr a"
  shows "fst (bind_task_lane h env q (bind_run h env qs g)) = Inr a"
proof -
  let ?g = "bind_run h env qs g"
  have "map_of (gt_task_lanes ?g) (bq_pid q, bq_source q) \<in> {None, Some a}"
    using replay_lanes_resolved [OF assms(1,2), of h qs] assms(4)
    by (cases "map_of (gt_task_lanes ?g) (bq_pid q, bq_source q)") auto
  then show ?thesis
    using assms(1,3,4) by (auto simp: bind_task_lane_def typed_request_def bindS_liftS lane_default_def Let_def)
qed

text \<open>
  C34: What the gate binds while a recording runs comes back in its replay.  Whatever lane a task of a refill
  scheduler got in the recording, in whichever worker process and after whichever other tasks, the binding
  files, the roster of the actors and the identity map of the bundle carry it to the gate of the replay,
  which binds the task to the same lane, in any worker and in any order.
\<close>

theorem replay_restores_recorded_lanes:
  assumes "recording_env h env" and "fresh_gate g" and "\<forall>x \<in> set (before @ [q] @ after). keyed_request x"
    and "fst (bind_task_lane h env q (bind_run h env before g)) = Inr a"
    and "actors_from_stage h ready (gt_bindings (bind_run h env (before @ [q] @ after) g)) stage tails = Inr actors"
    and "items_of (pget (rec_manifest b) ''actors'') = actors" and "actor_map h b = Inr mapping"
    and "replay_env h b mapping env'" and "fresh_gate g'" and "typed_request q'" and "bq_source q' = bq_source q"
  shows "fst (bind_task_lane h env' q' (bind_run h env' others g')) = Inr a"
proof -
  let ?all = "before @ [q] @ after" and ?s = "bq_source q"
  obtain t where bound: "bind_task_lane h env q (bind_run h env before g) = (Inr a, t)"
    using assms(4) by (metis prod.collapse)
  have "lanes_written (bind_run h env before g)" using bind_run_writes_lanes [OF assms(1,2)] assms(3) by simp
  then have "map_of (gt_task_lanes t) (bq_pid q, ?s) = Some a"
    using bind_writes_lane [OF assms(1) _ _ bound] assms(3) by simp
  then have lane: "map_of (gt_task_lanes (bind_run h env ?all g)) (bq_pid q, ?s) = Some a"
    using task_lane_stays [of t _ a h env after] bound by (simp add: bind_run_def)
  have written: "lanes_written (bind_run h env ?all g)" by (rule bind_run_writes_lanes [OF assms(1-3)])
  then obtain name v where v: "map_of (gt_bindings (bind_run h env ?all g)) name = Some v" "bound_by v ?s a"
    and a: "safe_name a" "?s \<noteq> []" using lane unfolding lanes_written_def by blast
  obtain actor where actor: "actor \<in> set actors" "pget actor ''actor_id'' = PStr a" "source_of ?s actor"
    using roster_names_source [OF assms(5) v a(2)] by blast
  then have "\<exists>x \<in> set (items_of (pget (rec_manifest b) ''actors'')). py_str h (pget x ''actor_id'') = a \<and> source_of ?s x"
    by (intro bexI [of _ actor]) (simp_all add: assms(6))
  then have "map_of mapping ?s = Some a" using actor_map_exact [OF assms(7)] by simp
  moreover have "a \<in> set (actor_ids h b)" using actor by (force simp: actor_ids_def assms(6))
  ultimately have "resolve_actor h env' (bq_source q') = Inr a"
    using resolve_mapped [OF assms(8) _ a(1)] assms(11) by simp
  then show ?thesis using replay_binds [OF _ assms(9,10)] assms(8) by (simp add: replay_env_def)
qed

section \<open>A refilled worker\<close>

text \<open>One worker runs two tasks; in the replay another worker gets the second task first.\<close>

definition lane_host :: host where
  "lane_host = plain_host\<lparr>json_loads := (\<lambda>text.
     if text = ''{}'' then Some (PDict [])
     else if text = ''map'' then Some (PDict [(''t1'', PStr ''t1''), (''t2'', PStr ''t1'')])
     else if text = ''actors'' then Some (PList [PStr ''t1'']) else None)\<rparr>"

definition source_env :: env where
  "source_env = [(''NATIVE_REPLAY_MODE'', ''record''), (''NATIVE_REPLAY_LANE_BINDING_DIR'', ''/run/lane-bindings'')]"

definition bundle_env :: env where
  "bundle_env = [(''NATIVE_REPLAY_MODE'', ''replay''), (''NATIVE_REPLAY_ACTOR_MAP'', ''map''), (''NATIVE_REPLAY_ACTORS'', ''actors'')]"

definition empty_gate :: gate_state where
  "empty_gate = \<lparr>gt_gated = [], gt_native_lanes = [], gt_task_lanes = [], gt_sequence = (\<lambda>_. 0), gt_bindings = [], gt_ready = []\<rparr>"

definition task_request :: "int \<Rightarrow> string \<Rightarrow> bind_request" where
  "task_request pid source = \<lparr>bq_pid = pid, bq_now = 5, bq_source = source, bq_key = PStr ''worker'', bq_metadata = PNone\<rparr>"

definition bound_actors :: "pyval list" where
  "bound_actors = [PDict [(''actor_id'', PStr ''t1''), (''source_actor_id'', PStr ''t1''), (''source_actor_ids'', PList [PStr ''t1'', PStr ''t2'']),
     (''process_role'', PNone), (''task'', PDict [(''source_actor_id'', PStr ''t1'')])]]"

definition bound_recording :: recording where
  "bound_recording = two_lane_recording\<lparr>rec_manifest := PDict [(''actors'', PList bound_actors)]\<rparr>"

theorem replay_restores_recorded_lanes_witness:
  "fst (bind_task_lane lane_host bundle_env (task_request 9 ''t2'') (bind_run lane_host bundle_env [] empty_gate)) = Inr ''t1''"
proof (rule replay_restores_recorded_lanes [where env = source_env and g = empty_gate and before = "[task_request 7 ''t1'']"
      and q = "task_request 7 ''t2''" and after = "[]" and ready = "[]" and stage = "[]" and tails = "PDict []"
      and actors = bound_actors and b = bound_recording and mapping = "[(''t1'', ''t1''), (''t2'', ''t1'')]"])
  show "recording_env lane_host source_env" by code_simp
  show "fresh_gate empty_gate" by (simp add: fresh_gate_def empty_gate_def)
  show "\<forall>x \<in> set ([task_request 7 ''t1''] @ [task_request 7 ''t2''] @ []). keyed_request x" by code_simp
  show "fst (bind_task_lane lane_host source_env (task_request 7 ''t2'') (bind_run lane_host source_env [task_request 7 ''t1''] empty_gate)) =
      Inr ''t1''" by code_simp
  show "actors_from_stage lane_host [] (gt_bindings (bind_run lane_host source_env
      ([task_request 7 ''t1''] @ [task_request 7 ''t2''] @ []) empty_gate)) [] (PDict []) = Inr bound_actors" by code_simp
  show "items_of (pget (rec_manifest bound_recording) ''actors'') = bound_actors" by (simp add: bound_recording_def)
  show "actor_map lane_host bound_recording = Inr [(''t1'', ''t1''), (''t2'', ''t1'')]" by code_simp
  show "replay_env lane_host bound_recording [(''t1'', ''t1''), (''t2'', ''t1'')] bundle_env"
    by (simp add: replay_env_def env_mapping_def env_or_def bundle_env_def lane_host_def opt_str_def actor_ids_def
        bound_recording_def bound_actors_def)
  show "fresh_gate empty_gate" by (simp add: fresh_gate_def empty_gate_def)
  show "typed_request (task_request 9 ''t2'')" by (simp add: typed_request_def task_request_def)
  show "bq_source (task_request 9 ''t2'') = bq_source (task_request 7 ''t2'')" by (simp add: task_request_def)
qed

end
