(* ===== verification/Run_Config.thy ===== *)
theory Run_Config
  imports Contracts Schema
begin

text \<open>
  config.py: the configuration of a run, how it is read and written, and the part of it that a replay must
  share with its recording; placement.py: the processor set that a container is pinned to.

  The live file system is a \<open>file_view\<close>; a path is its text, as \<open>str(Path(...))\<close> gives it.
\<close>

section \<open>Paths of the host\<close>

record file_view =
  fv_expand :: "string \<Rightarrow> string"
  fv_is_dir :: "string \<Rightarrow> bool"
  fv_is_file :: "string \<Rightarrow> bool"

text \<open>\<open>base / relative\<close>\<close>

definition path_under :: "string \<Rightarrow> string \<Rightarrow> string" where
  "path_under base relative =
     (if base = ''.'' then relative
      else if ends_with ''/'' base then base @ relative else base @ ''/'' @ relative)"

text \<open>What \<open>Path.resolve\<close> and \<open>Path.expanduser\<close> promise: a resolved path is absolute and names the same file.\<close>

definition resolving :: "host \<Rightarrow> file_view \<Rightarrow> bool" where
  "resolving h fv \<longleftrightarrow>
     (\<forall>p. let q = resolve_path h p in
        path_text q = q \<and> fv_expand fv q = q \<and> resolve_path h q = q \<and> fv_is_dir fv q = fv_is_dir fv p \<and>
        (\<forall>r. fv_is_file fv (path_under q r) = fv_is_file fv (path_under p r)))"

section \<open>The configuration\<close>

definition CONFIG_SCHEMA :: string where "CONFIG_SCHEMA = ''minireplay.config/v1''"

definition SUPPORTED_ADAPTERS :: "string list" where
  "SUPPORTED_ADAPTERS = [''mini-swe'', ''trae'', ''coral'', ''owl'']"

definition CORAL_TEAM_SIZE :: int where "CORAL_TEAM_SIZE = 4"

record run_config =
  rc_framework :: string
  rc_repo :: string
  rc_concurrency :: int
  rc_duration :: int
  rc_seed :: int
  rc_targets :: "(string \<times> string) list"
  rc_env :: "(string \<times> string) list"
  rc_dataset :: string
  rc_agent_turns :: int
  rc_global_turns :: int
  rc_restart_exited :: bool
  rc_refill :: bool
  rc_results_root :: "string option"
  rc_cpuset :: "string option"
  rc_gpu_ids :: "int list"
  rc_serving :: dict

definition text_map :: "(string \<times> string) list \<Rightarrow> pyval" where
  "text_map kvs = PDict (map (\<lambda>(k, v). (k, PStr v)) kvs)"

definition workload_identity :: "run_config \<Rightarrow> pyval" where
  "workload_identity c = PDict (
     [(''framework'', PStr (rc_framework c)), (''concurrency'', PInt (rc_concurrency c)),
      (''duration_s'', PInt (rc_duration c)), (''seed'', PInt (rc_seed c)), (''refill'', PBool (rc_refill c))] @
     (if rc_framework c = ''coral'' then
        [(''concurrency_unit'', PStr ''coral-team''), (''coral_team_size'', PInt CORAL_TEAM_SIZE),
         (''coral_dataset'', PStr (rc_dataset c)), (''coral_agent_turns'', PInt (rc_agent_turns c)),
         (''coral_global_turns'', PInt (rc_global_turns c)),
         (''coral_restart_exited'', PBool (rc_restart_exited c))]
      else []))"

definition config_to_json :: "run_config \<Rightarrow> pyval" where
  "config_to_json c = PDict
     [(''schema_version'', PStr CONFIG_SCHEMA), (''framework'', PStr (rc_framework c)), (''repo'', PStr (rc_repo c)),
      (''concurrency'', PInt (rc_concurrency c)), (''duration_s'', PInt (rc_duration c)), (''seed'', PInt (rc_seed c)),
      (''targets'', text_map (rc_targets c)), (''env'', text_map (rc_env c)),
      (''coral_dataset'', PStr (rc_dataset c)), (''coral_team_size'', PInt CORAL_TEAM_SIZE),
      (''coral_agent_turns'', PInt (rc_agent_turns c)), (''coral_global_turns'', PInt (rc_global_turns c)),
      (''coral_restart_exited'', PBool (rc_restart_exited c)), (''refill'', PBool (rc_refill c)),
      (''results_root'', opt_str (rc_results_root c)), (''cpuset'', opt_str (rc_cpuset c)),
      (''gpu_ids'', PList (map PInt (rc_gpu_ids c))), (''serving'', PDict (rc_serving c))]"

section \<open>Reading a configuration\<close>

definition config_int :: "pyval \<Rightarrow> int \<Rightarrow> int res" where
  "config_int v minimum =
     bindR (require (is_int_not_bool v \<and> minimum \<le> int_of v) ''config: must be an integer'') (\<lambda>_. Inr (int_of v))"

definition config_repo :: "host \<Rightarrow> file_view \<Rightarrow> pyval \<Rightarrow> string \<Rightarrow> string res" where
  "config_repo h fv raw framework =
     (let repo = fv_expand fv (path_text (py_str h (pget_or raw ''repo'' (PStr []))))
      in bindR (checks
        [require (fv_is_dir fv repo) ''config.repo is not a directory'',
         require (fv_is_file fv (path_under repo (''scripts/'' @ framework @ ''/sweep.sh'')))
           ''config.repo has no sweep script'']) (\<lambda>_. Inr repo))"

definition config_targets :: "pyval \<Rightarrow> (string \<times> string) list res" where
  "config_targets targets =
     bindR (require (is_dict targets \<and> truthy targets) ''config.targets must be a non-empty object'') (\<lambda>_.
     bindR (checks (concat (map (\<lambda>(name, url).
        [require (name \<noteq> []) ''config.targets has an invalid target id'',
         require (is_str url \<and> (starts_with ''http://'' (str_of url) \<or> starts_with ''https://'' (str_of url)))
           ''config.targets must be an http(s) URL'']) (fields_of targets)))) (\<lambda>_.
       Inr (map (\<lambda>(k, v). (k, str_of v)) (fields_of targets))))"

definition config_env :: "pyval \<Rightarrow> (string \<times> string) list res" where
  "config_env vars =
     bindR (require (is_dict vars) ''config.env must be an object'') (\<lambda>_.
     bindR (checks (map (\<lambda>(name, v). require (is_str v) ''config.env must map string names to string values'')
        (fields_of vars))) (\<lambda>_.
       Inr (map (\<lambda>(k, v). (k, str_of v)) (fields_of vars))))"

definition config_gpus :: "pyval \<Rightarrow> int list res" where
  "config_gpus gpus =
     bindR (require (is_list gpus) ''config.gpu_ids must be a list'') (\<lambda>_.
     bindR (checks (map (\<lambda>g. require (is_int_not_bool g \<and> 0 \<le> int_of g)
        ''config.gpu_ids must contain non-negative integers'') (items_of gpus))) (\<lambda>_.
       Inr (map int_of (items_of gpus))))"

definition config_text :: "pyval \<Rightarrow> string option res" where
  "config_text v =
     bindR (require (v = PNone \<or> is_str v) ''config: must be a string or null'') (\<lambda>_.
       Inr (if v = PNone then None else Some (str_of v)))"

text \<open>\<open>load_model\<close> is the old spelling of \<open>refill\<close>.\<close>

definition config_refill :: "pyval \<Rightarrow> bool res" where
  "config_refill raw =
     (let legacy = pget raw ''load_model'' in
      bindR (if legacy = PNone then Inr () else require_in legacy [''steady'', ''fire-once''] ''config.load_model'') (\<lambda>_.
      bindR (require (\<not> (phas raw ''refill'' \<and> legacy \<noteq> PNone))
        ''config.refill and deprecated config.load_model cannot both be set'') (\<lambda>_.
      let refill = (if legacy \<noteq> PNone then PBool (legacy = PStr ''steady'') else pget_or raw ''refill'' (PBool True))
      in bindR (require (is_bool refill) ''config.refill must be a boolean'') (\<lambda>_. Inr (refill = PBool True)))))"

text \<open>The settings of CORAL: the turns of one invocation, the invocations of a team, and whether it restarts.\<close>

definition config_coral :: "pyval \<Rightarrow> string \<Rightarrow> (bool \<times> int \<times> int) res" where
  "config_coral raw framework =
     (let restart = pget_or raw ''coral_restart_exited'' (PBool True) in
      bindR (checks
        [require (is_bool restart) ''config.coral_restart_exited must be a boolean'',
         require (framework \<noteq> ''coral'' \<or> py_eq (pget_or raw ''coral_team_size'' (PInt CORAL_TEAM_SIZE)) (PInt CORAL_TEAM_SIZE))
           ''config.coral_team_size must be 4'']) (\<lambda>_.
      bindR (config_int (pget_or raw ''coral_agent_turns'' (PInt 100)) 1) (\<lambda>agent_turns.
      bindR (config_int (pget_or raw ''coral_global_turns'' (PInt 10)) 0) (\<lambda>global_turns.
      bindR (require (framework \<noteq> ''coral'' \<or> global_turns = 0 \<or> 4 \<le> global_turns)
        ''config.coral_global_turns must be 0 or at least the four initial CORAL agents'') (\<lambda>_.
        Inr (restart = PBool True, agent_turns, global_turns))))))"

definition load_config :: "host \<Rightarrow> file_view \<Rightarrow> pyval \<Rightarrow> run_config res" where
  "load_config h fv raw =
     bindR (checks
       [require (is_dict raw) ''expected a JSON object'',
        require (pget raw ''schema_version'' = PStr CONFIG_SCHEMA) ''config: unsupported schema_version'',
        require_in (pget raw ''framework'') SUPPORTED_ADAPTERS ''config.framework'']) (\<lambda>_.
     let framework = str_of (pget raw ''framework'') in
     bindR (config_repo h fv raw framework) (\<lambda>repo.
     bindR (config_targets (pget raw ''targets'')) (\<lambda>targets.
     bindR (config_env (pget_or raw ''env'' (PDict []))) (\<lambda>vars.
     bindR (config_gpus (pget_or raw ''gpu_ids'' (PList []))) (\<lambda>gpu_ids.
     bindR (config_text (pget raw ''results_root'')) (\<lambda>results_root.
     bindR (config_text (pget raw ''cpuset'')) (\<lambda>cpuset.
     bindR (require (is_dict (pget_or raw ''serving'' (PDict []))) ''config.serving must be an object'') (\<lambda>_.
     bindR (config_refill raw) (\<lambda>refill.
     bindR (config_coral raw framework) (\<lambda>(restart, agent_turns, global_turns).
     bindR (config_int (pget raw ''concurrency'') 1) (\<lambda>concurrency.
     bindR (config_int (pget_or raw ''duration_s'' (PInt 180)) 1) (\<lambda>duration.
     bindR (config_int (pget_or raw ''seed'' (PInt 42)) 0) (\<lambda>seed.
       Inr \<lparr>rc_framework = framework, rc_repo = resolve_path h repo, rc_concurrency = concurrency,
            rc_duration = duration, rc_seed = seed, rc_targets = targets, rc_env = vars,
            rc_dataset = py_str h (pget_or raw ''coral_dataset'' (PStr ''frontier_cs_algo'')),
            rc_agent_turns = agent_turns, rc_global_turns = global_turns, rc_restart_exited = restart,
            rc_refill = refill, rc_results_root = results_root, rc_cpuset = cpuset, rc_gpu_ids = gpu_ids,
            rc_serving = fields_of (pget_or raw ''serving'' (PDict []))\<rparr>)))))))))))))"

section \<open>A configuration that is written is read back\<close>

lemma config_text_reads: "config_text (opt_str s) = Inr s"
  by (cases s) (simp_all add: config_text_def opt_str_def)

lemma config_int_reads: "minimum \<le> i \<Longrightarrow> config_int (PInt i) minimum = Inr i"
  by (simp add: config_int_def is_int_not_bool_def)

lemma config_int_bound: "config_int v minimum = Inr i \<Longrightarrow> minimum \<le> i"
  by (auto simp: config_int_def bindR_eq_Inr require_eq_Inr)

lemma text_map_fields: "is_dict (text_map kvs)" "fields_of (text_map kvs) = map (\<lambda>(k, v). (k, PStr v)) kvs"
  "truthy (text_map kvs) \<longleftrightarrow> kvs \<noteq> []"
  by (simp_all add: text_map_def)

lemma config_env_reads: "config_env (text_map kvs) = Inr kvs"
proof -
  have "checks (map (\<lambda>(name, v). require (is_str v) msg) (map (\<lambda>(k, v). (k, PStr v)) kvs)) = Inr ()" for msg
    by (auto simp: checks_eq_Inr)
  then show ?thesis by (simp add: config_env_def text_map_fields comp_def case_prod_unfold)
qed

lemma config_targets_ok:
  "config_targets targets = Inr ts \<longleftrightarrow>
     (\<exists>kvs. targets = PDict kvs \<and> kvs \<noteq> [] \<and> ts = map (\<lambda>(k, v). (k, str_of v)) kvs \<and>
        (\<forall>kv \<in> set kvs. fst kv \<noteq> [] \<and> is_str (snd kv) \<and>
           (starts_with ''http://'' (str_of (snd kv)) \<or> starts_with ''https://'' (str_of (snd kv)))))"
proof -
  have "checks (concat (map (\<lambda>(name, url). [require (P name) m, require (Q url) n]) kvs)) = Inr () \<longleftrightarrow>
      (\<forall>kv \<in> set kvs. P (fst kv) \<and> Q (snd kv))" for P Q m n and kvs :: dict
    by (auto simp: checks_eq_Inr require_eq_Inr case_prod_unfold simp del: checks.simps)
  then show ?thesis by (auto simp: config_targets_def bindR_eq_Inr require_eq_Inr is_dict_iff)
qed

lemma config_targets_reads:
  assumes "config_targets targets = Inr ts"
  shows "config_targets (text_map ts) = Inr ts"
proof -
  from assms obtain kvs where "kvs \<noteq> []" "ts = map (\<lambda>(k, v). (k, str_of v)) kvs"
    and ok: "\<forall>kv \<in> set kvs. fst kv \<noteq> [] \<and> is_str (snd kv) \<and>
      (starts_with ''http://'' (str_of (snd kv)) \<or> starts_with ''https://'' (str_of (snd kv)))"
    unfolding config_targets_ok by blast
  then show ?thesis
    unfolding config_targets_ok text_map_def
    by (intro exI [of _ "map (\<lambda>(k, v). (k, PStr v)) ts"]) (simp add: comp_def case_prod_unfold)
qed

lemma config_gpus_reads:
  assumes "config_gpus gpus = Inr gs"
  shows "config_gpus (PList (map PInt gs)) = Inr gs"
  using assms
  by (auto simp: config_gpus_def bindR_eq_Inr require_eq_Inr checks_eq_Inr is_int_not_bool_def comp_def)

text \<open>What the written text says under each key.\<close>

lemma config_to_json_fields:
  "pget (config_to_json c) ''schema_version'' = PStr CONFIG_SCHEMA"
  "pget (config_to_json c) ''framework'' = PStr (rc_framework c)"
  "pget_or (config_to_json c) ''repo'' d = PStr (rc_repo c)"
  "pget (config_to_json c) ''targets'' = text_map (rc_targets c)"
  "pget_or (config_to_json c) ''env'' d = text_map (rc_env c)"
  "pget_or (config_to_json c) ''gpu_ids'' d = PList (map PInt (rc_gpu_ids c))"
  "pget (config_to_json c) ''results_root'' = opt_str (rc_results_root c)"
  "pget (config_to_json c) ''cpuset'' = opt_str (rc_cpuset c)"
  "pget_or (config_to_json c) ''serving'' d = PDict (rc_serving c)"
  "pget (config_to_json c) ''load_model'' = PNone"
  "pget_or (config_to_json c) ''refill'' d = PBool (rc_refill c)"
  "pget_or (config_to_json c) ''coral_restart_exited'' d = PBool (rc_restart_exited c)"
  "pget_or (config_to_json c) ''coral_team_size'' d = PInt CORAL_TEAM_SIZE"
  "pget_or (config_to_json c) ''coral_agent_turns'' d = PInt (rc_agent_turns c)"
  "pget_or (config_to_json c) ''coral_global_turns'' d = PInt (rc_global_turns c)"
  "pget (config_to_json c) ''concurrency'' = PInt (rc_concurrency c)"
  "pget_or (config_to_json c) ''duration_s'' d = PInt (rc_duration c)"
  "pget_or (config_to_json c) ''seed'' d = PInt (rc_seed c)"
  "pget_or (config_to_json c) ''coral_dataset'' d = PStr (rc_dataset c)"
  "is_dict (config_to_json c)"
  by (simp_all add: config_to_json_def pget_or_def)

lemma config_refill_reads: "config_refill (config_to_json c) = Inr (rc_refill c)"
  by (simp add: config_refill_def config_to_json_fields)

lemma config_coral_reads:
  assumes "config_coral raw framework = Inr (rc_restart_exited c, rc_agent_turns c, rc_global_turns c)"
  shows "config_coral (config_to_json c) framework = Inr (rc_restart_exited c, rc_agent_turns c, rc_global_turns c)"
proof -
  have "1 \<le> rc_agent_turns c" "0 \<le> rc_global_turns c"
    and "framework \<noteq> ''coral'' \<or> rc_global_turns c = 0 \<or> 4 \<le> rc_global_turns c"
    using assms by (auto simp: config_coral_def Let_def bindR_eq_Inr require_eq_Inr dest!: config_int_bound
        simp del: checks.simps)
  then show ?thesis by (simp add: config_coral_def Let_def config_to_json_fields config_int_reads)
qed

lemma config_repo_reads:
  assumes "resolving h fv" and "config_repo h fv raw framework = Inr repo" and "rc_repo c = resolve_path h repo"
  shows "config_repo h fv (config_to_json c) framework = Inr (rc_repo c)" and "resolve_path h (rc_repo c) = rc_repo c"
  using assms by (auto simp: config_repo_def bindR_eq_Inr checks_eq_Inr require_eq_Inr config_to_json_fields
      resolving_def Let_def simp del: checks.simps)

text \<open>
  C37: What a run writes of its configuration is read back as the same configuration: defaults are written out,
  the old spelling of the refill setting becomes the new one, and the repository is written as the path it
  resolves to.
\<close>

theorem written_config_reads_back:
  assumes "resolving h fv" and "load_config h fv raw = Inr c"
  shows "load_config h fv (config_to_json c) = Inr c"
proof -
  from assms(2) obtain repo
    where framework: "rc_framework c \<in> set SUPPORTED_ADAPTERS"
      and repo: "config_repo h fv raw (rc_framework c) = Inr repo" "rc_repo c = resolve_path h repo"
      and targets: "config_targets (pget raw ''targets'') = Inr (rc_targets c)"
      and gpus: "config_gpus (pget_or raw ''gpu_ids'' (PList [])) = Inr (rc_gpu_ids c)"
      and coral: "config_coral raw (rc_framework c) = Inr (rc_restart_exited c, rc_agent_turns c, rc_global_turns c)"
      and ints: "1 \<le> rc_concurrency c" "1 \<le> rc_duration c" "0 \<le> rc_seed c"
    by (auto simp: load_config_def Let_def bindR_eq_Inr checks_eq_Inr require_in_eq_Inr dest!: config_int_bound
        simp del: checks.simps)
  have "require_in (PStr (rc_framework c)) SUPPORTED_ADAPTERS msg = Inr ()" for msg
    using framework by (simp add: require_in_eq_Inr)
  then show ?thesis
    by (simp add: load_config_def Let_def config_to_json_fields config_repo_reads [OF assms(1) repo]
        config_targets_reads [OF targets] config_env_reads config_gpus_reads [OF gpus] config_text_reads
        config_refill_reads config_coral_reads [OF coral] config_int_reads ints)
qed

section \<open>A configuration in the old spelling\<close>

definition any_host :: host where
  "any_host = \<lparr>sha256_hex = (\<lambda>_. []), hmac_sha256_hex = (\<lambda>_ _. []), float_repr = (\<lambda>_. []),
     resolve_path = (\<lambda>_. ''/srv/agents''), json_loads = (\<lambda>_. None)\<rparr>"

definition any_files :: file_view where
  "any_files = \<lparr>fv_expand = (\<lambda>p. p), fv_is_dir = (\<lambda>_. True), fv_is_file = (\<lambda>_. True)\<rparr>"

definition old_config :: pyval where
  "old_config = PDict
     [(''schema_version'', PStr CONFIG_SCHEMA), (''framework'', PStr ''coral''), (''repo'', PStr ''agents/.''),
      (''targets'', PDict [(''default'', PStr ''http://127.0.0.1:8000'')]), (''load_model'', PStr ''fire-once''),
      (''concurrency'', PInt 2)]"

theorem written_config_reads_back_witness:
  "case load_config any_host any_files old_config of
     Inl e \<Rightarrow> False
   | Inr c \<Rightarrow> \<not> rc_refill c \<and> rc_repo c = ''/srv/agents'' \<and> load_config any_host any_files (config_to_json c) = Inr c"
proof -
  have resolving: "resolving any_host any_files"
    by (simp add: resolving_def any_host_def any_files_def) code_simp
  have "case load_config any_host any_files old_config of
      Inl e \<Rightarrow> False | Inr c \<Rightarrow> \<not> rc_refill c \<and> rc_repo c = ''/srv/agents''" by code_simp
  then show ?thesis
    using written_config_reads_back [OF resolving] by (auto split: sum.splits)
qed

section \<open>Placement\<close>

text \<open>\<open>^[0-9]+(?:-[0-9]+)?(?:,[0-9]+(?:-[0-9]+)?)*$\<close>, matched as a whole\<close>

definition cpu_number :: "string \<Rightarrow> bool" where
  "cpu_number s \<longleftrightarrow> s \<noteq> [] \<and> list_all is_digit s"

definition cpu_range :: "string \<Rightarrow> bool" where
  "cpu_range s \<longleftrightarrow> (case split_on (CHR ''-'') s of [a] \<Rightarrow> cpu_number a | [a, b] \<Rightarrow> cpu_number a \<and> cpu_number b | _ \<Rightarrow> False)"

definition declared_docker_cpuset :: "string option \<Rightarrow> string option res" where
  "declared_docker_cpuset declared =
     (case declared of
        None \<Rightarrow> Inr None
      | Some raw \<Rightarrow>
          let v = str_strip raw
          in if v = [] \<or> \<not> list_all cpu_range (split_on (CHR '','') v)
             then Inl (ValidationError ''NATIVE_REPLAY_DOCKER_CPUSET is invalid'') else Inr (Some v))"

end
