(* ===== verification/Coral_Control.thy ===== *)
theory Coral_Control
  imports Sdk_Scope
begin

text \<open>
  coral_control.py and instrumentation/sweep_bridge.py: how often each agent of a CORAL team was invoked in a
  recording, the prompts that restarted it, and the identity of a team that the queue of the sweep launches.

  A log of the framework is its text; \<open>None\<close> is a file that cannot be read.
\<close>

section \<open>Invocations\<close>

text \<open>\<open>^<actor>/invocation-(\d+)(?:/|$)\<close> with the actor's name as it is\<close>

definition invocation_of :: "string \<Rightarrow> string \<Rightarrow> nat option" where
  "invocation_of actor session =
     (let prefix = actor @ ''/invocation-''; rest = drop (length prefix) session;
          digits = takeWhile is_digit rest; tail = dropWhile is_digit rest
      in if starts_with prefix session \<and> digits \<noteq> [] \<and> (tail = [] \<or> hd tail = CHR ''/'' \<or> tail = [CHR 0x0A])
         then Some (digits_val digits) else None)"

definition add_invocation :: "pyval \<Rightarrow> (string \<times> nat) list \<Rightarrow> (string \<times> nat) list" where
  "add_invocation record limits =
     (let actor = pget record ''actor_id''; session = pget record ''session_id'' in
      if \<not> is_nonempty_str actor \<or> \<not> is_str session then limits
      else case invocation_of (str_of actor) (str_of session) of
          None \<Rightarrow> limits
        | Some n \<Rightarrow>
            let known = (case map_of limits (str_of actor) of None \<Rightarrow> 0 | Some k \<Rightarrow> k)
            in AList.update (str_of actor) (max known (Suc n)) limits)"

definition fixed_invocation_limits :: "pyval list \<Rightarrow> pyval \<Rightarrow> (string \<times> nat) list" where
  "fixed_invocation_limits llm tails =
     fold add_invocation (llm @ filter is_dict (items_of (pget_or tails ''llm_requests'' (PList [])))) []"

section \<open>Restart prompts\<close>

text \<open>\<open>text.splitlines()\<close>: a carriage return with a line feed is one end of a line.\<close>

definition line_end :: "char \<Rightarrow> bool" where
  "line_end c \<longleftrightarrow> of_char c \<in> {10::nat, 11, 12, 13, 28, 29, 30, 133}"

fun lines_from :: "string \<Rightarrow> string \<Rightarrow> string list" where
  "lines_from line [] = (if line = [] then [] else [rev line])"
| "lines_from line (c # cs) =
     (if c = CHR 0x0D \<and> cs \<noteq> [] \<and> hd cs = CHR 0x0A then rev line # lines_from [] (tl cs)
      else if line_end c then rev line # lines_from [] cs
      else lines_from (c # line) cs)"

definition first_line :: "string \<Rightarrow> string option" where
  "first_line s = find (\<lambda>l. str_strip l \<noteq> []) (lines_from [] s)"

text \<open>\<open>(?m)^Commit:\s*([0-9a-f]{7,40})\s*$\<close>, first match: what it captures\<close>

definition is_hex :: "char \<Rightarrow> bool" where
  "is_hex c \<longleftrightarrow> is_digit c \<or> c \<in> set ''abcdef''"

definition commit_after :: "string \<Rightarrow> string option" where
  "commit_after s =
     (let rest = dropWhile is_space s; digits = takeWhile is_hex rest; tail = dropWhile is_hex rest
      in if 7 \<le> length digits \<and> length digits \<le> 40 \<and>
            (CHR 0x0A \<in> set (takeWhile is_space tail) \<or> dropWhile is_space tail = [])
         then Some digits else None)"

fun find_commit :: "bool \<Rightarrow> string \<Rightarrow> string option" where
  "find_commit line_start [] = None"
| "find_commit line_start (c # cs) =
     (case (if line_start \<and> starts_with ''Commit:'' (c # cs) then commit_after (drop 7 (c # cs)) else None) of
        Some commit \<Rightarrow> Some commit
      | None \<Rightarrow> find_commit (c = CHR 0x0A) cs)"

text \<open>The directory of a team's run, from the report of its task.\<close>

definition run_dirs :: "pyval list \<Rightarrow> (string \<times> string) list" where
  "run_dirs terminals =
     fold (\<lambda>t dirs.
        let result = pget t ''result'' in
        if is_dict t \<and> is_str (pget t ''actor_id'') \<and> is_dict result \<and> is_str (pget result ''run_dir'')
        then AList.update (str_of (pget t ''actor_id'')) (path_text (str_of (pget result ''run_dir''))) dirs
        else dirs) terminals []"

text \<open>The one grader attempt of the actor that judged the commit named in the prompt.\<close>

definition prompt_trigger :: "host \<Rightarrow> pyval list \<Rightarrow> string \<Rightarrow> string \<Rightarrow> pyval res" where
  "prompt_trigger h graders actor_id prompt =
     (case find_commit True prompt of
        None \<Rightarrow> Inr PNone
      | Some commit \<Rightarrow>
          let found = filter (\<lambda>g. py_str h (pget g ''actor_id'') = actor_id \<and>
                starts_with commit (py_str h (py_or (pget g ''trigger_id'') (PStr [])))) graders
          in if length found \<noteq> 1 then Inl (ValidationError ''CORAL control does not match one grader attempt'')
             else bindR (pidx (hd found) ''attempt_id'') (\<lambda>a. Inr (PStr (py_str h a))))"

definition log_path :: "string \<Rightarrow> string \<Rightarrow> nat \<Rightarrow> string" where
  "log_path run_dir agent_id index =
     path_text (run_dir @ ''/.coral/public/logs/'' @ agent_id @ ''.'' @ nat_str index @ ''.log'')"

definition restart_control ::
    "host \<Rightarrow> (string \<Rightarrow> string option) \<Rightarrow> pyval list \<Rightarrow> string \<Rightarrow> string \<Rightarrow> string \<Rightarrow> nat \<Rightarrow> pyval res" where
  "restart_control h read graders actor_id agent_id run_dir index =
     bindR (case Option.bind (Option.bind (read (log_path run_dir agent_id index)) first_line) (json_loads h) of
              None \<Rightarrow> Inl (ValidationError ''CORAL invocation has no readable control prompt'')
            | Some v \<Rightarrow> if is_dict v then Inr v else Inl (PyError ''AttributeError'')) (\<lambda>prompt_record.
     let prompt = pget prompt_record ''prompt''; source = pget prompt_record ''source'' in
     if \<not> is_str prompt \<or> \<not> is_str source then Inl (ValidationError ''CORAL invocation has an invalid control prompt'')
     else bindR (prompt_trigger h graders actor_id (str_of prompt)) (\<lambda>trigger.
       Inr (PDict [(''actor_id'', PStr actor_id), (''agent_id'', PStr agent_id),
         (''invocation_index'', PInt (int index)), (''source'', source), (''prompt'', prompt),
         (''trigger_grader_attempt_id'', trigger)])))"

definition actor_controls ::
    "host \<Rightarrow> (string \<Rightarrow> string option) \<Rightarrow> (string \<times> string) list \<Rightarrow> pyval list \<Rightarrow> (string \<times> nat) list \<Rightarrow> pyval \<Rightarrow> pyval list res" where
  "actor_controls h read dirs graders limits actor =
     (let actor_id = py_str h (py_or (pget actor ''actor_id'') (PStr []));
          limit = (case map_of limits actor_id of None \<Rightarrow> 0 | Some n \<Rightarrow> n); lane = pget actor ''lane''
      in if limit \<le> 1 \<or> \<not> is_dict lane \<or> pget lane ''lane_kind'' \<noteq> PStr ''agent'' then Inr []
         else case (map_of dirs (py_str h (pget lane ''parent_actor_id'')), pget lane ''agent_id'') of
             (Some run_dir, PStr agent_id) \<Rightarrow> mapR (restart_control h read graders actor_id agent_id run_dir) [1..<limit]
           | _ \<Rightarrow> Inl (ValidationError ''CORAL actor has no native restart log directory''))"

definition control_key :: "pyval \<Rightarrow> string \<times> int" where
  "control_key control = (str_of (pget control ''actor_id''), int_of (pget control ''invocation_index''))"

definition recorded_restart_controls ::
    "host \<Rightarrow> (string \<Rightarrow> string option) \<Rightarrow> pyval list \<Rightarrow> pyval list \<Rightarrow> pyval list \<Rightarrow> (string \<times> nat) list \<Rightarrow> pyval list res" where
  "recorded_restart_controls h read actors terminals graders limits =
     bindR (mapR (actor_controls h read (run_dirs terminals) graders limits) actors)
       (\<lambda>cs. Inr (sort_key control_key (concat cs)))"

text \<open>Whether the grader that triggered a restart is in the ledger; a line that is no JSON is passed over.\<close>

definition grader_recorded :: "pyval option list option \<Rightarrow> string option \<Rightarrow> bool" where
  "grader_recorded ledger attempt_id =
     (case attempt_id of
        None \<Rightarrow> True
      | Some a \<Rightarrow> (case ledger of
            None \<Rightarrow> False
          | Some lines \<Rightarrow> list_ex (\<lambda>l. case l of None \<Rightarrow> False | Some r \<Rightarrow> pget r ''attempt_id'' = PStr a) lines))"

section \<open>The restarts that a replay needs\<close>

text \<open>
  supervisor.py, \<open>_runtime_environment\<close>: a bundle must hold one control for every invocation of an agent
  after its first one, and no other.
\<close>

definition expected_controls :: "(string \<times> nat) list \<Rightarrow> (string \<times> int) set" where
  "expected_controls limits = (\<Union>(actor_id, limit) \<in> set limits. (\<lambda>i. (actor_id, int i)) ` {1..<limit})"

definition observed_control :: "host \<Rightarrow> pyval \<Rightarrow> (string \<times> int) res" where
  "observed_control h control =
     bindR (py_int (pget_or control ''invocation_index'' (PInt (- 1)))) (\<lambda>i. Inr (py_str h (pget control ''actor_id''), i))"

definition check_restart_controls :: "host \<Rightarrow> (string \<times> nat) list \<Rightarrow> pyval list \<Rightarrow> unit res" where
  "check_restart_controls h limits controls =
     bindR (mapR (observed_control h) controls) (\<lambda>observed.
       if expected_controls limits \<noteq> set observed
       then Inl (InfrastructureError ''CORAL replay bundle has incomplete recorded restart controls'') else Inr ())"

section \<open>The queue of the sweep\<close>

definition path_name :: "string \<Rightarrow> string" where
  "path_name p = (let t = path_text p in if t = ''.'' then [] else last (split_on (CHR ''/'') t))"

definition path_parts :: "string \<Rightarrow> string list" where
  "path_parts p = (if starts_with ''/'' p then [''/''] else []) @ filter (\<lambda>s. s \<noteq> []) (split_on (CHR ''/'') p)"

text \<open>The directories between \<open>examples\<close> and the file of the task.\<close>

definition coral_source_id :: "host \<Rightarrow> string \<Rightarrow> string res" where
  "coral_source_id h task =
     (case dropWhile (\<lambda>p. p \<noteq> ''examples'') (path_parts (resolve_path h task)) of
        [] \<Rightarrow> Inl (PyError ''RuntimeError'')
      | _ # inner \<Rightarrow>
          if butlast inner = [] then Inl (PyError ''RuntimeError'') else Inr (join_with ''/'' (butlast inner)))"

text \<open>\<open>^run-([0-9]{6})-\<close>\<close>

definition run_number :: "string \<Rightarrow> nat option" where
  "run_number name =
     (let digits = take 6 (drop 4 name)
      in if starts_with ''run-'' name \<and> length digits = 6 \<and> list_all is_digit digits \<and> starts_with ''-'' (drop 10 name)
         then Some (digits_val digits) else None)"

definition run_index :: "string list \<Rightarrow> nat res" where
  "run_index command =
     (case List.map_filter (\<lambda>v. if starts_with ''workspace.run_dir='' v then run_number (path_name (drop 18 v)) else None) command of
        [] \<Rightarrow> Inl (PyError ''RuntimeError'')
      | n # _ \<Rightarrow> Inr n)"

definition required_queue_integer :: "env \<Rightarrow> string \<Rightarrow> nat res" where
  "required_queue_integer env name =
     (case Option.bind (map_of env name) int_of_text of
        None \<Rightarrow> Inl (PyError ''RuntimeError'')
      | Some i \<Rightarrow> if i < 0 then Inl (PyError ''RuntimeError'') else Inr (nat i))"

definition env_update :: "env \<Rightarrow> env \<Rightarrow> env" where
  "env_update new base = fold (\<lambda>(k, v) e. AList.update k v e) new base"

lemma map_of_env_update:
  "map_of (env_update new base) k = (case map_of (rev new) k of None \<Rightarrow> map_of base k | Some x \<Rightarrow> Some x)"
  unfolding env_update_def
proof (induction new arbitrary: base)
  case Nil
  then show ?case by simp
next
  case (Cons kx new)
  show ?case by (cases kx) (simp add: Cons.IH update_conv' map_add_def split: option.splits)
qed

definition is_team_launch :: "string list \<Rightarrow> bool" where
  "is_team_launch command \<longleftrightarrow> 3 \<le> length command \<and> path_name (command ! 1) = ''coral-vllm.sh''"

text \<open>The environment of a launched team; any other command keeps the environment it has.\<close>

definition queue_environment :: "host \<Rightarrow> env \<Rightarrow> env \<Rightarrow> string list \<Rightarrow> env res" where
  "queue_environment h own env command =
     (if \<not> is_team_launch command then Inr env
      else
        bindR (run_index command) (\<lambda>index.
        bindR (case map_of own ''NATIVE_REPLAY_CONCURRENCY'' of
                 None \<Rightarrow> Inl (PyError ''KeyError'')
               | Some s \<Rightarrow> (case int_of_text s of None \<Rightarrow> Inl (PyError ''ValueError'') | Some i \<Rightarrow> Inr i)) (\<lambda>concurrency.
        bindR (coral_source_id h (command ! 2)) (\<lambda>source.
        bindR (required_queue_integer env ''MULTIAGENT_CORAL_RUN_INDEX'') (\<lambda>queue_index.
        bindR (required_queue_integer env ''MULTIAGENT_CORAL_TEAM_SLOT'') (\<lambda>slot.
        bindR (required_queue_integer env ''MULTIAGENT_CORAL_SLOT_GENERATION'') (\<lambda>generation.
        bindR (required_queue_integer env ''MULTIAGENT_CORAL_TEAM_SIZE'') (\<lambda>team_size.
          if queue_index \<noteq> index \<or> concurrency \<le> int slot \<or> team_size \<noteq> 4 then Inl (PyError ''RuntimeError'')
          else Inr (env_update
            [(''NATIVE_REPLAY_CORAL_TASK_ID'', if int index < concurrency then source else ''refill-'' @ pad6 index),
             (''NATIVE_REPLAY_CORAL_SOURCE_TASK_ID'', source),
             (''NATIVE_REPLAY_CORAL_RUN_INDEX'', nat_str index), (''NATIVE_REPLAY_CORAL_TEAM_SLOT'', nat_str slot),
             (''NATIVE_REPLAY_CORAL_SLOT_GENERATION'', nat_str generation),
             (''NATIVE_REPLAY_CORAL_TEAM_SIZE'', nat_str team_size), (''NATIVE_REPLAY_PROCESS_ROLE'', ''framework'')] env)))))))))"

end
