(* ===== verification/Launch.thy ===== *)
theory Launch
  imports Run_Config Coral_Control Lane_Identity Services Bundle_Build
begin

text \<open>
  launcher.py, and the parts of supervisor.py that decide how a run is launched: the command of the native
  sweep, the environment of its processes, whether a configuration may replay a bundle, and what forced
  decoding needs.

  The identity of the user and the directories of the host are arguments.
\<close>

section \<open>The sweep\<close>

definition sweep_command :: "run_config \<Rightarrow> int option \<Rightarrow> string list" where
  "sweep_command c duration =
     [''bash'', path_under (rc_repo c) (''scripts/'' @ rc_framework c @ ''/sweep.sh'')] @
     (if rc_framework c = ''coral'' then [rc_dataset c] else []) @
     [''-c'', int_str (rc_concurrency c), if rc_refill c then ''--refill'' else ''--no-refill'',
      ''--seed'', int_str (rc_seed c), ''-s'', ''none'',
      ''-d'', int_str (case duration of None \<Rightarrow> rc_duration c | Some d \<Rightarrow> d)] @
     (if rc_framework c = ''coral''
      then [''--agent-turns'', int_str (rc_agent_turns c), ''--global-turns'', int_str (rc_global_turns c),
            if rc_restart_exited c then ''--restart-exited'' else ''--no-restart-exited'']
      else [])"

text \<open>The socket of tmux stays beside the run only while its path is short enough.\<close>

definition tmux_tmpdir :: "int \<Rightarrow> string \<Rightarrow> string \<Rightarrow> string \<Rightarrow> string" where
  "tmux_tmpdir uid tempdir run_dir run_id =
     (let natural = path_under run_dir ''tmux''; socket = natural @ ''/tmux-'' @ int_str uid @ ''/default''
      in if length socket \<le> 100 then natural else path_under tempdir (''minireplay-tmux-'' @ run_id))"

record native_command =
  nc_command :: "string list"
  nc_cwd :: string
  nc_environment :: env

definition native_environment :: "int \<Rightarrow> string \<Rightarrow> run_config \<Rightarrow> string \<Rightarrow> string \<Rightarrow> bool \<Rightarrow> env" where
  "native_environment uid tempdir c run_dir run_id skip_vllm =
     (let warm = \<not> skip_vllm;
          vars = [(''PHASE_EVENTS_PATH'', path_under run_dir ''sweep-phase-events.jsonl''),
            (''SWEEP_RESULTS_ROOT'', path_under run_dir ''sweep-results''), (''SWEEP_RUN_ID'', run_id),
            (''SWEEP_MODE'', ''minireplay''), (''TMUX_TMPDIR'', tmux_tmpdir uid tempdir run_dir run_id),
            (''SWEEP_WARMUP'', if warm then ''15'' else ''0''), (''SWEEP_RANDOM_WARMUP'', if warm then ''1'' else ''0''),
            (''SWEEP_WARMUP_CONCURRENCY'', ''8''), (''SWEEP_LABEL_TS'', ''0'')] @
            (if skip_vllm then [(''SWEEP_SKIP_VLLM'', ''1'')] else []);
          vars = env_update (rc_env c) vars
      in if skip_vllm then env_update [(''SWEEP_WARMUP'', ''0''), (''SWEEP_RANDOM_WARMUP'', ''0'')] vars else vars)"

definition native_command ::
    "int \<Rightarrow> string \<Rightarrow> run_config \<Rightarrow> string \<Rightarrow> string \<Rightarrow> bool \<Rightarrow> int option \<Rightarrow> native_command" where
  "native_command uid tempdir c run_dir run_id skip_vllm duration =
     \<lparr>nc_command = sweep_command c duration, nc_cwd = rc_repo c,
      nc_environment = native_environment uid tempdir c run_dir run_id skip_vllm\<rparr>"

section \<open>The supervisor of a run\<close>

record supervisor =
  su_mode :: string
  su_config :: run_config
  su_dir :: string
  su_run_id :: string
  su_bundle :: "recording option"
  su_replay_mode :: string
  su_fast_claim :: bool
  su_token :: string
  su_wiring :: "string option \<times> string option"

definition skips_vllm :: "supervisor \<Rightarrow> bool" where
  "skips_vllm s \<longleftrightarrow> su_mode s = ''replay'' \<and> su_replay_mode s = ''tool-only''"

text \<open>A replay ends with its work: the time of the native driver must outlast the watchdog of the run.\<close>

definition boundary_timeout :: "supervisor \<Rightarrow> int" where
  "boundary_timeout s = rc_duration (su_config s) * 4 + 900"

definition native_duration :: "supervisor \<Rightarrow> int" where
  "native_duration s =
     (if su_mode s = ''record'' then rc_duration (su_config s)
      else boundary_timeout s + max 600 (rc_duration (su_config s)))"

definition native_command_of :: "int \<Rightarrow> string \<Rightarrow> supervisor \<Rightarrow> native_command" where
  "native_command_of uid tempdir s =
     native_command uid tempdir (su_config s) (su_dir s) (su_run_id s) (skips_vllm s) (Some (native_duration s))"

section \<open>What forced decoding needs\<close>

text \<open>
  The answer is the secret and the path of the audit log; \<open>secret\<close> is what the secret file gives, or what is
  written to it when it is missing.
\<close>

record serving_spec =
  sp_repo :: string
  sp_configs :: "string list"
  sp_image :: string
  sp_secret_path :: string
  sp_audit_dir :: string
  sp_gpu_mode :: string

definition serving_spec_of :: "host \<Rightarrow> file_view \<Rightarrow> run_config \<Rightarrow> serving_spec res" where
  "serving_spec_of h fv c =
     (let raw = PDict (rc_serving c) in
      bindR (require (truthy (pget raw ''configs'')) ''config.serving.configs is required to start vLLM'') (\<lambda>_.
      let state_dir = fv_expand fv (path_text (py_str h (pget_or raw ''state_dir'' (PStr ''~/.minireplay''))));
          gpu_mode = py_str h (pget_or raw ''gpu_mode'' (PStr ''nvidia''))
      in bindR (require (gpu_mode \<in> {''nvidia'', ''cdi''}) ''config.serving.gpu_mode'') (\<lambda>_.
         bindR (py_iter (pget raw ''configs'')) (\<lambda>configs.
           Inr \<lparr>sp_repo = rc_repo c, sp_configs = map (py_str h) configs,
                sp_image = py_str h (pget_or raw ''image'' (PStr ''minireplay-vllm:v0.19.0'')),
                sp_secret_path = fv_expand fv (path_text (py_str h
                  (pget_or raw ''secret_path'' (PStr (path_under state_dir ''force-secret''))))),
                sp_audit_dir = fv_expand fv (path_text (py_str h
                  (pget_or raw ''audit_dir'' (PStr (path_under state_dir ''audit''))))),
                sp_gpu_mode = gpu_mode\<rparr>))))"

definition audit_path_on_host :: "serving_spec \<Rightarrow> string" where
  "audit_path_on_host sp = path_under (sp_audit_dir sp) ''forced-audit.jsonl''"

definition ensure_secret :: "string option \<Rightarrow> string \<Rightarrow> string res" where
  "ensure_secret present fresh =
     (case present of
        None \<Rightarrow> Inr fresh
      | Some text \<Rightarrow> bindR (require (str_strip text \<noteq> []) ''forced-decoding secret is empty'') (\<lambda>_. Inr (str_strip text)))"

definition forced_wiring ::
    "host \<Rightarrow> file_view \<Rightarrow> (string \<Rightarrow> string option) \<Rightarrow> string \<Rightarrow> supervisor \<Rightarrow> (string option \<times> string option) res" where
  "forced_wiring h fv read fresh s =
     (let forced = (su_mode s = ''replay'' \<and> su_replay_mode s \<in> set FORCED_REPLAY_MODES) in
      if rc_serving (su_config s) = []
      then (if forced then Inl (InfrastructureError ''--mode needs config.serving'') else Inr (None, None))
      else bindR (serving_spec_of h fv (su_config s)) (\<lambda>sp.
        if read (audit_path_on_host sp) = None
        then (if forced then Inl (InfrastructureError ''forced-decoding audit file is missing'') else Inr (None, None))
        else bindR (ensure_secret (read (fv_expand fv (sp_secret_path sp))) fresh) (\<lambda>secret.
          Inr (Some secret, Some (audit_path_on_host sp)))))"

text \<open>\<open>Supervisor.__init__\<close>; the token of the services is drawn when the run starts.\<close>

definition new_supervisor ::
    "host \<Rightarrow> file_view \<Rightarrow> (string \<Rightarrow> string option) \<Rightarrow> string \<Rightarrow> string \<Rightarrow> run_config \<Rightarrow> string \<Rightarrow> string \<Rightarrow>
     recording option \<Rightarrow> string \<Rightarrow> bool \<Rightarrow> supervisor res" where
  "new_supervisor h fv read fresh mode c dir run_id b kind fast =
     bindR (require (mode \<in> {''record'', ''replay''}) ''invalid supervisor mode'') (\<lambda>_.
       if mode = ''replay'' \<and> kind = ''llm-only'' \<and> rc_framework c \<noteq> ''mini-swe''
       then Inl (InfrastructureError ''--mode llm-only is implemented for mini-swe only'')
       else
         let s = \<lparr>su_mode = mode, su_config = c, su_dir = resolve_path h (fv_expand fv dir), su_run_id = run_id,
                  su_bundle = b, su_replay_mode = kind, su_fast_claim = fast, su_token = [], su_wiring = (None, None)\<rparr>
         in bindR (forced_wiring h fv read fresh s) (\<lambda>wiring. Inr (s\<lparr>su_wiring := wiring\<rparr>)))"

section \<open>The environment of a run\<close>

text \<open>\<open>json.dumps(value, sort_keys=True)\<close>\<close>

fun json_dumps :: "host \<Rightarrow> pyval \<Rightarrow> string" where
  "json_dumps h PNone = ''null''"
| "json_dumps h (PBool b) = (if b then ''true'' else ''false'')"
| "json_dumps h (PInt i) = int_str i"
| "json_dumps h (PFloat r) = float_repr h r"
| "json_dumps h (PStr s) = ascii_json_string s"
| "json_dumps h (PList xs) = ''['' @ join_with '', '' (map (json_dumps h) xs) @ '']''"
| "json_dumps h (PDict kvs) =
     ''{'' @ join_with '', ''
       (map (\<lambda>kv. ascii_json_string (fst kv) @ '': '' @ json_dumps h (snd kv)) (sort_key fst kvs)) @ ''}''"

definition BOOTSTRAP_ENV_KEYS :: "string list" where
  "BOOTSTRAP_ENV_KEYS =
     [''PATH'', ''HOME'', ''USER'', ''LANG'', ''LC_ALL'', ''TERM'', ''SHELL'', ''TMPDIR'', ''CONDA_EXE'',
      ''CONDA_PREFIX'', ''HF_HOME'', ''HF_HUB_CACHE'', ''HF_DATASETS_CACHE'']"

definition bootstrap_environment :: "env \<Rightarrow> env" where
  "bootstrap_environment own =
     (let kept = List.map_filter (\<lambda>k. map_option (Pair k) (map_of own k)) BOOTSTRAP_ENV_KEYS
      in if map_of kept ''PATH'' = None then kept @ [(''PATH'', ''/usr/local/bin:/usr/bin:/bin'')] else kept)"

definition supervised_actor_map :: "host \<Rightarrow> supervisor \<Rightarrow> (string \<times> string) list res" where
  "supervised_actor_map h s = (case su_bundle s of None \<Rightarrow> Inr [] | Some b \<Rightarrow> actor_map h b)"

definition actor_inventory :: "host \<Rightarrow> supervisor \<Rightarrow> string list" where
  "actor_inventory h s = (case su_bundle s of None \<Rightarrow> [] | Some b \<Rightarrow> actor_ids h b)"

definition task_map :: "host \<Rightarrow> supervisor \<Rightarrow> dict res" where
  "task_map h s =
     (case su_bundle s of
        None \<Rightarrow> Inr []
      | Some b \<Rightarrow>
          bindR (mapR (\<lambda>actor. bindR (pidx actor ''actor_id'') (\<lambda>i.
              Inr (py_str h i, pget_or actor ''task'' (PDict [(''actor'', i)]))))
            (items_of (pget (rec_manifest b) ''actors''))) (\<lambda>entries. Inr (pmerge [] entries)))"

record run_host =
  rh_env :: env
  rh_package :: string
  rh_uid :: int
  rh_tempdir :: string
  rh_boundary_url :: string
  rh_llm_url :: string

text \<open>What is the same in every run of the supervisor.\<close>

definition replay_variables ::
    "host \<Rightarrow> run_host \<Rightarrow> supervisor \<Rightarrow> (string \<times> string) list \<Rightarrow> dict \<Rightarrow> env \<Rightarrow> env" where
  "replay_variables h rh s actors tasks before =
     (let c = su_config s; dir = (\<lambda>name. path_under (su_dir s) name); package = rh_package rh;
          proxy = rh_llm_url rh @ ''/v1''; first = (case rc_targets c of [] \<Rightarrow> [] | (t, _) # _ \<Rightarrow> t)
      in [(''PYTHONPATH'', path_under package ''bootstrap'' @ '':'' @ package), (''PYTHONUNBUFFERED'', ''1''),
          (''NATIVE_REPLAY_ADAPTER'', rc_framework c), (''NATIVE_REPLAY_MODE'', su_mode s),
          (''NATIVE_REPLAY_RUN_ID'', su_run_id s), (''NATIVE_REPLAY_RUN_ROOT'', su_dir s),
          (''NATIVE_REPLAY_PACKAGE_ROOT'', package), (''NATIVE_REPLAY_PROCESS_ROLE'', ''framework''),
          (''NATIVE_REPLAY_BOUNDARY_URL'', rh_boundary_url rh), (''NATIVE_REPLAY_BOUNDARY_TOKEN'', su_token s),
          (''NATIVE_REPLAY_PROXY_URL'', proxy),
          (''NATIVE_REPLAY_LLM_PROXY_ORIGINS'', json_dumps h (PList [PStr (rh_llm_url rh)])),
          (''NATIVE_REPLAY_UPSTREAM_TARGETS'', json_dumps h (text_map
             (map (\<lambda>(t, url). (t, rstrip_char (CHR ''/'') url @ ''/v1'')) (rc_targets c)))),
          (''NATIVE_REPLAY_TARGET_ID'', first), (''NATIVE_REPLAY_TARGET_MAP'', json_dumps h (PDict [])),
          (''NATIVE_REPLAY_ROLE_TARGETS'', json_dumps h (text_map (map (\<lambda>(t, _). (t, t)) (rc_targets c)))),
          (''NATIVE_REPLAY_START_GATE'', dir ''start.gate''), (''NATIVE_REPLAY_READY_DIR'', dir ''actor-ready''),
          (''NATIVE_REPLAY_LANE_BINDING_DIR'', dir ''lane-bindings''),
          (''NATIVE_REPLAY_TERMINAL_DIR'', dir ''task-terminals''),
          (''NATIVE_REPLAY_INSTRUMENTATION_STATUS_DIR'', dir ''instrumentation''),
          (''NATIVE_REPLAY_LANE_EVENT_DIR'', dir ''lane-events''),
          (''NATIVE_REPLAY_RUNTIME_IDENTITY_DIR'', dir ''runtime-identities''),
          (''NATIVE_REPLAY_OPENCODE_IDENTITY'', ''opencode-native-replay-plugin''),
          (''NATIVE_REPLAY_CONCURRENCY'', int_str (rc_concurrency c)),
          (''NATIVE_REPLAY_SCOPE'', CHR ''C'' # int_str (rc_concurrency c)),
          (''NATIVE_REPLAY_GATE_TIMEOUT_S'', int_str (max 600 (rc_duration c * 2))),
          (''NATIVE_REPLAY_ACTOR_MAP'', json_dumps h (text_map actors)),
          (''NATIVE_REPLAY_TASK_MAP'', json_dumps h (PDict tasks)),
          (''NATIVE_REPLAY_ARRIVAL_OFFSETS'', json_dumps h (PDict [])),
          (''OPENAI_BASE_URL'', proxy), (''OPENAI_API_BASE'', proxy),
          (''OPENAI_API_KEY'', env_or before ''OPENAI_API_KEY'' ''native-replay'')])"

text \<open>What a bundle adds: the identities of the source and, for CORAL, the restarts.\<close>

definition bundle_variables :: "host \<Rightarrow> supervisor \<Rightarrow> env res" where
  "bundle_variables h s =
     (case su_bundle s of
        None \<Rightarrow> Inr []
      | Some b \<Rightarrow>
          let bindings = pget (rec_manifest b) ''identity_bindings'';
              sources = (if truthy bindings then [(''NATIVE_REPLAY_SOURCE_IDENTITY_BINDINGS'', json_dumps h bindings)] else [])
          in if rc_framework (su_config s) \<noteq> ''coral'' then Inr sources
             else
               let limits = fixed_invocation_limits (rec_llm b) (rec_cutoff_tails b) in
               bindR (py_iter (pget_or (rec_manifest b) ''coral_controls'' (PList []))) (\<lambda>controls.
               bindR (check_restart_controls h limits controls) (\<lambda>_.
                 Inr (sources @
                   [(''NATIVE_REPLAY_CORAL_INVOCATION_LIMITS'', json_dumps h (PDict (map (\<lambda>(a, n). (a, PInt (int n))) limits))),
                    (''NATIVE_REPLAY_CORAL_CONTROLS'', json_dumps h (PList controls))]))))"

definition runtime_environment :: "host \<Rightarrow> run_host \<Rightarrow> supervisor \<Rightarrow> env res" where
  "runtime_environment h rh s =
     (let c = su_config s;
          before = env_update (nc_environment (native_command_of (rh_uid rh) (rh_tempdir rh) s))
            (env_update (bootstrap_environment (rh_env rh)) (rh_env rh))
      in bindR (supervised_actor_map h s) (\<lambda>actors.
         bindR (task_map h s) (\<lambda>tasks.
         bindR (bundle_variables h s) (\<lambda>added.
           let inventory = actor_inventory h s;
               actors_variable = (if inventory = [] then [] else [(''NATIVE_REPLAY_ACTORS'', json_dumps h (PList (map PStr inventory)))]);
               cpus = (case rc_cpuset c of None \<Rightarrow> [] | Some v \<Rightarrow> if v = [] then [] else [(''NATIVE_REPLAY_DOCKER_CPUSET'', v)]);
               entries = filter (\<lambda>e. e \<noteq> []) (split_on (CHR '':'') (env_or (rc_env c) ''PYTHONPATH'' []));
               python = [(''PYTHONPATH'', join_with '':'' ([path_under (rh_package rh) ''bootstrap'', rh_package rh] @ entries))]
           in Inr (env_update (replay_variables h rh s actors tasks before @ actors_variable @ cpus @ added @ python) before)))))"

section \<open>What the processes of a run find\<close>

lemma bundle_variable_names:
  assumes "bundle_variables h s = Inr extra"
  shows "fst ` set extra \<subseteq> {''NATIVE_REPLAY_SOURCE_IDENTITY_BINDINGS'', ''NATIVE_REPLAY_CORAL_INVOCATION_LIMITS'',
    ''NATIVE_REPLAY_CORAL_CONTROLS''}"
  using assms by (auto simp: bundle_variables_def Let_def bindR_eq_Inr split: option.splits if_splits)

lemma map_of_none_names: "k \<notin> fst ` set kvs \<Longrightarrow> map_of (rev kvs) k = None"
  by (simp add: map_of_eq_None_iff)

definition outer_environment :: "run_host \<Rightarrow> supervisor \<Rightarrow> env" where
  "outer_environment rh s = env_update (nc_environment (native_command_of (rh_uid rh) (rh_tempdir rh) s))
     (env_update (bootstrap_environment (rh_env rh)) (rh_env rh))"

definition instrumented_path :: "run_host \<Rightarrow> string list \<Rightarrow> string" where
  "instrumented_path rh entries = join_with '':'' ([path_under (rh_package rh) ''bootstrap'', rh_package rh] @ entries)"

text \<open>The variables that are set, or not, after the fixed ones.\<close>

definition LATE_VARIABLES :: "string list" where
  "LATE_VARIABLES =
     [''NATIVE_REPLAY_SOURCE_IDENTITY_BINDINGS'', ''NATIVE_REPLAY_CORAL_INVOCATION_LIMITS'', ''NATIVE_REPLAY_CORAL_CONTROLS'',
      ''NATIVE_REPLAY_DOCKER_CPUSET'', ''PYTHONPATH'', ''NATIVE_REPLAY_ACTORS'']"

lemma runtime_lookup:
  assumes "runtime_environment h rh s = Inr env"
  obtains actors tasks where "supervised_actor_map h s = Inr actors" "task_map h s = Inr tasks"
    and "\<forall>k. k \<notin> set LATE_VARIABLES \<longrightarrow>
      map_of env k = (case map_of (rev (replay_variables h rh s actors tasks (outer_environment rh s))) k of
         None \<Rightarrow> map_of (outer_environment rh s) k | Some v \<Rightarrow> Some v)"
    and "map_of env ''NATIVE_REPLAY_ACTORS'' =
      (if actor_inventory h s = [] then map_of (outer_environment rh s) ''NATIVE_REPLAY_ACTORS''
       else Some (json_dumps h (PList (map PStr (actor_inventory h s)))))"
    and "map_of env ''PYTHONPATH'' = Some (instrumented_path rh
      (filter (\<lambda>e. e \<noteq> []) (split_on (CHR '':'') (env_or (rc_env (su_config s)) ''PYTHONPATH'' []))))"
proof -
  from assms obtain actors tasks extra where parts: "supervised_actor_map h s = Inr actors" "task_map h s = Inr tasks"
      "bundle_variables h s = Inr extra"
    and env: "env = env_update (replay_variables h rh s actors tasks (outer_environment rh s) @
        (if actor_inventory h s = [] then [] else [(''NATIVE_REPLAY_ACTORS'', json_dumps h (PList (map PStr (actor_inventory h s))))]) @
        (case rc_cpuset (su_config s) of None \<Rightarrow> [] | Some v \<Rightarrow> if v = [] then [] else [(''NATIVE_REPLAY_DOCKER_CPUSET'', v)]) @
        extra @ [(''PYTHONPATH'', instrumented_path rh
          (filter (\<lambda>e. e \<noteq> []) (split_on (CHR '':'') (env_or (rc_env (su_config s)) ''PYTHONPATH'' []))))])
        (outer_environment rh s)"
    by (auto simp: runtime_environment_def outer_environment_def instrumented_path_def Let_def bindR_eq_Inr)
  note names = bundle_variable_names [OF parts(3)]
  have extra: "map_of (rev extra) k = None" if "k \<notin> {''NATIVE_REPLAY_SOURCE_IDENTITY_BINDINGS'',
      ''NATIVE_REPLAY_CORAL_INVOCATION_LIMITS'', ''NATIVE_REPLAY_CORAL_CONTROLS''}" for k
    using that names by (intro map_of_none_names) auto
  have own: "map_of (rev (replay_variables h rh s actors tasks (outer_environment rh s))) ''NATIVE_REPLAY_ACTORS'' = None"
    by (simp add: replay_variables_def Let_def)
  show ?thesis
  proof (rule that [OF parts(1,2)])
    have "map_of env k = (case map_of (rev (replay_variables h rh s actors tasks (outer_environment rh s))) k of
         None \<Rightarrow> map_of (outer_environment rh s) k | Some v \<Rightarrow> Some v)"
      if "k \<notin> set LATE_VARIABLES" for k
      using that extra [of k] by (simp add: LATE_VARIABLES_def env map_of_env_update map_add_def split: option.split)
    then show "\<forall>k. k \<notin> set LATE_VARIABLES \<longrightarrow> map_of env k =
        (case map_of (rev (replay_variables h rh s actors tasks (outer_environment rh s))) k of
         None \<Rightarrow> map_of (outer_environment rh s) k | Some v \<Rightarrow> Some v)" by blast
  next
    show "map_of env ''NATIVE_REPLAY_ACTORS'' =
      (if actor_inventory h s = [] then map_of (outer_environment rh s) ''NATIVE_REPLAY_ACTORS''
       else Some (json_dumps h (PList (map PStr (actor_inventory h s)))))"
      using extra [of "''NATIVE_REPLAY_ACTORS''"] own by (simp add: env map_of_env_update map_add_def split: option.split)
  next
    show "map_of env ''PYTHONPATH'' = Some (instrumented_path rh
      (filter (\<lambda>e. e \<noteq> []) (split_on (CHR '':'') (env_or (rc_env (su_config s)) ''PYTHONPATH'' []))))"
      by (simp add: env map_of_env_update)
  qed
qed

lemma replay_variable_lookup:
  "map_of (rev (replay_variables h rh s actors tasks outer)) ''NATIVE_REPLAY_MODE'' = Some (su_mode s)"
  "map_of (rev (replay_variables h rh s actors tasks outer)) ''NATIVE_REPLAY_ACTOR_MAP'' = Some (json_dumps h (text_map actors))"
  "map_of (rev (replay_variables h rh s actors tasks outer)) ''NATIVE_REPLAY_LANE_BINDING_DIR'' =
     Some (path_under (su_dir s) ''lane-bindings'')"
  "map_of (rev (replay_variables h rh s actors tasks outer)) ''NATIVE_REPLAY_PROCESS_ROLE'' = Some ''framework''"
  "map_of (rev (replay_variables h rh s actors tasks outer)) ''NATIVE_REPLAY_BOUNDARY_URL'' = Some (rh_boundary_url rh)"
  "map_of (rev (replay_variables h rh s actors tasks outer)) ''NATIVE_REPLAY_BOUNDARY_TOKEN'' = Some (su_token s)"
  "map_of (rev (replay_variables h rh s actors tasks outer)) ''OPENAI_BASE_URL'' = Some (rh_llm_url rh @ ''/v1'')"
  "map_of (rev (replay_variables h rh s actors tasks outer)) ''SWEEP_WARMUP'' = None"
  "map_of (rev (replay_variables h rh s actors tasks outer)) ''SWEEP_RANDOM_WARMUP'' = None"
  by (simp_all add: replay_variables_def Let_def)

lemma outer_lookup:
  "map_of (outer_environment rh s) ''NATIVE_REPLAY_ACTORS'' =
     (case map_of (rev (rc_env (su_config s))) ''NATIVE_REPLAY_ACTORS'' of
        None \<Rightarrow> map_of (rh_env rh) ''NATIVE_REPLAY_ACTORS'' | Some v \<Rightarrow> Some v)" (is ?actors)
  "skips_vllm s \<Longrightarrow> map_of (outer_environment rh s) ''SWEEP_WARMUP'' = Some ''0'' \<and>
     map_of (outer_environment rh s) ''SWEEP_RANDOM_WARMUP'' = Some ''0''" (is "?skip \<Longrightarrow> ?cold")
proof -
  have native: "map_of (nc_environment (native_command_of (rh_uid rh) (rh_tempdir rh) s)) ''NATIVE_REPLAY_ACTORS'' =
      map_of (rev (rc_env (su_config s))) ''NATIVE_REPLAY_ACTORS''"
    by (auto simp: native_command_of_def native_command_def native_environment_def Let_def map_of_env_update split: option.split)
  have distinct: "distinct (map fst (env_update new base))" if "distinct (map fst base)" for new base
    using that unfolding env_update_def by (induction new arbitrary: base) (auto simp: distinct_update)
  have d: "distinct (map fst (nc_environment (native_command_of (rh_uid rh) (rh_tempdir rh) s)))"
    by (simp add: native_command_of_def native_command_def native_environment_def Let_def distinct)
  have r: "map_of (rev xs) k = map_of xs k" if "distinct (map fst xs)" for xs :: env and k
    using that by (metis map_of_eqI distinct_rev map_of_inject_set rev_map set_rev)
  have "fst ` set (bootstrap_environment own) \<subseteq> set BOOTSTRAP_ENV_KEYS" for own
  proof -
    have "fst ` set (List.map_filter (\<lambda>k. map_option (Pair k) (map_of own k)) ks) \<subseteq> set ks" for ks
      by (auto simp: List.map_filter_def)
    moreover have "''PATH'' \<in> set BOOTSTRAP_ENV_KEYS" by (simp add: BOOTSTRAP_ENV_KEYS_def)
    ultimately show ?thesis by (simp add: bootstrap_environment_def Let_def image_Un)
  qed
  then have "map_of (rev (bootstrap_environment own)) ''NATIVE_REPLAY_ACTORS'' = None" for own
    by (intro map_of_none_names) (auto simp: BOOTSTRAP_ENV_KEYS_def)
  then show ?actors
    by (simp add: outer_environment_def map_of_env_update r [OF d] native split: option.split)
  assume ?skip
  then have "map_of (nc_environment (native_command_of (rh_uid rh) (rh_tempdir rh) s)) k = Some ''0''"
    if "k \<in> {''SWEEP_WARMUP'', ''SWEEP_RANDOM_WARMUP''}" for k
    using that by (auto simp: native_command_of_def native_command_def native_environment_def Let_def map_of_env_update)
  then show ?cold by (simp add: outer_environment_def map_of_env_update r [OF d])
qed

text \<open>The texts that the gate decodes, and what it finds in them.\<close>

definition gate_texts_decode :: "host \<Rightarrow> (string \<times> string) list \<Rightarrow> string list \<Rightarrow> bool" where
  "gate_texts_decode h mapping inventory \<longleftrightarrow>
     json_loads h (json_dumps h (text_map mapping)) = Some (canon (text_map mapping)) \<and>
     json_loads h (json_dumps h (PList (map PStr inventory))) = Some (PList (map PStr inventory))"

lemma actor_map_distinct: "actor_map h b = Inr mapping \<Longrightarrow> distinct (map fst mapping)"
  unfolding actor_map_def
proof (rule foldR_invariant [where P = "\<lambda>m. distinct (map fst m)"], assumption)
  fix actor and m m' :: "(string \<times> string) list"
  assume "bindR (actor_sources actor) (\<lambda>sources. foldR (map_source (py_str h (pget actor ''actor_id''))) sources m) = Inr m'"
    and m: "distinct (map fst m)"
  then obtain ss where "foldR (map_source (py_str h (pget actor ''actor_id''))) ss m = Inr m'" by (auto simp: bindR_eq_Inr)
  then show "distinct (map fst m')"
    by (rule foldR_invariant [where P = "\<lambda>m. distinct (map fst m)"]) (auto simp: m map_source_ok distinct_update)
qed simp

lemma text_map_lookup:
  assumes "distinct (map fst mapping)"
  shows "pget (canon (text_map mapping)) k = opt_str (map_of mapping k)"
proof -
  have d: "distinct (map fst (map (\<lambda>(k, v). (k, PStr v)) mapping))"
    using assms by (simp add: comp_def case_prod_unfold)
  show ?thesis
    unfolding text_map_def pget_canon [OF d] by (simp add: pget_PDict map_of_map opt_str_def split: option.split)
qed

text \<open>
  C38: The environment that the supervisor gives to the processes of a run is what the gate inside them needs.
  In a recording there is no identity map, no inventory and a directory for the lane bindings, unless the
  variable of the inventory comes from outside; in a replay the identity map and the inventory of the bundle
  arrive as they are.
\<close>

theorem environment_sets_up_gate:
  assumes "runtime_environment h rh s = Inr env" and "supervised_actor_map h s = Inr mapping"
    and "gate_texts_decode h mapping (actor_inventory h s)"
  shows "case su_bundle s of
      None \<Rightarrow> su_mode s = ''record'' \<and> map_of (rh_env rh) ''NATIVE_REPLAY_ACTORS'' = None \<and>
        map_of (rev (rc_env (su_config s))) ''NATIVE_REPLAY_ACTORS'' = None \<longrightarrow> recording_env h env
    | Some b \<Rightarrow> su_mode s = ''replay'' \<and> actor_ids h b \<noteq> [] \<longrightarrow> replay_env h b mapping env"
proof -
  obtain actors tasks where found: "supervised_actor_map h s = Inr actors" "task_map h s = Inr tasks"
    and env: "\<forall>k. k \<notin> set LATE_VARIABLES \<longrightarrow>
      map_of env k = (case map_of (rev (replay_variables h rh s actors tasks (outer_environment rh s))) k of
         None \<Rightarrow> map_of (outer_environment rh s) k | Some v \<Rightarrow> Some v)"
    and inventory: "map_of env ''NATIVE_REPLAY_ACTORS'' =
      (if actor_inventory h s = [] then map_of (outer_environment rh s) ''NATIVE_REPLAY_ACTORS''
       else Some (json_dumps h (PList (map PStr (actor_inventory h s)))))"
    and path: "map_of env ''PYTHONPATH'' = Some (instrumented_path rh
      (filter (\<lambda>e. e \<noteq> []) (split_on (CHR '':'') (env_or (rc_env (su_config s)) ''PYTHONPATH'' []))))"
    by (rule runtime_lookup [OF assms(1)])
  have actors: "actors = mapping" using found assms(2) by simp
  have distinct: "distinct (map fst mapping)"
    using assms(2) by (auto simp: supervised_actor_map_def actor_map_distinct split: option.splits)
  have mode: "map_of env ''NATIVE_REPLAY_MODE'' = Some (su_mode s)"
    and map: "map_of env ''NATIVE_REPLAY_ACTOR_MAP'' = Some (json_dumps h (text_map mapping))"
    and lanes: "map_of env ''NATIVE_REPLAY_LANE_BINDING_DIR'' = Some (path_under (su_dir s) ''lane-bindings'')"
    by (simp_all add: env LATE_VARIABLES_def replay_variable_lookup actors)
  have decoded: "env_mapping h env ''NATIVE_REPLAY_ACTOR_MAP'' = Inr (canon (text_map mapping))"
    using assms(3) by (simp add: env_mapping_def env_or_def map gate_texts_decode_def text_map_def)
  show ?thesis
  proof (cases "su_bundle s")
    case None
    then have "actor_inventory h s = []" "mapping = []"
      using assms(2) by (simp_all add: actor_inventory_def supervised_actor_map_def)
    then show ?thesis
      using None decoded mode lanes inventory outer_lookup(1) [of rh s]
      by (simp add: recording_env_def env_or_def text_map_def path_under_def)
  next
    case (Some b)
    have "actor_ids h b \<noteq> [] \<longrightarrow> json_loads h (env_or env ''NATIVE_REPLAY_ACTORS'' []) = Some (PList (map PStr (actor_ids h b)))"
      using inventory assms(3) Some by (simp add: env_or_def actor_inventory_def gate_texts_decode_def)
    then show ?thesis
      using Some decoded mode text_map_lookup [OF distinct] by (auto simp: replay_env_def)
  qed
qed

text \<open>
  Nothing that a configuration or the outer environment sets gets a run past its instrumentation: the
  Python path of every process starts with the instrumentation, the mode, the boundary and the proxy are those
  of the run, and a replay without an engine does not warm one up.
\<close>

theorem configuration_keeps_instrumentation:
  assumes "runtime_environment h rh s = Inr env"
  shows "(\<exists>entries. map_of env ''PYTHONPATH'' = Some (instrumented_path rh entries)) \<and>
    map_of env ''NATIVE_REPLAY_MODE'' = Some (su_mode s) \<and>
    map_of env ''NATIVE_REPLAY_PROCESS_ROLE'' = Some ''framework'' \<and>
    map_of env ''NATIVE_REPLAY_BOUNDARY_URL'' = Some (rh_boundary_url rh) \<and>
    map_of env ''NATIVE_REPLAY_BOUNDARY_TOKEN'' = Some (su_token s) \<and>
    map_of env ''OPENAI_BASE_URL'' = Some (rh_llm_url rh @ ''/v1'') \<and>
    (skips_vllm s \<longrightarrow> map_of env ''SWEEP_WARMUP'' = Some ''0'' \<and> map_of env ''SWEEP_RANDOM_WARMUP'' = Some ''0'')"
proof -
  obtain actors tasks where found: "supervised_actor_map h s = Inr actors" "task_map h s = Inr tasks"
    and env: "\<forall>k. k \<notin> set LATE_VARIABLES \<longrightarrow>
      map_of env k = (case map_of (rev (replay_variables h rh s actors tasks (outer_environment rh s))) k of
         None \<Rightarrow> map_of (outer_environment rh s) k | Some v \<Rightarrow> Some v)"
    and inventory: "map_of env ''NATIVE_REPLAY_ACTORS'' =
      (if actor_inventory h s = [] then map_of (outer_environment rh s) ''NATIVE_REPLAY_ACTORS''
       else Some (json_dumps h (PList (map PStr (actor_inventory h s)))))"
    and path: "map_of env ''PYTHONPATH'' = Some (instrumented_path rh
      (filter (\<lambda>e. e \<noteq> []) (split_on (CHR '':'') (env_or (rc_env (su_config s)) ''PYTHONPATH'' []))))"
    by (rule runtime_lookup [OF assms])
  show ?thesis
    using path outer_lookup(2) [of s rh] by (auto simp: env LATE_VARIABLES_def replay_variable_lookup)
qed

section \<open>A replay without an engine\<close>

definition bound_identities :: "(string \<times> string) list" where
  "bound_identities = [(''t1'', ''t1''), (''t2'', ''t1'')]"

definition gate_host :: host where
  "gate_host = plain_host\<lparr>json_loads := (\<lambda>text.
     if text = json_dumps plain_host (text_map bound_identities) then Some (canon (text_map bound_identities))
     else if text = json_dumps plain_host (PList [PStr ''t1'']) then Some (PList [PStr ''t1'']) else None)\<rparr>"

definition small_config :: run_config where
  "small_config = \<lparr>rc_framework = ''owl'', rc_repo = ''/srv/agents'', rc_concurrency = 1, rc_duration = 180, rc_seed = 42,
     rc_targets = [(''default'', ''http://up'')],
     rc_env = [(''NATIVE_REPLAY_MODE'', ''off''), (''PYTHONPATH'', ''/opt/owl''), (''SWEEP_WARMUP'', ''60'')],
     rc_dataset = ''frontier_cs_algo'', rc_agent_turns = 100, rc_global_turns = 10, rc_restart_exited = True, rc_refill = True,
     rc_results_root = None, rc_cpuset = None, rc_gpu_ids = [], rc_serving = []\<rparr>"

definition small_supervisor :: supervisor where
  "small_supervisor = \<lparr>su_mode = ''replay'', su_config = small_config, su_dir = ''/runs/r1'', su_run_id = ''replay-1'',
     su_bundle = Some bound_recording, su_replay_mode = ''tool-only'', su_fast_claim = False, su_token = ''token'',
     su_wiring = (None, None)\<rparr>"

definition small_host :: run_host where
  "small_host = \<lparr>rh_env = [(''HOME'', ''/root'')], rh_package = ''/srv/minireplay/src'', rh_uid = 0, rh_tempdir = ''/tmp'',
     rh_boundary_url = ''http://b'', rh_llm_url = ''http://l''\<rparr>"

definition small_environment :: env where
  "small_environment = projr (runtime_environment gate_host small_host small_supervisor)"

lemma small_environment: "runtime_environment gate_host small_host small_supervisor = Inr small_environment"
proof -
  have "\<not> isl (runtime_environment gate_host small_host small_supervisor)" by code_simp
  then show ?thesis by (simp add: small_environment_def)
qed

theorem environment_sets_up_gate_witness: "replay_env gate_host bound_recording bound_identities small_environment"
proof -
  have map: "supervised_actor_map gate_host small_supervisor = Inr bound_identities" by code_simp
  have texts: "gate_texts_decode gate_host bound_identities (actor_inventory gate_host small_supervisor)" by code_simp
  have "su_mode small_supervisor = ''replay''" "su_bundle small_supervisor = Some bound_recording"
    by (simp_all add: small_supervisor_def)
  moreover have "actor_ids gate_host bound_recording \<noteq> []" by code_simp
  ultimately show ?thesis using environment_sets_up_gate [OF small_environment map texts] by simp
qed

theorem configuration_keeps_instrumentation_witness:
  "map_of small_environment ''NATIVE_REPLAY_MODE'' = Some ''replay'' \<and> map_of small_environment ''SWEEP_WARMUP'' = Some ''0''"
proof -
  have "skips_vllm small_supervisor" "su_mode small_supervisor = ''replay''"
    by (simp_all add: skips_vllm_def small_supervisor_def)
  then show ?thesis using configuration_keeps_instrumentation [OF small_environment] by simp
qed

end
