(* ===== verification/Supervisor_Run.thy ===== *)
theory Supervisor_Run
  imports Launch Lane_Closure
begin

text \<open>
  supervisor.py: the course of a run from the gate to its verdict, how a recording becomes a bundle, and when a
  configuration may replay one.

  What a run meets is a \<open>run_view\<close>: the polls of its two waiting loops in their order, the directories that its
  processes wrote, and the services as they are where the run reads them.  A loop whose polls are used up has
  timed out.  Reports, resource counters and the removal of processes and directories are left out.
\<close>

section \<open>Waiting\<close>

text \<open>A poll of the ready files, and whether the sweep had exited by then.\<close>

fun wait_actors_ready :: "int \<Rightarrow> ('a list \<times> bool) list \<Rightarrow> 'a list res" where
  "wait_actors_ready wanted [] = Inl (InfrastructureError ''not all actors reached the gate'')"
| "wait_actors_ready wanted ((ready, exited) # polls) =
     (if wanted \<le> int (length ready) then Inr ready
      else if exited then Inl (InfrastructureError ''the native sweep exited before the actors reached the gate'')
      else wait_actors_ready wanted polls)"

text \<open>
  A poll of the boundary: the services and the clock, the time of the sweep's \<open>sample_end\<close> event if there is
  one, and the services and the clock once more where the sweep was found to have exited.
\<close>

record poll =
  po_services :: services
  po_now :: int
  po_sample_end :: "int option"
  po_exited :: "(services \<times> int) option"

fun wait_boundary :: "host \<Rightarrow> bool \<Rightarrow> poll list \<Rightarrow> (int \<times> string) res" where
  "wait_boundary h replays [] = Inl (InfrastructureError ''timed out waiting for the run boundary'')"
| "wait_boundary h replays (p # polls) =
     bindR (services_healthy (po_services p)) (\<lambda>_.
       if replays \<and> services_complete h (po_now p) (po_services p) then Inr (po_now p, ''fixed-work-complete'')
       else case po_sample_end p of
           Some boundary_ns \<Rightarrow>
             if replays then Inl (MismatchError ''the native sweep reached sample_end before the recorded work completed'')
             else Inr (boundary_ns, ''sweep-sample-end'')
         | None \<Rightarrow>
             (case po_exited p of
                None \<Rightarrow> wait_boundary h replays polls
              | Some (sv, now) \<Rightarrow>
                  if replays \<and> services_complete h now sv then Inr (now, ''fixed-work-complete'')
                  else Inl (InfrastructureError ''the native sweep exited before its sample boundary'')))"

text \<open>\<open>_phase_event_ns\<close>: the wall clock of a phase event in the monotonic clock of the run.\<close>

definition phase_event_ns :: "pyval list \<Rightarrow> string \<Rightarrow> int \<Rightarrow> int \<Rightarrow> int option" where
  "phase_event_ns events event now_wall now_mono =
     (case filter (\<lambda>r. pget r ''event'' = PStr event \<and> is_number (pget r ''ts_epoch'')) events of
        [] \<Rightarrow> None
      | r # _ \<Rightarrow> Some (now_mono - (now_wall -
          (let x = the (num_of (pget r ''ts_epoch'')) * 1000000000 in if 0 \<le> x then \<lfloor>x\<rfloor> else \<lceil>x\<rceil>))))"

section \<open>What a run leaves\<close>

record run_view =
  rv_launched :: "unit res"
  rv_actor_polls :: "((string \<times> pyval) list \<times> bool) list"
  rv_before_gate :: services
  rv_gate :: "int \<times> int"
  rv_polls :: "poll list"
  rv_at_cutoff :: services
  rv_end :: services
  rv_now :: int
  rv_terminals :: "pyval list"
  rv_ready :: "(string \<times> pyval) list"
  rv_bindings :: "(string \<times> pyval) list"
  rv_lanes :: lane_dir
  rv_draw :: "string \<Rightarrow> tick"
  rv_instrumentation :: pyval

text \<open>
  The files of the stage: what the two services wrote, then what the lane logs became.  The spans of both
  services go to one file; nothing that reads it depends on their order.
\<close>

definition of_ledger :: "string \<Rightarrow> (string \<times> pyval) list \<Rightarrow> pyval list" where
  "of_ledger kind entries = map snd (filter (\<lambda>e. fst e = kind) entries)"

definition stage_files :: "services \<Rightarrow> (string \<times> pyval) list \<Rightarrow> pyval list \<Rightarrow> stage" where
  "stage_files sv lane_entries lane_spans =
     (let entries = ledger_file (sv_boundary sv) @ lane_entries
      in \<lparr>kept_dispatch = of_ledger ''dispatch'' entries, kept_tool = of_ledger ''tool'' entries,
          kept_grader = of_ledger ''grader'' entries, kept_artifact = of_ledger ''artifact'' entries,
          kept_llm = ls_llm_file (sv_llm sv),
          kept_span = ls_span_file (sv_llm sv) @ span_file (sv_boundary sv) @ lane_spans\<rparr>)"

definition actors_of_stage :: "host \<Rightarrow> run_view \<Rightarrow> stage \<Rightarrow> pyval \<Rightarrow> pyval list res" where
  "actors_of_stage h rv st tails =
     actors_from_stage h (rv_ready rv) (rv_bindings rv)
       (kept_llm st @ kept_dispatch st @ kept_tool st @ kept_grader st @ kept_artifact st) tails"

definition lane_ledger_config :: "supervisor \<Rightarrow> ledger_config" where
  "lane_ledger_config s =
     \<lparr>cfg_mode = ''record'', cfg_replay_mode = ''full'', cfg_auth_token = su_token s,
      cfg_adapter = rc_framework (su_config s), cfg_run_root = su_dir s, cfg_repo = rc_repo (su_config s),
      cfg_fast_claim = False\<rparr>"

text \<open>
  A recording that reached its boundary: the lane logs become records, the tool calls without a dispatch become
  tails, the tails of stopped teams are cut, and the stage is closed.
\<close>

definition close_recording ::
    "host \<Rightarrow> supervisor \<Rightarrow> run_view \<Rightarrow> int \<Rightarrow> pyval \<Rightarrow> (stage \<times> pyval) res" where
  "close_recording h s rv cutoff_at_ns snapshot =
     (case materialize_lane_recording h (lane_ledger_config s) (rv_draw rv) cutoff_at_ns (rv_lanes rv) of
        (Inl e, _) \<Rightarrow> Inl e
      | (Inr operations, lanes) \<Rightarrow>
          let st = stage_files (rv_end rv) (ledger_file lanes) (span_file lanes);
              adapter_name = rc_framework (su_config s) in
          bindR (materialize_pre_dispatch_tails h adapter_name (kept_llm st) (kept_dispatch st)
                   \<lparr>ct_operations = operations, ct_requests = items_of (pget snapshot ''llm_requests'')\<rparr>) (\<lambda>tails.
          bindR (actors_of_stage h rv st (tails_value tails)) (\<lambda>actors.
          bindR (apply_coral_task_cutoffs h adapter_name (tails_value tails) (rv_terminals rv) actors
                   (fst (rv_gate rv)) (snd (rv_gate rv))) (\<lambda>clamped.
          bindR (close_stage_at_cutoff h clamped st) (\<lambda>(closed_stage, report). Inr (closed_stage, clamped))))))"

record run_result =
  rr_stage :: stage
  rr_tails :: pyval
  rr_terminal :: pyval
  rr_gate_at :: int
  rr_terminal_at :: int

definition terminal_value :: "string \<Rightarrow> run_view \<Rightarrow> pyval" where
  "terminal_value reason rv = PDict
     [(''schema_version'', PStr TERMINAL_SCHEMA), (''status'', PStr ''success''), (''reason'', PStr reason),
      (''task_terminals'', PList (rv_terminals rv)), (''instrumentation'', rv_instrumentation rv)]"

definition supervise :: "host \<Rightarrow> supervisor \<Rightarrow> run_view \<Rightarrow> run_result res" where
  "supervise h s rv =
     (let replays = (su_mode s = ''replay'') in
      bindR (rv_launched rv) (\<lambda>_.
      bindR (wait_actors_ready (rc_concurrency (su_config s)) (rv_actor_polls rv)) (\<lambda>_.
      bindR (services_healthy (rv_before_gate rv)) (\<lambda>_.
      bindR (wait_boundary h replays (rv_polls rv)) (\<lambda>(boundary_ns, reason).
      bindR (fst (services_freeze h boundary_ns (rv_at_cutoff rv))) (\<lambda>snapshot.
      bindR (if replays then Inr (stage_files (rv_end rv) [] [], snapshot)
             else close_recording h s rv boundary_ns snapshot) (\<lambda>(st, tails).
      bindR (unexpected_failed_tasks h (su_mode s) reason (su_bundle s) (rv_terminals rv)) (\<lambda>failed.
      bindR (if failed \<noteq> [] then Inl (InfrastructureError ''native task terminal reported failure'') else Inr ()) (\<lambda>_.
      bindR (if replays then services_assert_consumed h (rv_now rv) (rv_end rv) else Inr ()) (\<lambda>_.
        Inr \<lparr>rr_stage = st, rr_tails = tails, rr_terminal = terminal_value reason rv,
             rr_gate_at = fst (rv_gate rv), rr_terminal_at = boundary_ns\<rparr>))))))))))"

section \<open>Recording and replaying a bundle\<close>

definition identity_bindings :: "(string \<times> pyval) list \<Rightarrow> dict res" where
  "identity_bindings files =
     bindR (mapR (\<lambda>r. bindR (require (is_dict r) ''expected a JSON object'') (\<lambda>_.
         bindR (require (is_nonempty_str (pget r ''actor_id'')) ''runtime identity has no actor'') (\<lambda>_.
           Inr (str_of (pget r ''actor_id''), r)))) (map snd (sort_key fst files)))
       (\<lambda>entries. Inr (pmerge [] entries))"

definition bundle_id_for :: "host \<Rightarrow> pyval \<Rightarrow> string" where
  "bundle_id_for h workload = take 16 (sha256_json h workload)"

text \<open>The files that the run leaves for the bundle: the model catalogue, the runtime identities, the logs of CORAL.\<close>

record run_files =
  rf_models :: pyval
  rf_identities :: "(string \<times> pyval) list"
  rf_read_log :: "string \<Rightarrow> string option"

definition record_bundle ::
    "host \<Rightarrow> supervisor \<Rightarrow> run_view \<Rightarrow> run_files \<Rightarrow> disk option \<Rightarrow> (disk \<times> recording) res" where
  "record_bundle h s rv rf there =
     (let c = su_config s; identity = workload_identity c in
      bindR (supervise h s rv) (\<lambda>run.
      bindR (actors_of_stage h rv (rr_stage run) (rr_tails run)) (\<lambda>actors.
      bindR (require (actors \<noteq> []) ''the recording observed no actors'') (\<lambda>_.
      let limits = fixed_invocation_limits (kept_llm (rr_stage run)) (rr_tails run) in
      bindR (if rc_framework c = ''coral''
             then recorded_restart_controls h (rf_read_log rf) actors (rv_terminals rv) (kept_grader (rr_stage run)) limits
             else Inr []) (\<lambda>controls.
      bindR (identity_bindings (rf_identities rf)) (\<lambda>bindings.
        build_bundle h
          \<lparr>bp_bundle_id = PStr (bundle_id_for h identity), bp_adapter = rc_framework c, bp_workload = identity,
           bp_actors = actors,
           bp_window = PDict [(''gate_at_ns'', PInt (rr_gate_at run)), (''terminal_at_ns'', PInt (rr_terminal_at run))],
           bp_terminal = rr_terminal run, bp_models = rf_models rf, bp_bindings = PDict bindings, bp_controls = PList controls\<rparr>
          (rr_stage run)
          \<lparr>ct_operations = items_of (pget_or (rr_tails run) ''operations'' (PList [])),
           ct_requests = items_of (pget_or (rr_tails run) ''llm_requests'' (PList []))\<rparr> there))))))"

text \<open>\<open>replay_bundle\<close> up to the start of its supervisor.\<close>

definition replay_bundle ::
    "host \<Rightarrow> file_view \<Rightarrow> (string \<Rightarrow> string option) \<Rightarrow> string \<Rightarrow> disk option \<Rightarrow> run_config \<Rightarrow> string \<Rightarrow> string \<Rightarrow>
     string \<Rightarrow> bool \<Rightarrow> supervisor res" where
  "replay_bundle h fv read fresh disk c dir run_id kind fast =
     bindR (load_bundle h disk) (\<lambda>b.
     bindR (pidx (rec_manifest b) ''workload'') (\<lambda>recorded.
       if \<not> py_eq recorded (workload_identity c)
       then Inl (MismatchError ''config does not match the bundle's workload'')
       else new_supervisor h fv read fresh ''replay'' c dir run_id (Some b) kind fast))"

section \<open>A replay that passes did the recorded work\<close>

lemma replay_boundary_reached:
  assumes "wait_boundary h True polls = Inr (boundary_ns, reason)"
  shows "\<exists>before p after. polls = before @ p # after \<and> reason = ''fixed-work-complete'' \<and>
    (\<forall>q \<in> set before. services_healthy (po_services q) = Inr () \<and> po_sample_end q = None \<and> po_exited q = None) \<and>
    services_healthy (po_services p) = Inr () \<and>
    (boundary_ns = po_now p \<and> services_complete h (po_now p) (po_services p) \<or>
     (\<exists>sv. po_exited p = Some (sv, boundary_ns) \<and> services_complete h boundary_ns sv))"
  using assms
proof (induction polls)
  case (Cons p polls)
  have healthy: "services_healthy (po_services p) = Inr ()" using Cons.prems by (auto simp: bindR_eq_Inr)
  show ?case
  proof (cases "services_complete h (po_now p) (po_services p) \<or> po_sample_end p \<noteq> None \<or> po_exited p \<noteq> None")
    case True
    then show ?thesis
      using Cons.prems healthy
      by (intro exI [of _ "[]"] exI [of _ p] exI [of _ polls]) (auto split: if_splits option.splits)
  next
    case False
    then have "wait_boundary h True polls = Inr (boundary_ns, reason)" using Cons.prems healthy by (cases "po_exited p") simp_all
    from Cons.IH [OF this] obtain before q after where polls: "polls = before @ q # after"
      and "reason = ''fixed-work-complete'' \<and>
        (\<forall>q \<in> set before. services_healthy (po_services q) = Inr () \<and> po_sample_end q = None \<and> po_exited q = None) \<and>
        services_healthy (po_services q) = Inr () \<and>
        (boundary_ns = po_now q \<and> services_complete h (po_now q) (po_services q) \<or>
         (\<exists>sv. po_exited q = Some (sv, boundary_ns) \<and> services_complete h boundary_ns sv))" by blast
    moreover have "po_sample_end p = None \<and> po_exited p = None" using False by blast
    ultimately have "p # polls = (p # before) @ q # after \<and> reason = ''fixed-work-complete'' \<and>
        (\<forall>q \<in> set (p # before). services_healthy (po_services q) = Inr () \<and> po_sample_end q = None \<and> po_exited q = None) \<and>
        services_healthy (po_services q) = Inr () \<and>
        (boundary_ns = po_now q \<and> services_complete h (po_now q) (po_services q) \<or>
         (\<exists>sv. po_exited q = Some (sv, boundary_ns) \<and> services_complete h boundary_ns sv))"
      using healthy polls by simp
    then show ?thesis by blast
  qed
qed simp

text \<open>What the calls of a run leave as it is: what either service expects.\<close>

lemma service_steps_keep_recording:
  "expected (sv_boundary (fold (service_step h) calls sv)) = expected (sv_boundary sv) \<and>
   ls_queues (sv_llm (fold (service_step h) calls sv)) = ls_queues (sv_llm sv) \<and>
   ls_replaying (sv_llm (fold (service_step h) calls sv)) = ls_replaying (sv_llm sv)"
proof (rule service_steps_keep [where P = "\<lambda>t. expected (sv_boundary t) = expected (sv_boundary sv) \<and>
    ls_queues (sv_llm t) = ls_queues (sv_llm sv) \<and> ls_replaying (sv_llm t) = ls_replaying (sv_llm sv)"])
  fix call and t :: services
  assume t: "expected (sv_boundary t) = expected (sv_boundary sv) \<and>
    ls_queues (sv_llm t) = ls_queues (sv_llm sv) \<and> ls_replaying (sv_llm t) = ls_replaying (sv_llm sv)"
  have step: "ls_queues (llm_step h r l) = ls_queues l \<and> ls_replaying (llm_step h r l) = ls_replaying l" for r l
    using llm_step_slots [where h = h and call = r and st = l] by (auto simp: same_slots_def split: option.splits)
  have models: "ls_queues (snd (handle_models i a l)) = ls_queues l \<and> ls_replaying (snd (handle_models i a l)) = ls_replaying l" for i a l
    by (auto simp: handle_models_def Let_def split: option.splits sum.splits)
  have freeze: "ls_queues (snd (llm_freeze_source_cutoff c l)) = ls_queues l \<and>
      ls_replaying (snd (llm_freeze_source_cutoff c l)) = ls_replaying l" for c l
    unfolding llm_freeze_source_cutoff_def
    by (rule mapS_keeps [where P = "\<lambda>t. ls_queues t = ls_queues l \<and> ls_replaying t = ls_replaying l"])
       (auto simp: freeze_inflight_def split: sum.splits)
  have "expected (sv_boundary (service_step h call t)) = expected (sv_boundary t)"
    using service_step_moves [of h call t] boundary_step_recording
    by (auto simp: ledger_moves_def same_recording_def)
  moreover have "ls_queues (sv_llm (service_step h call t)) = ls_queues (sv_llm t) \<and>
      ls_replaying (sv_llm (service_step h call t)) = ls_replaying (sv_llm t)"
    using service_step_moves [of h call t] step models freeze unfolding llm_moves_def by metis
  ultimately show "expected (sv_boundary (service_step h call t)) = expected (sv_boundary sv) \<and>
      ls_queues (sv_llm (service_step h call t)) = ls_queues (sv_llm sv) \<and>
      ls_replaying (sv_llm (service_step h call t)) = ls_replaying (sv_llm sv)" using t by simp
qed simp

text \<open>Every recorded attempt waits in a queue of the store.\<close>

lemma llm_record_is_queued:
  assumes "new_llm_store mode rm dir ups (Some (manifest, rs)) sec ha ns = Inr st" and "r \<in> set rs"
  shows "r \<in> set (llm_records st)"
proof -
  have "r \<in> set (llm_queue st (record_key r))" using loaded_queue(1) [OF assms(1)] assms(2) by simp
  then obtain q where q: "map_of (ls_queues st) (record_key r) = Some q" "r \<in> set q"
    by (cases "map_of (ls_queues st) (record_key r)") (simp_all add: llm_queue_def)
  from map_of_SomeD [OF q(1)] have "set q \<subseteq> set (llm_records st)" by (force simp: llm_records_def)
  with q(2) show ?thesis by blast
qed

text \<open>What the two checks at the end of a replay say about the recording it was loaded from.\<close>

lemma consumed_recording:
  assumes "new_services h sc (Some b) = Inr sv0" and "cfg_mode (sc_ledger sc) = ''replay''"
    and "services_start None None sv0 = (Inr (), sv1)" and sv: "sv = services_stop (fold (service_step h) calls sv1)"
    and "services_assert_consumed h now sv = Inr ()"
  shows "\<forall>kind \<in> set KINDS. \<forall>r \<in> set (records b kind).
      identity_of h kind r \<in> truncated (sv_boundary sv) \<union> recorded_ids (sv_boundary sv)"
    and "\<forall>r \<in> set (rec_llm b). attempt_of h r \<in> set (map (attempt_of h) (ls_llm_file (sv_llm sv)))"
    and "\<not> services_unexpected_active sv"
proof -
  from assms(1) have llm: "new_llm_store (cfg_mode (sc_ledger sc)) (cfg_replay_mode (sc_ledger sc)) (sc_run_dir sc)
      (sc_upstreams sc) (Some (rec_manifest b, rec_llm b)) (sc_secret sc) (sc_has_audit sc) (sc_namespace sc) = Inr (sv_llm sv0)"
    and ops: "boundary_ledger h (sc_ledger sc) (Some b) = Inr (sv_boundary sv0)"
    by (auto simp: new_services_def bindR_eq_Inr)
  have started: "sv_boundary sv1 = sv_boundary sv0" "sv_llm sv1 = sv_llm sv0"
    using assms(3) by (auto simp: services_start_def start_service_def bindS_def)
  have stopped: "sv_boundary sv = sv_boundary (fold (service_step h) calls sv1)" "sv_llm sv = sv_llm (fold (service_step h) calls sv1)"
    by (simp_all add: sv services_stop_def)
  note kept = service_steps_keep_recording [of h calls sv1, folded stopped, unfolded started]
  have inv: "ledger_inv (sv_boundary sv) \<and> llm_ledger_ok h (sv_llm sv)"
    unfolding stopped
  proof (rule service_steps_keep [where P = "\<lambda>sv. ledger_inv (sv_boundary sv) \<and> llm_ledger_ok h (sv_llm sv)"])
    show "ledger_inv (sv_boundary sv1) \<and> llm_ledger_ok h (sv_llm sv1)"
      using reachable_services_ok [OF assms(1), of "[]"] started by simp
  qed (rule service_step_ok)
  from assms(5) have ended: "missing_ops h (sv_boundary sv) = []" "\<not> has_unexpected_active (sv_boundary sv)"
    and attempts: "llm_assert_consumed h (sv_llm sv) = Inr ()"
    by (auto simp: services_assert_consumed_def bindR_eq_Inr assert_consumed_ok)
  show "\<not> services_unexpected_active sv" using ended(2) by (simp add: services_unexpected_active_def)
  show "\<forall>kind \<in> set KINDS. \<forall>r \<in> set (records b kind).
      identity_of h kind r \<in> truncated (sv_boundary sv) \<union> recorded_ids (sv_boundary sv)"
  proof (intro ballI)
    fix kind r assume "kind \<in> set KINDS" and "r \<in> set (records b kind)"
    from record_is_queued [OF ops this] obtain key q
      where queued: "(key, q) \<in> set (expected (sv_boundary sv0))" and "fst key = kind" "r \<in> set q" by auto
    then have "identity_of h kind r \<in> set (case (key, q) of (key, q) \<Rightarrow> map (identity_of h (fst key)) q)" by simp
    moreover have "set (case (key, q) of (key, q) \<Rightarrow> map (identity_of h (fst key)) q) \<subseteq> set (expected_ids h (sv_boundary sv))"
      using queued kept unfolding expected_ids_def by (metis (no_types, lifting) UN_upper image_eqI set_concat set_map)
    ultimately have "identity_of h kind r \<in> set (expected_ids h (sv_boundary sv))" by blast
    then show "identity_of h kind r \<in> truncated (sv_boundary sv) \<union> recorded_ids (sv_boundary sv)"
      using ended(1) inv by (auto simp: missing_none list_all_iff ledger_inv_def)
  qed
  have "ls_replaying (sv_llm sv)" using loaded_queue(3) [OF llm] kept assms(2) by simp
  then have "replay_ledger h (sv_llm sv)" using inv by (auto simp: llm_ledger_ok_def Llm_Ledger.record_ledger_def)
  moreover have "set (rec_llm b) \<subseteq> set (llm_records (sv_llm sv))"
    using llm_record_is_queued [OF llm] kept by (auto simp: llm_records_def)
  ultimately show "\<forall>r \<in> set (rec_llm b). attempt_of h r \<in> set (map (attempt_of h) (ls_llm_file (sv_llm sv)))"
    using attempts by (simp only: missing_iff list_all_iff replay_ledger_def) blast
qed


section \<open>A recorded bundle admits its workload\<close>

text \<open>Sorting the keys of a value changes nothing that a comparison sees.\<close>

lemma py_eq_canon: "py_eq (canon v) w = py_eq v w"
proof (induction v arbitrary: w rule: canon.induct)
  case (1 xs)
  have "list_all (\<lambda>(x, y). py_eq x y) (zip (map canon xs) ys) = list_all (\<lambda>(x, y). py_eq x y) (zip xs ys)" for ys
    using 1 by (induction xs ys rule: list_induct2') auto
  then show ?case by (simp split: pyval.split)
next
  case (2 kvs)
  then show ?case by (auto simp: list_all_iff split: pyval.split option.split)
qed simp_all

lemma pidx_of_pget: "pget v k \<noteq> PNone \<Longrightarrow> pidx v k = Inr (pget v k)"
  by (cases "map_of (fields_of v) k") (simp_all add: pidx_def pget_def pget_or_def)

text \<open>Equal workloads agree in everything that the sweep is started with, its repository apart.\<close>

lemma workload_fields:
  "workload_identity c = workload_identity d \<longleftrightarrow>
     rc_framework c = rc_framework d \<and> rc_concurrency c = rc_concurrency d \<and> rc_duration c = rc_duration d \<and>
     rc_seed c = rc_seed d \<and> rc_refill c = rc_refill d \<and>
     (rc_framework c = ''coral'' \<longrightarrow> rc_dataset c = rc_dataset d \<and> rc_agent_turns c = rc_agent_turns d \<and>
        rc_global_turns c = rc_global_turns d \<and> rc_restart_exited c = rc_restart_exited d)"
  by (auto simp: workload_identity_def)

lemma workload_compared: "py_eq (workload_identity d) (workload_identity c) \<longleftrightarrow> workload_identity c = workload_identity d"
  by (cases "rc_framework c = ''coral''"; cases "rc_framework d = ''coral''")
     (auto simp: workload_fields workload_identity_def)

lemma same_workload_same_sweep:
  "workload_identity c = workload_identity d \<Longrightarrow> rc_repo c = rc_repo d \<Longrightarrow> sweep_command c duration = sweep_command d duration"
  by (cases duration) (simp_all add: workload_fields sweep_command_def)

text \<open>
  C40: A bundle that a recording wrote can be replayed by exactly the configurations that have the workload of
  the recording, and any of them starts the sweep with the same command for the same time, if it has the same
  repository: the bundle on disk loads, and nothing else about it is refused before the supervisor starts.
\<close>

theorem recorded_bundle_admits_its_workload:
  assumes "record_bundle h s rv rf there = Inr (disk, b)" and "hex_sha256 h"
  shows "replay_bundle h fv read fresh (Some disk) c dir run_id kind fast =
      (if workload_identity c = workload_identity (su_config s)
       then new_supervisor h fv read fresh ''replay'' c dir run_id (Some b) kind fast
       else Inl (MismatchError ''config does not match the bundle's workload'')) \<and>
    (workload_identity c = workload_identity (su_config s) \<and> rc_repo c = rc_repo (su_config s) \<longrightarrow>
       sweep_command c duration = sweep_command (su_config s) duration)"
proof -
  from assms(1) obtain plan st tails where "build_bundle h plan st tails there = Inr (disk, b)"
    and plan: "bp_workload plan = workload_identity (su_config s)"
    by (auto simp: record_bundle_def Let_def bindR_eq_Inr)
  from built_manifest [OF this(1) assms(2)] obtain lanes events models bindings window where
    loaded: "load_bundle h (Some disk) = Inr b"
    and manifest: "rec_manifest b = canon (bundle_manifest plan lanes events models bindings window)" by blast
  have "pget (rec_manifest b) ''workload'' = canon (workload_identity (su_config s))"
    by (simp add: manifest manifest_fields plan del: canon.simps)
  then have "pidx (rec_manifest b) ''workload'' = Inr (canon (workload_identity (su_config s)))"
    by (subst pidx_of_pget) (simp_all add: workload_identity_def)
  then have "replay_bundle h fv read fresh (Some disk) c dir run_id kind fast =
      (if workload_identity c = workload_identity (su_config s)
       then new_supervisor h fv read fresh ''replay'' c dir run_id (Some b) kind fast
       else Inl (MismatchError ''config does not match the bundle's workload''))"
    by (simp add: replay_bundle_def loaded py_eq_canon workload_compared del: canon.simps py_eq.simps)
  then show ?thesis using same_workload_same_sweep [of c "su_config s" duration] by blast
qed

text \<open>A replay of a dispatch and a model request.\<close>

definition work_recording :: recording where
  "work_recording = two_lane_recording
     \<lparr>rec_llm := [sample_attempt 0 ''first''], rec_dispatches := [sample_slot ''dispatch'' ''bash'' ''d1'' 10 []]\<rparr>"

definition work_config :: services_config where
  "work_config = \<lparr>sc_ledger = sample_config\<lparr>cfg_replay_mode := ''tool-only''\<rparr>, sc_run_dir = ''/run'', sc_upstreams = [],
     sc_secret = None, sc_has_audit = False, sc_namespace = None\<rparr>"

definition work_services :: services where
  "work_services = projr (new_services plain_host work_config (Some work_recording))"

definition work_started :: services where
  "work_started = snd (services_start None None work_services)"

definition work_calls :: "service_call list" where
  "work_calls =
     [Operation_Start 11 (tick_at 11 ''1'') ''Bearer k'' (start_payload ''dispatch'' ''bash'' []),
      Operation_Complete 15 ''Bearer k'' (PDict [(''reservation_id'', PStr ''1''), (''result'', PStr ''ok''), (''ended_at_ns'', PInt 15)]),
      Llm_Call 16 sample_env sample_identity ''{}'' ''chat.completions'', Source_Cutoff 20]"

definition work_after :: "nat \<Rightarrow> services" where
  "work_after n = fold (service_step plain_host) (take n work_calls) work_started"

definition work_view :: run_view where
  "work_view = \<lparr>rv_launched = Inr (), rv_actor_polls = [([], False), ([(''a0'', PDict [])], False)], rv_before_gate = work_started,
     rv_gate = (5, 5000),
     rv_polls = [\<lparr>po_services = work_after 1, po_now = 13, po_sample_end = None, po_exited = None\<rparr>,
       \<lparr>po_services = work_after 3, po_now = 20, po_sample_end = None, po_exited = None\<rparr>],
     rv_at_cutoff = work_after 3, rv_end = services_stop (fold (service_step plain_host) work_calls work_started), rv_now = 21,
     rv_terminals = [], rv_ready = [], rv_bindings = [], rv_lanes = [], rv_draw = (\<lambda>_. tick_at 0 []),
     rv_instrumentation = PNone\<rparr>"

definition work_supervisor :: supervisor where
  "work_supervisor = small_supervisor\<lparr>su_bundle := Some work_recording\<rparr>"

lemma work_services_new: "new_services plain_host work_config (Some work_recording) = Inr work_services"
proof -
  have "\<not> isl (new_services plain_host work_config (Some work_recording))" by code_simp
  then show ?thesis by (simp add: work_services_def)
qed

lemma work_services_started: "services_start None None work_services = (Inr (), work_started)"
  by (simp add: work_started_def services_start_def start_service_def bindS_def)

lemma work_boundary: "wait_boundary plain_host True (rv_polls work_view) = Inr (20, ''fixed-work-complete'')"
  by code_simp

lemma work_consumed: "services_assert_consumed plain_host (rv_now work_view) (rv_end work_view) = Inr ()"
  by code_simp

lemma work_snapshot: "\<not> isl (fst (services_freeze plain_host 20 (rv_at_cutoff work_view)))"
  by code_simp

lemma work_replay: "\<exists>run. supervise plain_host work_supervisor work_view = Inr run"
proof -
  have failed: "unexpected_failed_tasks plain_host ''replay'' ''fixed-work-complete'' (Some work_recording) [] = Inr []"
    by code_simp
  have "services_healthy work_started = Inr ()" by code_simp
  moreover have "su_mode work_supervisor = ''replay''" "su_bundle work_supervisor = Some work_recording"
    "rc_concurrency (su_config work_supervisor) = 1" by (simp_all add: work_supervisor_def small_supervisor_def small_config_def)
  moreover have "rv_launched work_view = Inr ()" "rv_before_gate work_view = work_started" "rv_terminals work_view = []"
    "wait_actors_ready 1 (rv_actor_polls work_view) = Inr [(''a0'', PDict [])]" by (simp_all add: work_view_def)
  moreover obtain snapshot where "fst (services_freeze plain_host 20 (rv_at_cutoff work_view)) = Inr snapshot"
    using work_snapshot by (cases "fst (services_freeze plain_host 20 (rv_at_cutoff work_view))") auto
  ultimately show ?thesis
    using work_boundary work_consumed failed by (simp add: supervise_def Let_def)
qed


section \<open>A recording in which nothing is recorded\<close>

definition quiet_supervisor :: supervisor where
  "quiet_supervisor = small_supervisor\<lparr>su_mode := ''record'', su_bundle := None\<rparr>"

definition quiet_view :: run_view where
  "quiet_view = \<lparr>rv_launched = Inr (), rv_actor_polls = [([(''a1'', PDict [(''actor_id'', PStr ''a1'')])], False)],
     rv_before_gate = recording_run, rv_gate = (5, 5000),
     rv_polls = [\<lparr>po_services = recording_run, po_now = 20, po_sample_end = Some 19, po_exited = None\<rparr>],
     rv_at_cutoff = recording_run, rv_end = services_stop recording_run, rv_now = 21, rv_terminals = [],
     rv_ready = [(''a1'', PDict [(''actor_id'', PStr ''a1'')])], rv_bindings = [], rv_lanes = [], rv_draw = (\<lambda>_. tick_at 0 []),
     rv_instrumentation = PDict []\<rparr>"

definition quiet_files :: run_files where
  "quiet_files = \<lparr>rf_models = PDict [], rf_identities = [], rf_read_log = (\<lambda>_. None)\<rparr>"

definition quiet_stage :: stage where
  "quiet_stage = \<lparr>kept_dispatch = [], kept_tool = [], kept_grader = [], kept_artifact = [], kept_llm = [], kept_span = []\<rparr>"

definition quiet_run :: run_result where
  "quiet_run = \<lparr>rr_stage = quiet_stage, rr_tails = PDict [(''operations'', PList []), (''llm_requests'', PList [])],
     rr_terminal = terminal_value ''sweep-sample-end'' quiet_view, rr_gate_at = 5, rr_terminal_at = 19\<rparr>"

definition quiet_actors :: "pyval list" where
  "quiet_actors = [PDict [(''actor_id'', PStr ''a1''), (''source_actor_id'', PNone), (''source_actor_ids'', PList []),
     (''process_role'', PNone), (''task'', PDict [(''dynamic_actor'', PStr ''a1'')])]]"

definition quiet_plan :: bundle_plan where
  "quiet_plan = \<lparr>bp_bundle_id = PStr ''0a'', bp_adapter = ''owl'', bp_workload = workload_identity small_config,
     bp_actors = quiet_actors, bp_window = PDict [(''gate_at_ns'', PInt 5), (''terminal_at_ns'', PInt 19)],
     bp_terminal = terminal_value ''sweep-sample-end'' quiet_view, bp_models = PDict [], bp_bindings = PDict [],
     bp_controls = PList []\<rparr>"

lemma quiet_run: "supervise digest_host quiet_supervisor quiet_view = Inr quiet_run"
  by code_simp

lemma quiet_roster: "actors_of_stage digest_host quiet_view quiet_stage (rr_tails quiet_run) = Inr quiet_actors"
  by code_simp

lemma quiet_bundle_built: "\<not> isl (build_bundle digest_host quiet_plan quiet_stage small_tails None)"
  by code_simp

lemma quiet_bundle:
  "record_bundle digest_host quiet_supervisor quiet_view quiet_files None =
   build_bundle digest_host quiet_plan quiet_stage small_tails None"
proof -
  have parts: "rr_stage quiet_run = quiet_stage" "su_config quiet_supervisor = small_config" "rc_framework small_config = ''owl''"
    "identity_bindings (rf_identities quiet_files) = Inr []" "quiet_actors \<noteq> []" "rf_models quiet_files = PDict []"
    "rr_terminal quiet_run = bp_terminal quiet_plan" "rr_gate_at quiet_run = 5" "rr_terminal_at quiet_run = 19"
    "items_of (pget_or (rr_tails quiet_run) ''operations'' (PList [])) = []"
    "items_of (pget_or (rr_tails quiet_run) ''llm_requests'' (PList [])) = []"
    by (simp_all add: quiet_run_def quiet_supervisor_def small_supervisor_def small_config_def quiet_files_def
        identity_bindings_def quiet_actors_def quiet_plan_def small_tails_def pget_or_def pmerge_def)
  show ?thesis
    unfolding record_bundle_def Let_def quiet_run bindR_simps parts quiet_roster
    by (simp add: quiet_plan_def small_tails_def bundle_id_for_def sha256_json_def digest_host_def
        require_def parts del: workload_identity_def)
qed

theorem recorded_bundle_admits_its_workload_witness:
  "\<exists>disk b. record_bundle digest_host quiet_supervisor quiet_view quiet_files None = Inr (disk, b) \<and>
     (\<forall>fv read fresh dir run_id kind fast.
       replay_bundle digest_host fv read fresh (Some disk) (small_config\<lparr>rc_targets := [(''default'', ''http://other'')]\<rparr>) dir run_id kind fast =
         new_supervisor digest_host fv read fresh ''replay'' (small_config\<lparr>rc_targets := [(''default'', ''http://other'')]\<rparr>)
           dir run_id (Some b) kind fast \<and>
       replay_bundle digest_host fv read fresh (Some disk) (small_config\<lparr>rc_seed := 43\<rparr>) dir run_id kind fast =
         Inl (MismatchError ''config does not match the bundle's workload''))"
proof -
  obtain disk b where built: "record_bundle digest_host quiet_supervisor quiet_view quiet_files None = Inr (disk, b)"
    using quiet_bundle_built unfolding quiet_bundle [symmetric]
    by (cases "record_bundle digest_host quiet_supervisor quiet_view quiet_files None") auto
  have config: "su_config quiet_supervisor = small_config" by (simp add: quiet_supervisor_def small_supervisor_def)
  have same: "workload_identity (small_config\<lparr>rc_targets := ts\<rparr>) = workload_identity (su_config quiet_supervisor)" for ts
    by (simp add: workload_fields config)
  have other: "workload_identity (small_config\<lparr>rc_seed := 43\<rparr>) \<noteq> workload_identity (su_config quiet_supervisor)"
    by (simp add: workload_fields config) (simp add: small_config_def)
  show ?thesis
    using built same other
      recorded_bundle_admits_its_workload [OF built digest_host_hex, where c = "small_config\<lparr>rc_targets := [(''default'', ''http://other'')]\<rparr>"]
      recorded_bundle_admits_its_workload [OF built digest_host_hex, where c = "small_config\<lparr>rc_seed := 43\<rparr>"]
    by (intro exI [of _ disk] exI [of _ b]) simp
qed

end
