(* ===== verification/Coral_Replay.thy ===== *)
theory Coral_Replay
  imports Supervisor_Run
begin

text \<open>
  The restarts of CORAL agents from a recording to its replay: what the recording reads from the logs of the
  framework is what the replay of its bundle asks for.
\<close>

section \<open>How often an agent was invoked\<close>

text \<open>What one request says: its actor, and the number of invocations up to its own.\<close>

definition invoked :: "pyval \<Rightarrow> (string \<times> nat) option" where
  "invoked r =
     (let actor = pget r ''actor_id''; session = pget r ''session_id'' in
      if \<not> is_nonempty_str actor \<or> \<not> is_str session then None
      else map_option (\<lambda>n. (str_of actor, Suc n)) (invocation_of (str_of actor) (str_of session)))"

definition limit_of :: "(string \<times> nat) list \<Rightarrow> string \<Rightarrow> nat" where
  "limit_of limits a = (case map_of limits a of None \<Rightarrow> 0 | Some n \<Rightarrow> n)"

lemma add_invocation_step:
  "limit_of (add_invocation r limits) a =
     (if \<exists>n. invoked r = Some (a, n) then max (limit_of limits a) (snd (the (invoked r))) else limit_of limits a)"
  by (auto simp: add_invocation_def invoked_def limit_of_def Let_def update_conv' split: option.splits)

lemma add_invocation_distinct: "distinct (map fst limits) \<Longrightarrow> distinct (map fst (add_invocation r limits))"
  by (auto simp: add_invocation_def Let_def distinct_update split: option.split)

lemma limits_folded:
  "i < limit_of (fold add_invocation rs limits) a \<longleftrightarrow>
     i < limit_of limits a \<or> (\<exists>r \<in> set rs. \<exists>n. invoked r = Some (a, n) \<and> i < n)"
  by (induction rs arbitrary: limits) (auto simp: add_invocation_step)

text \<open>The restarts that a replay expects depend on the requests of the recording only, not on their order.\<close>

definition requests_of :: "pyval list \<Rightarrow> pyval \<Rightarrow> pyval list" where
  "requests_of llm tails = llm @ items_of (pget_or tails ''llm_requests'' (PList []))"

lemma not_invoked: "\<not> is_dict r \<Longrightarrow> invoked r = None"
  by (cases r) (simp_all add: invoked_def pget_def pget_or_def Let_def)

lemma control_expected:
  "(a, k) \<in> expected_controls limits \<longleftrightarrow> (\<exists>n i. (a, n) \<in> set limits \<and> k = int i \<and> 1 \<le> i \<and> i < n)"
  by (force simp: expected_controls_def)

lemma limit_reached:
  "i < limit_of (fixed_invocation_limits llm tails) a \<longleftrightarrow>
     (\<exists>r \<in> set (requests_of llm tails). \<exists>n. invoked r = Some (a, n) \<and> i < n)"
proof -
  have "i < limit_of (fixed_invocation_limits llm tails) a \<longleftrightarrow>
      (\<exists>r \<in> set (llm @ filter is_dict (items_of (pget_or tails ''llm_requests'' (PList [])))). \<exists>n. invoked r = Some (a, n) \<and> i < n)"
    unfolding fixed_invocation_limits_def limits_folded by (simp add: limit_of_def)
  then show ?thesis using not_invoked by (fastforce simp: requests_of_def)
qed

lemma expected_by_limit:
  "(a, k) \<in> expected_controls (fixed_invocation_limits llm tails) \<longleftrightarrow>
     (\<exists>i. k = int i \<and> 1 \<le> i \<and> i < limit_of (fixed_invocation_limits llm tails) a)"
proof -
  let ?limits = "fixed_invocation_limits llm tails"
  have "distinct (map fst (fold add_invocation rs limits))" if "distinct (map fst limits)" for rs limits
    using that by (induction rs arbitrary: limits) (simp_all add: add_invocation_distinct)
  then have "distinct (map fst ?limits)" by (simp add: fixed_invocation_limits_def)
  then have "(a, n) \<in> set ?limits \<longleftrightarrow> map_of ?limits a = Some n" for n by (simp add: map_of_eq_Some_iff)
  then show ?thesis by (cases "map_of ?limits a") (simp_all add: control_expected limit_of_def)
qed

text \<open>Writing a request sorts its keys, which says the same.\<close>

lemma invoked_canon: "distinct (map fst (fields_of r)) \<Longrightarrow> invoked (canon r) = invoked r"
proof (cases r)
  case (PDict kvs)
  assume "distinct (map fst (fields_of r))"
  then have f: "pget (canon r) k = canon (pget r k)" for k using PDict pget_canon [of kvs] by simp
  have "is_nonempty_str (canon v) = is_nonempty_str v" "is_str (canon v) = is_str v" "str_of (canon v) = str_of v" for v
    by (cases v; simp)+
  then show ?thesis by (simp add: invoked_def f Let_def del: canon.simps)
qed (simp_all add: not_invoked)

section \<open>The restarts that a recording reads\<close>

lemma restart_control_key:
  assumes "restart_control h read graders actor_id agent_id run_dir index = Inr c"
  shows "observed_control h (canon c) = Inr (actor_id, int index) \<and> observed_control h c = Inr (actor_id, int index)"
proof -
  from assms obtain source prompt trigger where
    c: "c = PDict [(''actor_id'', PStr actor_id), (''agent_id'', PStr agent_id), (''invocation_index'', PInt (int index)),
      (''source'', source), (''prompt'', prompt), (''trigger_grader_attempt_id'', trigger)]"
    by (auto simp: restart_control_def bindR_eq_Inr Let_def split: option.splits if_splits)
  have fields: "pget (canon c) ''actor_id'' = PStr actor_id" "pget_or (canon c) ''invocation_index'' d = PInt (int index)" for d
    unfolding c by (subst pget_canon; simp) (simp only: pget_or_def map_of_canon, simp)
  then show ?thesis unfolding observed_control_def fields by (simp add: c pget_or_def)
qed

definition actor_name :: "host \<Rightarrow> pyval \<Rightarrow> string" where
  "actor_name h actor = py_str h (py_or (pget actor ''actor_id'') (PStr []))"

definition is_agent_lane :: "pyval \<Rightarrow> bool" where
  "is_agent_lane actor \<longleftrightarrow> is_dict (pget actor ''lane'') \<and> pget (pget actor ''lane'') ''lane_kind'' = PStr ''agent''"

lemma actor_controls_keys:
  assumes "actor_controls h read dirs graders limits actor = Inr cs"
  shows "(\<lambda>c. observed_control h (canon c)) ` set cs =
    {Inr (actor_name h actor, int i) | i. 1 \<le> i \<and> i < limit_of limits (actor_name h actor) \<and> is_agent_lane actor}"
proof (cases "limit_of limits (actor_name h actor) \<le> 1 \<or> \<not> is_agent_lane actor")
  case True
  then have "cs = []"
    using assms by (auto simp: actor_controls_def actor_name_def is_agent_lane_def limit_of_def Let_def split: option.splits)
  then show ?thesis using True by auto
next
  case False
  then obtain agent_id run_dir
    where "mapR (restart_control h read graders (actor_name h actor) agent_id run_dir) [1..<limit_of limits (actor_name h actor)] = Inr cs"
    using assms
    by (auto simp: actor_controls_def actor_name_def is_agent_lane_def limit_of_def Let_def
        split: option.splits pyval.splits if_splits)
  then have "list_all2 (\<lambda>i c. restart_control h read graders (actor_name h actor) agent_id run_dir i = Inr c)
      [1..<limit_of limits (actor_name h actor)] cs" by (simp add: mapR_eq_Inr)
  then have "list_all2 (\<lambda>i c. observed_control h (canon c) = Inr (actor_name h actor, int i))
      [1..<limit_of limits (actor_name h actor)] cs"
    by (rule list_all2_mono) (simp add: restart_control_key)
  then have "map (\<lambda>c. observed_control h (canon c)) cs = map (\<lambda>i. Inr (actor_name h actor, int i)) [1..<limit_of limits (actor_name h actor)]"
    by (induction rule: list_all2_induct) simp_all
  then have "(\<lambda>c. observed_control h (canon c)) ` set cs = (\<lambda>i. Inr (actor_name h actor, int i)) ` {1..<limit_of limits (actor_name h actor)}"
    by (metis list.set_map set_upt)
  then show ?thesis using False by auto
qed

text \<open>
  The controls that a recording reads are the ones that its replay expects, if every agent that was invoked
  more than once is declared as an agent lane.
\<close>

lemma recorded_controls_complete:
  assumes "recorded_restart_controls h read actors terminals graders limits = Inr controls"
    and declared: "\<forall>a. 1 < limit_of limits a \<longrightarrow> (\<exists>actor \<in> set actors. is_agent_lane actor \<and> actor_name h actor = a)"
    and same: "\<And>a i. (a, i) \<in> expected_controls limits' \<longleftrightarrow> (\<exists>n. i = int n \<and> 1 \<le> n \<and> n < limit_of limits a)"
  shows "check_restart_controls h limits' (map canon controls) = Inr ()"
proof -
  from assms(1) obtain cs where cs: "list_all2 (\<lambda>actor c. actor_controls h read (run_dirs terminals) graders limits actor = Inr c) actors cs"
    and controls: "controls = sort_key control_key (concat cs)"
    by (auto simp: recorded_restart_controls_def bindR_eq_Inr mapR_eq_Inr)
  from cs have "(\<lambda>c. observed_control h (canon c)) ` set (concat cs) =
      (\<Union>actor \<in> set actors. {Inr (actor_name h actor, int i) | i. 1 \<le> i \<and> i < limit_of limits (actor_name h actor) \<and> is_agent_lane actor})"
    by (induction rule: list_all2_induct) (simp_all add: actor_controls_keys image_Un)
  also have "\<dots> = {Inr (a, int i) | a i. 1 \<le> i \<and> i < limit_of limits a}" (is "?l = ?r")
  proof
    show "?l \<subseteq> ?r" by blast
    show "?r \<subseteq> ?l"
    proof
      fix x assume "x \<in> ?r"
      then obtain a i where x: "x = Inr (a, int i)" "1 \<le> i" "i < limit_of limits a" by blast
      with declared obtain actor where "actor \<in> set actors" "is_agent_lane actor" "actor_name h actor = a" by force
      with x show "x \<in> ?l" by blast
    qed
  qed
  also have "\<dots> = Inr ` expected_controls limits'" using same by (auto simp: image_iff) 
  finally have keys: "(\<lambda>c. observed_control h (canon c)) ` set controls = Inr ` expected_controls limits'" by (simp add: controls)
  let ?observed = "map (\<lambda>c. projr (observed_control h (canon c))) controls"
  have "observed_control h (canon c) = Inr (projr (observed_control h (canon c)))" if "c \<in> set controls" for c
    using keys that by (metis (no_types, lifting) image_iff sum.sel(2))
  then have "mapR (observed_control h) (map canon controls) = Inr ?observed"
    by (simp add: mapR_eq_Inr list_all2_map1 list_all2_map2 list.rel_refl_strong)
  moreover have "set ?observed = expected_controls limits'"
  proof -
    have "set ?observed = projr ` ((\<lambda>c. observed_control h (canon c)) ` set controls)" by (simp add: image_image)
    then show ?thesis by (simp add: keys image_image)
  qed
  ultimately show ?thesis by (simp add: check_restart_controls_def)
qed

section \<open>From the recording to the replay\<close>

lemma items_of_pget_or: "items_of (pget_or v k (PList [])) = items_of (pget v k)"
  by (cases "map_of (fields_of v) k") (simp_all add: pget_def pget_or_def)

text \<open>The model requests of a bundle are those of its stage, closed and open ones, as they are written.\<close>

lemma bundle_requests:
  assumes "build_bundle h plan st tails there = Inr (disk, b)" and "hex_sha256 h"
  shows "set (requests_of (rec_llm b) (rec_cutoff_tails b)) = canon ` (set (kept_llm st) \<union> set (ct_requests tails))"
proof -
  from built_bundle_events [OF assms] obtain tails' where
    made: "materialize_pre_dispatch_tails h (bp_adapter plan) (kept_llm st) (kept_dispatch st) tails = Inr tails'"
    and "mset (bundle_events b) = mset (map written_event (staged_events st tails'))" by (auto split: sum.splits)
  then have events: "set (bundle_events b) = written_event ` set (staged_events st tails')"
    by (metis set_map set_mset_mset)
  have same: "ct_requests tails' = ct_requests tails"
    using made by (auto simp: materialize_pre_dispatch_tails_def bindR_eq_Inr)
  have b: "set (requests_of (rec_llm b) (rec_cutoff_tails b)) =
      {r. (''llm'', r) \<in> set (bundle_events b) \<or> (''cutoff-llm'', r) \<in> set (bundle_events b)}"
    by (auto simp: requests_of_def items_of_pget_or bundle_events_def)
  have st: "(k, r) \<in> written_event ` set (staged_events st tails') \<longleftrightarrow> (\<exists>x. (k, x) \<in> set (staged_events st tails') \<and> r = canon x)" for k r
    by (force simp: written_event_def)
  show ?thesis unfolding b events st by (auto simp: staged_events_def same)
qed

lemma manifest_controls:
  "pget_or (canon (bundle_manifest plan lanes events models bindings window)) ''coral_controls'' (PList []) =
     (case window of None \<Rightarrow> PList [] | Some (w, controls) \<Rightarrow> PList (map canon controls))"
  unfolding pget_or_def bundle_manifest_def by (cases window; subst map_of_canon; auto)

text \<open>Without a declared lane there is nothing to restart; otherwise the manifest holds the controls.\<close>

lemma window_controls:
  assumes "bindR (concurrency_window h ''coral'' workload actors) (controls_of plan) = Inr window"
    and "bp_controls plan = PList controls"
    and "recorded_restart_controls h read actors terminals graders limits = Inr controls"
  shows "(case window of None \<Rightarrow> [] | Some (w, cs) \<Rightarrow> cs) = controls"
proof (cases window)
  case None
  then have "filter (\<lambda>a. is_dict (pget a ''lane'')) actors = []"
    using assms(1)
    by (auto simp: concurrency_window_def controls_of_def Let_def bindR_eq_Inr simp del: checks.simps split: if_splits option.splits)
  then have flat: "\<not> is_agent_lane actor" if "actor \<in> set actors" for actor
    using that by (auto simp: is_agent_lane_def filter_empty_conv)
  from assms(3) obtain cs where cs: "list_all2 (\<lambda>actor c. actor_controls h read (run_dirs terminals) graders limits actor = Inr c) actors cs"
    and controls: "controls = sort_key control_key (concat cs)"
    by (auto simp: recorded_restart_controls_def bindR_eq_Inr mapR_eq_Inr)
  have "c = []" if "c \<in> set cs" for c
    using list_all2_mem [OF cs that] flat actor_controls_keys by fastforce
  then have none: "concat cs = []" by (simp add: concat_eq_Nil_conv)
  have "controls = []" unfolding controls none by simp
  then show ?thesis using None by simp
next
  case (Some wc)
  with assms(1,2) show ?thesis
    by (auto simp: controls_of_def bindR_eq_Inr py_or_def split: option.splits if_splits)
qed

text \<open>
  The restarts that a CORAL recording reads from the logs of the framework are what its replay needs.  If
  every agent that was invoked more than once is declared as an agent lane, and the recorded requests are JSON
  objects, the replay of the bundle finds one restart control for each invocation after the first one of each
  agent and no other, and passes them to the framework.
\<close>

theorem recorded_restarts_are_replayed:
  assumes "record_bundle h s rv rf there = Inr (disk, b)" and "hex_sha256 h"
    and "rc_framework (su_config s) = ''coral''" and "supervise h s rv = Inr run"
    and "actors_of_stage h rv (rr_stage run) (rr_tails run) = Inr actors"
    and "\<forall>r \<in> set (requests_of (kept_llm (rr_stage run)) (rr_tails run)). distinct (map fst (fields_of r)) \<and>
      (\<forall>a n. invoked r = Some (a, n) \<and> 1 < n \<longrightarrow> (\<exists>actor \<in> set actors. is_agent_lane actor \<and> actor_name h actor = a))"
    and "su_bundle s2 = Some b" and "rc_framework (su_config s2) = ''coral''"
  shows "\<exists>controls added.
    recorded_restart_controls h (rf_read_log rf) actors (rv_terminals rv) (kept_grader (rr_stage run))
      (fixed_invocation_limits (kept_llm (rr_stage run)) (rr_tails run)) = Inr controls \<and>
    bundle_variables h s2 = Inr added \<and>
    map_of added ''NATIVE_REPLAY_CORAL_CONTROLS'' = Some (json_dumps h (PList (map canon controls)))"
proof -
  let ?st = "rr_stage run" and ?tails = "rr_tails run"
  let ?limits = "fixed_invocation_limits (kept_llm ?st) ?tails" and ?limits2 = "fixed_invocation_limits (rec_llm b) (rec_cutoff_tails b)"
  from assms(1,3-5) obtain controls plan tails where
    controls: "recorded_restart_controls h (rf_read_log rf) actors (rv_terminals rv) (kept_grader ?st) ?limits = Inr controls"
    and built: "build_bundle h plan ?st tails there = Inr (disk, b)"
    and plan: "bp_adapter plan = ''coral''" "bp_actors plan = actors" "bp_controls plan = PList controls"
    and requests: "ct_requests tails = items_of (pget_or ?tails ''llm_requests'' (PList []))"
    by (auto simp: record_bundle_def Let_def bindR_eq_Inr)
  from built_manifest [OF built assms(2)] obtain lanes events models bindings window where
    manifest: "rec_manifest b = canon (bundle_manifest plan lanes events models bindings window)"
    and window: "bindR (concurrency_window h ''coral'' (bp_workload plan) actors) (controls_of plan) = Inr window"
    unfolding plan(1,2) by blast
  have found: "pget_or (rec_manifest b) ''coral_controls'' (PList []) = PList (map canon controls)"
    using window_controls [OF window plan(3) controls] by (auto simp: manifest manifest_controls split: option.splits)
  have same: "set (requests_of (rec_llm b) (rec_cutoff_tails b)) = canon ` set (requests_of (kept_llm ?st) ?tails)"
    using bundle_requests [OF built assms(2)] by (simp add: requests requests_of_def)
  have limits: "i < limit_of ?limits2 a \<longleftrightarrow> i < limit_of ?limits a" for i a
    unfolding limit_reached same using assms(6) invoked_canon by (simp add: image_iff)
  have "check_restart_controls h ?limits2 (map canon controls) = Inr ()"
  proof (rule recorded_controls_complete [OF controls])
    show "\<forall>a. 1 < limit_of ?limits a \<longrightarrow> (\<exists>actor \<in> set actors. is_agent_lane actor \<and> actor_name h actor = a)"
      unfolding limit_reached using assms(6) by blast
    show "(a, i) \<in> expected_controls ?limits2 \<longleftrightarrow> (\<exists>n. i = int n \<and> 1 \<le> n \<and> n < limit_of ?limits a)" for a i
      by (simp only: expected_by_limit limits)
  qed
  then show ?thesis
    using assms(7,8) controls found by (auto simp: bundle_variables_def Let_def)
qed

end
