(* ===== verification/Spec2Isabelle.thy ===== *)
theory Spec2Isabelle
  imports Py_Prelude Util Observation Contracts Schema Cutoff Recording
    Boundary_State Boundary_Claim Boundary Claim_Queue Boundary_Order Boundary_Safety
    Engine_Protocol Engine_Processor Engine_Forcing Engine_Audit Forced Forced_Replay
    Sse Llm_Shape Llm_Similarity Replay_Control Llm_Store Llm_Replay Llm_Order Llm_Safety Llm_Ledger
    Llm_Invariant Llm_Progress Llm_Steps Services
    Tool_Calls Bundle_Files Bundle_Window Bundle_Build
    Lane_Record Lane_Closure Sdk Sdk_Contract Sdk_Recording Sdk_Replay
    Native_Values Sdk_Scope Gate Roster Lane_Identity
    Run_Config Coral_Control Launch Supervisor_Run Coral_Replay
begin

text \<open>
  A verification library for minireplay (Python, src/minireplay and src/vllm_plugin).

  THE PROGRAM.  minireplay records a run of LLM agents and replays it.  A framework runs natively in both
  cases.  Two services sit beside it: the LLM store (llm_store.py) is the endpoint of every model request,
  and the operation boundary (boundary.py) is told of the start and the end of every dispatch, tool, grader
  and artifact operation.  A recording writes ledger files; it is cut at the boundary of a sweep, closed under
  references (cutoff.py) and written as a bundle of lanes (bundle.py).  A replay loads the bundle, and each
  service then claims, for every request, the next recorded slot of its lane, refuses drift, answers with
  what was recorded, and withholds what the source never finished.  In the forced modes the engine still
  samples, while a plugin of vLLM (vllm_plugin/src/native_replay_vllm) commits the recorded tokens in a
  signed window and writes an audit that the store checks before it answers (forced.py).

  HOW IT IS MODELLED.  A JSON-like value is a \<open>pyval\<close>, a dictionary is an association list in insertion
  order, an error is an \<open>err\<close> value with a constructor per exception class, and a fallible function
  returns \<open>err + 'a\<close>.  A method of a service is a function from the state record to a result and the new
  state, the state being kept when the source raises after it has changed something.  Python integers are
  \<open>int\<close>, as the program never wraps; token identifiers and clocks are checked as the source checks them.
  Digests, HMAC, the text of a float and the decoding of JSON are fields of the \<open>host\<close> record; what a call
  reads from the clock, draws at random or gets from a peer (the engine, the client's connection, the file
  that another process writes) is an argument.  A file is the list of the values appended to it, a directory a
  map from names to contents.  Loops are recursions: the pruning of the cutoff, the size classes and the
  decoder of event streams have termination proofs by a measure, the rest is structural.  No definition has
  fuel, except \<open>pruning_loop\<close>, which exists to bound the rounds of the cutoff.

  THEORIES, in the order of their imports, with the code they model.

  Py_Prelude: values, results, state operations and the library calls the program shares.
  Util: util.py (canonical JSON, digests, unique strings).
  Observation: observation.py.  Contracts: contracts.py.  Schema: schema.py and constants.py.
  Cutoff: cutoff.py.  Recording: the Bundle class of bundle.py.
  Boundary_State, Boundary_Claim, Boundary: boundary.py; Claim_Queue is the contract (locale
  \<open>keyed_queue\<close>) of fixed slots that wait in keyed queues, which Boundary_Order interprets for the
  ledger and Llm_Order for the LLM store; Boundary_Safety holds what the ledger promises.
  Engine_Protocol, Engine_Processor: protocol.py and forced.py of the vLLM plugin; Engine_Forcing and
  Engine_Audit hold the tokens it commits and the bookkeeping of its rows.
  Forced: forced.py of minireplay; Forced_Replay composes it with the plugin.
  Sse, Llm_Shape, Llm_Similarity, Replay_Control, Llm_Store, Llm_Replay: llm_store.py and
  replay_control.py; Llm_Order, Llm_Safety, Llm_Ledger, Llm_Invariant, Llm_Progress and Llm_Steps hold the
  order, the safety, the invariants, the progress and the per-step contracts of the store.
  Services: services.py, the two services side by side.
  Tool_Calls, Bundle_Files, Bundle_Window, Bundle_Build: the rest of bundle.py, from the tool calls of an
  answer to the written and loaded bundle.
  Lane_Record: lane_record.py; Lane_Closure holds what the logs of a recording become.
  Sdk, Sdk_Scope: sdk.py; Sdk_Contract is the contract (locale \<open>boundary_service\<close>) between the wrappers
  and the service behind them, which Sdk_Recording interprets on the lane logs; Sdk_Replay puts the operation
  ledger behind the same wrappers.
  Native_Values: serialization.py and instrumentation/result_replay.py.
  Gate: instrumentation/gate.py.  Roster: the parts of supervisor.py that decide (the actors of a recording,
  unexpected failures, team cutoffs).  Lane_Identity composes the gate, the roster and the identity map.
  Run_Config: config.py and placement.py.  Coral_Control: coral_control.py and instrumentation/sweep_bridge.py.
  Launch: launcher.py, the serving block, and the environment that supervisor.py gives to the processes of a
  run.  Supervisor_Run: the rest of supervisor.py that decides, from the waiting loops to the verdict and the
  two entry points; what a run meets is a \<open>run_view\<close>, whose lists of polls are the loops.  Coral_Replay
  follows the restarts of CORAL agents from the logs of a recording to the environment of its replay.

  WHAT THE LEMMAS SHOW.  Data: the canonical text determines a value, a result contract hides exactly its
  declared fields, path binding round-trips, the artifact graph check has a declarative meaning, the shape of a
  request is an equivalence with a declarative meaning, encoded native values are JSON and restored ones encode
  to the recording.  Cutoff: the kept part is the greatest closed one, the loop ends, and the result passes the
  checks of the bundle.  Order: in both services the slots taken are a prefix of the recording, per lane,
  whatever calls arrive.  Completion: a replayed tool or request gives the recorded result or is withheld, drift
  is refused, and what the source had not finished never returns.  Engine: the plugin commits exactly the
  recorded tokens, loses no request of its batch, and its audit is accepted and reproduces the captured
  evidence.  Services: nothing is recorded after the cutoff, the accounts of the services agree, a request is held
  only when nothing is left for it, and a framework that repeats itself drives the store to the end.  Bundle:
  building and loading are inverse, and a loaded bundle is well formed.  Framework side: every wrapper closes
  what it opened, a replayed tool returns what was recorded, lane logs split exactly at the cutoff, and a replay
  binds every task to the lane of its recording.  Run: a written configuration reads back, the environment of a
  run is what the gate needs and no setting gets past the instrumentation, a replay that is declared valid has
  the recorded work in its ledgers, and a recorded bundle is replayed by exactly the configurations of its
  workload, with the same sweep; the restarts that a CORAL recording reads are those that its replay needs.

  WHAT IS NOT MODELLED.  Sockets, threads, event loops and the aiohttp applications (a handler is one step);
  reading and writing files and directories; process supervision (spawning, signals, cgroups, clocks of the
  waiting loops, vLLM containers); command-line parsing; the monkey patches of third-party frameworks under instrumentation/, whose targets are not in
  the repository; floating-point summaries, plots and reports for a human reader.  Text is a list of
  characters, one per code point up to 255; where bytes matter (event streams) a character is a byte.
\<close>

end
